(* ===== verification/HbPrelude.thy ===== *)
theory HbPrelude
  imports Main "HOL-Library.Word"
begin

text \<open>
  Shared vocabulary of the development.

  A pointer to pcode is a function from byte offsets to bytes: the bytes at
  and after the address the C code holds.  Nothing is known about the bytes
  past the end of a function body, so a definition that reads them depends on
  arbitrary memory, as the C code does.  The multi-byte reads are the
  byte-wise variants of the macros of include/hbdefs.h.
\<close>

unbundle bit_operations_syntax

declare One_nat_def [simp del]

named_theorems le_bounds \<open>ranges of the little endian reads\<close>
named_theorems pc_simps \<open>rewriting rules for instruction decoding\<close>

type_synonym HB_BYTE = "8 word"
type_synonym pcptr = "nat \<Rightarrow> HB_BYTE"

definition pc_at :: "pcptr \<Rightarrow> nat \<Rightarrow> pcptr" where
  "pc_at p k = (\<lambda>i. p (k + i))"

lemma pc_at_app [pc_simps]: "pc_at p k i = p (k + i)"
  by (simp add: pc_at_def)

lemma pc_at_0 [simp]: "pc_at p 0 = p"
  by (simp add: pc_at_def)

lemma pc_at_pc_at [simp]: "pc_at (pc_at p a) b = pc_at p (a + b)"
  by (simp add: pc_at_def add.assoc)

definition pc_of_list :: "HB_BYTE list \<Rightarrow> pcptr" where
  "pc_of_list bs i = (if i < length bs then bs ! i else 0)"

text \<open>Two memories agree on the first \<open>n\<close> bytes.\<close>

definition pc_agree :: "nat \<Rightarrow> pcptr \<Rightarrow> pcptr \<Rightarrow> bool" where
  "pc_agree n p q \<longleftrightarrow> (\<forall>i<n. p i = q i)"

lemma pc_agreeD: "pc_agree n p q \<Longrightarrow> i < n \<Longrightarrow> p i = q i"
  by (simp add: pc_agree_def)

lemma pc_agree_sym: "pc_agree n p q \<Longrightarrow> pc_agree n q p"
  by (simp add: pc_agree_def)

lemma pc_agree_mono: "pc_agree n p q \<Longrightarrow> k \<le> n \<Longrightarrow> pc_agree k p q"
  by (simp add: pc_agree_def)

lemma pc_agree_at: "pc_agree n p q \<Longrightarrow> k + l \<le> n \<Longrightarrow> pc_agree l (pc_at p k) (pc_at q k)"
  by (simp add: pc_agree_def pc_at_app)

definition HB_GET_LE_UINT16 :: "pcptr \<Rightarrow> 16 word" where
  "HB_GET_LE_UINT16 p = ucast (p 0) OR push_bit 8 (ucast (p 1))"

definition HB_GET_LE_UINT32 :: "pcptr \<Rightarrow> 32 word" where
  "HB_GET_LE_UINT32 p =
     ucast (p 0) OR push_bit 8 (ucast (p 1)) OR push_bit 16 (ucast (p 2)) OR
     push_bit 24 (ucast (p 3))"

definition HB_GET_LE_UINT64 :: "pcptr \<Rightarrow> 64 word" where
  "HB_GET_LE_UINT64 p =
     ucast (p 0) OR push_bit 8 (ucast (p 1)) OR push_bit 16 (ucast (p 2)) OR
     push_bit 24 (ucast (p 3)) OR push_bit 32 (ucast (p 4)) OR
     push_bit 40 (ucast (p 5)) OR push_bit 48 (ucast (p 6)) OR
     push_bit 56 (ucast (p 7))"

definition HB_GET_LE_INT24 :: "pcptr \<Rightarrow> 32 word" where
  "HB_GET_LE_INT24 p =
     ucast (p 0) OR push_bit 8 (ucast (p 1)) OR push_bit 16 (ucast (p 2)) OR
     push_bit 24 (if p 2 AND 0x80 \<noteq> 0 then 0xFF else 0)"

definition HB_GET_LE_UINT24 :: "pcptr \<Rightarrow> 32 word" where
  "HB_GET_LE_UINT24 p =
     ucast (p 0) OR push_bit 8 (ucast (p 1)) OR push_bit 16 (ucast (p 2))"

definition HB_PCODE_MKSHORT :: "pcptr \<Rightarrow> int" where
  "HB_PCODE_MKSHORT p = sint (HB_GET_LE_UINT16 p)"

definition HB_PCODE_MKUSHORT :: "pcptr \<Rightarrow> nat" where
  "HB_PCODE_MKUSHORT p = unat (HB_GET_LE_UINT16 p)"

definition HB_PCODE_MKLONG :: "pcptr \<Rightarrow> int" where
  "HB_PCODE_MKLONG p = sint (HB_GET_LE_UINT32 p)"

definition HB_PCODE_MKLONGLONG :: "pcptr \<Rightarrow> int" where
  "HB_PCODE_MKLONGLONG p = sint (HB_GET_LE_UINT64 p)"

definition HB_PCODE_MKINT24 :: "pcptr \<Rightarrow> int" where
  "HB_PCODE_MKINT24 p = sint (HB_GET_LE_INT24 p)"

definition HB_PCODE_MKUINT24 :: "pcptr \<Rightarrow> nat" where
  "HB_PCODE_MKUINT24 p = unat (HB_GET_LE_UINT24 p)"

text \<open>The C casts \<open>( HB_SCHAR ) b\<close> and \<open>b\<close> read as an int.\<close>

definition schar :: "HB_BYTE \<Rightarrow> int" where
  "schar b = sint b"

lemma schar_bounds [le_bounds]: "- 128 \<le> schar b" "schar b < 128"
  using sint_greater_eq [of b] sint_less [of b] by (simp_all add: schar_def)

lemma MKUSHORT_bound [le_bounds]: "HB_PCODE_MKUSHORT p < 65536"
  unfolding HB_PCODE_MKUSHORT_def by (rule order_less_le_trans [OF unsigned_less]) simp

lemma MKSHORT_bounds [le_bounds]: "- 32768 \<le> HB_PCODE_MKSHORT p" "HB_PCODE_MKSHORT p < 32768"
  using sint_greater_eq [of "HB_GET_LE_UINT16 p"] sint_less [of "HB_GET_LE_UINT16 p"]
  by (simp_all add: HB_PCODE_MKSHORT_def)

lemma unat_byte: "unat (b :: 8 word) < 256"
  by (rule order_less_le_trans [OF unsigned_less]) simp

text \<open>The reads depend on the bytes they name only.\<close>

lemma MKUSHORT_cong: "p 0 = q 0 \<Longrightarrow> p 1 = q 1 \<Longrightarrow> HB_PCODE_MKUSHORT p = HB_PCODE_MKUSHORT q"
  by (simp add: HB_PCODE_MKUSHORT_def HB_GET_LE_UINT16_def)

lemma MKSHORT_cong: "p 0 = q 0 \<Longrightarrow> p 1 = q 1 \<Longrightarrow> HB_PCODE_MKSHORT p = HB_PCODE_MKSHORT q"
  by (simp add: HB_PCODE_MKSHORT_def HB_GET_LE_UINT16_def)

lemma MKUINT24_cong:
  "p 0 = q 0 \<Longrightarrow> p 1 = q 1 \<Longrightarrow> p 2 = q 2 \<Longrightarrow> HB_PCODE_MKUINT24 p = HB_PCODE_MKUINT24 q"
  by (simp add: HB_PCODE_MKUINT24_def HB_GET_LE_UINT24_def)

lemma MKINT24_cong:
  "p 0 = q 0 \<Longrightarrow> p 1 = q 1 \<Longrightarrow> p 2 = q 2 \<Longrightarrow> HB_PCODE_MKINT24 p = HB_PCODE_MKINT24 q"
  by (simp add: HB_PCODE_MKINT24_def HB_GET_LE_INT24_def)

text \<open>The writes \<open>HB_LOBYTE\<close>, \<open>HB_HIBYTE\<close> and the byte lists they store.\<close>

definition HB_LOBYTE :: "'a::len word \<Rightarrow> HB_BYTE" where
  "HB_LOBYTE w = ucast w"

definition HB_HIBYTE :: "'a::len word \<Rightarrow> HB_BYTE" where
  "HB_HIBYTE w = ucast (drop_bit 8 w)"

end
