(* ===== verification/HbPcode.thy ===== *)
theory HbPcode
  imports HbPrelude
begin

text \<open>
  The opcode enumeration of include/hbpcode.h.  A name abbreviates its value,
  so that the byte at a pcode offset is compared with it as in the C switches.
\<close>

abbreviation (input) HB_P_AND :: nat where "HB_P_AND \<equiv> 0"
abbreviation (input) HB_P_ARRAYPUSH :: nat where "HB_P_ARRAYPUSH \<equiv> 1"
abbreviation (input) HB_P_ARRAYPOP :: nat where "HB_P_ARRAYPOP \<equiv> 2"
abbreviation (input) HB_P_ARRAYDIM :: nat where "HB_P_ARRAYDIM \<equiv> 3"
abbreviation (input) HB_P_ARRAYGEN :: nat where "HB_P_ARRAYGEN \<equiv> 4"
abbreviation (input) HB_P_EQUAL :: nat where "HB_P_EQUAL \<equiv> 5"
abbreviation (input) HB_P_ENDBLOCK :: nat where "HB_P_ENDBLOCK \<equiv> 6"
abbreviation (input) HB_P_ENDPROC :: nat where "HB_P_ENDPROC \<equiv> 7"
abbreviation (input) HB_P_EXACTLYEQUAL :: nat where "HB_P_EXACTLYEQUAL \<equiv> 8"
abbreviation (input) HB_P_FALSE :: nat where "HB_P_FALSE \<equiv> 9"
abbreviation (input) HB_P_FORTEST :: nat where "HB_P_FORTEST \<equiv> 10"
abbreviation (input) HB_P_FUNCTION :: nat where "HB_P_FUNCTION \<equiv> 11"
abbreviation (input) HB_P_FUNCTIONSHORT :: nat where "HB_P_FUNCTIONSHORT \<equiv> 12"
abbreviation (input) HB_P_FRAME :: nat where "HB_P_FRAME \<equiv> 13"
abbreviation (input) HB_P_FUNCPTR :: nat where "HB_P_FUNCPTR \<equiv> 14"
abbreviation (input) HB_P_GREATER :: nat where "HB_P_GREATER \<equiv> 15"
abbreviation (input) HB_P_GREATEREQUAL :: nat where "HB_P_GREATEREQUAL \<equiv> 16"
abbreviation (input) HB_P_DEC :: nat where "HB_P_DEC \<equiv> 17"
abbreviation (input) HB_P_DIVIDE :: nat where "HB_P_DIVIDE \<equiv> 18"
abbreviation (input) HB_P_DO :: nat where "HB_P_DO \<equiv> 19"
abbreviation (input) HB_P_DOSHORT :: nat where "HB_P_DOSHORT \<equiv> 20"
abbreviation (input) HB_P_DUPLICATE :: nat where "HB_P_DUPLICATE \<equiv> 21"
abbreviation (input) HB_P_PUSHTIMESTAMP :: nat where "HB_P_PUSHTIMESTAMP \<equiv> 22"
abbreviation (input) HB_P_INC :: nat where "HB_P_INC \<equiv> 23"
abbreviation (input) HB_P_INSTRING :: nat where "HB_P_INSTRING \<equiv> 24"
abbreviation (input) HB_P_JUMPNEAR :: nat where "HB_P_JUMPNEAR \<equiv> 25"
abbreviation (input) HB_P_JUMP :: nat where "HB_P_JUMP \<equiv> 26"
abbreviation (input) HB_P_JUMPFAR :: nat where "HB_P_JUMPFAR \<equiv> 27"
abbreviation (input) HB_P_JUMPFALSENEAR :: nat where "HB_P_JUMPFALSENEAR \<equiv> 28"
abbreviation (input) HB_P_JUMPFALSE :: nat where "HB_P_JUMPFALSE \<equiv> 29"
abbreviation (input) HB_P_JUMPFALSEFAR :: nat where "HB_P_JUMPFALSEFAR \<equiv> 30"
abbreviation (input) HB_P_JUMPTRUENEAR :: nat where "HB_P_JUMPTRUENEAR \<equiv> 31"
abbreviation (input) HB_P_JUMPTRUE :: nat where "HB_P_JUMPTRUE \<equiv> 32"
abbreviation (input) HB_P_JUMPTRUEFAR :: nat where "HB_P_JUMPTRUEFAR \<equiv> 33"
abbreviation (input) HB_P_LESSEQUAL :: nat where "HB_P_LESSEQUAL \<equiv> 34"
abbreviation (input) HB_P_LESS :: nat where "HB_P_LESS \<equiv> 35"
abbreviation (input) HB_P_LINE :: nat where "HB_P_LINE \<equiv> 36"
abbreviation (input) HB_P_LOCALNAME :: nat where "HB_P_LOCALNAME \<equiv> 37"
abbreviation (input) HB_P_MACROPOP :: nat where "HB_P_MACROPOP \<equiv> 38"
abbreviation (input) HB_P_MACROPOPALIASED :: nat where "HB_P_MACROPOPALIASED \<equiv> 39"
abbreviation (input) HB_P_MACROPUSH :: nat where "HB_P_MACROPUSH \<equiv> 40"
abbreviation (input) HB_P_MACROARRAYGEN :: nat where "HB_P_MACROARRAYGEN \<equiv> 41"
abbreviation (input) HB_P_MACROPUSHLIST :: nat where "HB_P_MACROPUSHLIST \<equiv> 42"
abbreviation (input) HB_P_MACROPUSHINDEX :: nat where "HB_P_MACROPUSHINDEX \<equiv> 43"
abbreviation (input) HB_P_MACROPUSHPARE :: nat where "HB_P_MACROPUSHPARE \<equiv> 44"
abbreviation (input) HB_P_MACROPUSHALIASED :: nat where "HB_P_MACROPUSHALIASED \<equiv> 45"
abbreviation (input) HB_P_MACROSYMBOL :: nat where "HB_P_MACROSYMBOL \<equiv> 46"
abbreviation (input) HB_P_MACROTEXT :: nat where "HB_P_MACROTEXT \<equiv> 47"
abbreviation (input) HB_P_MESSAGE :: nat where "HB_P_MESSAGE \<equiv> 48"
abbreviation (input) HB_P_MINUS :: nat where "HB_P_MINUS \<equiv> 49"
abbreviation (input) HB_P_MODULUS :: nat where "HB_P_MODULUS \<equiv> 50"
abbreviation (input) HB_P_MODULENAME :: nat where "HB_P_MODULENAME \<equiv> 51"
abbreviation (input) HB_P_MMESSAGE :: nat where "HB_P_MMESSAGE \<equiv> 52"
abbreviation (input) HB_P_MPOPALIASEDFIELD :: nat where "HB_P_MPOPALIASEDFIELD \<equiv> 53"
abbreviation (input) HB_P_MPOPALIASEDVAR :: nat where "HB_P_MPOPALIASEDVAR \<equiv> 54"
abbreviation (input) HB_P_MPOPFIELD :: nat where "HB_P_MPOPFIELD \<equiv> 55"
abbreviation (input) HB_P_MPOPMEMVAR :: nat where "HB_P_MPOPMEMVAR \<equiv> 56"
abbreviation (input) HB_P_MPUSHALIASEDFIELD :: nat where "HB_P_MPUSHALIASEDFIELD \<equiv> 57"
abbreviation (input) HB_P_MPUSHALIASEDVAR :: nat where "HB_P_MPUSHALIASEDVAR \<equiv> 58"
abbreviation (input) HB_P_MPUSHBLOCK :: nat where "HB_P_MPUSHBLOCK \<equiv> 59"
abbreviation (input) HB_P_MPUSHFIELD :: nat where "HB_P_MPUSHFIELD \<equiv> 60"
abbreviation (input) HB_P_MPUSHMEMVAR :: nat where "HB_P_MPUSHMEMVAR \<equiv> 61"
abbreviation (input) HB_P_MPUSHMEMVARREF :: nat where "HB_P_MPUSHMEMVARREF \<equiv> 62"
abbreviation (input) HB_P_MPUSHSYM :: nat where "HB_P_MPUSHSYM \<equiv> 63"
abbreviation (input) HB_P_MPUSHVARIABLE :: nat where "HB_P_MPUSHVARIABLE \<equiv> 64"
abbreviation (input) HB_P_MULT :: nat where "HB_P_MULT \<equiv> 65"
abbreviation (input) HB_P_NEGATE :: nat where "HB_P_NEGATE \<equiv> 66"
abbreviation (input) HB_P_NOOP :: nat where "HB_P_NOOP \<equiv> 67"
abbreviation (input) HB_P_NOT :: nat where "HB_P_NOT \<equiv> 68"
abbreviation (input) HB_P_NOTEQUAL :: nat where "HB_P_NOTEQUAL \<equiv> 69"
abbreviation (input) HB_P_OR :: nat where "HB_P_OR \<equiv> 70"
abbreviation (input) HB_P_PARAMETER :: nat where "HB_P_PARAMETER \<equiv> 71"
abbreviation (input) HB_P_PLUS :: nat where "HB_P_PLUS \<equiv> 72"
abbreviation (input) HB_P_POP :: nat where "HB_P_POP \<equiv> 73"
abbreviation (input) HB_P_POPALIAS :: nat where "HB_P_POPALIAS \<equiv> 74"
abbreviation (input) HB_P_POPALIASEDFIELD :: nat where "HB_P_POPALIASEDFIELD \<equiv> 75"
abbreviation (input) HB_P_POPALIASEDFIELDNEAR :: nat where "HB_P_POPALIASEDFIELDNEAR \<equiv> 76"
abbreviation (input) HB_P_POPALIASEDVAR :: nat where "HB_P_POPALIASEDVAR \<equiv> 77"
abbreviation (input) HB_P_POPFIELD :: nat where "HB_P_POPFIELD \<equiv> 78"
abbreviation (input) HB_P_POPLOCAL :: nat where "HB_P_POPLOCAL \<equiv> 79"
abbreviation (input) HB_P_POPLOCALNEAR :: nat where "HB_P_POPLOCALNEAR \<equiv> 80"
abbreviation (input) HB_P_POPMEMVAR :: nat where "HB_P_POPMEMVAR \<equiv> 81"
abbreviation (input) HB_P_POPSTATIC :: nat where "HB_P_POPSTATIC \<equiv> 82"
abbreviation (input) HB_P_POPVARIABLE :: nat where "HB_P_POPVARIABLE \<equiv> 83"
abbreviation (input) HB_P_POWER :: nat where "HB_P_POWER \<equiv> 84"
abbreviation (input) HB_P_PUSHALIAS :: nat where "HB_P_PUSHALIAS \<equiv> 85"
abbreviation (input) HB_P_PUSHALIASEDFIELD :: nat where "HB_P_PUSHALIASEDFIELD \<equiv> 86"
abbreviation (input) HB_P_PUSHALIASEDFIELDNEAR :: nat where "HB_P_PUSHALIASEDFIELDNEAR \<equiv> 87"
abbreviation (input) HB_P_PUSHALIASEDVAR :: nat where "HB_P_PUSHALIASEDVAR \<equiv> 88"
abbreviation (input) HB_P_PUSHBLOCK :: nat where "HB_P_PUSHBLOCK \<equiv> 89"
abbreviation (input) HB_P_PUSHBLOCKSHORT :: nat where "HB_P_PUSHBLOCKSHORT \<equiv> 90"
abbreviation (input) HB_P_PUSHFIELD :: nat where "HB_P_PUSHFIELD \<equiv> 91"
abbreviation (input) HB_P_PUSHBYTE :: nat where "HB_P_PUSHBYTE \<equiv> 92"
abbreviation (input) HB_P_PUSHINT :: nat where "HB_P_PUSHINT \<equiv> 93"
abbreviation (input) HB_P_PUSHLOCAL :: nat where "HB_P_PUSHLOCAL \<equiv> 94"
abbreviation (input) HB_P_PUSHLOCALNEAR :: nat where "HB_P_PUSHLOCALNEAR \<equiv> 95"
abbreviation (input) HB_P_PUSHLOCALREF :: nat where "HB_P_PUSHLOCALREF \<equiv> 96"
abbreviation (input) HB_P_PUSHLONG :: nat where "HB_P_PUSHLONG \<equiv> 97"
abbreviation (input) HB_P_PUSHMEMVAR :: nat where "HB_P_PUSHMEMVAR \<equiv> 98"
abbreviation (input) HB_P_PUSHMEMVARREF :: nat where "HB_P_PUSHMEMVARREF \<equiv> 99"
abbreviation (input) HB_P_PUSHNIL :: nat where "HB_P_PUSHNIL \<equiv> 100"
abbreviation (input) HB_P_PUSHDOUBLE :: nat where "HB_P_PUSHDOUBLE \<equiv> 101"
abbreviation (input) HB_P_PUSHSELF :: nat where "HB_P_PUSHSELF \<equiv> 102"
abbreviation (input) HB_P_PUSHSTATIC :: nat where "HB_P_PUSHSTATIC \<equiv> 103"
abbreviation (input) HB_P_PUSHSTATICREF :: nat where "HB_P_PUSHSTATICREF \<equiv> 104"
abbreviation (input) HB_P_PUSHSTR :: nat where "HB_P_PUSHSTR \<equiv> 105"
abbreviation (input) HB_P_PUSHSTRSHORT :: nat where "HB_P_PUSHSTRSHORT \<equiv> 106"
abbreviation (input) HB_P_PUSHSYM :: nat where "HB_P_PUSHSYM \<equiv> 107"
abbreviation (input) HB_P_PUSHSYMNEAR :: nat where "HB_P_PUSHSYMNEAR \<equiv> 108"
abbreviation (input) HB_P_PUSHVARIABLE :: nat where "HB_P_PUSHVARIABLE \<equiv> 109"
abbreviation (input) HB_P_RETVALUE :: nat where "HB_P_RETVALUE \<equiv> 110"
abbreviation (input) HB_P_SEND :: nat where "HB_P_SEND \<equiv> 111"
abbreviation (input) HB_P_SENDSHORT :: nat where "HB_P_SENDSHORT \<equiv> 112"
abbreviation (input) HB_P_SEQBEGIN :: nat where "HB_P_SEQBEGIN \<equiv> 113"
abbreviation (input) HB_P_SEQEND :: nat where "HB_P_SEQEND \<equiv> 114"
abbreviation (input) HB_P_SEQRECOVER :: nat where "HB_P_SEQRECOVER \<equiv> 115"
abbreviation (input) HB_P_SFRAME :: nat where "HB_P_SFRAME \<equiv> 116"
abbreviation (input) HB_P_STATICS :: nat where "HB_P_STATICS \<equiv> 117"
abbreviation (input) HB_P_STATICNAME :: nat where "HB_P_STATICNAME \<equiv> 118"
abbreviation (input) HB_P_SWAPALIAS :: nat where "HB_P_SWAPALIAS \<equiv> 119"
abbreviation (input) HB_P_TRUE :: nat where "HB_P_TRUE \<equiv> 120"
abbreviation (input) HB_P_ZERO :: nat where "HB_P_ZERO \<equiv> 121"
abbreviation (input) HB_P_ONE :: nat where "HB_P_ONE \<equiv> 122"
abbreviation (input) HB_P_MACROFUNC :: nat where "HB_P_MACROFUNC \<equiv> 123"
abbreviation (input) HB_P_MACRODO :: nat where "HB_P_MACRODO \<equiv> 124"
abbreviation (input) HB_P_MPUSHSTR :: nat where "HB_P_MPUSHSTR \<equiv> 125"
abbreviation (input) HB_P_LOCALNEARADDINT :: nat where "HB_P_LOCALNEARADDINT \<equiv> 126"
abbreviation (input) HB_P_MACROPUSHREF :: nat where "HB_P_MACROPUSHREF \<equiv> 127"
abbreviation (input) HB_P_PUSHLONGLONG :: nat where "HB_P_PUSHLONGLONG \<equiv> 128"
abbreviation (input) HB_P_ENUMSTART :: nat where "HB_P_ENUMSTART \<equiv> 129"
abbreviation (input) HB_P_ENUMNEXT :: nat where "HB_P_ENUMNEXT \<equiv> 130"
abbreviation (input) HB_P_ENUMPREV :: nat where "HB_P_ENUMPREV \<equiv> 131"
abbreviation (input) HB_P_ENUMEND :: nat where "HB_P_ENUMEND \<equiv> 132"
abbreviation (input) HB_P_SWITCH :: nat where "HB_P_SWITCH \<equiv> 133"
abbreviation (input) HB_P_PUSHDATE :: nat where "HB_P_PUSHDATE \<equiv> 134"
abbreviation (input) HB_P_PLUSEQPOP :: nat where "HB_P_PLUSEQPOP \<equiv> 135"
abbreviation (input) HB_P_MINUSEQPOP :: nat where "HB_P_MINUSEQPOP \<equiv> 136"
abbreviation (input) HB_P_MULTEQPOP :: nat where "HB_P_MULTEQPOP \<equiv> 137"
abbreviation (input) HB_P_DIVEQPOP :: nat where "HB_P_DIVEQPOP \<equiv> 138"
abbreviation (input) HB_P_PLUSEQ :: nat where "HB_P_PLUSEQ \<equiv> 139"
abbreviation (input) HB_P_MINUSEQ :: nat where "HB_P_MINUSEQ \<equiv> 140"
abbreviation (input) HB_P_MULTEQ :: nat where "HB_P_MULTEQ \<equiv> 141"
abbreviation (input) HB_P_DIVEQ :: nat where "HB_P_DIVEQ \<equiv> 142"
abbreviation (input) HB_P_WITHOBJECTSTART :: nat where "HB_P_WITHOBJECTSTART \<equiv> 143"
abbreviation (input) HB_P_WITHOBJECTMESSAGE :: nat where "HB_P_WITHOBJECTMESSAGE \<equiv> 144"
abbreviation (input) HB_P_WITHOBJECTEND :: nat where "HB_P_WITHOBJECTEND \<equiv> 145"
abbreviation (input) HB_P_MACROSEND :: nat where "HB_P_MACROSEND \<equiv> 146"
abbreviation (input) HB_P_PUSHOVARREF :: nat where "HB_P_PUSHOVARREF \<equiv> 147"
abbreviation (input) HB_P_ARRAYPUSHREF :: nat where "HB_P_ARRAYPUSHREF \<equiv> 148"
abbreviation (input) HB_P_VFRAME :: nat where "HB_P_VFRAME \<equiv> 149"
abbreviation (input) HB_P_LARGEFRAME :: nat where "HB_P_LARGEFRAME \<equiv> 150"
abbreviation (input) HB_P_LARGEVFRAME :: nat where "HB_P_LARGEVFRAME \<equiv> 151"
abbreviation (input) HB_P_PUSHSTRHIDDEN :: nat where "HB_P_PUSHSTRHIDDEN \<equiv> 152"
abbreviation (input) HB_P_LOCALADDINT :: nat where "HB_P_LOCALADDINT \<equiv> 153"
abbreviation (input) HB_P_MODEQPOP :: nat where "HB_P_MODEQPOP \<equiv> 154"
abbreviation (input) HB_P_EXPEQPOP :: nat where "HB_P_EXPEQPOP \<equiv> 155"
abbreviation (input) HB_P_MODEQ :: nat where "HB_P_MODEQ \<equiv> 156"
abbreviation (input) HB_P_EXPEQ :: nat where "HB_P_EXPEQ \<equiv> 157"
abbreviation (input) HB_P_DUPLUNREF :: nat where "HB_P_DUPLUNREF \<equiv> 158"
abbreviation (input) HB_P_MPUSHBLOCKLARGE :: nat where "HB_P_MPUSHBLOCKLARGE \<equiv> 159"
abbreviation (input) HB_P_MPUSHSTRLARGE :: nat where "HB_P_MPUSHSTRLARGE \<equiv> 160"
abbreviation (input) HB_P_PUSHBLOCKLARGE :: nat where "HB_P_PUSHBLOCKLARGE \<equiv> 161"
abbreviation (input) HB_P_PUSHSTRLARGE :: nat where "HB_P_PUSHSTRLARGE \<equiv> 162"
abbreviation (input) HB_P_SWAP :: nat where "HB_P_SWAP \<equiv> 163"
abbreviation (input) HB_P_PUSHVPARAMS :: nat where "HB_P_PUSHVPARAMS \<equiv> 164"
abbreviation (input) HB_P_PUSHUNREF :: nat where "HB_P_PUSHUNREF \<equiv> 165"
abbreviation (input) HB_P_SEQALWAYS :: nat where "HB_P_SEQALWAYS \<equiv> 166"
abbreviation (input) HB_P_ALWAYSBEGIN :: nat where "HB_P_ALWAYSBEGIN \<equiv> 167"
abbreviation (input) HB_P_ALWAYSEND :: nat where "HB_P_ALWAYSEND \<equiv> 168"
abbreviation (input) HB_P_DECEQPOP :: nat where "HB_P_DECEQPOP \<equiv> 169"
abbreviation (input) HB_P_INCEQPOP :: nat where "HB_P_INCEQPOP \<equiv> 170"
abbreviation (input) HB_P_DECEQ :: nat where "HB_P_DECEQ \<equiv> 171"
abbreviation (input) HB_P_INCEQ :: nat where "HB_P_INCEQ \<equiv> 172"
abbreviation (input) HB_P_LOCALDEC :: nat where "HB_P_LOCALDEC \<equiv> 173"
abbreviation (input) HB_P_LOCALINC :: nat where "HB_P_LOCALINC \<equiv> 174"
abbreviation (input) HB_P_LOCALINCPUSH :: nat where "HB_P_LOCALINCPUSH \<equiv> 175"
abbreviation (input) HB_P_PUSHFUNCSYM :: nat where "HB_P_PUSHFUNCSYM \<equiv> 176"
abbreviation (input) HB_P_HASHGEN :: nat where "HB_P_HASHGEN \<equiv> 177"
abbreviation (input) HB_P_SEQBLOCK :: nat where "HB_P_SEQBLOCK \<equiv> 178"
abbreviation (input) HB_P_THREADSTATICS :: nat where "HB_P_THREADSTATICS \<equiv> 179"
abbreviation (input) HB_P_PUSHAPARAMS :: nat where "HB_P_PUSHAPARAMS \<equiv> 180"
abbreviation (input) HB_P_LAST_PCODE :: nat where "HB_P_LAST_PCODE \<equiv> 181"

text \<open>The opcode byte \<open>pCode[ 0 ]\<close>.\<close>

definition opc :: "pcptr \<Rightarrow> nat" where
  "opc p = unat (p 0)"

lemma opc_bound: "opc p < 256"
  by (simp add: opc_def unat_byte)

lemma opc_cong: "p 0 = q 0 \<Longrightarrow> opc p = opc q"
  by (simp add: opc_def)

end
