(* ===== verification/Dbl.thy ===== *)
theory Dbl
  imports HbPrelude
begin

text \<open>
  The C type double on the machines Harbour is built for: the 64 bit format of
  IEEE 754 with rounding to nearest, ties to even.  A double is its bits; the
  operations decode them to a sign, a mantissa and a power of two, compute the
  exact result and round it once.  A NaN result is one quiet NaN.
\<close>

unbundle bit_operations_syntax

section \<open>The format\<close>

datatype fp = FNan | FInf bool | FFin bool int int

text \<open>\<open>FFin s m e\<close> is m times 2 to the e, negative when \<open>s\<close>.\<close>

definition d_val :: "64 word \<Rightarrow> fp" where
  "d_val w =
     (let n = uint w;
          s = (n \<ge> 2 ^ 63);
          ex = n div 2 ^ 52 mod 2 ^ 11;
          m = n mod 2 ^ 52
      in if ex = 2047 then (if m = 0 then FInf s else FNan)
         else if ex = 0 then FFin s m (- 1074)
         else FFin s (m + 2 ^ 52) (ex - 1075))"

definition d_bits :: "bool \<Rightarrow> int \<Rightarrow> int \<Rightarrow> 64 word" where
  "d_bits s ex m = word_of_int ((if s then 2 ^ 63 else 0) + ex * 2 ^ 52 + m)"

definition d_nan :: "64 word" where "d_nan = d_bits False 2047 (2 ^ 51)"

definition d_inf :: "bool \<Rightarrow> 64 word" where "d_inf s = d_bits s 2047 0"

text \<open>The number of binary digits.\<close>

function nbits :: "int \<Rightarrow> nat" where
  "nbits n = (if n \<le> 0 then 0 else Suc (nbits (n div 2)))"
  by pat_completeness auto
termination by (relation "measure nat") auto

declare nbits.simps [simp del]

text \<open>The quotient by a power of two, to nearest, ties to even.\<close>

definition rne :: "int \<Rightarrow> nat \<Rightarrow> int" where
  "rne m k =
     (let q = m div 2 ^ k; r = m mod 2 ^ k
      in if 2 * r > 2 ^ k \<or> (2 * r = 2 ^ k \<and> odd q) then q + 1 else q)"

text \<open>The mantissa of at most 53 bits and the exponent closest to m times 2 to the e.\<close>

definition round_mant :: "int \<Rightarrow> int \<Rightarrow> int \<times> int" where
  "round_mant m e =
     (let q = max (- 1074) (e + int (nbits m) - 53)
      in if q \<le> e then (m * 2 ^ nat (e - q), q)
         else (let m1 = rne m (nat (q - e))
               in if m1 = 2 ^ 53 then (2 ^ 52, q + 1) else (m1, q)))"

definition d_round :: "bool \<Rightarrow> int \<Rightarrow> int \<Rightarrow> 64 word" where
  "d_round s m e =
     (let (m1, q) = round_mant m e
      in if m1 < 2 ^ 52 then d_bits s 0 m1
         else if q > 971 then d_inf s
         else d_bits s (q + 1075) (m1 - 2 ^ 52))"

section \<open>Conversions\<close>

definition d_of_int :: "int \<Rightarrow> 64 word" where
  "d_of_int n = d_round (n < 0) \<bar>n\<bar> 0"

text \<open>The integer a finite value is, towards zero.\<close>

definition fp_trunc :: "int \<Rightarrow> int \<Rightarrow> int" where
  "fp_trunc m e = (if e \<ge> 0 then m * 2 ^ nat e else m div 2 ^ nat (- e))"

text \<open>
  The conversion to a 64 bit integer type drops the fraction.  C leaves it
  undefined outside the type; the processors give the smallest value.
\<close>

definition d_to_long :: "64 word \<Rightarrow> int" where
  "d_to_long w =
     (case d_val w of
        FFin s m e \<Rightarrow>
          (let n = (if s then - fp_trunc m e else fp_trunc m e)
           in if - (2 ^ 63) \<le> n \<and> n < 2 ^ 63 then n else - (2 ^ 63))
      | _ \<Rightarrow> - (2 ^ 63))"

section \<open>Arithmetic\<close>

definition signed :: "bool \<Rightarrow> int \<Rightarrow> int" where
  "signed s m = (if s then - m else m)"

definition d_neg :: "64 word \<Rightarrow> 64 word" where
  "d_neg w = w XOR (2 ^ 63)"

definition d_add :: "64 word \<Rightarrow> 64 word \<Rightarrow> 64 word" where
  "d_add x y =
     (case (d_val x, d_val y) of
        (FFin s m e, FFin t n f) \<Rightarrow>
          (let g = min e f;
               v = signed s (m * 2 ^ nat (e - g)) + signed t (n * 2 ^ nat (f - g))
           in d_round (if v = 0 then s \<and> t else v < 0) \<bar>v\<bar> g)
      | (FInf s, FInf t) \<Rightarrow> (if s = t then d_inf s else d_nan)
      | (FInf s, FFin t n f) \<Rightarrow> d_inf s
      | (FFin s m e, FInf t) \<Rightarrow> d_inf t
      | _ \<Rightarrow> d_nan)"

definition d_sub :: "64 word \<Rightarrow> 64 word \<Rightarrow> 64 word" where
  "d_sub x y = d_add x (d_neg y)"

definition d_mul :: "64 word \<Rightarrow> 64 word \<Rightarrow> 64 word" where
  "d_mul x y =
     (case (d_val x, d_val y) of
        (FFin s m e, FFin t n f) \<Rightarrow> d_round (s \<noteq> t) (m * n) (e + f)
      | (FInf s, FInf t) \<Rightarrow> d_inf (s \<noteq> t)
      | (FInf s, FFin t n f) \<Rightarrow> (if n = 0 then d_nan else d_inf (s \<noteq> t))
      | (FFin s m e, FInf t) \<Rightarrow> (if m = 0 then d_nan else d_inf (s \<noteq> t))
      | _ \<Rightarrow> d_nan)"

text \<open>The quotient is computed to at least 55 bits; a last bit stands for the rest.\<close>

definition d_div :: "64 word \<Rightarrow> 64 word \<Rightarrow> 64 word" where
  "d_div x y =
     (case (d_val x, d_val y) of
        (FFin s m e, FFin t n f) \<Rightarrow>
          (if n = 0 then (if m = 0 then d_nan else d_inf (s \<noteq> t))
           else (let k = 55 + nbits n; a = m * 2 ^ k; r = (if a mod n = 0 then 0 else 1)
                 in d_round (s \<noteq> t) (2 * (a div n) + r) (e - f - int k - 1)))
      | (FInf s, FFin t n f) \<Rightarrow> d_inf (s \<noteq> t)
      | (FFin s m e, FInf t) \<Rightarrow> d_bits (s \<noteq> t) 0 0
      | _ \<Rightarrow> d_nan)"

text \<open>fmod: the remainder has the sign of the dividend.\<close>

definition d_fmod :: "64 word \<Rightarrow> 64 word \<Rightarrow> 64 word" where
  "d_fmod x y =
     (case (d_val x, d_val y) of
        (FFin s m e, FFin t n f) \<Rightarrow>
          (if n = 0 then d_nan
           else (let g = min e f in d_round s (m * 2 ^ nat (e - g) mod (n * 2 ^ nat (f - g))) g))
      | (FFin s m e, FInf t) \<Rightarrow> x
      | _ \<Rightarrow> d_nan)"

section \<open>Comparisons\<close>

text \<open>A comparison with a NaN is false.\<close>

definition fp_cmp :: "(int \<Rightarrow> int \<Rightarrow> bool) \<Rightarrow> fp \<Rightarrow> fp \<Rightarrow> bool" where
  "fp_cmp R a b =
     (case (a, b) of
        (FFin s m e, FFin t n f) \<Rightarrow>
          (let g = min e f
           in R (signed s (m * 2 ^ nat (e - g))) (signed t (n * 2 ^ nat (f - g))))
      | (FInf s, FInf t) \<Rightarrow> R (signed s 1) (signed t 1)
      | (FInf s, FFin t n f) \<Rightarrow> R (signed s 1) 0
      | (FFin s m e, FInf t) \<Rightarrow> R 0 (signed t 1)
      | _ \<Rightarrow> False)"

definition d_lt :: "64 word \<Rightarrow> 64 word \<Rightarrow> bool" where "d_lt x y = fp_cmp (<) (d_val x) (d_val y)"
definition d_le :: "64 word \<Rightarrow> 64 word \<Rightarrow> bool" where "d_le x y = fp_cmp (\<le>) (d_val x) (d_val y)"
definition d_eq :: "64 word \<Rightarrow> 64 word \<Rightarrow> bool" where "d_eq x y = fp_cmp (=) (d_val x) (d_val y)"

text \<open>The operator \<open>!=\<close> is true when one side is a NaN.\<close>

definition d_ne :: "64 word \<Rightarrow> 64 word \<Rightarrow> bool" where "d_ne x y = (\<not> d_eq x y)"

section \<open>Rounding\<close>

lemma nbits_bounds: "0 < n \<Longrightarrow> 2 ^ nbits n \<le> 2 * n \<and> n < 2 ^ nbits n"
proof (induction n rule: nbits.induct)
  case (1 n)
  show ?case
  proof (cases "n = 1")
    case True
    then show ?thesis by (simp add: nbits.simps[of 1] nbits.simps[of 0])
  next
    case False
    then have "0 < n div 2" using 1(2) by simp
    with 1 show ?thesis by (subst (1 2) nbits.simps) auto
  qed
qed

lemma nbits_0 [simp]: "nbits 0 = 0"
  by (simp add: nbits.simps)

lemma nbits_pos: "0 < n \<Longrightarrow> 1 \<le> nbits n"
  by (subst nbits.simps) simp

lemma nbits_le: "0 < n \<Longrightarrow> n \<le> 2 ^ k \<Longrightarrow> nbits n \<le> Suc k"
proof (rule ccontr)
  assume n: "0 < n" "n \<le> 2 ^ k" and "\<not> nbits n \<le> Suc k"
  then have "(2::int) ^ Suc (Suc k) \<le> 2 ^ nbits n" by (intro power_increasing) auto
  also have "\<dots> \<le> 2 * n" using nbits_bounds[OF n(1)] by simp
  finally show False using n by simp
qed

lemma int_le_div: "0 < d \<Longrightarrow> c \<le> m div d \<longleftrightarrow> c * d \<le> (m :: int)"
proof
  assume d: "0 < d" and "c \<le> m div d"
  then have "c * d \<le> m div d * d" by simp
  also have "\<dots> \<le> m" using d by (simp add: minus_mod_eq_div_mult[symmetric])
  finally show "c * d \<le> m" .
next
  assume d: "0 < d" and "c * d \<le> m"
  then show "c \<le> m div d" using zdiv_mono1[of "c * d" m d] by simp
qed

lemma rne_bounds: "m div 2 ^ k \<le> rne m k \<and> rne m k \<le> m div 2 ^ k + 1"
  by (simp add: rne_def Let_def)

lemma d_val_bits:
  assumes "0 \<le> m" "m < 2 ^ 52" "0 \<le> ex" "ex < 2 ^ 11"
  shows "d_val (d_bits s ex m) =
    (if ex = 2047 then (if m = 0 then FInf s else FNan)
     else if ex = 0 then FFin s m (- 1074) else FFin s (m + 2 ^ 52) (ex - 1075))"
proof -
  define n where "n = ex * 2 ^ 52 + m"
  have n: "n div 2 ^ 52 = ex" "n mod 2 ^ 52 = m"
    using assms by (simp_all add: n_def)
  have b: "0 \<le> n" "n < 2 ^ 63" using assms by (simp_all add: n_def)
  let ?n = "(if s then 2 ^ 63 else 0) + n"
  have u: "uint (d_bits s ex m) = ?n"
    unfolding d_bits_def add.assoc n_def[symmetric] uint_word_of_int
    using b by (intro mod_pos_pos_trivial) auto
  have "?n div 2 ^ 52 = (if s then 2 ^ 11 else 0) + n div 2 ^ 52"
  proof (cases s)
    case True
    have "(2 ^ 63 + n) div 2 ^ 52 = (n + 2 ^ 11 * 2 ^ 52) div 2 ^ 52" by simp
    then show ?thesis using True using div_mult_self1[of "2 ^ 52 :: int" n "2 ^ 11"] by (simp only: if_True) simp
  qed simp
  moreover have "?n mod 2 ^ 52 = n mod 2 ^ 52"
  proof (cases s)
    case True
    have "(2 ^ 63 + n) mod 2 ^ 52 = (n + 2 ^ 11 * 2 ^ 52) mod 2 ^ 52" by (simp add: add.commute)
    then show ?thesis using True by (simp only: mod_mult_self1 if_True)
  qed simp
  ultimately have "?n div 2 ^ 52 mod 2 ^ 11 = ex" "?n mod 2 ^ 52 = m" using n assms(3,4) by simp_all
  moreover have "?n \<ge> 2 ^ 63 \<longleftrightarrow> s" using b by simp
  ultimately show ?thesis by (simp only: d_val_def Let_def u)
qed

lemma round_mant_bounds:
  assumes "0 < m" "round_mant m e = (m1, q)"
  shows "0 \<le> m1" "m1 < 2 ^ 53" "- 1074 \<le> q" "m1 < 2 ^ 52 \<Longrightarrow> q = - 1074"
proof -
  let ?k = "nbits m"
  define p where "p = max (- 1074) (e + int (nbits m) - 53)"
  have p: "- 1074 \<le> p" by (simp add: p_def)
  have r: "round_mant m e = (if p \<le> e then (m * 2 ^ nat (e - p), p)
     else let m1 = rne m (nat (p - e)) in if m1 = 2 ^ 53 then (2 ^ 52, p + 1) else (m1, p))"
    by (simp only: round_mant_def p_def Let_def)
  have k: "2 ^ ?k \<le> 2 * m" "m < 2 ^ ?k" using nbits_bounds[OF assms(1)] by auto
  have "0 \<le> m1 \<and> m1 < 2 ^ 53 \<and> - 1074 \<le> q \<and> (m1 < 2 ^ 52 \<longrightarrow> q = - 1074)"
  proof (cases "p \<le> e")
    case True
    then have e: "m1 = m * 2 ^ nat (e - p)" "q = p" using assms(2) by (auto simp: r)
    have j: "?k + nat (e - p) \<le> 53" using True p_def by linarith
    have "m * 2 ^ nat (e - p) < 2 ^ ?k * 2 ^ nat (e - p)" using k by simp
    also have "\<dots> \<le> 2 ^ 53" using j by (simp only: power_add[symmetric]) (rule power_increasing; simp)
    finally have "m1 < 2 ^ 53" using e by simp
    moreover have g: "2 ^ 52 \<le> m1" if "q \<noteq> - 1074"
    proof -
      have "?k + nat (e - p) = 53" using that e True p_def by linarith
      then have "(2::int) ^ 53 = 2 ^ ?k * 2 ^ nat (e - p)" by (simp only: power_add[symmetric])
      also have "\<dots> \<le> 2 * m * 2 ^ nat (e - p)" using k by simp
      finally show ?thesis using e by simp
    qed
    ultimately show ?thesis using e assms(1) p by (cases "q = - 1074") auto
  next
    case False
    let ?d = "nat (p - e)"
    have j: "?k \<le> 53 + ?d" using False p_def by linarith
    have "(2::int) ^ ?k \<le> 2 ^ (53 + ?d)" using j by (intro power_increasing) auto
    then have "m < 2 ^ 53 * 2 ^ ?d" using k unfolding power_add by linarith
    then have d: "m div 2 ^ ?d < 2 ^ 53" using int_le_div[of "2 ^ ?d" "2 ^ 53" m] by (simp add: not_le[symmetric])
    have ge: "2 ^ 52 \<le> m div 2 ^ ?d" if "p \<noteq> - 1074"
    proof -
      have "?k = 53 + ?d" using that False p_def by linarith
      then have "(2::int) ^ ?k = 2 * 2 ^ 52 * 2 ^ ?d" by (simp add: power_add)
      then have "2 ^ 52 * 2 ^ ?d \<le> m" using k by simp
      then show ?thesis by (simp add: int_le_div)
    qed
    have "0 \<le> m div 2 ^ ?d" using assms(1) by (simp add: pos_imp_zdiv_nonneg_iff)
    then show ?thesis using False assms rne_bounds[of m ?d] d ge p
      by (cases "p = - 1074"; auto simp: r Let_def split: if_splits)
  qed
  then show "0 \<le> m1" "m1 < 2 ^ 53" "- 1074 \<le> q" "m1 < 2 ^ 52 \<Longrightarrow> q = - 1074" by auto
qed

lemma d_val_round:
  assumes "0 < m" "round_mant m e = (m1, q)"
  shows "d_val (d_round s m e) = (if 2 ^ 52 \<le> m1 \<and> 971 < q then FInf s else FFin s m1 q)"
  using round_mant_bounds[OF assms]
  by (auto simp: d_round_def assms(2) d_inf_def d_val_bits)

lemma round_mant_0: "round_mant 0 e = (0, max (- 1074) (e - 53)) \<or> round_mant 0 e = (0, - 1074)"
  by (auto simp: round_mant_def Let_def rne_def)

lemma d_round_0: "d_round s 0 e = d_bits s 0 0"
  using round_mant_0[of e] by (auto simp: d_round_def)

lemma d_val_0: "d_val (d_bits s 0 0) = FFin s 0 (- 1074)"
  by (simp add: d_val_bits)

section \<open>Integers as doubles\<close>

lemma round_mant_int:
  assumes "0 < m" "m \<le> 2 ^ 64"
  obtains m1 q where "round_mant m 0 = (m1, q)" "2 ^ 52 \<le> m1" "- 53 \<le> q" "q \<le> 13"
    "m \<le> 2 ^ 53 \<Longrightarrow> q \<le> 1 \<and> m1 * 2 ^ nat q = m * 2 ^ nat (- q)"
proof -
  obtain m1 q where r: "round_mant m 0 = (m1, q)" by (cases "round_mant m 0")
  note b = round_mant_bounds[OF assms(1) r]
  have k: "nbits m \<le> 65" "1 \<le> nbits m" using nbits_le[of m 64] nbits_pos assms by auto
  have q: "- 52 \<le> q" "q \<le> 13" using k r by (auto simp: round_mant_def Let_def split: if_splits)
  have "q \<le> 1 \<and> m1 * 2 ^ nat q = m * 2 ^ nat (- q)" if m: "m \<le> 2 ^ 53"
  proof (cases "m = 2 ^ 53")
    case True
    have "nbits m \<le> 54" using nbits_le[of m 53] True by simp
    moreover have "54 \<le> nbits m"
    proof (rule ccontr)
      assume "\<not> 54 \<le> nbits m"
      then have "(2::int) ^ nbits m \<le> 2 ^ 53" by (intro power_increasing) auto
      then show False using nbits_bounds[OF assms(1)] True by simp
    qed
    ultimately show ?thesis using r True by (simp add: round_mant_def Let_def rne_def)
  next
    case False
    have "nbits m \<le> 53"
    proof (rule ccontr)
      assume "\<not> nbits m \<le> 53"
      then have "(2::int) ^ 54 \<le> 2 ^ nbits m" by (intro power_increasing) auto
      then show False using nbits_bounds[OF assms(1)] False m by simp
    qed
    then show ?thesis using r k by (auto simp: round_mant_def Let_def)
  qed
  moreover have "2 ^ 52 \<le> m1" using b(4) q by linarith
  ultimately show ?thesis using that r q by simp
qed

lemma d_val_of_int:
  assumes "n \<noteq> 0" "\<bar>n\<bar> \<le> 2 ^ 64"
  obtains m q where "d_val (d_of_int n) = FFin (n < 0) m q" "2 ^ 52 \<le> m" "- 53 \<le> q" "q \<le> 13"
    "\<bar>n\<bar> \<le> 2 ^ 53 \<Longrightarrow> q \<le> 1 \<and> m * 2 ^ nat q = \<bar>n\<bar> * 2 ^ nat (- q)"
proof -
  obtain m q where m: "round_mant \<bar>n\<bar> 0 = (m, q)" "2 ^ 52 \<le> m" "- 53 \<le> q" "q \<le> 13"
    "\<bar>n\<bar> \<le> 2 ^ 53 \<Longrightarrow> q \<le> 1 \<and> m * 2 ^ nat q = \<bar>n\<bar> * 2 ^ nat (- q)"
    using round_mant_int[of "\<bar>n\<bar>"] assms by auto
  then have "d_val (d_of_int n) = FFin (n < 0) m q"
    using assms by (simp add: d_of_int_def d_val_round)
  then show ?thesis using that m by blast
qed

lemma d_of_int_0: "d_val (d_of_int 0) = FFin False 0 (- 1074)"
  by (simp add: d_of_int_def d_round_0 d_val_0)

lemma d_lt_0: "\<bar>n\<bar> \<le> 2 ^ 64 \<Longrightarrow> d_lt (d_of_int n) (d_of_int 0) \<longleftrightarrow> n < 0"
proof (cases "n = 0")
  case False
  assume "\<bar>n\<bar> \<le> 2 ^ 64"
  then obtain m q where m: "d_val (d_of_int n) = FFin (n < 0) m q" "2 ^ 52 \<le> m" "- 53 \<le> q" "q \<le> 13"
    using d_val_of_int False by metis
  then have "\<not> m * 2 ^ nat (q + 1074) < 0" "0 < m * 2 ^ nat (q + 1074)" "\<not> q \<le> - 1074"
    by (simp_all add: not_less)
  then show ?thesis using m(1)
    by (simp del: mult_less_0_iff zero_less_mult_iff add: d_lt_def fp_cmp_def d_of_int_0 signed_def Let_def min_def)
qed (simp add: d_lt_def fp_cmp_def d_of_int_0 signed_def)

lemma d_to_long_of_int: "\<bar>n\<bar> \<le> 2 ^ 53 \<Longrightarrow> d_to_long (d_of_int n) = n"
proof (cases "n = 0")
  case False
  assume n: "\<bar>n\<bar> \<le> 2 ^ 53"
  then have "\<bar>n\<bar> \<le> 2 ^ 64" by simp
  then obtain m q where m: "d_val (d_of_int n) = FFin (n < 0) m q" "- 53 \<le> q"
    "q \<le> 1" "m * 2 ^ nat q = \<bar>n\<bar> * 2 ^ nat (- q)"
    using d_val_of_int[OF False] n by metis
  have "fp_trunc m q = \<bar>n\<bar>"
  proof (cases "0 \<le> q")
    case True
    then show ?thesis using m by (simp add: fp_trunc_def)
  next
    case False
    then have "m = \<bar>n\<bar> * 2 ^ nat (- q)" using m by simp
    then show ?thesis using False by (simp add: fp_trunc_def)
  qed
  then show ?thesis using m n by (auto simp: d_to_long_def Let_def)
qed (simp add: d_to_long_def d_of_int_0 fp_trunc_def)

text \<open>A finite value as a multiple of the smallest one.\<close>

definition units :: "fp \<Rightarrow> int" where
  "units a = (case a of FFin s m e \<Rightarrow> signed s m * 2 ^ nat (e + 1074) | _ \<Rightarrow> 0)"

lemma fp_cmp_units:
  assumes "- 1074 \<le> e" "- 1074 \<le> f" "\<And>a b k. R (a * 2 ^ k) (b * 2 ^ k) = R a b"
  shows "fp_cmp R (FFin s m e) (FFin t n f) = R (units (FFin s m e)) (units (FFin t n f))"
proof -
  define g where "g = min e f"
  have p: "(2::int) ^ nat (e + 1074) = 2 ^ nat (e - g) * 2 ^ nat (g + 1074)"
    "(2::int) ^ nat (f + 1074) = 2 ^ nat (f - g) * 2 ^ nat (g + 1074)"
    using assms(1,2) unfolding power_add[symmetric] g_def
    by (intro arg_cong2[where f = "(^)"] refl; linarith)+
  have "units (FFin s m e) = signed s (m * 2 ^ nat (e - g)) * 2 ^ nat (g + 1074)"
    "units (FFin t n f) = signed t (n * 2 ^ nat (f - g)) * 2 ^ nat (g + 1074)"
    by (simp_all add: units_def p signed_def)
  then show ?thesis by (simp add: fp_cmp_def Let_def g_def assms(3))
qed

lemma units_of_int:
  assumes "\<bar>n\<bar> \<le> 2 ^ 53"
  obtains s m e where "d_val (d_of_int n) = FFin s m e" "- 1074 \<le> e" "units (FFin s m e) = n * 2 ^ nat 1074"
proof (cases "n = 0")
  case True
  then show ?thesis using that[of False 0 "- 1074"] d_of_int_0 by (simp add: units_def signed_def)
next
  case False
  have "\<bar>n\<bar> \<le> 2 ^ 64" using assms by simp
  then obtain m q where m: "d_val (d_of_int n) = FFin (n < 0) m q" "- 53 \<le> q"
    "q \<le> 1" "m * 2 ^ nat q = \<bar>n\<bar> * 2 ^ nat (- q)"
    using d_val_of_int[OF False] assms by metis
  have p: "(2::int) ^ nat (q + 1074) = 2 ^ nat q * 2 ^ (1074 - nat (- q))"
    "(2::int) ^ nat 1074 = 2 ^ nat (- q) * 2 ^ (1074 - nat (- q))"
    using m(2,3) unfolding power_add[symmetric]
    by (intro arg_cong2[where f = "(^)"] refl; linarith)+
  have "m * 2 ^ nat (q + 1074) = \<bar>n\<bar> * 2 ^ nat 1074"
    unfolding p mult.assoc[symmetric] m(4) ..
  then have "units (FFin (n < 0) m q) = n * 2 ^ nat 1074"
    by (cases "n < 0") (simp_all add: units_def signed_def)
  then show ?thesis using that m by simp
qed
lemma d_cmp_of_int:
  assumes "\<bar>a\<bar> \<le> 2 ^ 53" "\<bar>b\<bar> \<le> 2 ^ 53"
  shows "d_lt (d_of_int a) (d_of_int b) \<longleftrightarrow> a < b" "d_le (d_of_int a) (d_of_int b) \<longleftrightarrow> a \<le> b"
    "d_eq (d_of_int a) (d_of_int b) \<longleftrightarrow> a = b"
proof -
  obtain s m e where a: "d_val (d_of_int a) = FFin s m e" "- 1074 \<le> e" "units (FFin s m e) = a * 2 ^ nat 1074"
    using units_of_int assms(1) by blast
  obtain t n f where b: "d_val (d_of_int b) = FFin t n f" "- 1074 \<le> f" "units (FFin t n f) = b * 2 ^ nat 1074"
    using units_of_int assms(2) by blast
  have p: "0 < (2::int) ^ nat 1074" by (rule zero_less_power) simp
  note u = fp_cmp_units[OF a(2) b(2)] and sel = a(1,3) b(1,3)
  show "d_lt (d_of_int a) (d_of_int b) \<longleftrightarrow> a < b"
    unfolding d_lt_def sel by (subst u) (use p sel in \<open>simp_all add: mult_less_cancel_right\<close>)
  show "d_le (d_of_int a) (d_of_int b) \<longleftrightarrow> a \<le> b"
    unfolding d_le_def sel by (subst u) (use p sel in \<open>simp_all add: mult_le_cancel_right\<close>)
  show "d_eq (d_of_int a) (d_of_int b) \<longleftrightarrow> a = b"
    unfolding d_eq_def sel by (subst u) (use p sel in simp_all)
qed

end
