(* ===== verification/VmState.thy ===== *)
theory VmState
  imports HbPcode Dbl "HOL-Library.Monad_Syntax"
begin

text \<open>
  The evaluation stack and the items of the virtual machine (vm/estack.c,
  include/hbstack.h, vm/itemapi.c) and the operations of vm/hvm.c that work on
  them directly.

  A C function that may stop the program (hb_errInternal, or an access below
  the stack, which the unchecked stack macros leave undefined) returns
  \<open>None\<close>.  The functions of the run-time library that the opcodes call and
  that are not translated here are the record \<open>helpers\<close>: \<open>hcall\<close> is a call
  of the C function its first argument is named after; the other fields are
  calls whose result the caller uses.  The heap, the symbols, the work areas
  and the reference counts live in \<open>world\<close> and are changed by helpers only.
  The flag HB_IT_DEFAULT is not modelled.
\<close>

declare One_nat_def [simp del]

section \<open>Items\<close>

datatype loc = AtStack nat | AtReturn | AtStatic nat | AtHeap nat

datatype item =
    I_Nil
  | I_Logical bool
  | I_Integer int nat
  | I_Long int nat
  | I_Double "64 word" nat nat
  | I_Date int
  | I_TimeStamp int int
  | I_String bool "HB_BYTE list"
  | I_Symbol nat
  | I_Recover int nat "16 word" "16 word"
  | I_ByRef nat
  | I_Enum nat
  | I_LocalRef int int "nat option"
  | I_Block nat
  | I_Pointer nat
  | I_Array nat
  | I_Hash nat

text \<open>The payload of \<open>I_Recover\<close> is recover, base, flags, request.\<close>

fun HB_IS_LOGICAL :: "item \<Rightarrow> bool" where
  "HB_IS_LOGICAL (I_Logical b) = True"
| "HB_IS_LOGICAL _ = False"

fun HB_IS_STRING :: "item \<Rightarrow> bool" where
  "HB_IS_STRING (I_String m cs) = True"
| "HB_IS_STRING _ = False"

fun HB_IS_NUMINT :: "item \<Rightarrow> bool" where
  "HB_IS_NUMINT (I_Integer v l) = True"
| "HB_IS_NUMINT (I_Long v l) = True"
| "HB_IS_NUMINT _ = False"

fun HB_ITEM_GET_NUMINTRAW :: "item \<Rightarrow> int" where
  "HB_ITEM_GET_NUMINTRAW (I_Integer v l) = v"
| "HB_ITEM_GET_NUMINTRAW (I_Long v l) = v"
| "HB_ITEM_GET_NUMINTRAW _ = 0"

fun HB_IS_ENUM :: "item \<Rightarrow> bool" where
  "HB_IS_ENUM (I_Enum e) = True"
| "HB_IS_ENUM _ = False"

fun HB_IS_BYREF :: "item \<Rightarrow> bool" where
  "HB_IS_BYREF (I_ByRef r) = True"
| "HB_IS_BYREF (I_Enum e) = True"
| "HB_IS_BYREF (I_LocalRef i b c) = True"
| "HB_IS_BYREF _ = False"

fun HB_IS_COMPLEX :: "item \<Rightarrow> bool" where
  "HB_IS_COMPLEX (I_String m cs) = True"
| "HB_IS_COMPLEX (I_ByRef r) = True"
| "HB_IS_COMPLEX (I_Enum e) = True"
| "HB_IS_COMPLEX (I_LocalRef i b c) = True"
| "HB_IS_COMPLEX (I_Block b) = True"
| "HB_IS_COMPLEX (I_Pointer p) = True"
| "HB_IS_COMPLEX (I_Array a) = True"
| "HB_IS_COMPLEX (I_Hash h) = True"
| "HB_IS_COMPLEX _ = False"

section \<open>State\<close>

text \<open>
  The machine state.  baseIdx, paramcnt, paramdeclcnt, statics and uiLineNo belong
  to the frame of the executing function; uiLineNo is the line number in it,
  hb_stackBaseItem()->item.asSymbol.stackstate->uiLineNo, which called functions
  may read (hb_procline, hb_vmPushBlock).
\<close>

record 'w vm =
  stack :: "item list"
  baseIdx :: nat
  paramcnt :: nat
  paramdeclcnt :: nat
  retItem :: item
  recoverBase :: nat
  actionRequest :: "16 word"
  withObject :: nat
  uiLineNo :: nat
  statics :: "item list"
  heap :: "nat \<Rightarrow> item"
  world :: 'w

abbreviation (input) HB_QUIT_REQUESTED :: "16 word" where "HB_QUIT_REQUESTED \<equiv> 1"
abbreviation (input) HB_BREAK_REQUESTED :: "16 word" where "HB_BREAK_REQUESTED \<equiv> 2"
abbreviation (input) HB_ENDPROC_REQUESTED :: "16 word" where "HB_ENDPROC_REQUESTED \<equiv> 4"
abbreviation (input) HB_SEQ_CANRECOVER :: "16 word" where "HB_SEQ_CANRECOVER \<equiv> 64"
abbreviation (input) HB_SEQ_DOALWAYS :: "16 word" where "HB_SEQ_DOALWAYS \<equiv> 128"
abbreviation (input) HB_RECOVER_STATE :: int where "HB_RECOVER_STATE \<equiv> - 1"
abbreviation (input) HB_RECOVER_VALUE :: int where "HB_RECOVER_VALUE \<equiv> - 2"

text \<open>
  A call of a function that is not translated: the C name and the arguments
  (an item pointer, a number, an item that goes out of use).
\<close>

datatype harg = L loc | N nat | Z int | X item

record 'w helpers =
  hcall :: "string \<Rightarrow> harg list \<Rightarrow> 'w vm \<Rightarrow> 'w vm option"
  hunref :: "loc \<Rightarrow> 'w vm \<Rightarrow> (loc \<times> 'w vm) option"
  herrsubst :: "nat \<Rightarrow> loc list \<Rightarrow> 'w vm \<Rightarrow> (item option \<times> 'w vm) option"
  hobjop :: "nat \<Rightarrow> loc \<Rightarrow> loc \<Rightarrow> loc option \<Rightarrow> 'w vm \<Rightarrow> (bool \<times> 'w vm) option"
  hcbref :: "int \<Rightarrow> 'w vm \<Rightarrow> loc option"
  hdecimals :: "'w vm \<Rightarrow> nat"
  hpow :: "64 word \<Rightarrow> 64 word \<Rightarrow> 64 word"
  hobjhas :: "nat \<Rightarrow> item \<Rightarrow> 'w vm \<Rightarrow> bool"
  hsymdyn :: "nat \<Rightarrow> nat option"
  hsetexact :: "'w vm \<Rightarrow> bool"
  hcdpcmp :: "'w vm \<Rightarrow> (HB_BYTE list \<Rightarrow> HB_BYTE list \<Rightarrow> bool \<Rightarrow> int) option"
  hhashlen :: "item \<Rightarrow> 'w vm \<Rightarrow> nat"
  hhashscan :: "item \<Rightarrow> item \<Rightarrow> 'w vm \<Rightarrow> bool"
  hisobject :: "item \<Rightarrow> 'w vm \<Rightarrow> bool"
  hunrefw :: "loc \<Rightarrow> loc \<Rightarrow> 'w vm \<Rightarrow> (loc option \<times> 'w vm) option"
  hdynsym :: "64 word \<Rightarrow> nat"
  hdecode :: "nat \<Rightarrow> pcptr \<Rightarrow> nat \<Rightarrow> HB_BYTE list \<times> nat"

section \<open>Reading and writing items\<close>

fun item_rd :: "loc \<Rightarrow> 'w vm \<Rightarrow> item option" where
  "item_rd (AtStack i) s = (if i < length (stack s) then Some (stack s ! i) else None)"
| "item_rd AtReturn s = Some (retItem s)"
| "item_rd (AtStatic i) s = (if i < length (statics s) then Some (statics s ! i) else None)"
| "item_rd (AtHeap a) s = Some (heap s a)"

fun item_wr :: "loc \<Rightarrow> item \<Rightarrow> 'w vm \<Rightarrow> 'w vm option" where
  "item_wr (AtStack i) x s =
     (if i < length (stack s) then Some (s\<lparr>stack := (stack s)[i := x]\<rparr>) else None)"
| "item_wr AtReturn x s = Some (s\<lparr>retItem := x\<rparr>)"
| "item_wr (AtStatic i) x s =
     (if i < length (statics s) then Some (s\<lparr>statics := (statics s)[i := x]\<rparr>) else None)"
| "item_wr (AtHeap a) x s = Some (s\<lparr>heap := (heap s)(a := x)\<rparr>)"

definition hb_itemClear :: "'w helpers \<Rightarrow> loc \<Rightarrow> 'w vm \<Rightarrow> 'w vm option" where
  "hb_itemClear H p s = do {
     x \<leftarrow> item_rd p s;
     s \<leftarrow> item_wr p I_Nil s;
     if HB_IS_COMPLEX x then hcall H ''hb_itemClear'' [X x] s else Some s }"

definition hb_itemSetNil :: "'w helpers \<Rightarrow> loc \<Rightarrow> 'w vm \<Rightarrow> 'w vm option" where
  "hb_itemSetNil H p s = hb_itemClear H p s"

definition hb_itemCopy :: "'w helpers \<Rightarrow> loc \<Rightarrow> loc \<Rightarrow> 'w vm \<Rightarrow> 'w vm option" where
  "hb_itemCopy H pDest pSource s =
     (if pDest = pSource then None
      else do {
        s \<leftarrow> hb_itemClear H pDest s;
        x \<leftarrow> item_rd pSource s;
        s \<leftarrow> item_wr pDest (if HB_IS_ENUM x then I_Nil else x) s;
        if HB_IS_COMPLEX x \<and> \<not> HB_IS_ENUM x then hcall H ''hb_gcRefInc'' [X x] s else Some s })"

definition hb_itemMove :: "'w helpers \<Rightarrow> loc \<Rightarrow> loc \<Rightarrow> 'w vm \<Rightarrow> 'w vm option" where
  "hb_itemMove H pDest pSource s =
     (if pDest = pSource then None
      else do {
        s \<leftarrow> hb_itemClear H pDest s;
        x \<leftarrow> item_rd pSource s;
        s \<leftarrow> item_wr pDest x s;
        item_wr pSource I_Nil s })"

section \<open>The stack\<close>

definition hb_stackItemFromTop :: "int \<Rightarrow> 'w vm \<Rightarrow> loc option" where
  "hb_stackItemFromTop n s =
     (let i = int (length (stack s)) + n in if 0 \<le> i then Some (AtStack (nat i)) else None)"

definition hb_stackAllocItem :: "'w vm \<Rightarrow> loc \<times> 'w vm" where
  "hb_stackAllocItem s = (AtStack (length (stack s)), s\<lparr>stack := stack s @ [I_Nil]\<rparr>)"

definition stack_push :: "item \<Rightarrow> 'w vm \<Rightarrow> 'w vm" where
  "stack_push x s = s\<lparr>stack := stack s @ [x]\<rparr>"

definition hb_stackDec :: "'w vm \<Rightarrow> 'w vm option" where
  "hb_stackDec s = (if stack s = [] then None else Some (s\<lparr>stack := butlast (stack s)\<rparr>))"

definition hb_stackPop :: "'w helpers \<Rightarrow> 'w vm \<Rightarrow> 'w vm option" where
  "hb_stackPop H s =
     (if stack s = [] then None
      else (let x = last (stack s); s1 = s\<lparr>stack := butlast (stack s)\<rparr> in
            if HB_IS_COMPLEX x then hcall H ''hb_itemClear'' [X x] s1 else Some s1))"

definition hb_stackPushReturn :: "'w vm \<Rightarrow> 'w vm" where
  "hb_stackPushReturn s = s\<lparr>stack := stack s @ [retItem s], retItem := I_Nil\<rparr>"

definition hb_stackPopReturn :: "'w helpers \<Rightarrow> 'w vm \<Rightarrow> 'w vm option" where
  "hb_stackPopReturn H s = do {
     s \<leftarrow> hb_itemClear H AtReturn s;
     if stack s = [] then None
     else Some (s\<lparr>stack := butlast (stack s), retItem := last (stack s)\<rparr>) }"

text \<open>
  hb_stackRemove pops until \<open>nUntilPos\<close> items are left; the number of items
  above is the recursion's measure.
\<close>

fun stack_remove_loop :: "'w helpers \<Rightarrow> nat \<Rightarrow> 'w vm \<Rightarrow> 'w vm option" where
  "stack_remove_loop H 0 s = Some s"
| "stack_remove_loop H (Suc k) s = do { s \<leftarrow> hb_stackPop H s; stack_remove_loop H k s }"

definition hb_stackRemove :: "'w helpers \<Rightarrow> nat \<Rightarrow> 'w vm \<Rightarrow> 'w vm option" where
  "hb_stackRemove H nUntilPos s = stack_remove_loop H (length (stack s) - nUntilPos) s"

definition hb_stackSelfItem :: "'w vm \<Rightarrow> loc" where
  "hb_stackSelfItem s = AtStack (baseIdx s + 1)"

definition hb_stackWithObjectItem :: "'w vm \<Rightarrow> loc option" where
  "hb_stackWithObjectItem s = (if withObject s \<noteq> 0 then Some (AtStack (withObject s)) else None)"

text \<open>The index of local \<open>i\<close> after the extra actual parameters are skipped.\<close>

definition local_shift :: "int \<Rightarrow> 'w vm \<Rightarrow> int" where
  "local_shift i s =
     (if paramcnt s > paramdeclcnt s \<and> i > int (paramdeclcnt s)
      then i + int (paramcnt s) - int (paramdeclcnt s) else i)"

definition hb_stackLocalVariable :: "int \<Rightarrow> 'w vm \<Rightarrow> loc" where
  "hb_stackLocalVariable i s = AtStack (nat (int (baseIdx s) + 1 + local_shift i s))"

definition setAction :: "16 word \<Rightarrow> 'w vm \<Rightarrow> 'w vm" where
  "setAction a s = s\<lparr>actionRequest := a\<rparr>"

end
