(* ===== verification/VmOps.thy ===== *)
theory VmOps
  imports VmState
begin

text \<open>
  The functions of vm/hvm.c that the interpreter and the shims share and that
  work on the evaluation stack alone: pushing constants, variables and
  references, the logical operators, conditions, SWITCH.
\<close>

section \<open>Constants\<close>

definition HB_INT_LENGTH :: "int \<Rightarrow> nat" where
  "HB_INT_LENGTH i = (if i < - 999999999 \<or> i > 999999999 then 20 else 10)"

function calc_width_loop :: "int \<Rightarrow> nat \<Rightarrow> nat" where
  "calc_width_loop nNumber iWidth =
     (if nNumber \<ge> 1000000000 then calc_width_loop (nNumber div 10) (iWidth + 1) else iWidth)"
  by pat_completeness auto
termination by (relation "measure (\<lambda>(n, _). nat n)") auto

declare calc_width_loop.simps [simp del]

definition hb_vmCalcIntWidth :: "int \<Rightarrow> nat" where
  "hb_vmCalcIntWidth nNumber =
     (if nNumber \<le> - 1000000000 then 20 else calc_width_loop nNumber 10)"

definition hb_vmPushInteger :: "int \<Rightarrow> 'w vm \<Rightarrow> 'w vm" where
  "hb_vmPushInteger iNumber s = stack_push (I_Integer iNumber (HB_INT_LENGTH iNumber)) s"

definition hb_vmPushIntegerConst :: "int \<Rightarrow> 'w vm \<Rightarrow> 'w vm" where
  "hb_vmPushIntegerConst iNumber s = stack_push (I_Integer iNumber (hb_vmCalcIntWidth iNumber)) s"

definition hb_vmPushLongLongConst :: "int \<Rightarrow> 'w vm \<Rightarrow> 'w vm" where
  "hb_vmPushLongLongConst llNumber s = stack_push (I_Long llNumber (hb_vmCalcIntWidth llNumber)) s"

definition HB_DBL_LENGTH :: "64 word \<Rightarrow> nat" where
  "HB_DBL_LENGTH d = (if d_lt (d_of_int 9999999999) d \<or> d_lt d (d_of_int (- 999999999)) then 20 else 10)"

definition hb_vmPushDoubleConst ::
  "'w helpers \<Rightarrow> 64 word \<Rightarrow> int \<Rightarrow> int \<Rightarrow> 'w vm \<Rightarrow> 'w vm" where
  "hb_vmPushDoubleConst H dNumber iWidth iDec s =
     stack_push (I_Double dNumber
       (if iWidth = 255 then HB_DBL_LENGTH dNumber else nat (iWidth mod 65536))
       (if iDec = 255 then hdecimals H s mod 65536 else nat (iDec mod 65536))) s"

definition bytes_at :: "pcptr \<Rightarrow> nat \<Rightarrow> HB_BYTE list" where
  "bytes_at p n = map p [0..<n]"

definition hb_vmPushString :: "pcptr \<Rightarrow> nat \<Rightarrow> 'w vm \<Rightarrow> 'w vm" where
  "hb_vmPushString szText nLength s = stack_push (I_String False (bytes_at szText nLength)) s"

text \<open>
  The item refers to the text itself, or to the shared one character strings
  hb_szAscii; either way its value is the text.
\<close>

definition hb_vmPushStringPcode :: "pcptr \<Rightarrow> nat \<Rightarrow> 'w vm \<Rightarrow> 'w vm" where
  "hb_vmPushStringPcode szText nLength s =
     stack_push (I_String False
       (if nLength \<le> 1 then take nLength [szText 0] else bytes_at szText nLength)) s"

definition hb_vmPushSymbol :: "nat \<Rightarrow> 'w vm \<Rightarrow> 'w vm" where
  "hb_vmPushSymbol pSym s = stack_push (I_Symbol pSym) s"

definition hb_vmPush :: "'w helpers \<Rightarrow> loc \<Rightarrow> 'w vm \<Rightarrow> 'w vm option" where
  "hb_vmPush H pItem s = (let (p, s1) = hb_stackAllocItem s in hb_itemCopy H p pItem s1)"

section \<open>Duplicates and references\<close>

text \<open>\<open>HB_IS_BYREF( p ) ? hb_itemUnRef( p ) : p\<close>\<close>

definition unref_if :: "'w helpers \<Rightarrow> loc \<Rightarrow> 'w vm \<Rightarrow> (loc \<times> 'w vm) option" where
  "unref_if H p s = do {
     x \<leftarrow> item_rd p s;
     if HB_IS_BYREF x then hunref H p s else Some (p, s) }"

definition hb_vmDuplicate :: "'w helpers \<Rightarrow> 'w vm \<Rightarrow> 'w vm option" where
  "hb_vmDuplicate H s = do {
     pItem \<leftarrow> hb_stackItemFromTop (- 1) s;
     let (p, s) = hb_stackAllocItem s;
     hb_itemCopy H p pItem s }"

definition hb_vmDuplUnRef :: "'w helpers \<Rightarrow> 'w vm \<Rightarrow> 'w vm option" where
  "hb_vmDuplUnRef H s = do {
     pItem \<leftarrow> hb_stackItemFromTop (- 1) s;
     let (p, s) = hb_stackAllocItem s;
     s \<leftarrow> hb_itemCopy H p pItem s;
     x \<leftarrow> item_rd pItem s;
     if HB_IS_BYREF x
     then do { (q, s) \<leftarrow> hunref H pItem s; hb_itemCopy H pItem q s }
     else Some s }"

definition hb_vmPushUnRef :: "'w helpers \<Rightarrow> 'w vm \<Rightarrow> 'w vm option" where
  "hb_vmPushUnRef H s = do {
     pItem \<leftarrow> hb_stackItemFromTop (- 1) s;
     let (p, s) = hb_stackAllocItem s;
     (q, s) \<leftarrow> unref_if H pItem s;
     hb_itemCopy H p q s }"

definition hb_vmPushLocal :: "'w helpers \<Rightarrow> int \<Rightarrow> 'w vm \<Rightarrow> 'w vm option" where
  "hb_vmPushLocal H iLocal s = do {
     pLocal \<leftarrow> (if iLocal \<ge> 0 then Some (hb_stackLocalVariable iLocal s) else hcbref H iLocal s);
     let (p, s) = hb_stackAllocItem s;
     (q, s) \<leftarrow> unref_if H pLocal s;
     hb_itemCopy H p q s }"

definition hb_vmPushLocalByRef :: "'w helpers \<Rightarrow> int \<Rightarrow> 'w vm \<Rightarrow> 'w vm option" where
  "hb_vmPushLocalByRef H iLocal s = do {
     let (pTop, s) = hb_stackAllocItem s;
     if iLocal \<ge> 0 then do {
       let pLocal = hb_stackLocalVariable iLocal s;
       x \<leftarrow> item_rd pLocal s;
       if HB_IS_BYREF x \<and> \<not> HB_IS_ENUM x then hb_itemCopy H pTop pLocal s
       else item_wr pTop (I_LocalRef (local_shift iLocal s) (int (baseIdx s) + 1) None) s }
     else do {
       x \<leftarrow> item_rd (hb_stackSelfItem s) s;
       case x of
         I_Block b \<Rightarrow> item_wr pTop (I_LocalRef iLocal (int (baseIdx s) + 1) (Some b)) s
       | _ \<Rightarrow> None } }"

definition static_loc :: "nat \<Rightarrow> loc option" where
  "static_loc uiStatic = (if uiStatic = 0 then None else Some (AtStatic (uiStatic - 1)))"

definition hb_vmPushStatic :: "'w helpers \<Rightarrow> nat \<Rightarrow> 'w vm \<Rightarrow> 'w vm option" where
  "hb_vmPushStatic H uiStatic s = do {
     pStatic \<leftarrow> static_loc uiStatic;
     let (p, s) = hb_stackAllocItem s;
     (q, s) \<leftarrow> unref_if H pStatic s;
     hb_itemCopy H p q s }"

definition hb_vmPushStaticByRef :: "'w helpers \<Rightarrow> nat \<Rightarrow> 'w vm \<Rightarrow> 'w vm option" where
  "hb_vmPushStaticByRef H uiStatic s = do {
     let (pTop, s) = hb_stackAllocItem s;
     pStatic \<leftarrow> static_loc uiStatic;
     x \<leftarrow> item_rd pStatic s;
     if HB_IS_BYREF x \<and> \<not> HB_IS_ENUM x then hb_itemCopy H pTop pStatic s
     else do {
       s \<leftarrow> item_wr pTop (I_LocalRef (int uiStatic - 1) 0 None) s;
       hcall H ''hb_gcRefInc'' [L pStatic] s } }"

fun clear_memoflag :: "item \<Rightarrow> item" where
  "clear_memoflag (I_String m cs) = I_String False cs"
| "clear_memoflag x = x"

definition hb_vmPopLocal :: "'w helpers \<Rightarrow> int \<Rightarrow> 'w vm \<Rightarrow> 'w vm option" where
  "hb_vmPopLocal H iLocal s = do {
     pVal \<leftarrow> hb_stackItemFromTop (- 1) s;
     x \<leftarrow> item_rd pVal s;
     s \<leftarrow> item_wr pVal (clear_memoflag x) s;
     pLocal \<leftarrow> (if iLocal \<ge> 0 then Some (hb_stackLocalVariable iLocal s) else hcbref H iLocal s);
     s \<leftarrow> hcall H ''hb_itemMoveToRef'' [L pLocal, L pVal] s;
     hb_stackDec s }"

definition hb_vmPopStatic :: "'w helpers \<Rightarrow> nat \<Rightarrow> 'w vm \<Rightarrow> 'w vm option" where
  "hb_vmPopStatic H uiStatic s = do {
     pVal \<leftarrow> hb_stackItemFromTop (- 1) s;
     x \<leftarrow> item_rd pVal s;
     s \<leftarrow> item_wr pVal (clear_memoflag x) s;
     pStatic \<leftarrow> static_loc uiStatic;
     s \<leftarrow> hcall H ''hb_itemMoveToRef'' [L pStatic, L pVal] s;
     hb_stackDec s }"

section \<open>Logical operators and conditions\<close>

definition op_NOT :: nat where "op_NOT = 18"
definition op_AND :: nat where "op_AND = 19"
definition op_OR :: nat where "op_OR = 20"

text \<open>The move of the value hb_errRT_BASE_Subst supplies.\<close>

definition move_result :: "'w helpers \<Rightarrow> loc \<Rightarrow> item \<Rightarrow> 'w vm \<Rightarrow> 'w vm option" where
  "move_result H p x s = do { s \<leftarrow> hb_itemClear H p s; item_wr p x s }"

definition hb_vmNot :: "'w helpers \<Rightarrow> 'w vm \<Rightarrow> 'w vm option" where
  "hb_vmNot H s = do {
     pItem \<leftarrow> hb_stackItemFromTop (- 1) s;
     x \<leftarrow> item_rd pItem s;
     case x of
       I_Logical b \<Rightarrow> item_wr pItem (I_Logical (\<not> b)) s
     | _ \<Rightarrow> do {
         (done, s) \<leftarrow> hobjop H op_NOT pItem pItem None s;
         if done then Some s
         else do {
           (r, s) \<leftarrow> herrsubst H 1077 [pItem] s;
           case r of None \<Rightarrow> Some s | Some y \<Rightarrow> move_result H pItem y s } } }"

definition logical_binop ::
  "nat \<Rightarrow> nat \<Rightarrow> (bool \<Rightarrow> bool \<Rightarrow> bool) \<Rightarrow> 'w helpers \<Rightarrow> 'w vm \<Rightarrow> 'w vm option" where
  "logical_binop oper err f H s = do {
     pItem2 \<leftarrow> hb_stackItemFromTop (- 1) s;
     pItem1 \<leftarrow> hb_stackItemFromTop (- 2) s;
     x1 \<leftarrow> item_rd pItem1 s;
     x2 \<leftarrow> item_rd pItem2 s;
     case (x1, x2) of
       (I_Logical a, I_Logical b) \<Rightarrow> do {
         s \<leftarrow> item_wr pItem1 (I_Logical (f a b)) s;
         hb_stackDec s }
     | _ \<Rightarrow> do {
         (done, s) \<leftarrow> hobjop H oper pItem1 pItem1 (Some pItem2) s;
         if done then hb_stackPop H s
         else do {
           (r, s) \<leftarrow> herrsubst H err [pItem1, pItem2] s;
           case r of
             None \<Rightarrow> Some s
           | Some y \<Rightarrow> do { s \<leftarrow> hb_stackPop H s; move_result H pItem1 y s } } } }"

definition hb_vmAnd :: "'w helpers \<Rightarrow> 'w vm \<Rightarrow> 'w vm option" where
  "hb_vmAnd = logical_binop op_AND 1078 (\<lambda>a b. a \<and> b)"

definition hb_vmOr :: "'w helpers \<Rightarrow> 'w vm \<Rightarrow> 'w vm option" where
  "hb_vmOr = logical_binop op_OR 1079 (\<lambda>a b. a \<or> b)"

definition hb_vmPopLogical :: "'w helpers \<Rightarrow> 'w vm \<Rightarrow> (bool \<times> 'w vm) option" where
  "hb_vmPopLogical H s = do {
     pItem \<leftarrow> hb_stackItemFromTop (- 1) s;
     x \<leftarrow> item_rd pItem s;
     case x of
       I_Logical fValue \<Rightarrow> do { s \<leftarrow> hb_stackDec s; Some (fValue, s) }
     | _ \<Rightarrow> do { s \<leftarrow> hcall H ''hb_errRT_BASE'' [N 1066, L pItem] s; Some (False, s) } }"

section \<open>FOR EACH end, item swaps\<close>

fun pop_pairs :: "'w helpers \<Rightarrow> nat \<Rightarrow> 'w vm \<Rightarrow> 'w vm option" where
  "pop_pairs H 0 s = Some s"
| "pop_pairs H (Suc k) s = do {
     s \<leftarrow> hb_stackPop H s; s \<leftarrow> hb_stackPop H s; pop_pairs H k s }"

definition hb_vmEnumEnd :: "'w helpers \<Rightarrow> 'w vm \<Rightarrow> 'w vm option" where
  "hb_vmEnumEnd H s = do {
     p \<leftarrow> hb_stackItemFromTop (- 1) s;
     x \<leftarrow> item_rd p s;
     case x of
       I_Integer iVars l \<Rightarrow> do { s \<leftarrow> hb_stackDec s; pop_pairs H (nat iVars) s }
     | _ \<Rightarrow> None }"

definition hb_itemSwap :: "loc \<Rightarrow> loc \<Rightarrow> 'w vm \<Rightarrow> 'w vm option" where
  "hb_itemSwap p q s = do {
     x \<leftarrow> item_rd p s;
     y \<leftarrow> item_rd q s;
     s \<leftarrow> item_wr q x s;
     item_wr p y s }"

text \<open>\<open>do ... while( iCount-- )\<close>: the body runs \<open>iCount + 1\<close> times.\<close>

fun swap_loop :: "nat \<Rightarrow> int \<Rightarrow> 'w vm \<Rightarrow> 'w vm option" where
  "swap_loop iCount i s = do {
     p \<leftarrow> hb_stackItemFromTop i s;
     q \<leftarrow> hb_stackItemFromTop (i - 1) s;
     s \<leftarrow> hb_itemSwap p q s;
     case iCount of 0 \<Rightarrow> Some s | Suc k \<Rightarrow> swap_loop k (i - 1) s }"

definition hb_vmSwap :: "nat \<Rightarrow> 'w vm \<Rightarrow> 'w vm option" where
  "hb_vmSwap iCount s = swap_loop iCount (- 1) s"

section \<open>SWITCH\<close>

definition hb_vmSwitchGet :: "'w helpers \<Rightarrow> 'w vm \<Rightarrow> (loc option \<times> 'w vm) option" where
  "hb_vmSwitchGet H s = do {
     pSwitch \<leftarrow> hb_stackItemFromTop (- 1) s;
     x \<leftarrow> item_rd pSwitch s;
     if HB_IS_NUMINT x \<or> HB_IS_STRING x then Some (Some pSwitch, s)
     else do {
       (r, s) \<leftarrow> herrsubst H 3104 [pSwitch] s;
       case r of
         None \<Rightarrow> Some (None, s)
       | Some y \<Rightarrow> do { s \<leftarrow> move_result H pSwitch y s; Some (Some pSwitch, s) } } }"

text \<open>The literal of a case entry at \<open>p\<close>: does it match \<open>x\<close>, and its length.\<close>

definition case_literal :: "pcptr \<Rightarrow> item \<Rightarrow> bool \<times> nat" where
  "case_literal p x =
     (if opc p = HB_P_PUSHLONG then
        (HB_IS_NUMINT x \<and> HB_ITEM_GET_NUMINTRAW x = HB_PCODE_MKLONG (pc_at p 1), 5)
      else if opc p = HB_P_PUSHSTRSHORT then
        (case x of
           I_String m cs \<Rightarrow>
             (int (unat (p 1)) - 1 = int (length cs) \<and> bytes_at (pc_at p 2) (length cs) = cs,
              2 + unat (p 1))
         | _ \<Rightarrow> (False, 2 + unat (p 1)))
      else if opc p = HB_P_PUSHNIL then (True, 1)
      else (False, 0))"

text \<open>The jump of a case entry at \<open>p\<close>: the bytes skipped when it is not taken.\<close>

definition case_jump_skip :: "pcptr \<Rightarrow> nat" where
  "case_jump_skip p =
     (if opc p = HB_P_JUMPNEAR then 2
      else if opc p = HB_P_JUMP then 3
      else if opc p = HB_P_JUMPFAR then 4
      else 0)"

definition case_jump_disp :: "pcptr \<Rightarrow> int" where
  "case_jump_disp p =
     (if opc p = HB_P_JUMPNEAR then schar (p 1)
      else if opc p = HB_P_JUMP then HB_PCODE_MKSHORT (pc_at p 1)
      else if opc p = HB_P_JUMPFAR then HB_PCODE_MKINT24 (pc_at p 1)
      else 0)"

fun switch_loop :: "pcptr \<Rightarrow> item \<Rightarrow> nat \<Rightarrow> nat \<Rightarrow> int" where
  "switch_loop m x 0 off = int off"
| "switch_loop m x (Suc k) off =
     (let (fFound, l) = case_literal (pc_at m off) x;
          p = pc_at m (off + l)
      in if fFound then int (off + l) + case_jump_disp p
         else switch_loop m x k (off + l + case_jump_skip p))"

text \<open>hb_vmSwitch: the offset of the pcode to continue with.\<close>

definition hb_vmSwitch ::
  "'w helpers \<Rightarrow> pcptr \<Rightarrow> nat \<Rightarrow> nat \<Rightarrow> 'w vm \<Rightarrow> (int \<times> 'w vm) option" where
  "hb_vmSwitch H m pCode casesCnt s = do {
     (pSwitch, s) \<leftarrow> hb_vmSwitchGet H s;
     r \<leftarrow> (case pSwitch of
             None \<Rightarrow> Some (int pCode)
           | Some p \<Rightarrow> do { x \<leftarrow> item_rd p s; Some (switch_loop m x casesCnt pCode) });
     s \<leftarrow> hb_stackPop H s;
     Some (r, s) }"

end
