(* ===== verification/VmItem.thy ===== *)
theory VmItem
  imports VmOps "HOL-Library.Signed_Division"
begin

text \<open>
  The functions of vm/itemapi.c the operators use: tests of the type of an
  item, numbers read from and put into items, the comparison of strings; and
  the way an operator ends when its arguments have no built-in meaning (an
  operator of an object, then an error that may supply a result).
\<close>

section \<open>Types\<close>

fun HB_IS_INTEGER :: "item \<Rightarrow> bool" where
  "HB_IS_INTEGER (I_Integer v l) = True"
| "HB_IS_INTEGER _ = False"

fun HB_IS_DOUBLE :: "item \<Rightarrow> bool" where
  "HB_IS_DOUBLE (I_Double d l n) = True"
| "HB_IS_DOUBLE _ = False"

definition HB_IS_NUMERIC :: "item \<Rightarrow> bool" where
  "HB_IS_NUMERIC x \<longleftrightarrow> HB_IS_NUMINT x \<or> HB_IS_DOUBLE x"

fun HB_IS_TIMESTAMP :: "item \<Rightarrow> bool" where
  "HB_IS_TIMESTAMP (I_TimeStamp j t) = True"
| "HB_IS_TIMESTAMP _ = False"

fun HB_IS_DATETIME :: "item \<Rightarrow> bool" where
  "HB_IS_DATETIME (I_Date j) = True"
| "HB_IS_DATETIME (I_TimeStamp j t) = True"
| "HB_IS_DATETIME _ = False"

fun HB_IS_POINTER :: "item \<Rightarrow> bool" where
  "HB_IS_POINTER (I_Pointer p) = True"
| "HB_IS_POINTER _ = False"

fun HB_IS_HASH :: "item \<Rightarrow> bool" where
  "HB_IS_HASH (I_Hash h) = True"
| "HB_IS_HASH _ = False"

fun HB_IS_ARRAY :: "item \<Rightarrow> bool" where
  "HB_IS_ARRAY (I_Array a) = True"
| "HB_IS_ARRAY _ = False"

definition HB_IS_HASHKEY :: "item \<Rightarrow> bool" where
  "HB_IS_HASHKEY x \<longleftrightarrow> HB_IS_NUMERIC x \<or> HB_IS_DATETIME x \<or> HB_IS_STRING x \<or> HB_IS_POINTER x"

text \<open>The fields of the date part; a date has the time 0.\<close>

fun dt_julian :: "item \<Rightarrow> int" where
  "dt_julian (I_Date j) = j"
| "dt_julian (I_TimeStamp j t) = j"
| "dt_julian _ = 0"

fun dt_time :: "item \<Rightarrow> int" where
  "dt_time (I_TimeStamp j t) = t"
| "dt_time _ = 0"

section \<open>Widths and limits\<close>

definition HB_LIM_INT :: "int \<Rightarrow> bool" where
  "HB_LIM_INT v \<longleftrightarrow> - (2 ^ 31) \<le> v \<and> v \<le> 2 ^ 31 - 1"

definition HB_LIM_LONG :: "int \<Rightarrow> bool" where
  "HB_LIM_LONG v \<longleftrightarrow> - (2 ^ 63) \<le> v \<and> v \<le> 2 ^ 63 - 1"

definition HB_DBL_LIM_INT :: "64 word \<Rightarrow> bool" where
  "HB_DBL_LIM_INT d \<longleftrightarrow> d_le (d_of_int (- (2 ^ 31))) d \<and> d_le d (d_of_int (2 ^ 31 - 1))"

text \<open>Compared as long double, which holds every 64 bit integer.\<close>

definition HB_DBL_LIM_LONG :: "64 word \<Rightarrow> bool" where
  "HB_DBL_LIM_LONG d \<longleftrightarrow> d_le (d_of_int (- (2 ^ 63))) d \<and> d_lt d (d_of_int (2 ^ 63))"

definition HB_INT_EXPLENGTH :: "int \<Rightarrow> nat" where
  "HB_INT_EXPLENGTH i = (if i < - 999999999 then 20 else 10)"

definition HB_LONG_LENGTH :: "int \<Rightarrow> nat" where
  "HB_LONG_LENGTH l = (if l < - 999999999 \<or> l > 9999999999 then 20 else 10)"

definition HB_LONG_EXPLENGTH :: "int \<Rightarrow> nat" where
  "HB_LONG_EXPLENGTH l = HB_LONG_LENGTH l"

text \<open>A result computed in HB_MAXINT wraps around.\<close>

definition maxint :: "int \<Rightarrow> int" where
  "maxint v = sint (word_of_int v :: 64 word)"

section \<open>Numbers in items\<close>

definition HB_ITEM_PUT_NUMINTRAW :: "int \<Rightarrow> item" where
  "HB_ITEM_PUT_NUMINTRAW v =
     (if HB_LIM_INT v then I_Integer v (HB_INT_EXPLENGTH v) else I_Long v (HB_LONG_EXPLENGTH v))"

definition HB_ITEM_PUT_LONGRAW :: "int \<Rightarrow> item" where
  "HB_ITEM_PUT_LONGRAW v = I_Long v (HB_LONG_LENGTH v)"

text \<open>A double written by its fields: the width follows from the value.\<close>

definition put_double :: "64 word \<Rightarrow> nat \<Rightarrow> item" where
  "put_double d n = I_Double d (HB_DBL_LENGTH d) n"

fun HB_ITEM_GET_NUMDBLRAW :: "item \<Rightarrow> 64 word" where
  "HB_ITEM_GET_NUMDBLRAW (I_Integer v l) = d_of_int v"
| "HB_ITEM_GET_NUMDBLRAW (I_Long v l) = d_of_int v"
| "HB_ITEM_GET_NUMDBLRAW (I_Double d l n) = d"
| "HB_ITEM_GET_NUMDBLRAW _ = 0"

definition hb_itemGetND :: "item \<Rightarrow> 64 word" where
  "hb_itemGetND x = HB_ITEM_GET_NUMDBLRAW x"

fun hb_itemGetNDDec :: "item \<Rightarrow> 64 word \<times> nat" where
  "hb_itemGetNDDec (I_Integer v l) = (d_of_int v, 0)"
| "hb_itemGetNDDec (I_Long v l) = (d_of_int v, 0)"
| "hb_itemGetNDDec (I_Double d l n) = (d, n)"
| "hb_itemGetNDDec _ = (0, 0)"

fun hb_itemGetNL :: "item \<Rightarrow> int" where
  "hb_itemGetNL (I_Integer v l) = v"
| "hb_itemGetNL (I_Long v l) = v"
| "hb_itemGetNL (I_Double d l n) = d_to_long d"
| "hb_itemGetNL _ = 0"

definition hb_itemGetDL :: "item \<Rightarrow> int" where
  "hb_itemGetDL x = dt_julian x"

definition clear_if_complex :: "'w helpers \<Rightarrow> loc \<Rightarrow> 'w vm \<Rightarrow> 'w vm option" where
  "clear_if_complex R p s = do {
     x \<leftarrow> item_rd p s;
     if HB_IS_COMPLEX x then hb_itemClear R p s else Some s }"

text \<open>All functions hb_itemPut... start this way.\<close>

definition item_put :: "'w helpers \<Rightarrow> loc \<Rightarrow> item \<Rightarrow> 'w vm \<Rightarrow> 'w vm option" where
  "item_put R p x s = do { s \<leftarrow> clear_if_complex R p s; item_wr p x s }"

definition hb_itemPutNI :: "'w helpers \<Rightarrow> loc \<Rightarrow> int \<Rightarrow> 'w vm \<Rightarrow> 'w vm option" where
  "hb_itemPutNI R p iNumber s = item_put R p (I_Integer iNumber (HB_INT_LENGTH iNumber)) s"

definition hb_itemPutNLL :: "'w helpers \<Rightarrow> loc \<Rightarrow> int \<Rightarrow> 'w vm \<Rightarrow> 'w vm option" where
  "hb_itemPutNLL R p llNumber s = item_put R p (I_Long llNumber (HB_LONG_LENGTH llNumber)) s"

definition hb_itemPutND :: "'w helpers \<Rightarrow> loc \<Rightarrow> 64 word \<Rightarrow> 'w vm \<Rightarrow> 'w vm option" where
  "hb_itemPutND R p dNumber s = item_put R p (put_double dNumber (hdecimals R s mod 65536)) s"

definition hb_itemPutNDDec :: "'w helpers \<Rightarrow> loc \<Rightarrow> 64 word \<Rightarrow> nat \<Rightarrow> 'w vm \<Rightarrow> 'w vm option" where
  "hb_itemPutNDDec R p dNumber iDec s =
     item_put R p (put_double dNumber
       (if iDec = 255 then hdecimals R s mod 65536 else iDec mod 65536)) s"

definition hb_itemPutNumType ::
  "'w helpers \<Rightarrow> loc \<Rightarrow> 64 word \<Rightarrow> nat \<Rightarrow> bool \<Rightarrow> bool \<Rightarrow> 'w vm \<Rightarrow> 'w vm option" where
  "hb_itemPutNumType R p dNumber iDec dbl1 dbl2 s =
     (if iDec \<noteq> 0 \<or> dbl1 \<or> dbl2 then hb_itemPutNDDec R p dNumber iDec s
      else if HB_DBL_LIM_INT dNumber then hb_itemPutNI R p (d_to_long dNumber) s
      else if HB_DBL_LIM_LONG dNumber then hb_itemPutNLL R p (d_to_long dNumber) s
      else hb_itemPutND R p dNumber s)"

definition hb_itemPutDL :: "'w helpers \<Rightarrow> loc \<Rightarrow> int \<Rightarrow> 'w vm \<Rightarrow> 'w vm option" where
  "hb_itemPutDL R p lJulian s = item_put R p (I_Date lJulian) s"

definition hb_itemPutTDT :: "'w helpers \<Rightarrow> loc \<Rightarrow> int \<Rightarrow> int \<Rightarrow> 'w vm \<Rightarrow> 'w vm option" where
  "hb_itemPutTDT R p lJulian lMilliSec s = item_put R p (I_TimeStamp lJulian lMilliSec) s"

definition hb_vmPushLong :: "int \<Rightarrow> 'w vm \<Rightarrow> 'w vm" where
  "hb_vmPushLong lNumber s = stack_push (HB_ITEM_PUT_LONGRAW lNumber) s"

section \<open>Strings\<close>

text \<open>Trailing spaces of the longer string are dropped, down to the length \<open>n\<close> of the other.\<close>

fun trim_to :: "nat \<Rightarrow> HB_BYTE list \<Rightarrow> HB_BYTE list" where
  "trim_to n cs = (if length cs > n \<and> last cs = 32 then trim_to n (butlast cs) else cs)"

declare trim_to.simps [simp del]

text \<open>The comparison of the bytes both strings have.\<close>

fun byte_cmp :: "HB_BYTE list \<Rightarrow> HB_BYTE list \<Rightarrow> int" where
  "byte_cmp (a # as) (b # bs) = (if a \<noteq> b then (if a < b then - 1 else 1) else byte_cmp as bs)"
| "byte_cmp _ _ = 0"

text \<open>
  \<open>hcdpcmp\<close> is the comparison of the national code page in use, when it has
  one of its own (hb_cdpcmp); \<open>hsetexact\<close> is SET EXACT.
\<close>

definition hb_itemStrCmp ::
  "'w helpers \<Rightarrow> HB_BYTE list \<Rightarrow> HB_BYTE list \<Rightarrow> bool \<Rightarrow> 'w vm \<Rightarrow> int" where
  "hb_itemStrCmp R szFirst szSecond bForceExact s =
     (let trim = (\<not> bForceExact \<and> hsetexact R s);
          szFirst = (if trim then trim_to (length szSecond) szFirst else szFirst);
          szSecond = (if trim then trim_to (length szFirst) szSecond else szSecond);
          bForceExact = (bForceExact \<or> trim);
          nLenFirst = length szFirst; nLenSecond = length szSecond
      in if min nLenFirst nLenSecond \<noteq> 0 then
           (case hcdpcmp R s of
              Some cmp \<Rightarrow> cmp szFirst szSecond bForceExact
            | None \<Rightarrow>
                (let iRet = byte_cmp szFirst szSecond
                 in if iRet = 0 \<and> nLenFirst \<noteq> nLenSecond \<and> (bForceExact \<or> nLenSecond > nLenFirst)
                    then (if nLenFirst < nLenSecond then - 1 else 1) else iRet))
         else if nLenFirst \<noteq> nLenSecond then
           (if bForceExact then (if nLenFirst < nLenSecond then - 1 else 1)
            else if nLenSecond = 0 then 0 else - 1)
         else 0)"

section \<open>Operators of objects, errors\<close>

definition op_PLUS :: nat where "op_PLUS = 0"
definition op_MINUS :: nat where "op_MINUS = 1"
definition op_MULT :: nat where "op_MULT = 2"
definition op_DIVIDE :: nat where "op_DIVIDE = 3"
definition op_MOD :: nat where "op_MOD = 4"
definition op_POWER :: nat where "op_POWER = 5"
definition op_INC :: nat where "op_INC = 6"
definition op_DEC :: nat where "op_DEC = 7"
definition op_EQUAL :: nat where "op_EQUAL = 8"
definition op_EXACTEQUAL :: nat where "op_EXACTEQUAL = 9"
definition op_NOTEQUAL :: nat where "op_NOTEQUAL = 10"
definition op_LESS :: nat where "op_LESS = 11"
definition op_LESSEQUAL :: nat where "op_LESSEQUAL = 12"
definition op_GREATER :: nat where "op_GREATER = 13"
definition op_GREATEREQUAL :: nat where "op_GREATEREQUAL = 14"
definition op_ASSIGN :: nat where "op_ASSIGN = 15"
definition op_INSTRING :: nat where "op_INSTRING = 16"
definition op_INCLUDE :: nat where "op_INCLUDE = 17"

text \<open>hb_errRT_BASE_Subst, and the move of the value it supplies to \<open>p\<close>.\<close>

definition err_subst :: "'w helpers \<Rightarrow> nat \<Rightarrow> loc list \<Rightarrow> loc \<Rightarrow> 'w vm \<Rightarrow> 'w vm option" where
  "err_subst R err args p s = do {
     (r, s) \<leftarrow> herrsubst R err args s;
     case r of None \<Rightarrow> Some s | Some y \<Rightarrow> move_result R p y s }"

text \<open>The same with the second argument popped when there is a value.\<close>

definition err_subst_pop :: "'w helpers \<Rightarrow> nat \<Rightarrow> loc list \<Rightarrow> loc \<Rightarrow> 'w vm \<Rightarrow> 'w vm option" where
  "err_subst_pop R err args p s = do {
     (r, s) \<leftarrow> herrsubst R err args s;
     case r of
       None \<Rightarrow> Some s
     | Some y \<Rightarrow> do { s \<leftarrow> hb_stackPop R s; move_result R p y s } }"

definition arith_object ::
  "'w helpers \<Rightarrow> nat \<Rightarrow> nat \<Rightarrow> loc \<Rightarrow> loc \<Rightarrow> loc \<Rightarrow> 'w vm \<Rightarrow> 'w vm option" where
  "arith_object R oper err pResult pItem1 pItem2 s = do {
     (done, s) \<leftarrow> hobjop R oper pResult pItem1 (Some pItem2) s;
     if done then Some s else err_subst R err [pItem1, pItem2] pResult s }"

definition rel_object ::
  "'w helpers \<Rightarrow> nat \<Rightarrow> nat \<Rightarrow> loc \<Rightarrow> loc \<Rightarrow> 'w vm \<Rightarrow> 'w vm option" where
  "rel_object R oper err pItem1 pItem2 s = do {
     (done, s) \<leftarrow> hobjop R oper pItem1 pItem1 (Some pItem2) s;
     if done then hb_stackPop R s else err_subst_pop R err [pItem1, pItem2] pItem1 s }"

text \<open>A logical result written over the first argument, the second dropped or popped.\<close>

definition put_logical_dec :: "loc \<Rightarrow> bool \<Rightarrow> 'w vm \<Rightarrow> 'w vm option" where
  "put_logical_dec p b s = do { s \<leftarrow> item_wr p (I_Logical b) s; hb_stackDec s }"

definition put_logical_pop :: "'w helpers \<Rightarrow> loc \<Rightarrow> bool \<Rightarrow> 'w vm \<Rightarrow> 'w vm option" where
  "put_logical_pop R p b s = do {
     s \<leftarrow> hb_stackPop R s;
     s \<leftarrow> hb_itemClear R p s;
     item_wr p (I_Logical b) s }"

section \<open>Days as doubles\<close>

definition HB_MILLISECS_PER_DAY :: int where
  "HB_MILLISECS_PER_DAY = 86400000"

definition hb_timeStampPackDT :: "int \<Rightarrow> int \<Rightarrow> 64 word" where
  "hb_timeStampPackDT lJulian lMilliSec =
     d_add (d_of_int lJulian) (d_div (d_of_int lMilliSec) (d_of_int HB_MILLISECS_PER_DAY))"

text \<open>The constant is 0.5.\<close>

definition hb_timeStampUnpackDT :: "64 word \<Rightarrow> int \<times> int" where
  "hb_timeStampUnpackDT dTimeStamp =
     (let llMilliSec = d_to_long (d_add (d_mul dTimeStamp (d_of_int HB_MILLISECS_PER_DAY)) 0x3FE0000000000000)
      in (llMilliSec sdiv HB_MILLISECS_PER_DAY, llMilliSec smod HB_MILLISECS_PER_DAY))"

section \<open>Machines for the examples\<close>

text \<open>
  The rest, when nothing outside these functions is called: reference counts
  are not part of the state, and every other call stops the machine.
\<close>

definition base_helpers :: "'w helpers" where
  "base_helpers = \<lparr>
     hcall = (\<lambda>f as s. if f = ''hb_itemClear'' \<or> f = ''hb_gcRefInc'' then Some s else None),
     hunref = (\<lambda>p s. None), herrsubst = (\<lambda>e ps s. None),
     hobjop = (\<lambda>n p q po s. Some (False, s)), hcbref = (\<lambda>i s. None),
     hdecimals = (\<lambda>s. 2), hpow = (\<lambda>x y. 0), hobjhas = (\<lambda>n x s. False), hsymdyn = (\<lambda>k. None),
     hsetexact = (\<lambda>s. False), hcdpcmp = (\<lambda>s. None), hhashlen = (\<lambda>x s. 0),
     hhashscan = (\<lambda>x y s. False), hisobject = (\<lambda>x s. False), hunrefw = (\<lambda>p q s. None),
     hdynsym = (\<lambda>d. 0), hdecode = (\<lambda>k p n. ([], 0))\<rparr>"

text \<open>A machine with the given stack and nothing else, for the examples.\<close>

definition vm_with :: "item list \<Rightarrow> unit vm" where
  "vm_with xs = \<lparr>stack = xs, baseIdx = 0, paramcnt = 0, paramdeclcnt = 0, retItem = I_Nil,
     recoverBase = 0, actionRequest = 0, withObject = 0, uiLineNo = 0, statics = [], heap = (\<lambda>a. I_Nil), world = ()\<rparr>"

end
