(* ===== verification/ASort.thy ===== *)
theory ASort
  imports VmItem
begin

text \<open>
  The sort of arrays, vm/asort.c (the merge sort; the quick sort is compiled
  with HB_CLP_STRICT only).  The items of the array and the rest of the virtual
  machine are the state a code block may change.  The two buffers of indexes
  are one memory of HB_SIZE cells; pSrc, pBuf and the other pointers into it
  are addresses.
\<close>

section \<open>Comparison\<close>

record 'w sortarr =
  pItems :: "item list"
  svm :: "'w vm"

text \<open>The call of the code block with two items: its value and the state after it.\<close>

type_synonym 'w evalblock = "item \<Rightarrow> item \<Rightarrow> 'w sortarr \<Rightarrow> item \<times> 'w sortarr"

fun hb_itemGetL :: "item \<Rightarrow> bool" where
  "hb_itemGetL (I_Logical b) = b"
| "hb_itemGetL (I_Integer v l) = (v \<noteq> 0)"
| "hb_itemGetL (I_Long v l) = (v \<noteq> 0)"
| "hb_itemGetL (I_Double d l n) = d_ne d (d_of_int 0)"
| "hb_itemGetL _ = False"

fun hb_itemGetNInt :: "item \<Rightarrow> int" where
  "hb_itemGetNInt (I_Long v l) = v"
| "hb_itemGetNInt (I_Integer v l) = v"
| "hb_itemGetNInt (I_Double d l n) = d_to_long d"
| "hb_itemGetNInt _ = 0"

fun HB_IS_BLOCK :: "item \<Rightarrow> bool" where
  "HB_IS_BLOCK (I_Block b) = True"
| "HB_IS_BLOCK _ = False"

definition iWeight :: "item \<Rightarrow> nat" where
  "iWeight x =
     (if HB_IS_ARRAY x then 1
      else if HB_IS_BLOCK x then 2
      else if HB_IS_STRING x then 3
      else if HB_IS_LOGICAL x then 4
      else if HB_IS_DATETIME x then 5
      else if HB_IS_NUMERIC x then 6
      else 7)"

fun str_of :: "item \<Rightarrow> HB_BYTE list" where
  "str_of (I_String m cs) = cs"
| "str_of _ = []"

text \<open>The comparison without a code block.\<close>

definition native_less :: "'w helpers \<Rightarrow> 'w vm \<Rightarrow> item \<Rightarrow> item \<Rightarrow> bool" where
  "native_less R s pItem1 pItem2 =
     (if HB_IS_STRING pItem1 \<and> HB_IS_STRING pItem2
      then hb_itemStrCmp R (str_of pItem1) (str_of pItem2) False s < 0
      else if HB_IS_NUMINT pItem1 \<and> HB_IS_NUMINT pItem2
      then hb_itemGetNInt pItem1 < hb_itemGetNInt pItem2
      else if HB_IS_NUMERIC pItem1 \<and> HB_IS_NUMERIC pItem2
      then d_lt (hb_itemGetND pItem1) (hb_itemGetND pItem2)
      else if HB_IS_TIMESTAMP pItem1 \<and> HB_IS_TIMESTAMP pItem2
      then (if dt_julian pItem1 = dt_julian pItem2 then dt_time pItem1 < dt_time pItem2
            else dt_julian pItem1 < dt_julian pItem2)
      else if HB_IS_DATETIME pItem1 \<and> HB_IS_DATETIME pItem2
      then hb_itemGetDL pItem1 < hb_itemGetDL pItem2
      else if HB_IS_LOGICAL pItem1 \<and> HB_IS_LOGICAL pItem2
      then \<not> hb_itemGetL pItem1 \<and> hb_itemGetL pItem2
      else iWeight pItem1 < iWeight pItem2)"

definition hb_itemIsLess ::
  "'w helpers \<Rightarrow> 'w evalblock option \<Rightarrow> nat \<Rightarrow> nat \<Rightarrow> 'w sortarr \<Rightarrow> bool \<times> 'w sortarr" where
  "hb_itemIsLess R pBlock nItem1 nItem2 a =
     (case pBlock of
        Some eval \<Rightarrow>
          (if length (pItems a) \<le> nItem1 \<or> length (pItems a) \<le> nItem2 then (False, a)
           else (let (pRet, a) = eval (pItems a ! nItem1) (pItems a ! nItem2) a
                 in (if HB_IS_LOGICAL pRet \<or> HB_IS_NUMERIC pRet then hb_itemGetL pRet else True, a)))
      | None \<Rightarrow> (native_less R (svm a) (pItems a ! nItem1) (pItems a ! nItem2), a))"

section \<open>The merge sort of the indexes\<close>

type_synonym cells = "nat \<Rightarrow> nat"

fun copy_up :: "nat \<Rightarrow> nat \<Rightarrow> nat \<Rightarrow> cells \<Rightarrow> cells" where
  "copy_up pDst pPtr 0 m = m"
| "copy_up pDst pPtr (Suc nCnt) m = copy_up (pDst + 1) (pPtr + 1) nCnt (m(pDst := m pPtr))"

text \<open>The merge: the loop over both runs, then the copy of what is left of one of them.\<close>

function merge_runs ::
  "(nat \<Rightarrow> nat \<Rightarrow> 'a \<Rightarrow> bool \<times> 'a) \<Rightarrow> bool \<Rightarrow> nat \<Rightarrow> nat \<Rightarrow> nat \<Rightarrow> nat \<Rightarrow> nat \<Rightarrow> cells \<Rightarrow> 'a
    \<Rightarrow> cells \<times> 'a" where
  "merge_runs isLess fSame pDst pPtr1 nCnt1 pPtr2 nCnt2 m a =
     (if nCnt1 > 0 \<and> nCnt2 > 0 then
        (case isLess (m pPtr2) (m pPtr1) a of
           (True, a) \<Rightarrow>
             merge_runs isLess fSame (pDst + 1) pPtr1 nCnt1 (pPtr2 + 1) (nCnt2 - 1) (m(pDst := m pPtr2)) a
         | (False, a) \<Rightarrow>
             merge_runs isLess fSame (pDst + 1) (pPtr1 + 1) (nCnt1 - 1) pPtr2 nCnt2 (m(pDst := m pPtr1)) a)
      else if nCnt1 > 0 then (copy_up pDst pPtr1 nCnt1 m, a)
      else if nCnt2 > 0 \<and> fSame then (copy_up pDst pPtr2 nCnt2 m, a)
      else (m, a))"
  by pat_completeness auto
termination
  by (relation "measure (\<lambda>(isLess, fSame, pDst, pPtr1, nCnt1, pPtr2, nCnt2, m, a). nCnt1 + nCnt2)") auto

declare merge_runs.simps [simp del]

text \<open>The value tells whether the sorted indexes are in pSrc (or in pBuf).\<close>

function hb_arraySortDO ::
  "(nat \<Rightarrow> nat \<Rightarrow> 'a \<Rightarrow> bool \<times> 'a) \<Rightarrow> nat \<Rightarrow> nat \<Rightarrow> nat \<Rightarrow> cells \<Rightarrow> 'a \<Rightarrow> bool \<times> cells \<times> 'a" where
  "hb_arraySortDO isLess pSrc pBuf nCount m a =
     (if nCount > 1 then
        let nCnt1 = nCount div 2; nCnt2 = nCount - nCnt1;
            (fBuf1, m, a) = hb_arraySortDO isLess pSrc pBuf nCnt1 m a;
            (fBuf2, m, a) = hb_arraySortDO isLess (pSrc + nCnt1) (pBuf + nCnt1) nCnt2 m a;
            pDst = (if fBuf1 then pBuf else pSrc);
            pPtr1 = (if fBuf1 then pSrc else pBuf);
            pPtr2 = (if fBuf2 then pSrc else pBuf) + nCnt1;
            (m, a) = merge_runs isLess (fBuf1 = fBuf2) pDst pPtr1 nCnt1 pPtr2 nCnt2 m a
        in (\<not> fBuf1, m, a)
      else (True, m, a))"
  by pat_completeness auto
termination
  by (relation "measure (\<lambda>(isLess, pSrc, pBuf, nCount, m, a). nCount)") auto

declare hb_arraySortDO.simps [simp del]

section \<open>Moving the items\<close>

fun init_cells :: "nat \<Rightarrow> nat \<Rightarrow> nat \<Rightarrow> cells \<Rightarrow> cells" where
  "init_cells nStart nPos 0 m = m"
| "init_cells nStart nPos (Suc k) m = init_cells nStart (nPos + 1) k (m(nPos := nStart + nPos))"

text \<open>Only the indexes still inside the array are kept.\<close>

fun keep_loop :: "nat \<Rightarrow> nat \<Rightarrow> nat \<Rightarrow> nat \<Rightarrow> nat \<Rightarrow> cells \<Rightarrow> nat \<times> cells" where
  "keep_loop nLen pDest nPos nTo 0 m = (nTo, m)"
| "keep_loop nLen pDest nPos nTo (Suc k) m =
     (if m (pDest + nPos) < nLen
      then keep_loop nLen pDest (nPos + 1) (nTo + 1) k (m(pDest + nTo := m (pDest + nPos)))
      else keep_loop nLen pDest (nPos + 1) nTo k m)"

fun pos_loop :: "nat \<Rightarrow> nat \<Rightarrow> nat \<Rightarrow> nat \<Rightarrow> nat \<Rightarrow> cells \<Rightarrow> cells" where
  "pos_loop nStart pDest pPos nPos 0 m = m"
| "pos_loop nStart pDest pPos nPos (Suc k) m =
     pos_loop nStart pDest pPos (nPos + 1) k (m(pPos + (m (pDest + nPos) - nStart) := nPos))"

definition hb_itemRawSwap :: "nat \<Rightarrow> nat \<Rightarrow> item list \<Rightarrow> item list" where
  "hb_itemRawSwap i j xs = xs[i := xs ! j, j := xs ! i]"

fun raw_swaps ::
  "nat \<Rightarrow> nat \<Rightarrow> nat \<Rightarrow> nat \<Rightarrow> nat \<Rightarrow> cells \<Rightarrow> item list \<Rightarrow> cells \<times> item list" where
  "raw_swaps nStart pDest pPos nPos 0 m xs = (m, xs)"
| "raw_swaps nStart pDest pPos nPos (Suc k) m xs =
     (if nPos + nStart \<noteq> m (pDest + nPos) then
        let xs = hb_itemRawSwap (nPos + nStart) (m (pDest + nPos)) xs;
            m = m(pDest + m (pPos + nPos) := m (pDest + nPos));
            m = m(pPos + (m (pDest + nPos) - nStart) := m (pPos + nPos))
        in raw_swaps nStart pDest pPos (nPos + 1) k m xs
      else raw_swaps nStart pDest pPos (nPos + 1) k m xs)"

text \<open>The buffer is at address 0.\<close>

definition hb_arraySortStart ::
  "'w helpers \<Rightarrow> 'w evalblock option \<Rightarrow> nat \<Rightarrow> nat \<Rightarrow> 'w sortarr \<Rightarrow> 'w sortarr" where
  "hb_arraySortStart R pBlock nStart nCount a =
     (let m = init_cells nStart 0 nCount (\<lambda>_. 0);
          (fSrc, m, a) = hb_arraySortDO (hb_itemIsLess R pBlock) 0 nCount nCount m a;
          pDest = (if fSrc then 0 else nCount);
          pPos = (if fSrc then nCount else 0);
          nLen = length (pItems a);
          (nCount, m) =
            (if nStart + nCount > nLen
             then (if nLen > nStart then keep_loop nLen pDest 0 0 nCount m else (0, m))
             else (nCount, m));
          m = pos_loop nStart pDest pPos 0 nCount m
      in a\<lparr>pItems := snd (raw_swaps nStart pDest pPos 0 nCount m (pItems a))\<rparr>)"

text \<open>The optional arguments nStart and nCount, as the function takes them.\<close>

definition hb_arraySort ::
  "'w helpers \<Rightarrow> nat option \<Rightarrow> nat option \<Rightarrow> 'w evalblock option \<Rightarrow> 'w sortarr \<Rightarrow> 'w sortarr" where
  "hb_arraySort R pnStart pnCount pBlock a =
     (let nLen = length (pItems a);
          nStart = (case pnStart of Some n \<Rightarrow> (if n \<ge> 1 then n else 1) | None \<Rightarrow> 1)
      in if nStart \<le> nLen then
           let nCount = (case pnCount of
                 Some n \<Rightarrow> (if n \<ge> 1 \<and> n \<le> nLen - nStart then n else nLen - nStart + 1)
               | None \<Rightarrow> nLen - nStart + 1);
               nCount = (if nStart + nCount > nLen then nLen - nStart + 1 else nCount)
           in if nCount > 1 then hb_arraySortStart R pBlock (nStart - 1) nCount a else a
         else a)"

end
