(* ===== verification/StrOrder.thy ===== *)
theory StrOrder
  imports VmItem "HOL-Library.List_Lexorder" "HOL-Library.Sublist"
begin

text \<open>
  The comparison of strings, hb_itemStrCmp of vm/itemapi.c, as the order of
  lists of bytes (when no national code page sorts).
\<close>

declare One_nat_def [simp del]

definition str_key :: "HB_BYTE list \<Rightarrow> int list" where
  "str_key cs = map uint cs"

lemma str_key_simps [simp]:
  "str_key [] = []" "str_key (c # cs) = uint c # str_key cs" "length (str_key cs) = length cs"
  by (simp_all add: str_key_def)

lemma byte_uint [simp]: "uint a = uint b \<longleftrightarrow> a = (b :: 8 word)"
  by (simp add: word_uint_eq_iff)

lemma str_key_Nil [simp]: "str_key cs = [] \<longleftrightarrow> cs = []"
  by (simp add: str_key_def)

lemma Nil_less_list [simp]: "[] < xs \<longleftrightarrow> (xs :: int list) \<noteq> []"
  by (cases xs) simp_all

lemma str_key_inj: "str_key a = str_key b \<longleftrightarrow> a = b"
proof (induction a arbitrary: b)
  case Nil
  then show ?case by (cases b) simp_all
next
  case (Cons c a)
  then show ?case by (cases b) simp_all
qed

lemma byte_cmp_lex:
  "byte_cmp a b < 0 \<or> (byte_cmp a b = 0 \<and> length a < length b) \<longleftrightarrow> str_key a < str_key b"
  "byte_cmp a b > 0 \<or> (byte_cmp a b = 0 \<and> length a > length b) \<longleftrightarrow> str_key b < str_key a"
  by (induction a b rule: byte_cmp.induct) (auto simp: word_less_def not_less_iff_gr_or_eq)

lemma byte_cmp_range: "byte_cmp a b \<in> {- 1, 0, 1}"
  by (induction a b rule: byte_cmp.induct) auto

lemma byte_cmp_prefix: "byte_cmp a b = 0 \<longleftrightarrow> prefix a b \<or> prefix b a"
  by (induction a b rule: byte_cmp.induct) auto

lemma strcmp_cases:
  assumes "hcdpcmp R s = None" "bExact \<or> \<not> hsetexact R s"
  shows "hb_itemStrCmp R a b bExact s =
     (if byte_cmp a b \<noteq> 0 then byte_cmp a b
      else if length a < length b then - 1 else if length b < length a \<and> bExact then 1 else 0)"
proof -
  have t: "(\<not> bExact \<and> hsetexact R s) = False" using assms(2) by auto
  have e: "a = [] \<or> b = [] \<Longrightarrow> byte_cmp a b = 0" by auto
  show ?thesis unfolding hb_itemStrCmp_def t Let_def assms(1)
    using e by (cases "a = []"; cases "b = []") simp_all
qed

lemma strcmp_exact:
  assumes "hcdpcmp R s = None"
  shows "hb_itemStrCmp R a b True s < 0 \<longleftrightarrow> str_key a < str_key b"
    "hb_itemStrCmp R a b True s > 0 \<longleftrightarrow> str_key b < str_key a"
    "hb_itemStrCmp R a b True s = 0 \<longleftrightarrow> a = b"
proof -
  show 1: "hb_itemStrCmp R a b True s < 0 \<longleftrightarrow> str_key a < str_key b"
    unfolding byte_cmp_lex(1)[symmetric] using assms byte_cmp_range[of a b] by (auto simp: strcmp_cases)
  show 2: "hb_itemStrCmp R a b True s > 0 \<longleftrightarrow> str_key b < str_key a"
    unfolding byte_cmp_lex(2)[of a b, symmetric] using assms byte_cmp_range[of a b] by (auto simp: strcmp_cases)
  show "hb_itemStrCmp R a b True s = 0 \<longleftrightarrow> a = b"
    using 1 2 str_key_inj[of a b] by (metis less_irrefl linorder_neqE)
qed

lemma strcmp_soft:
  assumes "hcdpcmp R s = None" "\<not> hsetexact R s"
  shows "hb_itemStrCmp R a b False s < 0 \<longleftrightarrow> str_key a < str_key b"
    "hb_itemStrCmp R a b False s = 0 \<longleftrightarrow> prefix b a"
proof -
  show "hb_itemStrCmp R a b False s < 0 \<longleftrightarrow> str_key a < str_key b"
    unfolding byte_cmp_lex(1)[symmetric] using assms byte_cmp_range[of a b] by (auto simp: strcmp_cases)
  have "prefix a b \<Longrightarrow> length b \<le> length a \<Longrightarrow> a = b" by (auto simp: prefix_def)
  then show "hb_itemStrCmp R a b False s = 0 \<longleftrightarrow> prefix b a"
    using assms byte_cmp_prefix[of a b] prefix_length_le[of b a] by (auto simp: strcmp_cases)
qed
text \<open>C26.
  With a forced exact comparison the sign of the result of hb_itemStrCmp is the
  lexicographic order of the bytes, with 0 for equal strings only; the
  comparison of the operators, with SET EXACT OFF, is 0 exactly when the second
  string is a prefix of the first, and negative in the same cases.
\<close>

theorem hb_itemStrCmp_order:
  assumes "hcdpcmp R s = None"
  shows "(hb_itemStrCmp R a b True s < 0 \<longleftrightarrow> map uint a < map uint b) \<and>
    (hb_itemStrCmp R a b True s = 0 \<longleftrightarrow> a = b) \<and>
    (\<not> hsetexact R s \<longrightarrow>
      (hb_itemStrCmp R a b False s = 0 \<longleftrightarrow> prefix b a) \<and>
      (hb_itemStrCmp R a b False s < 0 \<longleftrightarrow> map uint a < map uint b))"
  using strcmp_exact[OF assms] strcmp_soft[OF assms] by (simp add: str_key_def)

lemma hb_itemStrCmp_order_witness:
  "hb_itemStrCmp base_helpers [65, 66] [65] False (vm_with []) = 0"
  using hb_itemStrCmp_order[of base_helpers "vm_with []" "[65, 66]" "[65]"]
  by (simp add: base_helpers_def)

end
