(* ===== verification/ASortFacts.thy ===== *)
theory ASortFacts
  imports ASort StrOrder "HOL-Library.Multiset" "HOL-Library.Product_Lexorder"
begin

text \<open>
  The sort of vm/asort.c is a merge sort: with its two buffers and the runs
  that stay where they are it computes the same sequence of comparisons and the
  same order as the merge sort on lists below, whatever the code block does to
  the array meanwhile; and the loop that moves the items applies that order.
  Without a code block the comparison is a strict weak order of the items that
  are neither doubles nor timestamps (\<open>weak_order\<close>), so the result is
  sorted and stable.
\<close>

declare One_nat_def [simp del]

section \<open>The merge sort on lists\<close>

fun merge_spec :: "(nat \<Rightarrow> nat \<Rightarrow> 'a \<Rightarrow> bool \<times> 'a) \<Rightarrow> nat list \<Rightarrow> nat list \<Rightarrow> 'a \<Rightarrow> nat list \<times> 'a" where
  "merge_spec isLess (x # xs) (y # ys) a =
     (case isLess y x a of
        (True, a) \<Rightarrow> (case merge_spec isLess (x # xs) ys a of (zs, a) \<Rightarrow> (y # zs, a))
      | (False, a) \<Rightarrow> (case merge_spec isLess xs (y # ys) a of (zs, a) \<Rightarrow> (x # zs, a)))"
| "merge_spec isLess xs ys a = (xs @ ys, a)"

function sort_spec :: "(nat \<Rightarrow> nat \<Rightarrow> 'a \<Rightarrow> bool \<times> 'a) \<Rightarrow> nat list \<Rightarrow> 'a \<Rightarrow> nat list \<times> 'a" where
  "sort_spec isLess xs a =
     (if length xs > 1 then
        (case sort_spec isLess (take (length xs div 2) xs) a of
           (l, a) \<Rightarrow> (case sort_spec isLess (drop (length xs div 2) xs) a of (r, a) \<Rightarrow> merge_spec isLess l r a))
      else (xs, a))"
  by pat_completeness auto
termination by (relation "measure (\<lambda>(isLess, xs, a). length xs)") auto

declare sort_spec.simps [simp del]

definition region :: "cells \<Rightarrow> nat \<Rightarrow> nat \<Rightarrow> nat list" where
  "region m p n = map m [p..<p + n]"

lemma region_0 [simp]: "region m p 0 = []"
  by (simp add: region_def)

lemma length_region [simp]: "length (region m p n) = n"
  by (simp add: region_def)

lemma region_Cons: "0 < n \<Longrightarrow> region m p n = m p # region m (p + 1) (n - 1)"
  by (simp add: region_def upt_conv_Cons Suc_eq_plus1)

lemma region_cong: "(\<And>i. p \<le> i \<Longrightarrow> i < p + n \<Longrightarrow> m' i = m i) \<Longrightarrow> region m' p n = region m p n"
  by (simp add: region_def)

lemma region_append: "region m p (n + k) = region m p n @ region m (p + n) k"
  using upt_add_eq_append[of p "p + n" k] by (simp add: region_def add.assoc)

lemma region_nth: "i < n \<Longrightarrow> region m p n ! i = m (p + i)"
  by (simp add: region_def)

lemma copy_up_region:
  assumes "{pDst..<pDst + n} \<inter> {p..<p + n} = {}"
  shows "region (copy_up pDst p n m) pDst n = region m p n \<and>
    (\<forall>i. i \<notin> {pDst..<pDst + n} \<longrightarrow> copy_up pDst p n m i = m i)"
  using assms
proof (induction n arbitrary: pDst p m)
  case (Suc n)
  define m1 where "m1 = m(pDst := m p)"
  have m1: "m1 pDst = m p" "\<And>i. i \<noteq> pDst \<Longrightarrow> m1 i = m i" by (simp_all add: m1_def)
  have "{pDst + 1..<pDst + 1 + n} \<inter> {p + 1..<p + 1 + n} = {}" using Suc.prems by auto
  note IH = Suc.IH[OF this, of m1]
  have "region m1 (p + 1) n = region m (p + 1) n" using Suc.prems m1(2) by (intro region_cong) auto
  with IH m1 show ?case by (auto simp: region_Cons m1_def[symmetric])
qed simp

lemma merge_step:
  assumes "{p1..<p1 + n1} \<inter> {d..<d + n1 + n2} = {}" "0 < n1" "0 < n2"
    and "if fSame then {p2..<p2 + n2} \<inter> {d..<d + n1 + n2} = {} else p2 = d + n1"
    and "\<forall>i. i \<noteq> d \<longrightarrow> m1 i = m i"
  shows "region m1 p1 n1 = region m p1 n1"
    "region m1 (p1 + 1) (n1 - 1) = region m (p1 + 1) (n1 - 1)"
    "region m1 p2 n2 = region m p2 n2"
    "region m1 (p2 + 1) (n2 - 1) = region m (p2 + 1) (n2 - 1)"
    "{p1..<p1 + n1} \<inter> {d + 1..<d + 1 + n1 + (n2 - 1)} = {}"
    "{p1 + 1..<p1 + 1 + (n1 - 1)} \<inter> {d + 1..<d + 1 + (n1 - 1) + n2} = {}"
    "if fSame then {p2 + 1..<p2 + 1 + (n2 - 1)} \<inter> {d + 1..<d + 1 + n1 + (n2 - 1)} = {} else p2 + 1 = d + 1 + n1"
    "if fSame then {p2..<p2 + n2} \<inter> {d + 1..<d + 1 + (n1 - 1) + n2} = {} else p2 = d + 1 + (n1 - 1)"
  using assms by (auto intro!: region_cong split: if_splits)

lemma merge_out:
  assumes "m1 d = v" "\<forall>i. i \<noteq> d \<longrightarrow> m1 i = m i" "0 < n" "\<forall>i. i \<notin> {d + 1..<d + 1 + (n - 1)} \<longrightarrow> m' i = m1 i"
  shows "region m' d n = v # region m' (d + 1) (n - 1)" "i \<notin> {d..<d + n} \<Longrightarrow> m' i = m i"
  using assms by (auto simp: region_Cons)

lemma merge_runs_spec:
  assumes "{p1..<p1 + n1} \<inter> {d..<d + n1 + n2} = {}"
    and "if fSame then {p2..<p2 + n2} \<inter> {d..<d + n1 + n2} = {} else p2 = d + n1"
    and "merge_runs isLess fSame d p1 n1 p2 n2 m a = (m', a')"
  shows "merge_spec isLess (region m p1 n1) (region m p2 n2) a = (region m' d (n1 + n2), a') \<and>
    (\<forall>i. i \<notin> {d..<d + n1 + n2} \<longrightarrow> m' i = m i)"
  using assms
proof (induction isLess fSame d p1 n1 p2 n2 m a arbitrary: m' a' rule: merge_runs.induct)
  case (1 isLess fSame d p1 n1 p2 n2 m a)
  note dj = "1.prems"(1,2) and run = "1.prems"(3)
  consider (both) "0 < n1" "0 < n2" | (left) "0 < n1" "n2 = 0" | (right) "n1 = 0" by linarith
  then show ?case
  proof cases
    case both
    have c: "0 < n1 \<and> 0 < n2" using both by simp
    have r: "region m p1 n1 = m p1 # region m (p1 + 1) (n1 - 1)" "region m p2 n2 = m p2 # region m (p2 + 1) (n2 - 1)"
      using both by (simp_all add: region_Cons)
    show ?thesis
    proof (cases "isLess (m p2) (m p1) a")
      case (Pair b a1)
      show ?thesis
      proof (cases b)
        case True
        define m1 where "m1 = m(d := m p2)"
        have m1: "m1 d = m p2" "\<forall>i. i \<noteq> d \<longrightarrow> m1 i = m i" by (simp_all add: m1_def)
        note st = merge_step[OF dj(1) both dj(2) m1(2)]
        have l: "isLess (m p2) (m p1) a = (True, a1)" using Pair True by simp
        have "merge_runs isLess fSame (d + 1) p1 n1 (p2 + 1) (n2 - 1) m1 a1 = (m', a')"
          using run c l by (simp add: m1_def merge_runs.simps[of _ _ d])
        note IH = "1.IH"(1)[OF c l[symmetric] refl st(5,7), folded m1_def, OF this]
        have n: "0 < n1 + n2" "n1 + (n2 - 1) = n1 + n2 - 1" "d + 1 + n1 + (n2 - 1) = d + 1 + (n1 + n2 - 1)" using c by auto
        note o = merge_out[OF m1 n(1) conjunct2[OF IH, unfolded n]]
        show ?thesis using IH l n o by (simp add: r st(1,4) add.assoc)
      next
        case False
        define m1 where "m1 = m(d := m p1)"
        have m1: "m1 d = m p1" "\<forall>i. i \<noteq> d \<longrightarrow> m1 i = m i" by (simp_all add: m1_def)
        note st = merge_step[OF dj(1) both dj(2) m1(2)]
        have l: "isLess (m p2) (m p1) a = (False, a1)" using Pair False by simp
        have "merge_runs isLess fSame (d + 1) (p1 + 1) (n1 - 1) p2 n2 m1 a1 = (m', a')"
          using run c l by (simp add: m1_def merge_runs.simps[of _ _ d])
        note IH = "1.IH"(2)[OF c l[symmetric] refl st(6,8), folded m1_def, OF this]
        have n: "0 < n1 + n2" "n1 - 1 + n2 = n1 + n2 - 1" "d + 1 + (n1 - 1) + n2 = d + 1 + (n1 + n2 - 1)" using c by auto
        note o = merge_out[OF m1 n(1) conjunct2[OF IH, unfolded n]]
        show ?thesis using IH l n o by (simp add: r st(2,3) add.assoc)
      qed
    qed
  next
    case left
    then have "m' = copy_up d p1 n1 m" "a' = a" using run by (simp_all add: merge_runs.simps[of _ _ d])
    then show ?thesis using copy_up_region[of d n1 p1 m] dj(1) left by (cases "region m p1 n1") (auto simp: Int_commute)
  next
    case right
    then show ?thesis using run dj copy_up_region[of d n2 p2 m] 
      by (cases "n2 = 0"; cases fSame) (auto simp: merge_runs.simps[of _ _ d] Int_commute)
  qed
qed

section \<open>Both buffers\<close>

lemma region_take_drop: "n1 \<le> n \<Longrightarrow> take n1 (region m p n) = region m p n1 \<and> drop n1 (region m p n) = region m (p + n1) (n - n1)"
  using region_append[of m p n1 "n - n1"] by simp

lemma hb_arraySortDO_region:
  assumes "{pSrc..<pSrc + n} \<inter> {pBuf..<pBuf + n} = {}"
    and "hb_arraySortDO isLess pSrc pBuf n m a = (f, m', a')"
  shows "sort_spec isLess (region m pSrc n) a = (region m' (if f then pSrc else pBuf) n, a') \<and>
    (\<forall>i. i \<notin> {pSrc..<pSrc + n} \<union> {pBuf..<pBuf + n} \<longrightarrow> m' i = m i)"
  using assms
proof (induction isLess pSrc pBuf n m a arbitrary: f m' a' rule: hb_arraySortDO.induct)
  case (1 isLess pSrc pBuf n m a)
  note dj = "1.prems"(1) and run = "1.prems"(2)
  show ?case
  proof (cases "n > 1")
    case False
    then have "f = True" "m' = m" "a' = a" using run by (simp_all add: hb_arraySortDO.simps[of _ _ _ n])
    then show ?thesis using False by (simp add: sort_spec.simps)
  next
    case True
    define n1 where "n1 = n div 2"
    have n: "n1 + (n - n1) = n" "n1 \<le> n" "n1 < n" "0 < n1" using True by (auto simp: n1_def)
    obtain f1 m1 a1 where r1: "hb_arraySortDO isLess pSrc pBuf n1 m a = (f1, m1, a1)" using prod_cases3 by blast
    obtain f2 m2 a2 where r2: "hb_arraySortDO isLess (pSrc + n1) (pBuf + n1) (n - n1) m1 a1 = (f2, m2, a2)"
      using prod_cases3 by blast
    let ?d = "if f1 then pBuf else pSrc" and ?p1 = "if f1 then pSrc else pBuf" and ?p2 = "(if f2 then pSrc else pBuf) + n1"
    have r3: "merge_runs isLess (f1 = f2) ?d ?p1 n1 ?p2 (n - n1) m2 a2 = (m', a')" and f: "f = (\<not> f1)"
      using run True r1 r2 by (simp_all add: hb_arraySortDO.simps[of _ _ _ n] Let_def n1_def[symmetric] split: prod.splits)
    have d1: "{pSrc..<pSrc + n1} \<inter> {pBuf..<pBuf + n1} = {}"
      "{pSrc + n1..<pSrc + n1 + (n - n1)} \<inter> {pBuf + n1..<pBuf + n1 + (n - n1)} = {}" using dj n by auto
    note IH1 = "1.IH"(1)[OF True n1_def refl d1(1) r1]
    note IH2 = "1.IH"(2)[OF True n1_def refl refl r1[symmetric] refl d1(2) r2]
    have k1: "region m1 (pSrc + n1) (n - n1) = region m (pSrc + n1) (n - n1)"
      using IH1 dj n by (intro region_cong) auto
    have k2: "region m2 ?p1 n1 = region m1 ?p1 n1"
      using IH2 dj n by (cases f1; intro region_cong) auto
    have s: "sort_spec isLess (region m pSrc n) a = merge_spec isLess (region m2 ?p1 n1) (region m2 ?p2 (n - n1)) a2"
      using True IH1 IH2 k1 k2 region_take_drop[OF n(2), of m pSrc]
      by (simp add: sort_spec.simps[of _ "region m pSrc n"] n1_def[symmetric])
    have d3: "{?p1..<?p1 + n1} \<inter> {?d..<?d + n1 + (n - n1)} = {}"
      "if f1 = f2 then {?p2..<?p2 + (n - n1)} \<inter> {?d..<?d + n1 + (n - n1)} = {} else ?p2 = ?d + n1"
      using dj n by auto
    note M = merge_runs_spec[OF d3 r3]
    have "\<forall>i. i \<notin> {pSrc..<pSrc + n} \<union> {pBuf..<pBuf + n} \<longrightarrow> m' i = m i"
    proof (intro allI impI)
      fix i assume i: "i \<notin> {pSrc..<pSrc + n} \<union> {pBuf..<pBuf + n}"
      then have "m' i = m2 i" using M n by auto
      also have "\<dots> = m1 i" using IH2 i n by auto
      also have "\<dots> = m i" using IH1 i n by auto
      finally show "m' i = m i" .
    qed
    then show ?thesis using s M f n by simp
  qed
qed

section \<open>The loop that moves the items\<close>

definition swap_inv :: "nat \<Rightarrow> nat \<Rightarrow> nat \<Rightarrow> nat \<Rightarrow> nat \<Rightarrow> cells \<Rightarrow> bool" where
  "swap_inv nStart pDest pPos p nT m \<longleftrightarrow>
     (\<forall>j. p \<le> j \<and> j < nT \<longrightarrow> nStart + p \<le> m (pDest + j) \<and> m (pDest + j) < nStart + nT \<and>
        m (pPos + (m (pDest + j) - nStart)) = j)"

lemma swap_invD:
  assumes "swap_inv nStart pDest pPos p nT m" "p \<le> j" "j < nT"
  shows "nStart + p \<le> m (pDest + j)" "m (pDest + j) < nStart + nT" "m (pPos + (m (pDest + j) - nStart)) = j"
  using assms by (simp_all add: swap_inv_def)

text \<open>The indexes from \<open>p\<close> on are a permutation, so some cell holds \<open>nStart + p\<close>.\<close>

lemma swap_inv_first:
  assumes I: "swap_inv nStart pDest pPos p nT m" and "p < nT"
  shows "p \<le> m (pPos + p)" "m (pPos + p) < nT" "m (pDest + m (pPos + p)) = nStart + p"
proof -
  let ?f = "\<lambda>j. m (pDest + j) - nStart"
  have inj: "inj_on ?f {p..<nT}"
  proof (rule inj_onI)
    fix i j assume ij: "i \<in> {p..<nT}" "j \<in> {p..<nT}" and e: "?f i = ?f j"
    have "i = m (pPos + ?f i)" using ij by (intro swap_invD(3)[OF I, symmetric]) auto
    also have "\<dots> = m (pPos + ?f j)" by (simp only: e)
    also have "\<dots> = j" using ij by (intro swap_invD(3)[OF I]) auto
    finally show "i = j" .
  qed
  have sub: "?f ` {p..<nT} \<subseteq> {p..<nT}"
  proof
    fix x assume "x \<in> ?f ` {p..<nT}"
    then obtain j where "p \<le> j" "j < nT" "x = ?f j" by auto
    with swap_invD(1,2)[OF I, of j] show "x \<in> {p..<nT}" by auto
  qed
  have "?f ` {p..<nT} = {p..<nT}" by (rule endo_inj_surj[OF _ sub inj]) simp
  moreover have "p \<in> {p..<nT}" using assms(2) by simp
  ultimately obtain j where j: "p \<le> j" "j < nT" "?f j = p" by (metis (no_types, lifting) atLeastLessThan_iff imageE)
  then have "m (pDest + j) = nStart + p" using swap_invD(1)[OF I, of j] by simp
  moreover have "m (pPos + p) = j" using swap_invD(3)[OF I j(1,2)] j(3) by simp
  ultimately show "p \<le> m (pPos + p)" "m (pPos + p) < nT" "m (pDest + m (pPos + p)) = nStart + p" using j by simp_all
qed

lemma raw_swaps_spec:
  assumes "{pDest..<pDest + (p + k)} \<inter> {pPos..<pPos + (p + k)} = {}"
    and "swap_inv nStart pDest pPos p (p + k) m" "nStart + (p + k) \<le> length xs"
    and "raw_swaps nStart pDest pPos p k m xs = (m', xs')"
  shows "length xs' = length xs \<and> (\<forall>j. p \<le> j \<and> j < p + k \<longrightarrow> xs' ! (nStart + j) = xs ! m (pDest + j)) \<and>
    (\<forall>i. i < nStart + p \<or> nStart + (p + k) \<le> i \<longrightarrow> xs' ! i = xs ! i)"
  using assms
proof (induction k arbitrary: p m xs)
  case (Suc k)
  let ?nT = "p + Suc k"
  have nT: "p < ?nT" "p + 1 + k = ?nT" by simp_all
  note dj = Suc.prems(1) and I = Suc.prems(2) and len = Suc.prems(3) and run = Suc.prems(4)
  note D = swap_invD[OF I] and F = swap_inv_first[OF I nT(1)]
  show ?case
  proof (cases "m (pDest + p) = nStart + p")
    case True
    have I1: "swap_inv nStart pDest pPos (p + 1) ?nT m"
      unfolding swap_inv_def
    proof (intro allI impI)
      fix j assume j: "p + 1 \<le> j \<and> j < ?nT"
      have "m (pDest + j) \<noteq> nStart + p"
      proof
        assume "m (pDest + j) = nStart + p"
        then have "j = p" using D(3)[of j] D(3)[of p] True j by simp
        with j show False by simp
      qed
      then show "nStart + (p + 1) \<le> m (pDest + j) \<and> m (pDest + j) < nStart + ?nT \<and> m (pPos + (m (pDest + j) - nStart)) = j"
        using D[of j] j by simp
    qed
    have "raw_swaps nStart pDest pPos (p + 1) k m xs = (m', xs')" using run True by (simp add: add.commute)
    from Suc.IH[of "p + 1" m xs, unfolded nT(2), OF dj I1 len this]
    have IH: "length xs' = length xs" "\<And>j. p + 1 \<le> j \<Longrightarrow> j < ?nT \<Longrightarrow> xs' ! (nStart + j) = xs ! m (pDest + j)"
      "\<And>i. i < nStart + (p + 1) \<or> nStart + ?nT \<le> i \<Longrightarrow> xs' ! i = xs ! i" by blast+
    have "xs' ! (nStart + j) = xs ! m (pDest + j)" if "p \<le> j" "j < ?nT" for j
    proof (cases "j = p")
      case True
      then show ?thesis using IH(3)[of "nStart + p"] \<open>m (pDest + p) = nStart + p\<close> by simp
    next
      case False
      then show ?thesis using that IH(2)[of j] by simp
    qed
    then show ?thesis using IH(1,3) by simp
  next
    case False
    define q where "q = m (pPos + p)"
    define d where "d = m (pDest + p)"
    have q: "p \<le> q" "q < ?nT" "m (pDest + q) = nStart + p" using F by (simp_all add: q_def)
    have qp: "q \<noteq> p" using False q(3) by auto
    have d: "nStart + p < d" "d < nStart + ?nT" "m (pPos + (d - nStart)) = p"
      using D[of p] False by (auto simp: d_def)
    define m2 where "m2 = m(pDest + q := d, pPos + (d - nStart) := q)"
    have ne: "pDest + i \<noteq> pPos + j" if "i < ?nT" "j < ?nT" for i j
    proof
      assume "pDest + i = pPos + j"
      moreover have "pDest + i \<in> {pDest..<pDest + ?nT}" "pPos + j \<in> {pPos..<pPos + ?nT}" using that by auto
      ultimately show False using dj by auto
    qed
    have dd: "d - nStart < ?nT" "p < ?nT" using d by auto
    have m2D: "m2 (pDest + j) = (if j = q then d else m (pDest + j))" if "j < ?nT" for j
      using ne[OF that dd(1)] by (simp add: m2_def)
    have m2P: "m2 (pPos + i) = (if i = d - nStart then q else m (pPos + i))" if "i < ?nT" for i
      using ne[OF q(2) that] by (simp add: m2_def)
    have I1: "swap_inv nStart pDest pPos (p + 1) ?nT m2"
      unfolding swap_inv_def
    proof (intro allI impI)
      fix j assume j: "p + 1 \<le> j \<and> j < ?nT"
      show "nStart + (p + 1) \<le> m2 (pDest + j) \<and> m2 (pDest + j) < nStart + ?nT \<and> m2 (pPos + (m2 (pDest + j) - nStart)) = j"
      proof (cases "j = q")
        case True
        then show ?thesis using j d m2D[OF q(2)] m2P[OF dd(1)] by simp
      next
        case False
        have "m (pDest + j) \<noteq> nStart + p" using D(3)[of j] q j False by (auto simp: q_def)
        moreover have "m (pDest + j) \<noteq> d" using D(3)[of j] d(3) j by auto
        ultimately show ?thesis using D[of j] j d False m2P[of "m (pDest + j) - nStart"] by (auto simp: m2D)
      qed
    qed
    let ?xs = "hb_itemRawSwap (p + nStart) d xs"
    have "m2 = (m(pDest + m (pPos + p) := m (pDest + p)))
        (pPos + ((m(pDest + m (pPos + p) := m (pDest + p))) (pDest + p) - nStart) :=
          (m(pDest + m (pPos + p) := m (pDest + p))) (pPos + p))"
      using qp ne[OF q(2) dd(2)] by (auto simp: m2_def q_def d_def fun_eq_iff)
    then have "raw_swaps nStart pDest pPos (p + 1) k m2 ?xs = (m', xs')"
      using run False by (simp add: d_def Let_def add.commute)
    from this have run1: "raw_swaps nStart pDest pPos (p + 1) k m2 ?xs = (m', xs')" .
    have "nStart + ?nT \<le> length ?xs" using len by (simp add: hb_itemRawSwap_def)
    from Suc.IH[of "p + 1" m2 ?xs, unfolded nT(2), OF dj I1 this run1]
    have IH: "length xs' = length ?xs" "\<And>j. p + 1 \<le> j \<Longrightarrow> j < ?nT \<Longrightarrow> xs' ! (nStart + j) = ?xs ! m2 (pDest + j)"
      "\<And>i. i < nStart + (p + 1) \<or> nStart + ?nT \<le> i \<Longrightarrow> xs' ! i = ?xs ! i"
      by blast+
    have sw: "?xs ! i = (if i = d then xs ! (nStart + p) else if i = nStart + p then xs ! d else xs ! i)"
      if "i < length xs" for i
      using that d len by (auto simp: hb_itemRawSwap_def add.commute nth_list_update)
    have "xs' ! (nStart + j) = xs ! m (pDest + j)" if j: "p \<le> j" "j < ?nT" for j
    proof (cases "j = p")
      case True
      then show ?thesis using IH(3)[of "nStart + p"] sw[of "nStart + p"] d len by (simp add: d_def)
    next
      case False
      then have "xs' ! (nStart + j) = ?xs ! m2 (pDest + j)" using j IH(2)[of j] by simp
      also have "\<dots> = xs ! m (pDest + j)"
      proof (cases "j = q")
        case True
        then show ?thesis using j d len q sw[of d] by (simp add: m2D)
      next
        case nq: False
        have "m (pDest + j) \<noteq> nStart + p" using D(3)[of j] q j nq by (auto simp: q_def)
        moreover have "m (pDest + j) \<noteq> d" using D(3)[of j] d(3) j False by auto
        moreover have "m (pDest + j) < length xs" using D(2)[of j] j len by simp
        ultimately show ?thesis using j nq by (simp add: m2D sw)
      qed
      finally show ?thesis .
    qed
    moreover have "xs' ! i = xs ! i" if "i < nStart + p \<or> nStart + ?nT \<le> i" for i
    proof -
      have "xs' ! i = ?xs ! i" using that by (intro IH(3)) auto
      also have "\<dots> = xs ! i" using that d len by (auto simp: hb_itemRawSwap_def)
      finally show ?thesis .
    qed
    ultimately show ?thesis using IH(1) by (simp add: hb_itemRawSwap_def)
  qed
qed auto

section \<open>The loops before it\<close>

lemma init_cells_spec:
  "init_cells nStart p k m i = (if p \<le> i \<and> i < p + k then nStart + i else m i)"
proof (induction k arbitrary: p m)
  case (Suc k)
  have "init_cells nStart p (Suc k) m i = (if p + 1 \<le> i \<and> i < p + 1 + k then nStart + i else (m(p := nStart + p)) i)"
    unfolding init_cells.simps by (rule Suc.IH)
  then show ?case by auto
qed simp

lemma keep_loop_spec:
  assumes "nTo \<le> nPos" "keep_loop nLen pDest nPos nTo k m = (n, m')"
  shows "n = nTo + length (filter (\<lambda>i. i < nLen) (region m (pDest + nPos) k)) \<and>
    region m' (pDest + nTo) (n - nTo) = filter (\<lambda>i. i < nLen) (region m (pDest + nPos) k) \<and>
    (\<forall>i. i < pDest + nTo \<or> pDest + nPos + k \<le> i \<longrightarrow> m' i = m i)"
  using assms
proof (induction nLen pDest nPos nTo k m arbitrary: n m' rule: keep_loop.induct)
  case (2 nLen pDest nPos nTo k m)
  have r: "region m (pDest + nPos) (Suc k) = m (pDest + nPos) # region m (pDest + (nPos + 1)) k"
    by (simp add: region_Cons add.assoc)
  show ?case
  proof (cases "m (pDest + nPos) < nLen")
    case True
    define m1 where "m1 = m(pDest + nTo := m (pDest + nPos))"
    have m1: "m1 (pDest + nTo) = m (pDest + nPos)" "\<And>i. i \<noteq> pDest + nTo \<Longrightarrow> m1 i = m i"
      by (simp_all add: m1_def)
    have "keep_loop nLen pDest (nPos + 1) (nTo + 1) k m1 = (n, m')"
      using "2.prems" True by (simp add: m1_def)
    moreover have "nTo + 1 \<le> nPos + 1" using "2.prems" by simp
    moreover have "region m1 (pDest + (nPos + 1)) k = region m (pDest + (nPos + 1)) k"
      using "2.prems" by (intro region_cong m1(2)) auto
    moreover note "2.IH"(1)[OF True, folded m1_def, of n m']
    ultimately have IH: "n = nTo + 1 + length (filter (\<lambda>i. i < nLen) (region m (pDest + (nPos + 1)) k))"
      "region m' (pDest + (nTo + 1)) (n - (nTo + 1)) = filter (\<lambda>i. i < nLen) (region m (pDest + (nPos + 1)) k)"
      "\<And>i. i < pDest + (nTo + 1) \<or> pDest + (nPos + 1) + k \<le> i \<Longrightarrow> m' i = m1 i" by auto
    have "region m' (pDest + nTo) (n - nTo) = m (pDest + nPos) # region m' (pDest + (nTo + 1)) (n - (nTo + 1))"
      using IH(1) IH(3)[of "pDest + nTo"] m1(1) by (simp add: region_Cons add.assoc)
    moreover have "m' i = m i" if "i < pDest + nTo \<or> pDest + nPos + Suc k \<le> i" for i
      using that "2.prems"(1) IH(3)[of i] m1(2)[of i] by auto
    ultimately show ?thesis using IH(1,2) True r by simp
  next
    case False
    then have "keep_loop nLen pDest (nPos + 1) nTo k m = (n, m')" using "2.prems" by simp
    with "2.IH"(2)[OF False, of n m'] "2.prems" False r show ?thesis by (auto simp: add.assoc)
  qed
qed auto

lemma pos_loop_spec:
  assumes "{pDest..<pDest + nT} \<inter> {pPos..<pPos + nT} = {}" "p + k \<le> nT"
    and "\<forall>j < p + k. nStart \<le> m (pDest + j) \<and> m (pDest + j) < nStart + nT"
    and "distinct (region m pDest (p + k))"
  shows "(\<forall>i. i \<notin> {pPos..<pPos + nT} \<longrightarrow> pos_loop nStart pDest pPos p k m i = m i) \<and>
    (\<forall>j < p + k. (p \<le> j \<or> m (pPos + (m (pDest + j) - nStart)) = j) \<longrightarrow>
       pos_loop nStart pDest pPos p k m (pPos + (m (pDest + j) - nStart)) = j)"
  using assms(2-)
proof (induction k arbitrary: p m)
  case (Suc k)
  define m1 where "m1 = m(pPos + (m (pDest + p) - nStart) := p)"
  have run: "pos_loop nStart pDest pPos p (Suc k) m = pos_loop nStart pDest pPos (p + 1) k m1"
    by (simp add: m1_def)
  have "p < p + Suc k" by simp
  then have "nStart \<le> m (pDest + p)" "m (pDest + p) < nStart + nT" using Suc.prems(2) by blast+
  then have x: "m (pDest + p) - nStart < nT" by simp
  have D: "m1 (pDest + j) = m (pDest + j)" if "j < nT" for j
  proof -
    have "pDest + j \<in> {pDest..<pDest + nT}" "pPos + (m (pDest + p) - nStart) \<in> {pPos..<pPos + nT}"
      using that x by simp_all
    then have "pDest + j \<noteq> pPos + (m (pDest + p) - nStart)" using assms(1) by (metis disjoint_iff)
    then show ?thesis by (simp add: m1_def)
  qed
  have e: "p + 1 + k = p + Suc k" by simp
  have r: "region m1 pDest (p + Suc k) = region m pDest (p + Suc k)"
    using D Suc.prems(1) by (auto simp: region_def intro!: map_cong dest!: le_Suc_ex)
  have a2: "\<forall>j<p + Suc k. nStart \<le> m1 (pDest + j) \<and> m1 (pDest + j) < nStart + nT"
    using Suc.prems(1,2) D by auto
  note IH = Suc.IH[of "p + 1" m1, unfolded e r, OF Suc.prems(1) a2 Suc.prems(3)]
  have "m1 i = m i" if "i \<notin> {pPos..<pPos + nT}" for i using that x by (auto simp: m1_def)
  moreover have "pos_loop nStart pDest pPos p (Suc k) m (pPos + (m (pDest + j) - nStart)) = j"
    if j: "j < p + Suc k" and h: "p \<le> j \<or> m (pPos + (m (pDest + j) - nStart)) = j" for j
  proof -
    have jn: "j < nT" using j Suc.prems(1) by simp
    have "p + 1 \<le> j \<or> m1 (pPos + (m1 (pDest + j) - nStart)) = j"
    proof (cases "j = p")
      case True
      then show ?thesis using D[OF jn] by (simp add: m1_def)
    next
      case False
      have "m (pDest + j) \<noteq> m (pDest + p)"
        using Suc.prems(3) j False by (auto simp: distinct_conv_nth region_nth)
      moreover have "nStart \<le> m (pDest + j)" "nStart \<le> m (pDest + p)" using Suc.prems(2) j by simp_all
      ultimately have "m (pDest + j) - nStart \<noteq> m (pDest + p) - nStart" by simp
      then show ?thesis using h False D[OF jn] by (auto simp: m1_def)
    qed
    then show ?thesis using IH j D[OF jn] unfolding run by auto
  qed
  ultimately show ?case using IH run by auto
qed simp

lemma merge_spec_mset: "mset (fst (merge_spec isLess xs ys a)) = mset xs + mset ys"
proof (induction isLess xs ys a rule: merge_spec.induct)
  case (1 isLess x xs y ys a)
  obtain b a1 where l: "isLess y x a = (b, a1)" by fastforce
  show ?case
  proof (cases b)
    case True
    with l have l1: "isLess y x a = (True, a1)" by simp
    then show ?thesis using "1.IH"(1)[OF l1[symmetric] refl] by (simp add: case_prod_unfold)
  next
    case False
    with l have l1: "isLess y x a = (False, a1)" by simp
    then show ?thesis using "1.IH"(2)[OF l1[symmetric] refl] by (simp add: case_prod_unfold)
  qed
qed simp_all

lemma sort_spec_mset: "mset (fst (sort_spec isLess xs a)) = mset xs"
proof (induction isLess xs a rule: sort_spec.induct)
  case (1 isLess xs a)
  show ?case
  proof (cases "1 < length xs")
    case True
    obtain l a1 where l: "sort_spec isLess (take (length xs div 2) xs) a = (l, a1)" by fastforce
    obtain r a2 where r: "sort_spec isLess (drop (length xs div 2) xs) a1 = (r, a2)" by fastforce
    have "mset l + mset r = mset xs"
      using "1.IH"(1)[OF True] "1.IH"(2)[OF True l[symmetric]] l r
      by (simp flip: mset_append)
    with True l r show ?thesis by (simp add: sort_spec.simps[of _ xs] merge_spec_mset)
  next
    case False
    then show ?thesis by (simp add: sort_spec.simps)
  qed
qed

definition place :: "nat \<Rightarrow> nat list \<Rightarrow> item list \<Rightarrow> item list" where
  "place nStart idx xs = take nStart xs @ map ((!) xs) idx @ drop (nStart + length idx) xs"

lemma place_loops:
  assumes dj: "{pDest..<pDest + n} \<inter> {pPos..<pPos + n} = {}"
    and idx: "region m pDest n = idx" and perm: "mset idx = mset [nStart..<nStart + n]"
    and len: "n = 0 \<or> nStart + n \<le> length xs"
  shows "snd (raw_swaps nStart pDest pPos 0 n (pos_loop nStart pDest pPos 0 n m) xs) = place nStart idx xs"
proof (cases "n = 0")
  case True
  then show ?thesis using idx by (simp add: place_def region_def)
next
  case False
  then have len: "nStart + n \<le> length xs" using len by simp
  have st: "set idx = {nStart..<nStart + n}" using perm by (metis set_mset_mset set_upt)
  have ds: "distinct idx" using perm by (metis distinct_upt mset_eq_imp_distinct_iff)
  have D: "nStart \<le> m (pDest + j) \<and> m (pDest + j) < nStart + n" if "j < n" for j
    using st nth_mem[of j idx] that idx by (auto simp: region_nth)
  define m1 where "m1 = pos_loop nStart pDest pPos 0 n m"
  have P: "\<And>i. i \<notin> {pPos..<pPos + n} \<Longrightarrow> m1 i = m i" "\<And>j. j < n \<Longrightarrow> m1 (pPos + (m (pDest + j) - nStart)) = j"
    using pos_loop_spec[OF dj, of 0 n nStart m] D ds idx by (simp_all add: m1_def)
  have m1D: "m1 (pDest + j) = m (pDest + j)" if "j < n" for j
  proof (rule P(1))
    have "pDest + j \<in> {pDest..<pDest + n}" using that by simp
    with dj show "pDest + j \<notin> {pPos..<pPos + n}" by (metis disjoint_iff)
  qed
  have I: "swap_inv nStart pDest pPos 0 (0 + n) m1" using D P(2) m1D by (simp add: swap_inv_def)
  obtain m2 ys where run: "raw_swaps nStart pDest pPos 0 n m1 xs = (m2, ys)" by fastforce
  have "{pDest..<pDest + (0 + n)} \<inter> {pPos..<pPos + (0 + n)} = {}" "nStart + (0 + n) \<le> length xs" using dj len by simp_all
  from raw_swaps_spec[OF this(1) I this(2) run]
  have L: "length ys = length xs" "\<And>j. j < n \<Longrightarrow> ys ! (nStart + j) = xs ! m1 (pDest + j)"
    "\<And>i. i < nStart \<or> nStart + n \<le> i \<Longrightarrow> ys ! i = xs ! i" by auto
  have il: "length idx = n" using idx by (metis length_region)
  have "ys = place nStart idx xs"
  proof (rule nth_equalityI)
    show "length ys = length (place nStart idx xs)" using L(1) il len by (simp add: place_def)
    fix i assume i: "i < length ys"
    consider "i < nStart" | j where "i = nStart + j" "j < n" | "nStart + n \<le> i" by (metis le_iff_add nat_add_left_cancel_less not_less)
    then show "ys ! i = place nStart idx xs ! i"
    proof cases
      case 1
      then show ?thesis using L(3) len by (simp add: place_def nth_append)
    next
      case (2 j)
      then have "ys ! i = xs ! m (pDest + j)" using L(2) m1D by simp
      then show ?thesis using 2 il len idx[symmetric] by (simp add: place_def nth_append region_nth)
    next
      case 3
      then have "\<not> i - nStart < n" by simp
      then show ?thesis using 3 L(1,3) il len i by (simp add: place_def nth_append)
    qed
  qed
  then show ?thesis using run by (simp add: m1_def)
qed

lemma hb_arraySortStart_place:
  fixes a :: "'w sortarr"
  assumes "sort_spec (hb_itemIsLess R pBlock) [nStart..<nStart + nCount] a = (idx, a1)"
  shows "hb_arraySortStart R pBlock nStart nCount a =
    a1\<lparr>pItems := place nStart (filter (\<lambda>i. i < length (pItems a1)) idx) (pItems a1)\<rparr>"
proof -
  define m0 where "m0 = init_cells nStart 0 nCount (\<lambda>_. 0)"
  have "region m0 0 nCount = [nStart..<nStart + nCount]"
    by (rule nth_equalityI) (simp_all add: m0_def region_nth init_cells_spec)
  moreover obtain f m1 b where run: "hb_arraySortDO (hb_itemIsLess R pBlock) 0 nCount nCount m0 a = (f, m1, b)"
    using prod_cases3 by blast
  ultimately have b: "b = a1" and idx: "region m1 (if f then 0 else nCount) nCount = idx"
    using hb_arraySortDO_region[OF _ run] assms by (auto split: if_splits)
  define pDest where "pDest = (if f then 0 else nCount)"
  define pPos where "pPos = (if f then nCount else 0)"
  have dj: "{pDest..<pDest + nCount} \<inter> {pPos..<pPos + nCount} = {}" by (auto simp: pDest_def pPos_def)
  let ?nLen = "length (pItems a1)" and ?fl = "filter (\<lambda>i. i < length (pItems a1)) idx"
  have perm: "mset idx = mset [nStart..<nStart + nCount]"
    using sort_spec_mset[of "hb_itemIsLess R pBlock" "[nStart..<nStart + nCount]" a] assms by simp
  then have st: "set idx = {nStart..<nStart + nCount}" by (metis set_mset_mset set_upt)
  obtain n m2 where nm: "(if nStart + nCount > ?nLen
       then (if ?nLen > nStart then keep_loop ?nLen pDest 0 0 nCount m1 else (0, m1)) else (nCount, m1)) = (n, m2)"
    by fastforce
  have *: "region m2 pDest n = ?fl \<and> n \<le> nCount \<and> (n = 0 \<or> nStart + n \<le> ?nLen) \<and> mset ?fl = mset [nStart..<nStart + n]"
  proof (cases "nStart + nCount > ?nLen")
    case False
    then have "n = nCount" "m2 = m1" using nm by auto
    moreover have "?fl = idx" using st False by (intro filter_True) auto
    ultimately show ?thesis using False idx perm by (simp add: pDest_def)
  next
    case True
    show ?thesis
    proof (cases "?nLen > nStart")
      case False
      then have "n = 0" using nm True by simp
      moreover have "?fl = []" using st False by (auto simp: filter_empty_conv)
      ultimately show ?thesis by simp
    next
      case nl: True
      then have "keep_loop ?nLen pDest 0 0 nCount m1 = (n, m2)" using nm True by simp
      from keep_loop_spec[OF order_refl this, unfolded add_0_right add_0 diff_zero idx[folded pDest_def]]
      have k: "n = length ?fl" "region m2 pDest n = ?fl" by blast+
      have "mset ?fl = filter_mset (\<lambda>i. i < ?nLen) (mset [nStart..<nStart + nCount])" using perm by simp
      also have "\<dots> = mset (filter (\<lambda>i. i < ?nLen) [nStart..<nStart + nCount])" by simp
      also have "filter (\<lambda>i. i < ?nLen) [nStart..<nStart + nCount] = [nStart..<?nLen]"
      proof -
        have "[nStart..<nStart + nCount] = [nStart..<?nLen] @ [?nLen..<nStart + nCount]"
          using nl True upt_add_eq_append[of nStart ?nLen "nStart + nCount - ?nLen"] by simp
        then show ?thesis by (simp add: filter_empty_conv)
      qed
      finally have p: "mset ?fl = mset [nStart..<?nLen]" .
      then have "n = ?nLen - nStart" using k(1) by (metis length_upt size_mset)
      then show ?thesis using k p nl True by simp
    qed
  qed
  have dj2: "{pDest..<pDest + n} \<inter> {pPos..<pPos + n} = {}" using dj * by auto
  have pl: "snd (raw_swaps nStart pDest pPos 0 n (pos_loop nStart pDest pPos 0 n m2) (pItems a1)) = place nStart ?fl (pItems a1)"
    using * by (intro place_loops[OF dj2]) auto
  show ?thesis
    by (simp only: hb_arraySortStart_def Let_def m0_def[symmetric] run prod.case b
        pDest_def[symmetric] pPos_def[symmetric] nm pl)
qed

section \<open>Comparisons that are an order\<close>

fun merge_by :: "('b \<Rightarrow> 'b \<Rightarrow> bool) \<Rightarrow> 'b list \<Rightarrow> 'b list \<Rightarrow> 'b list" where
  "merge_by lt (x # xs) (y # ys) = (if lt y x then y # merge_by lt (x # xs) ys else x # merge_by lt xs (y # ys))"
| "merge_by lt xs ys = xs @ ys"

function sort_by :: "('b \<Rightarrow> 'b \<Rightarrow> bool) \<Rightarrow> 'b list \<Rightarrow> 'b list" where
  "sort_by lt xs =
     (if length xs > 1 then
        merge_by lt (sort_by lt (take (length xs div 2) xs)) (sort_by lt (drop (length xs div 2) xs))
      else xs)"
  by pat_completeness auto
termination by (relation "measure (\<lambda>(lt, xs). length xs)") auto

declare sort_by.simps [simp del]

lemma merge_spec_pure:
  assumes "\<And>i j. isLess i j a = (lt (v i) (v j), a)" "merge_spec isLess xs ys a = (zs, a1)"
  shows "map v zs = merge_by lt (map v xs) (map v ys) \<and> a1 = a"
  using assms
proof (induction isLess xs ys a arbitrary: zs rule: merge_spec.induct)
  case (1 isLess x xs y ys a)
  show ?case
  proof (cases "lt (v y) (v x)")
    case True
    then have l: "isLess y x a = (True, a)" using "1.prems"(1) by simp
    obtain ws where w: "merge_spec isLess (x # xs) ys a = (ws, a1)" "zs = y # ws"
      using "1.prems"(2) l by (auto simp: case_prod_unfold prod_eq_iff)
    show ?thesis using "1.IH"(1)[OF l[symmetric] refl "1.prems"(1) w(1)] w True by simp
  next
    case False
    then have l: "isLess y x a = (False, a)" using "1.prems"(1) by simp
    obtain ws where w: "merge_spec isLess xs (y # ys) a = (ws, a1)" "zs = x # ws"
      using "1.prems"(2) l by (auto simp: case_prod_unfold prod_eq_iff)
    show ?thesis using "1.IH"(2)[OF l[symmetric] refl "1.prems"(1) w(1)] w False by simp
  qed
qed auto

lemma sort_spec_pure:
  assumes "\<And>i j. isLess i j a = (lt (v i) (v j), a)" "sort_spec isLess xs a = (zs, a1)"
  shows "map v zs = sort_by lt (map v xs) \<and> a1 = a"
  using assms(2)
proof (induction "length xs" arbitrary: xs zs a1 rule: less_induct)
  case less
  show ?case
  proof (cases "1 < length xs")
    case True
    let ?l = "take (length xs div 2) xs" and ?r = "drop (length xs div 2) xs"
    from True have len: "length ?l < length xs" "length ?r < length xs" by auto
    obtain l b where l: "sort_spec isLess ?l a = (l, b)" by fastforce
    note L = less.hyps[OF len(1) l]
    obtain r c where r: "sort_spec isLess ?r a = (r, c)" by fastforce
    note R = less.hyps[OF len(2) r]
    have "merge_spec isLess l r a = (zs, a1)"
      using less.prems True l r L R by (simp add: sort_spec.simps[of _ xs])
    from merge_spec_pure[where lt = lt and v = v, OF assms(1) this] L R True show ?thesis
      by (simp add: sort_by.simps[of _ "map v xs"] take_map drop_map)
  next
    case False
    then show ?thesis using less.prems by (simp add: sort_spec.simps sort_by.simps)
  qed
qed

text \<open>What the sort needs of a comparison on the items \<open>K\<close>: a strict weak order.\<close>

locale weak_order =
  fixes lt :: "'b \<Rightarrow> 'b \<Rightarrow> bool" and K :: "'b set"
  assumes asym: "x \<in> K \<Longrightarrow> y \<in> K \<Longrightarrow> lt x y \<Longrightarrow> \<not> lt y x"
    and negtrans: "x \<in> K \<Longrightarrow> y \<in> K \<Longrightarrow> z \<in> K \<Longrightarrow> \<not> lt x y \<Longrightarrow> \<not> lt y z \<Longrightarrow> \<not> lt x z"
begin

definition same :: "'b \<Rightarrow> 'b \<Rightarrow> bool" where
  "same x y \<longleftrightarrow> \<not> lt x y \<and> \<not> lt y x"

lemma merge_by_mset: "mset (merge_by lt xs ys) = mset xs + mset ys"
proof (induction xs arbitrary: ys)
  case (Cons x xs)
  show ?case by (induction ys) (simp_all add: Cons.IH)
qed simp

lemma merge_by_set: "set (merge_by lt xs ys) = set xs \<union> set ys"
  using arg_cong[OF merge_by_mset[of xs ys], of set_mset] by simp

lemma merge_by_sorted:
  assumes "set xs \<subseteq> K" "set ys \<subseteq> K"
    and "sorted_wrt (\<lambda>x y. \<not> lt y x) xs" "sorted_wrt (\<lambda>x y. \<not> lt y x) ys"
  shows "sorted_wrt (\<lambda>x y. \<not> lt y x) (merge_by lt xs ys)"
  using assms
proof (induction xs arbitrary: ys)
  case (Cons x xs)
  note outer = Cons.IH and px = Cons.prems(1,3)
  from Cons.prems(2,4) show ?case
  proof (induction ys)
    case Nil
    with px show ?case by simp
  next
    case (Cons y ys)
    have K: "x \<in> K" "y \<in> K" "set xs \<subseteq> K" "set ys \<subseteq> K" using px Cons.prems by auto
    show ?case
    proof (cases "lt y x")
      case True
      have "\<not> lt z y" if "z \<in> set (x # xs) \<union> set ys" for z
      proof (cases "z \<in> set ys")
        case True
        then show ?thesis using Cons.prems by auto
      next
        case False
        then have "z \<in> K" "\<not> lt z x \<or> z = x" using that px K by auto
        then show ?thesis using asym[OF K(2,1) True] negtrans[of z x y] K by auto
      qed
      then show ?thesis using True Cons.IH Cons.prems by (auto simp: merge_by_set)
    next
      case False
      have "\<not> lt z x" if "z \<in> set xs \<union> set (y # ys)" for z
      proof (cases "z \<in> set xs")
        case True
        then show ?thesis using px by auto
      next
        case nz: False
        then have "z \<in> K" "\<not> lt z y \<or> z = y" using that Cons.prems K by auto
        then show ?thesis using False negtrans[of z y x] K by auto
      qed
      then show ?thesis using False outer[of "y # ys"] px Cons.prems by (auto simp: merge_by_set)
    qed
  qed
qed simp

lemma same_K: "a \<in> K \<Longrightarrow> y \<in> K \<Longrightarrow> z \<in> K \<Longrightarrow> same a y \<Longrightarrow> same a z \<Longrightarrow> \<not> lt y z"
  using negtrans[of y a z] by (simp add: same_def)

lemma merge_by_stable:
  assumes "a \<in> K" "set xs \<subseteq> K" "set ys \<subseteq> K" "sorted_wrt (\<lambda>x y. \<not> lt y x) xs"
  shows "filter (same a) (merge_by lt xs ys) = filter (same a) xs @ filter (same a) ys"
  using assms(2-)
proof (induction xs arbitrary: ys)
  case (Cons x xs)
  note outer = Cons.IH and px = Cons.prems(1,3)
  from Cons.prems(2) show ?case
  proof (induction ys)
    case (Cons y ys)
    have K: "x \<in> K" "y \<in> K" "set xs \<subseteq> K" using px Cons.prems by auto
    show ?case
    proof (cases "lt y x")
      case True
      have "\<not> same a z" if "same a y" "z \<in> set (x # xs)" for z
      proof
        assume "same a z"
        have z: "z \<in> K" "\<not> lt z x" using that px K asym[of x x] by auto
        have "lt y z" using negtrans[of y z x] True z K by auto
        with same_K[OF assms(1) K(2) z(1) that(1) \<open>same a z\<close>] show False by simp
      qed
      then have "same a y \<Longrightarrow> filter (same a) (x # xs) = []" by (auto simp: filter_empty_conv)
      then show ?thesis using True Cons by auto
    next
      case False
      then show ?thesis using outer[of "y # ys"] px Cons.prems by simp
    qed
  qed simp
qed simp

lemma sort_by_all:
  assumes "set xs \<subseteq> K"
  shows "mset (sort_by lt xs) = mset xs \<and> sorted_wrt (\<lambda>x y. \<not> lt y x) (sort_by lt xs) \<and>
    (\<forall>a \<in> K. filter (same a) (sort_by lt xs) = filter (same a) xs)"
  using assms
proof (induction "length xs" arbitrary: xs rule: less_induct)
  case less
  show ?case
  proof (cases "1 < length xs")
    case False
    then show ?thesis by (cases xs) (auto simp: sort_by.simps)
  next
    case True
    let ?l = "take (length xs div 2) xs" and ?r = "drop (length xs div 2) xs"
    have len: "length ?l < length xs" "length ?r < length xs" using True by auto
    have K: "set ?l \<subseteq> K" "set ?r \<subseteq> K" using less.prems by (meson order_trans set_take_subset set_drop_subset)+
    note L = less.hyps[OF len(1) K(1)] and R = less.hyps[OF len(2) K(2)]
    have KS: "set (sort_by lt ?l) \<subseteq> K" "set (sort_by lt ?r) \<subseteq> K"
      using L R K by (metis set_mset_mset)+
    have lr: "mset ?l + mset ?r = mset xs" "filter P ?l @ filter P ?r = filter P xs" for P
      by (simp_all flip: mset_append filter_append)
    show ?thesis
      unfolding sort_by.simps[of _ xs] using True L R lr merge_by_mset merge_by_sorted[OF KS] merge_by_stable[OF _ KS]
      by simp
  qed
qed

end

section \<open>The comparison of items\<close>

fun sort_key :: "item \<Rightarrow> int list" where
  "sort_key (I_String m cs) = str_key cs"
| "sort_key (I_Integer v l) = [v]"
| "sort_key (I_Long v l) = [v]"
| "sort_key (I_Date j) = [j]"
| "sort_key (I_Logical b) = [if b then 1 else 0]"
| "sort_key _ = []"

definition plain_items :: "'w helpers \<Rightarrow> 'w vm \<Rightarrow> item set" where
  "plain_items R s = {x. \<not> HB_IS_DOUBLE x \<and> \<not> HB_IS_TIMESTAMP x \<and>
     (HB_IS_STRING x \<longrightarrow> hcdpcmp R s = None \<and> \<not> hsetexact R s)}"

lemma native_less_key:
  assumes "x \<in> plain_items R s" "y \<in> plain_items R s"
  shows "native_less R s x y \<longleftrightarrow> (iWeight x, sort_key x) < (iWeight y, sort_key y)"
  using assms
  by (cases x; cases y)
    (simp_all add: plain_items_def native_less_def iWeight_def HB_IS_NUMERIC_def strcmp_soft hb_itemGetDL_def)

interpretation native: weak_order "native_less R s" "plain_items R s"
  by unfold_locales (auto simp: native_less_key)

lemma place_mset:
  assumes "mset idx = mset [nStart..<nStart + k]" "nStart + k \<le> length xs"
  shows "mset (map ((!) xs) idx) = mset (take k (drop nStart xs))" "mset (place nStart idx xs) = mset xs"
proof -
  have "map ((!) xs) [nStart..<nStart + k] = take k (drop nStart xs)"
    using assms(2) by (intro nth_equalityI) auto
  moreover have "mset (map ((!) xs) idx) = mset (map ((!) xs) [nStart..<nStart + k])"
    using assms(1) by (simp only: mset_map)
  ultimately show 1: "mset (map ((!) xs) idx) = mset (take k (drop nStart xs))" by simp
  have "length idx = k" using assms(1) by (metis add_diff_cancel_left' length_upt size_mset)
  then have "mset (place nStart idx xs) = mset (take nStart xs @ take k (drop nStart xs) @ drop (nStart + k) xs)"
    using 1 by (simp add: place_def)
  also have "take nStart xs @ take k (drop nStart xs) @ drop (nStart + k) xs = xs"
    by (metis append_take_drop_id drop_drop add.commute)
  finally show "mset (place nStart idx xs) = mset xs" .
qed

lemma filter_perm:
  assumes "mset idx = mset [nStart..<nStart + nCount]"
  shows "\<exists>k. mset (filter (\<lambda>i. i < nLen) idx) = mset [nStart..<nStart + k] \<and> (k = 0 \<or> nStart + k \<le> nLen)"
proof -
  have "mset (filter (\<lambda>i. i < nLen) idx) = filter_mset (\<lambda>i. i < nLen) (mset [nStart..<nStart + nCount])"
    using assms by simp
  also have "\<dots> = mset (filter (\<lambda>i. i < nLen) [nStart..<nStart + nCount])" by simp
  also have "filter (\<lambda>i. i < nLen) [nStart..<nStart + nCount] = [nStart..<nStart + (min (nStart + nCount) nLen - nStart)]"
    by (induction nCount) auto
  finally show ?thesis by (metis diff_is_0_eq' le_add_diff_inverse min.bounded_iff nle_le order_refl)
qed

text \<open>C24.
  For any code block, also one that changes or resizes the array while it is
  called, the sort makes the comparisons of the merge sort on lists, in its
  order, and moves the items by the resulting order of indexes, without those
  that are no longer inside the array: no item is lost or doubled.
\<close>

theorem hb_arraySortStart_reference:
  fixes a :: "'w sortarr"
  shows "case sort_spec (hb_itemIsLess R pBlock) [nStart..<nStart + nCount] a of
    (idx, b) \<Rightarrow>
      hb_arraySortStart R pBlock nStart nCount a =
        b\<lparr>pItems := place nStart (filter (\<lambda>i. i < length (pItems b)) idx) (pItems b)\<rparr> \<and>
      mset (pItems (hb_arraySortStart R pBlock nStart nCount a)) = mset (pItems b)"
proof (cases "sort_spec (hb_itemIsLess R pBlock) [nStart..<nStart + nCount] a")
  case (Pair idx b)
  have "mset idx = mset [nStart..<nStart + nCount]"
    using sort_spec_mset[of "hb_itemIsLess R pBlock" "[nStart..<nStart + nCount]" a] Pair by simp
  then obtain k where k: "mset (filter (\<lambda>i. i < length (pItems b)) idx) = mset [nStart..<nStart + k]"
      "k = 0 \<or> nStart + k \<le> length (pItems b)"
    using filter_perm by blast
  have "mset (place nStart (filter (\<lambda>i. i < length (pItems b)) idx) (pItems b)) = mset (pItems b)"
  proof (cases "k = 0")
    case True
    then show ?thesis using k(1) by (simp add: place_def)
  next
    case False
    then show ?thesis using k place_mset(2) by blast
  qed
  then show ?thesis using hb_arraySortStart_place[OF Pair] Pair by simp
qed

lemma hb_arraySort_range:
  assumes "1 \<le> nStart" "1 \<le> nCount" "nStart + nCount \<le> length (pItems a) + 1"
  shows "hb_arraySort R (Some nStart) (Some nCount) pBlock a =
    (if nCount > 1 then hb_arraySortStart R pBlock (nStart - 1) nCount a else a)"
proof (cases "nCount \<le> length (pItems a) - nStart")
  case True
  then show ?thesis using assms by (simp add: hb_arraySort_def Let_def)
next
  case False
  then have "length (pItems a) - nStart + 1 = nCount" using assms by simp
  then show ?thesis using assms False by (simp add: hb_arraySort_def Let_def)
qed

lemma slice_id: "take lo xs @ take n (drop lo xs) @ drop (lo + n) xs = xs"
  by (metis append_take_drop_id drop_drop add.commute)

text \<open>C25.
  Without a code block, in an array of any types but doubles and timestamps
  (strings by their bytes: no national sorting and SET EXACT OFF), the selected
  items are sorted by the native comparison, equal items keep their order, and
  all the others stay where they are.
\<close>

theorem hb_arraySort_sorts:
  fixes a :: "'w sortarr"
  assumes "1 \<le> nStart" "1 \<le> nCount" "nStart + nCount \<le> length (pItems a) + 1"
    and "set (take nCount (drop (nStart - 1) (pItems a))) \<subseteq> plain_items R (svm a)"
  shows "\<exists>ys. hb_arraySort R (Some nStart) (Some nCount) None a =
      a\<lparr>pItems := take (nStart - 1) (pItems a) @ ys @ drop (nStart - 1 + nCount) (pItems a)\<rparr> \<and>
    mset ys = mset (take nCount (drop (nStart - 1) (pItems a))) \<and>
    sorted_wrt (\<lambda>x y. \<not> native_less R (svm a) y x) ys \<and>
    (\<forall>x \<in> set ys. filter (\<lambda>y. \<not> native_less R (svm a) x y \<and> \<not> native_less R (svm a) y x) ys =
       filter (\<lambda>y. \<not> native_less R (svm a) x y \<and> \<not> native_less R (svm a) y x)
         (take nCount (drop (nStart - 1) (pItems a))))"
proof -
  let ?lo = "nStart - 1" and ?xs = "pItems a" and ?lt = "native_less R (svm a)"
  let ?sl = "take nCount (drop ?lo ?xs)"
  have len: "?lo + nCount \<le> length ?xs" using assms by simp
  have sl: "map ((!) ?xs) [?lo..<?lo + nCount] = ?sl"
    using len by (intro nth_equalityI) auto
  note S = native.sort_by_all[OF assms(4), unfolded native.same_def]
  let ?ys = "sort_by ?lt ?sl"
  have K: "set ?ys \<subseteq> plain_items R (svm a)" using S assms(4) by (metis set_mset_mset)
  have "hb_arraySort R (Some nStart) (Some nCount) None a = a\<lparr>pItems := take ?lo ?xs @ ?ys @ drop (?lo + nCount) ?xs\<rparr>"
  proof (cases "nCount > 1")
    case True
    obtain idx b where r: "sort_spec (hb_itemIsLess R None) [?lo..<?lo + nCount] a = (idx, b)" by fastforce
    have m: "mset idx = mset [?lo..<?lo + nCount]"
      using sort_spec_mset[of "hb_itemIsLess R None" "[?lo..<?lo + nCount]" a] r by simp
    then have st: "set idx = {?lo..<?lo + nCount}" by (metis set_mset_mset set_upt)
    have li: "length idx = nCount" using m by (metis add_diff_cancel_left' length_upt size_mset)
    have p: "map ((!) ?xs) idx = ?ys \<and> b = a"
      using sort_spec_pure[where lt = ?lt and v = "(!) ?xs", OF _ r] sl by (simp add: hb_itemIsLess_def)
    moreover have "filter (\<lambda>i. i < length ?xs) idx = idx" using st len by (intro filter_True) auto
    ultimately show ?thesis
      using hb_arraySort_range[OF assms(1-3), of R None] hb_arraySortStart_place[OF r] True li
      by (simp add: place_def)
  next
    case False
    then have "nCount = 1" using assms by simp
    then have "?ys = ?sl" by (simp add: sort_by.simps)
    then have "take ?lo ?xs @ ?ys @ drop (?lo + nCount) ?xs = ?xs" using slice_id by metis
    then show ?thesis using hb_arraySort_range[OF assms(1-3), of R None] False by simp
  qed
  with S K show ?thesis by blast
qed

lemma hb_arraySort_sorts_witness:
  "\<exists>ys. hb_arraySort base_helpers (Some 2) (Some 3) None
      \<lparr>pItems = [I_Nil, I_Integer 3 10, I_String False [65], I_Integer 2 10, I_Nil], svm = vm_with []\<rparr> =
    \<lparr>pItems = I_Nil # ys @ [I_Nil], svm = vm_with []\<rparr> \<and>
    mset ys = {# I_Integer 3 10, I_String False [65], I_Integer 2 10 #} \<and>
    sorted_wrt (\<lambda>x y. \<not> native_less base_helpers (vm_with []) y x) ys"
proof -
  have s: "set (take 3 (drop (2 - 1) [I_Nil, I_Integer 3 10, I_String False [65], I_Integer 2 10, I_Nil]))
      \<subseteq> plain_items base_helpers (vm_with [])"
    by (simp add: plain_items_def base_helpers_def numeral_eq_Suc)
  show ?thesis
    using hb_arraySort_sorts[of 2 3 "\<lparr>pItems = [I_Nil, I_Integer 3 10, I_String False [65], I_Integer 2 10, I_Nil],
        svm = vm_with []\<rparr>" base_helpers] s
    by (auto simp: numeral_eq_Suc)
qed

end
