(* ===== verification/VmNum.thy ===== *)
theory VmNum
  imports VmItem
begin

text \<open>
  The arithmetic operators of vm/hvm.c, every branch: 64 bit integers with the
  test of overflow, doubles, strings, dates and timestamps, operators of
  objects, errors.  An item pointer the result goes to may be one of the
  arguments.
\<close>

section \<open>Time stamps\<close>

definition norm_stamp :: "int \<Rightarrow> int \<Rightarrow> int \<times> int" where
  "norm_stamp lJulian lMilliSec =
     (if lJulian < 0 then
        (if lMilliSec \<le> - HB_MILLISECS_PER_DAY
         then (lJulian - 1, lMilliSec + HB_MILLISECS_PER_DAY)
         else if lMilliSec > 0 then
           (let m = lMilliSec - HB_MILLISECS_PER_DAY in
            if m > 0 then (lJulian + 1 + 1, m - HB_MILLISECS_PER_DAY) else (lJulian + 1, m))
         else (lJulian, lMilliSec))
      else
        (if lMilliSec \<ge> HB_MILLISECS_PER_DAY
         then (lJulian + 1, lMilliSec - HB_MILLISECS_PER_DAY)
         else if lMilliSec < 0 then
           (let m = lMilliSec + HB_MILLISECS_PER_DAY in
            if m < 0 then (lJulian - 1 - 1, m + HB_MILLISECS_PER_DAY) else (lJulian - 1, m))
         else (lJulian, lMilliSec)))"

definition hb_vmTimeStampPut :: "'w helpers \<Rightarrow> loc \<Rightarrow> int \<Rightarrow> int \<Rightarrow> 'w vm \<Rightarrow> 'w vm option" where
  "hb_vmTimeStampPut R pItem lJulian lMilliSec s =
     (case norm_stamp lJulian lMilliSec of (j, t) \<Rightarrow> hb_itemPutTDT R pItem j t s)"

definition hb_vmTimeStampAdd :: "'w helpers \<Rightarrow> loc \<Rightarrow> item \<Rightarrow> 64 word \<Rightarrow> 'w vm \<Rightarrow> 'w vm option" where
  "hb_vmTimeStampAdd R pResult x dValue s =
     (let (lJulian, lMilliSec) = hb_timeStampUnpackDT dValue
      in hb_vmTimeStampPut R pResult (lJulian + dt_julian x) (lMilliSec + dt_time x) s)"

section \<open>Plus and minus\<close>

definition HB_SIZE_MAX :: nat where "HB_SIZE_MAX = 2 ^ 64 - 1"

text \<open>The string branch of hb_vmPlus; both arguments are strings.\<close>

definition plus_strings ::
  "'w helpers \<Rightarrow> loc \<Rightarrow> loc \<Rightarrow> loc \<Rightarrow> HB_BYTE list \<Rightarrow> HB_BYTE list \<Rightarrow> bool \<Rightarrow> 'w vm \<Rightarrow> 'w vm option" where
  "plus_strings R pResult pItem1 pItem2 cs1 cs2 memo s = do {
     s \<leftarrow> (if cs2 \<noteq> [] then
            (if cs1 \<noteq> [] then
               (if length cs1 < HB_SIZE_MAX - length cs2 then do {
                  s \<leftarrow> (if pResult \<noteq> pItem1 then hb_itemMove R pResult pItem1 s else Some s);
                  y \<leftarrow> item_rd pItem2 s;
                  case y of
                    I_String m cs \<Rightarrow> item_wr pResult (I_String memo (cs1 @ cs)) s
                  | _ \<Rightarrow> None }
                else hcall R ''hb_errRT_BASE'' [N 1209, L pItem1, L pItem2] s)
             else hb_itemCopy R pResult pItem2 s)
          else if pResult \<noteq> pItem1 then hb_itemCopy R pResult pItem1 s
          else Some s);
     x \<leftarrow> item_rd pResult s;
     item_wr pResult (clear_memoflag x) s }"

definition hb_vmPlus :: "'w helpers \<Rightarrow> loc \<Rightarrow> loc \<Rightarrow> loc \<Rightarrow> 'w vm \<Rightarrow> 'w vm option" where
  "hb_vmPlus R pResult pItem1 pItem2 s = do {
     x1 \<leftarrow> item_rd pItem1 s;
     x2 \<leftarrow> item_rd pItem2 s;
     if HB_IS_NUMINT x1 \<and> HB_IS_NUMINT x2 then
       (let nNumber1 = HB_ITEM_GET_NUMINTRAW x1;
            nNumber2 = HB_ITEM_GET_NUMINTRAW x2;
            nResult = maxint (nNumber1 + nNumber2)
        in do {
          s \<leftarrow> clear_if_complex R pResult s;
          if (if nNumber2 \<ge> 0 then nResult \<ge> nNumber1 else nResult < nNumber1)
          then item_wr pResult (HB_ITEM_PUT_NUMINTRAW nResult) s
          else item_wr pResult (put_double (d_add (d_of_int nNumber1) (d_of_int nNumber2)) 0) s })
     else if HB_IS_NUMERIC x1 \<and> HB_IS_NUMERIC x2 then
       (case (hb_itemGetNDDec x1, hb_itemGetNDDec x2) of
          ((dNumber1, iDec1), (dNumber2, iDec2)) \<Rightarrow>
            hb_itemPutNDDec R pResult (d_add dNumber1 dNumber2) (max iDec1 iDec2) s)
     else case (x1, x2) of
       (I_String m1 cs1, I_String m2 cs2) \<Rightarrow> plus_strings R pResult pItem1 pItem2 cs1 cs2 m1 s
     | _ \<Rightarrow>
     if HB_IS_DATETIME x1 \<and> HB_IS_DATETIME x2 then
       (if HB_IS_TIMESTAMP x1 \<or> HB_IS_TIMESTAMP x2
        then hb_vmTimeStampPut R pResult (dt_julian x1 + dt_julian x2) (dt_time x1 + dt_time x2) s
        else hb_itemPutDL R pResult (dt_julian x1 + dt_julian x2) s)
     else if HB_IS_DATETIME x1 \<and> HB_IS_NUMERIC x2 then
       (if HB_IS_TIMESTAMP x1 then
          (if HB_IS_NUMINT x2
           then hb_vmTimeStampPut R pResult (dt_julian x1 + HB_ITEM_GET_NUMINTRAW x2) (dt_time x1) s
           else hb_vmTimeStampAdd R pResult x1 (HB_ITEM_GET_NUMDBLRAW x2) s)
        else hb_itemPutDL R pResult (hb_itemGetDL x1 + hb_itemGetNL x2) s)
     else if HB_IS_NUMERIC x1 \<and> HB_IS_DATETIME x2 then
       (if HB_IS_TIMESTAMP x2 then
          (if HB_IS_NUMINT x1
           then hb_vmTimeStampPut R pResult (HB_ITEM_GET_NUMINTRAW x1 + dt_julian x2) (dt_time x2) s
           else hb_vmTimeStampAdd R pResult x2 (HB_ITEM_GET_NUMDBLRAW x1) s)
        else hb_itemPutDL R pResult (hb_itemGetNL x1 + hb_itemGetDL x2) s)
     else arith_object R op_PLUS 1081 pResult pItem1 pItem2 s }"

text \<open>
  Minus on strings moves the trailing spaces of the first to the end.
\<close>

definition string_minus :: "HB_BYTE list \<Rightarrow> HB_BYTE list \<Rightarrow> HB_BYTE list" where
  "string_minus cs1 cs2 =
     (let t = trim_to 0 cs1 in t @ cs2 @ replicate (length cs1 - length t) 32)"

definition minus_strings ::
  "'w helpers \<Rightarrow> loc \<Rightarrow> loc \<Rightarrow> loc \<Rightarrow> HB_BYTE list \<Rightarrow> HB_BYTE list \<Rightarrow> bool \<Rightarrow> 'w vm \<Rightarrow> 'w vm option" where
  "minus_strings R pResult pItem1 pItem2 cs1 cs2 memo s =
     (if cs1 = [] then do {
        s \<leftarrow> hb_itemCopy R pResult pItem2 s;
        x \<leftarrow> item_rd pResult s;
        item_wr pResult (clear_memoflag x) s }
      else if cs2 = [] then do {
        s \<leftarrow> (if pResult \<noteq> pItem1 then hb_itemCopy R pResult pItem1 s else Some s);
        x \<leftarrow> item_rd pResult s;
        item_wr pResult (clear_memoflag x) s }
      else if length cs1 < HB_SIZE_MAX - length cs2 then do {
        s \<leftarrow> (if pResult \<noteq> pItem1 then hb_itemMove R pResult pItem1 s else Some s);
        y \<leftarrow> item_rd pItem2 s;
        case y of
          I_String m cs \<Rightarrow> item_wr pResult (I_String memo (string_minus cs1 cs)) s
        | _ \<Rightarrow> None }
      else hcall R ''hb_errRT_BASE'' [N 1210, L pItem1, L pItem2] s)"

definition hb_vmMinus :: "'w helpers \<Rightarrow> loc \<Rightarrow> loc \<Rightarrow> loc \<Rightarrow> 'w vm \<Rightarrow> 'w vm option" where
  "hb_vmMinus R pResult pItem1 pItem2 s = do {
     x1 \<leftarrow> item_rd pItem1 s;
     x2 \<leftarrow> item_rd pItem2 s;
     if HB_IS_NUMINT x1 \<and> HB_IS_NUMINT x2 then
       (let nNumber1 = HB_ITEM_GET_NUMINTRAW x1;
            nNumber2 = HB_ITEM_GET_NUMINTRAW x2;
            nResult = maxint (nNumber1 - nNumber2)
        in do {
          s \<leftarrow> clear_if_complex R pResult s;
          if (if nNumber2 \<le> 0 then nResult \<ge> nNumber1 else nResult < nNumber1)
          then item_wr pResult (HB_ITEM_PUT_NUMINTRAW nResult) s
          else item_wr pResult (put_double (d_sub (d_of_int nNumber1) (d_of_int nNumber2)) 0) s })
     else if HB_IS_NUMERIC x1 \<and> HB_IS_NUMERIC x2 then
       (case (hb_itemGetNDDec x1, hb_itemGetNDDec x2) of
          ((dNumber1, iDec1), (dNumber2, iDec2)) \<Rightarrow>
            hb_itemPutNDDec R pResult (d_sub dNumber1 dNumber2) (max iDec1 iDec2) s)
     else if HB_IS_DATETIME x1 \<and> HB_IS_DATETIME x2 then
       (let lTime = dt_time x1 - dt_time x2; lJulian = dt_julian x1 - dt_julian x2
        in if lTime \<noteq> 0 then hb_itemPutNDDec R pResult (hb_timeStampPackDT lJulian lTime) 6 s
           else do {
             s \<leftarrow> clear_if_complex R pResult s;
             item_wr pResult (HB_ITEM_PUT_LONGRAW lJulian) s })
     else if HB_IS_DATETIME x1 \<and> HB_IS_NUMERIC x2 then
       (if HB_IS_TIMESTAMP x1 then
          (if HB_IS_NUMINT x2
           then hb_vmTimeStampPut R pResult (dt_julian x1 - HB_ITEM_GET_NUMINTRAW x2) (dt_time x1) s
           else hb_vmTimeStampAdd R pResult x1 (d_neg (HB_ITEM_GET_NUMDBLRAW x2)) s)
        else hb_itemPutDL R pResult (hb_itemGetDL x1 - hb_itemGetNL x2) s)
     else case (x1, x2) of
       (I_String m1 cs1, I_String m2 cs2) \<Rightarrow> minus_strings R pResult pItem1 pItem2 cs1 cs2 m1 s
     | _ \<Rightarrow> arith_object R op_MINUS 1082 pResult pItem1 pItem2 s }"

section \<open>Products\<close>

definition hb_vmMult :: "'w helpers \<Rightarrow> loc \<Rightarrow> loc \<Rightarrow> loc \<Rightarrow> 'w vm \<Rightarrow> 'w vm option" where
  "hb_vmMult R pResult pItem1 pItem2 s = do {
     x1 \<leftarrow> item_rd pItem1 s;
     x2 \<leftarrow> item_rd pItem2 s;
     if HB_IS_INTEGER x1 \<and> HB_IS_INTEGER x2 then do {
       let nResult = maxint (HB_ITEM_GET_NUMINTRAW x1 * HB_ITEM_GET_NUMINTRAW x2);
       s \<leftarrow> clear_if_complex R pResult s;
       item_wr pResult (HB_ITEM_PUT_NUMINTRAW nResult) s }
     else if HB_IS_NUMERIC x1 \<and> HB_IS_NUMERIC x2 then
       (case (hb_itemGetNDDec x1, hb_itemGetNDDec x2) of
          ((dNumber1, iDec1), (dNumber2, iDec2)) \<Rightarrow>
            hb_itemPutNumType R pResult (d_mul dNumber1 dNumber2) (iDec1 + iDec2)
              (HB_IS_DOUBLE x1) (HB_IS_DOUBLE x2) s)
     else arith_object R op_MULT 1083 pResult pItem1 pItem2 s }"

definition hb_vmDivide :: "'w helpers \<Rightarrow> loc \<Rightarrow> loc \<Rightarrow> loc \<Rightarrow> 'w vm \<Rightarrow> 'w vm option" where
  "hb_vmDivide R pResult pItem1 pItem2 s = do {
     x1 \<leftarrow> item_rd pItem1 s;
     x2 \<leftarrow> item_rd pItem2 s;
     if HB_IS_NUMINT x1 \<and> HB_IS_NUMINT x2 then
       (let nDivisor = HB_ITEM_GET_NUMINTRAW x2
        in if nDivisor = 0 then err_subst R 1340 [pItem1, pItem2] pResult s
           else hb_itemPutND R pResult
             (d_div (d_of_int (HB_ITEM_GET_NUMINTRAW x1)) (d_of_int nDivisor)) s)
     else if HB_IS_NUMERIC x1 \<and> HB_IS_NUMERIC x2 then
       (let dDivisor = hb_itemGetND x2
        in if d_eq dDivisor (d_of_int 0) then err_subst R 1340 [pItem1, pItem2] pResult s
           else hb_itemPutND R pResult (d_div (hb_itemGetND x1) dDivisor) s)
     else arith_object R op_DIVIDE 1084 pResult pItem1 pItem2 s }"

text \<open>\<open>smod\<close> is the remainder of C, with the sign of the dividend.\<close>

definition hb_vmModulus :: "'w helpers \<Rightarrow> loc \<Rightarrow> loc \<Rightarrow> loc \<Rightarrow> 'w vm \<Rightarrow> 'w vm option" where
  "hb_vmModulus R pResult pItem1 pItem2 s = do {
     x1 \<leftarrow> item_rd pItem1 s;
     x2 \<leftarrow> item_rd pItem2 s;
     if HB_IS_NUMINT x1 \<and> HB_IS_NUMINT x2 then
       (let nDivisor = HB_ITEM_GET_NUMINTRAW x2
        in if nDivisor = 0 then err_subst R 1341 [pItem1, pItem2] pResult s
           else hb_itemPutND R pResult (d_of_int (HB_ITEM_GET_NUMINTRAW x1 smod nDivisor)) s)
     else if HB_IS_NUMERIC x1 \<and> HB_IS_NUMERIC x2 then
       (let dDivisor = hb_itemGetND x2
        in if d_eq dDivisor (d_of_int 0) then err_subst R 1341 [pItem1, pItem2] pResult s
           else hb_itemPutND R pResult (d_fmod (hb_itemGetND x1) dDivisor) s)
     else arith_object R op_MOD 1085 pResult pItem1 pItem2 s }"

text \<open>\<open>hpow\<close> is the library function pow.\<close>

definition hb_vmPower :: "'w helpers \<Rightarrow> loc \<Rightarrow> loc \<Rightarrow> loc \<Rightarrow> 'w vm \<Rightarrow> 'w vm option" where
  "hb_vmPower R pResult pItem1 pItem2 s = do {
     x1 \<leftarrow> item_rd pItem1 s;
     x2 \<leftarrow> item_rd pItem2 s;
     if HB_IS_NUMERIC x1 \<and> HB_IS_NUMERIC x2
     then hb_itemPutND R pResult (hpow R (hb_itemGetND x1) (hb_itemGetND x2)) s
     else arith_object R op_POWER 1088 pResult pItem1 pItem2 s }"

section \<open>One argument\<close>

definition hb_vmAddInt :: "'w helpers \<Rightarrow> loc \<Rightarrow> int \<Rightarrow> 'w vm \<Rightarrow> 'w vm option" where
  "hb_vmAddInt R pResult lAdd s = do {
     (pResult, s) \<leftarrow> unref_if R pResult s;
     x \<leftarrow> item_rd pResult s;
     if HB_IS_NUMINT x then
       (let nVal = HB_ITEM_GET_NUMINTRAW x; nResult = maxint (nVal + lAdd)
        in if (if lAdd \<ge> 0 then nResult \<ge> nVal else nResult < nVal)
           then item_wr pResult (HB_ITEM_PUT_NUMINTRAW nResult) s
           else item_wr pResult (put_double (d_add (d_of_int nVal) (d_of_int lAdd)) 0) s)
     else case x of
       I_Double d l n \<Rightarrow> item_wr pResult (put_double (d_add d (d_of_int lAdd)) n) s
     | I_Date j \<Rightarrow> item_wr pResult (I_Date (j + lAdd)) s
     | I_TimeStamp j t \<Rightarrow> item_wr pResult (I_TimeStamp (j + lAdd) t) s
     | _ \<Rightarrow>
       (if hobjhas R op_PLUS x s then do {
          let s = hb_vmPushLong lAdd s;
          p \<leftarrow> hb_stackItemFromTop (- 1) s;
          (done, s) \<leftarrow> hobjop R op_PLUS pResult pResult (Some p) s;
          hb_stackPop R s }
        else do {
          let s = hb_vmPushLong lAdd s;
          p \<leftarrow> hb_stackItemFromTop (- 1) s;
          err_subst_pop R 1081 [pResult, p] pResult s }) }"

text \<open>Inc and dec: \<open>k\<close> is the step, 1 or -1, taken where the type still holds the result.\<close>

definition incdec ::
  "int \<Rightarrow> nat \<Rightarrow> nat \<Rightarrow> 'w helpers \<Rightarrow> loc \<Rightarrow> 'w vm \<Rightarrow> 'w vm option" where
  "incdec k oper err R pItem s = do {
     x \<leftarrow> item_rd pItem s;
     case x of
       I_Integer v l \<Rightarrow>
         (if (if k > 0 then v < 2 ^ 31 - 1 else v > - (2 ^ 31))
          then item_wr pItem (I_Integer (v + k) (HB_INT_EXPLENGTH (v + k))) s
          else item_wr pItem (I_Long (v + k) (HB_LONG_EXPLENGTH (v + k))) s)
     | I_Long v l \<Rightarrow>
         (if (if k > 0 then v < 2 ^ 63 - 1 else v > - (2 ^ 63))
          then item_wr pItem (I_Long (v + k) (HB_LONG_EXPLENGTH (v + k))) s
          else item_wr pItem (put_double (d_add (d_of_int v) (d_of_int k)) 0) s)
     | I_Double d l n \<Rightarrow> item_wr pItem (put_double (d_add d (d_of_int k)) n) s
     | I_Date j \<Rightarrow> item_wr pItem (I_Date (j + k)) s
     | I_TimeStamp j t \<Rightarrow> item_wr pItem (I_TimeStamp (j + k) t) s
     | _ \<Rightarrow> do {
         (done, s) \<leftarrow> hobjop R oper pItem pItem None s;
         if done then Some s else err_subst R err [pItem] pItem s } }"

definition hb_vmInc :: "'w helpers \<Rightarrow> loc \<Rightarrow> 'w vm \<Rightarrow> 'w vm option" where
  "hb_vmInc = incdec 1 op_INC 1086"

definition hb_vmDec :: "'w helpers \<Rightarrow> loc \<Rightarrow> 'w vm \<Rightarrow> 'w vm option" where
  "hb_vmDec = incdec (- 1) op_DEC 1087"

definition hb_vmNegate :: "'w helpers \<Rightarrow> 'w vm \<Rightarrow> 'w vm option" where
  "hb_vmNegate R s = do {
     pItem \<leftarrow> hb_stackItemFromTop (- 1) s;
     x \<leftarrow> item_rd pItem s;
     case x of
       I_Integer v l \<Rightarrow>
         (if v < - (2 ^ 31 - 1) then item_wr pItem (I_Long (- v) (HB_LONG_EXPLENGTH (- v))) s
          else item_wr pItem (I_Integer (- v) (HB_INT_EXPLENGTH (- v))) s)
     | I_Long v l \<Rightarrow>
         (if v < - (2 ^ 63 - 1) then item_wr pItem (put_double (d_neg (d_of_int v)) 0) s
          else item_wr pItem (I_Long (- v) (HB_LONG_EXPLENGTH (- v))) s)
     | I_Double d l n \<Rightarrow> item_wr pItem (put_double (d_neg d) n) s
     | _ \<Rightarrow> err_subst R 1080 [pItem] pItem s }"

end
