(* ===== verification/HbStr.thy ===== *)
theory HbStr
  imports HbPrelude
begin

text \<open>
  Searching and comparing strings, common/hbstr.c.  A string with its length is
  a list of bytes; a string that ends with a zero byte is the list before it.
\<close>

section \<open>Case\<close>

definition to_upper :: "HB_BYTE \<Rightarrow> HB_BYTE" where
  "to_upper c = (if c \<ge> 97 \<and> c \<le> 122 then c - 32 else c)"

definition to_lower :: "HB_BYTE \<Rightarrow> HB_BYTE" where
  "to_lower c = (if c \<ge> 65 \<and> c \<le> 90 then c + 32 else c)"

section \<open>Search\<close>

text \<open>
  The inner loop, from the last byte of the pattern down to the second; \<open>f\<close> is
  the identity in hb_strAt and HB_TOUPPER in hb_strAtI.
\<close>

fun sub_match :: "(HB_BYTE \<Rightarrow> HB_BYTE) \<Rightarrow> HB_BYTE list \<Rightarrow> HB_BYTE list \<Rightarrow> nat \<Rightarrow> nat \<Rightarrow> bool" where
  "sub_match f szText szSub nPos 0 = True"
| "sub_match f szText szSub nPos (Suc nSubPos) =
     (if nSubPos = 0 then True
      else if f (szText ! (nPos + nSubPos)) = f (szSub ! nSubPos)
      then sub_match f szText szSub nPos nSubPos else False)"

text \<open>The outer loop: \<open>k\<close> positions are left after \<open>nPos\<close>.\<close>

fun at_loop :: "(HB_BYTE \<Rightarrow> HB_BYTE) \<Rightarrow> HB_BYTE list \<Rightarrow> HB_BYTE list \<Rightarrow> nat \<Rightarrow> nat \<Rightarrow> nat" where
  "at_loop f szText szSub nPos k =
     (if f (szText ! nPos) = f (hd szSub) \<and> sub_match f szText szSub nPos (length szSub)
      then nPos + 1
      else (case k of 0 \<Rightarrow> 0 | Suc j \<Rightarrow> at_loop f szText szSub (nPos + 1) j))"

declare at_loop.simps [simp del]

definition str_at :: "(HB_BYTE \<Rightarrow> HB_BYTE) \<Rightarrow> HB_BYTE list \<Rightarrow> HB_BYTE list \<Rightarrow> nat" where
  "str_at f szSub szText =
     (if length szSub > 0 \<and> length szText \<ge> length szSub
      then at_loop f szText szSub 0 (length szText - length szSub) else 0)"

definition hb_strAt :: "HB_BYTE list \<Rightarrow> HB_BYTE list \<Rightarrow> nat" where
  "hb_strAt = str_at (\<lambda>c. c)"

definition hb_strAtI :: "HB_BYTE list \<Rightarrow> HB_BYTE list \<Rightarrow> nat" where
  "hb_strAtI = str_at to_upper"

section \<open>Tests, case, trimming\<close>

definition is_space :: "HB_BYTE \<Rightarrow> bool" where
  "is_space c \<longleftrightarrow> c = 32 \<or> c = 9 \<or> c = 10 \<or> c = 13"

text \<open>The loop runs from the end.\<close>

fun empty_loop :: "HB_BYTE list \<Rightarrow> nat \<Rightarrow> bool" where
  "empty_loop szText 0 = True"
| "empty_loop szText (Suc nLen) = (if \<not> is_space (szText ! nLen) then False else empty_loop szText nLen)"

definition hb_strEmpty :: "HB_BYTE list \<Rightarrow> bool" where
  "hb_strEmpty szText = empty_loop szText (length szText)"

text \<open>From here on a string ends at its zero byte, which the list does not contain.\<close>

definition hb_strupr :: "HB_BYTE list \<Rightarrow> HB_BYTE list" where
  "hb_strupr pszText = map to_upper pszText"

definition hb_strlow :: "HB_BYTE list \<Rightarrow> HB_BYTE list" where
  "hb_strlow pszText = map to_lower pszText"

fun hb_strnlen :: "HB_BYTE list \<Rightarrow> nat \<Rightarrow> nat" where
  "hb_strnlen pszText 0 = 0"
| "hb_strnlen [] (Suc nLen) = 0"
| "hb_strnlen (c # pszText) (Suc nLen) = Suc (hb_strnlen pszText nLen)"

definition hb_strndup :: "HB_BYTE list \<Rightarrow> nat \<Rightarrow> HB_BYTE list" where
  "hb_strndup pszText nLen = take (hb_strnlen pszText nLen) pszText"

fun skip_blanks :: "HB_BYTE list \<Rightarrow> HB_BYTE list" where
  "skip_blanks [] = []"
| "skip_blanks (c # cs) = (if c = 32 then skip_blanks cs else c # cs)"

text \<open>The length without the trailing spaces.\<close>

fun trim_len :: "HB_BYTE list \<Rightarrow> nat \<Rightarrow> nat" where
  "trim_len cs 0 = 0"
| "trim_len cs (Suc nLen) = (if cs ! nLen = 32 then trim_len cs nLen else Suc nLen)"

definition hb_strduptrim :: "HB_BYTE list \<Rightarrow> HB_BYTE list" where
  "hb_strduptrim pszText =
     (let pszText = skip_blanks pszText in take (trim_len pszText (length pszText)) pszText)"

definition hb_strlentrim :: "HB_BYTE list \<Rightarrow> nat" where
  "hb_strlentrim pszText =
     (let pszText = skip_blanks pszText in trim_len pszText (length pszText))"

section \<open>Comparison without case\<close>

text \<open>The end of a string compares as its zero byte.\<close>

fun hb_stricmp :: "HB_BYTE list \<Rightarrow> HB_BYTE list \<Rightarrow> int" where
  "hb_stricmp [] [] = 0"
| "hb_stricmp [] (d # ds) = (if 0 \<noteq> to_upper d then (if 0 < to_upper d then - 1 else 1) else 0)"
| "hb_stricmp (c # cs) [] = (if to_upper c \<noteq> 0 then (if to_upper c < 0 then - 1 else 1) else 0)"
| "hb_stricmp (c # cs) (d # ds) =
     (if to_upper c \<noteq> to_upper d then (if to_upper c < to_upper d then - 1 else 1)
      else if to_upper c = 0 then 0 else hb_stricmp cs ds)"

fun hb_strnicmp :: "HB_BYTE list \<Rightarrow> HB_BYTE list \<Rightarrow> nat \<Rightarrow> int" where
  "hb_strnicmp s1 s2 0 = 0"
| "hb_strnicmp s1 s2 (Suc count) =
     (let c1 = (case s1 of [] \<Rightarrow> 0 | c # _ \<Rightarrow> to_upper c);
          c2 = (case s2 of [] \<Rightarrow> 0 | c # _ \<Rightarrow> to_upper c)
      in if c1 \<noteq> c2 then (if c1 < c2 then - 1 else 1)
         else if c1 = 0 then 0 else hb_strnicmp (tl s1) (tl s2) count)"

section \<open>Copies with a limit\<close>

text \<open>
  The destination has room for \<open>nLen\<close> bytes and the zero.  \<open>f\<close> is the
  identity, HB_TOLOWER or HB_TOUPPER.
\<close>

fun copy_loop :: "(HB_BYTE \<Rightarrow> HB_BYTE) \<Rightarrow> HB_BYTE list \<Rightarrow> nat \<Rightarrow> HB_BYTE list" where
  "copy_loop f pSource 0 = []"
| "copy_loop f [] (Suc nLen) = []"
| "copy_loop f (c # pSource) (Suc nLen) = f c # copy_loop f pSource nLen"

definition hb_strncpy :: "HB_BYTE list \<Rightarrow> nat \<Rightarrow> HB_BYTE list" where
  "hb_strncpy = copy_loop (\<lambda>c. c)"

definition hb_strncpyLower :: "HB_BYTE list \<Rightarrow> nat \<Rightarrow> HB_BYTE list" where
  "hb_strncpyLower = copy_loop to_lower"

definition hb_strncpyUpper :: "HB_BYTE list \<Rightarrow> nat \<Rightarrow> HB_BYTE list" where
  "hb_strncpyUpper = copy_loop to_upper"

text \<open>The first loop of hb_strncat keeps what the destination holds, within the limit.\<close>

fun hb_strncat :: "HB_BYTE list \<Rightarrow> HB_BYTE list \<Rightarrow> nat \<Rightarrow> HB_BYTE list" where
  "hb_strncat pDest pSource 0 = []"
| "hb_strncat [] pSource (Suc nLen) = copy_loop (\<lambda>c. c) pSource (Suc nLen)"
| "hb_strncat (c # pDest) pSource (Suc nLen) = c # hb_strncat pDest pSource nLen"

definition copy_trim :: "(HB_BYTE \<Rightarrow> HB_BYTE) \<Rightarrow> HB_BYTE list \<Rightarrow> nat \<Rightarrow> HB_BYTE list" where
  "copy_trim f pSource nLen =
     (let nSLen = trim_len pSource (hb_strnlen pSource nLen)
      in copy_loop f pSource (min nLen nSLen))"

definition hb_strncpyTrim :: "HB_BYTE list \<Rightarrow> nat \<Rightarrow> HB_BYTE list" where
  "hb_strncpyTrim = copy_trim (\<lambda>c. c)"

definition hb_strncpyUpperTrim :: "HB_BYTE list \<Rightarrow> nat \<Rightarrow> HB_BYTE list" where
  "hb_strncpyUpperTrim = copy_trim to_upper"

section \<open>Escape sequences\<close>

definition octal :: "HB_BYTE \<Rightarrow> bool" where "octal c \<longleftrightarrow> c \<ge> 48 \<and> c \<le> 55"

fun hex_value :: "HB_BYTE \<Rightarrow> HB_BYTE option" where
  "hex_value c =
     (if c \<ge> 48 \<and> c \<le> 57 then Some (c - 48)
      else if c \<ge> 65 \<and> c \<le> 70 then Some (c - 55)
      else if c \<ge> 97 \<and> c \<le> 102 then Some (c - 87)
      else None)"

text \<open>The digits after \<open>\x\<close>: the value, how many there are, the rest.\<close>

fun hex_loop :: "HB_BYTE list \<Rightarrow> HB_BYTE \<Rightarrow> nat \<Rightarrow> HB_BYTE \<times> nat \<times> HB_BYTE list" where
  "hex_loop [] ch n = (ch, n, [])"
| "hex_loop (c # cs) ch n =
     (case hex_value c of
        Some d \<Rightarrow> hex_loop cs (push_bit 4 ch OR d) (Suc n)
      | None \<Rightarrow> (ch, n, c # cs))"

text \<open>One or two more octal digits.\<close>

definition octal_digits :: "HB_BYTE \<Rightarrow> HB_BYTE list \<Rightarrow> HB_BYTE \<times> nat \<times> HB_BYTE list" where
  "octal_digits ch cs =
     (case cs of
        c # cs1 \<Rightarrow>
          (if octal c then
             (let ch = push_bit 3 ch OR (c - 48) in
              case cs1 of
                d # cs2 \<Rightarrow> (if octal d then (push_bit 3 ch OR (d - 48), 2, cs2) else (ch, 1, cs1))
              | [] \<Rightarrow> (ch, 1, cs1))
           else (ch, 0, cs))
      | [] \<Rightarrow> (ch, 0, cs))"

text \<open>The character after a backslash: its value, the bytes stripped after it, the rest.\<close>

definition escape_char :: "HB_BYTE \<Rightarrow> HB_BYTE list \<Rightarrow> HB_BYTE \<times> nat \<times> HB_BYTE list" where
  "escape_char ch cs =
     (if ch = 114 then (13, 0, cs)
      else if ch = 110 then (10, 0, cs)
      else if ch = 116 then (9, 0, cs)
      else if ch = 98 then (8, 0, cs)
      else if ch = 102 then (12, 0, cs)
      else if ch = 118 then (11, 0, cs)
      else if ch = 97 then (7, 0, cs)
      else if octal ch then octal_digits (ch - 48) cs
      else if ch = 120 then hex_loop cs 0 0
      else (ch, 0, cs))"

lemma hex_loop_length: "hex_loop cs ch n = (ch1, n1, r) \<Longrightarrow> length cs + n = length r + n1"
  by (induction cs ch n rule: hex_loop.induct) (auto split: option.splits)

lemma escape_char_length: "escape_char ch cs = (ch1, n1, r) \<Longrightarrow> length cs = length r + n1"
  by (auto simp: escape_char_def octal_digits_def Let_def dest: hex_loop_length
      split: if_splits list.splits)

function unescape :: "HB_BYTE list \<Rightarrow> HB_BYTE list \<times> nat" where
  "unescape [] = ([], 0)"
| "unescape (c # cs) =
     (if c = 92 then
        (case cs of
           [] \<Rightarrow> ([], 1)
         | ch # cs1 \<Rightarrow>
           (case escape_char ch cs1 of
              (ch, n, cs2) \<Rightarrow> (case unescape cs2 of (out, k) \<Rightarrow> (ch # out, Suc n + k))))
      else (case unescape cs of (out, k) \<Rightarrow> (c # out, k)))"
  by pat_completeness auto
termination
proof (relation "measure length")
  fix c ch n cs1 cs2 and cs cs3 :: "HB_BYTE list" and x y
  show "wf (measure (length :: HB_BYTE list \<Rightarrow> nat))" by simp
qed (auto dest!: escape_char_length[OF sym])

text \<open>The text and the new length, which counts the bytes stripped.\<close>

definition hb_strRemEscSeq :: "HB_BYTE list \<Rightarrow> HB_BYTE list \<times> nat" where
  "hb_strRemEscSeq str =
     (let pre = takeWhile (\<lambda>c. c \<noteq> 92) str;
          (out, nStripped) = unescape (dropWhile (\<lambda>c. c \<noteq> 92) str)
      in (pre @ out, length str - nStripped))"

section \<open>Encodings\<close>

definition hb_compEncodeString :: "int \<Rightarrow> HB_BYTE list \<Rightarrow> HB_BYTE list" where
  "hb_compEncodeString iMethod szText = (if iMethod = 1 then map (\<lambda>c. c XOR 0xF3) szText else szText)"

definition hb_compDecodeString :: "int \<Rightarrow> HB_BYTE list \<Rightarrow> HB_BYTE list" where
  "hb_compDecodeString iMethod szText = (if iMethod = 1 then map (\<lambda>c. c XOR 0xF3) szText else szText)"

definition hex_digit :: "HB_BYTE \<Rightarrow> HB_BYTE" where
  "hex_digit b = b + (if b > 9 then 87 else 48)"

fun hb_strtohex :: "HB_BYTE list \<Rightarrow> HB_BYTE list" where
  "hb_strtohex [] = []"
| "hb_strtohex (c # cs) =
     hex_digit (drop_bit 4 c AND 0x0F) # hex_digit (c AND 0x0F) # hb_strtohex cs"

end
