(* ===== verification/VmCmp.thy ===== *)
theory VmCmp
  imports VmItem HbStr
begin

text \<open>
  The relational operators of vm/hvm.c and the test of a FOR loop, every
  branch.  The arguments are the two items on top of the stack; the result
  replaces them.
\<close>

section \<open>Equality\<close>

text \<open>The case of a NIL argument, which all three operators begin with; \<open>eq\<close> tells equal from not equal.\<close>

definition nil_equality ::
  "bool \<Rightarrow> 'w helpers \<Rightarrow> ('w vm \<Rightarrow> loc \<Rightarrow> loc \<Rightarrow> item \<Rightarrow> item \<Rightarrow> 'w vm option) \<Rightarrow> 'w vm \<Rightarrow> 'w vm option" where
  "nil_equality eq R rest s = do {
     pItem2 \<leftarrow> hb_stackItemFromTop (- 1) s;
     pItem1 \<leftarrow> hb_stackItemFromTop (- 2) s;
     x1 \<leftarrow> item_rd pItem1 s;
     x2 \<leftarrow> item_rd pItem2 s;
     if x1 = I_Nil then do {
       s \<leftarrow> item_wr pItem1 (I_Logical ((x2 = I_Nil) = eq)) s;
       hb_stackPop R s }
     else if x2 = I_Nil then do {
       s \<leftarrow> hb_stackDec s;
       s \<leftarrow> clear_if_complex R pItem1 s;
       item_wr pItem1 (I_Logical (\<not> eq)) s }
     else rest s pItem1 pItem2 x1 x2 }"

text \<open>hb_vmEqual and hb_vmNotEqual are the same code but for the sense of the result.\<close>

definition vm_equality ::
  "bool \<Rightarrow> nat \<Rightarrow> nat \<Rightarrow> 'w helpers \<Rightarrow> 'w vm \<Rightarrow> loc \<Rightarrow> loc \<Rightarrow> item \<Rightarrow> item \<Rightarrow> 'w vm option" where
  "vm_equality eq oper err R s pItem1 pItem2 x1 x2 =
     (case (x1, x2) of
        (I_String m1 cs1, I_String m2 cs2) \<Rightarrow>
          put_logical_pop R pItem1 ((hb_itemStrCmp R cs1 cs2 False s = 0) = eq) s
      | (I_Logical a, I_Logical b) \<Rightarrow>
          put_logical_dec pItem1 (if a then b = eq else b \<noteq> eq) s
      | (I_Pointer a, I_Pointer b) \<Rightarrow> put_logical_pop R pItem1 ((a = b) = eq) s
      | _ \<Rightarrow>
        (if HB_IS_NUMINT x1 \<and> HB_IS_NUMINT x2 then
           put_logical_dec pItem1 ((HB_ITEM_GET_NUMINTRAW x1 = HB_ITEM_GET_NUMINTRAW x2) = eq) s
         else if HB_IS_NUMERIC x1 \<and> HB_IS_NUMERIC x2 then
           put_logical_dec pItem1
             (d_eq (HB_ITEM_GET_NUMDBLRAW x1) (HB_ITEM_GET_NUMDBLRAW x2) = eq) s
         else if HB_IS_DATETIME x1 \<and> HB_IS_DATETIME x2 then
           put_logical_dec pItem1
             ((dt_julian x1 = dt_julian x2 \<and>
               (HB_IS_TIMESTAMP x1 \<and> HB_IS_TIMESTAMP x2 \<longrightarrow> dt_time x1 = dt_time x2)) = eq) s
         else rel_object R oper err pItem1 pItem2 s))"

definition hb_vmEqual :: "'w helpers \<Rightarrow> 'w vm \<Rightarrow> 'w vm option" where
  "hb_vmEqual R = nil_equality True R (vm_equality True op_EQUAL 1071 R)"

definition hb_vmNotEqual :: "'w helpers \<Rightarrow> 'w vm \<Rightarrow> 'w vm option" where
  "hb_vmNotEqual R = nil_equality False R (vm_equality False op_NOTEQUAL 1072 R)"

text \<open>
  Two symbols are the same when they have the same dynamic symbol; \<open>hsymdyn\<close>
  gives it.  An array that is an object may have an operator of its own.
\<close>

definition exact_rest ::
  "'w helpers \<Rightarrow> 'w vm \<Rightarrow> loc \<Rightarrow> loc \<Rightarrow> item \<Rightarrow> item \<Rightarrow> 'w vm option" where
  "exact_rest R s pItem1 pItem2 x1 x2 =
     (case (x1, x2) of
        (I_String m1 cs1, I_String m2 cs2) \<Rightarrow> put_logical_pop R pItem1 (cs1 = cs2) s
      | (I_Logical a, I_Logical b) \<Rightarrow> put_logical_dec pItem1 (if a then b else \<not> b) s
      | (I_Pointer a, I_Pointer b) \<Rightarrow> put_logical_pop R pItem1 (a = b) s
      | (I_Hash a, I_Hash b) \<Rightarrow> put_logical_pop R pItem1 (a = b) s
      | (I_Block a, I_Block b) \<Rightarrow> put_logical_pop R pItem1 (a = b) s
      | (I_Symbol a, I_Symbol b) \<Rightarrow>
          put_logical_dec pItem1 (a = b \<or> (hsymdyn R a \<noteq> None \<and> hsymdyn R a = hsymdyn R b)) s
      | _ \<Rightarrow>
        (if HB_IS_NUMINT x1 \<and> HB_IS_NUMINT x2 then
           put_logical_dec pItem1 (HB_ITEM_GET_NUMINTRAW x1 = HB_ITEM_GET_NUMINTRAW x2) s
         else if HB_IS_NUMERIC x1 \<and> HB_IS_NUMERIC x2 then
           put_logical_dec pItem1 (d_eq (HB_ITEM_GET_NUMDBLRAW x1) (HB_ITEM_GET_NUMDBLRAW x2)) s
         else if HB_IS_DATETIME x1 \<and> HB_IS_DATETIME x2 then
           put_logical_dec pItem1 (dt_julian x1 = dt_julian x2 \<and> dt_time x1 = dt_time x2) s
         else if HB_IS_ARRAY x1 \<and> HB_IS_ARRAY x2 \<and> \<not> hobjhas R op_EXACTEQUAL x1 s then
           put_logical_pop R pItem1 (x1 = x2) s
         else rel_object R op_EXACTEQUAL 1070 pItem1 pItem2 s))"

definition hb_vmExactlyEqual :: "'w helpers \<Rightarrow> 'w vm \<Rightarrow> 'w vm option" where
  "hb_vmExactlyEqual R = nil_equality True R (exact_rest R)"

section \<open>Order\<close>

text \<open>
  The four orders are the same code with another comparison: \<open>lt\<close> of integers
  (also of the result of hb_itemStrCmp with 0, and of days and times), \<open>strict\<close>
  its strict part, \<open>dlt\<close> of doubles and \<open>bl\<close> of logical values.
\<close>

definition vm_order ::
  "(int \<Rightarrow> int \<Rightarrow> bool) \<Rightarrow> (int \<Rightarrow> int \<Rightarrow> bool) \<Rightarrow> (64 word \<Rightarrow> 64 word \<Rightarrow> bool) \<Rightarrow> (bool \<Rightarrow> bool \<Rightarrow> bool) \<Rightarrow>
   nat \<Rightarrow> nat \<Rightarrow> 'w helpers \<Rightarrow> 'w vm \<Rightarrow> 'w vm option" where
  "vm_order lt strict dlt bl oper err R s = do {
     pItem2 \<leftarrow> hb_stackItemFromTop (- 1) s;
     pItem1 \<leftarrow> hb_stackItemFromTop (- 2) s;
     x1 \<leftarrow> item_rd pItem1 s;
     x2 \<leftarrow> item_rd pItem2 s;
     case (x1, x2) of
       (I_String m1 cs1, I_String m2 cs2) \<Rightarrow>
         put_logical_pop R pItem1 (lt (hb_itemStrCmp R cs1 cs2 False s) 0) s
     | (I_Logical a, I_Logical b) \<Rightarrow> put_logical_dec pItem1 (bl a b) s
     | _ \<Rightarrow>
       (if HB_IS_NUMINT x1 \<and> HB_IS_NUMINT x2 then
          put_logical_dec pItem1 (lt (HB_ITEM_GET_NUMINTRAW x1) (HB_ITEM_GET_NUMINTRAW x2)) s
        else if HB_IS_NUMERIC x1 \<and> HB_IS_NUMERIC x2 then
          put_logical_dec pItem1 (dlt (HB_ITEM_GET_NUMDBLRAW x1) (HB_ITEM_GET_NUMDBLRAW x2)) s
        else if HB_IS_DATETIME x1 \<and> HB_IS_DATETIME x2 then
          put_logical_dec pItem1
            (if HB_IS_TIMESTAMP x1 \<and> HB_IS_TIMESTAMP x2
             then strict (dt_julian x1) (dt_julian x2) \<or>
               (dt_julian x1 = dt_julian x2 \<and> lt (dt_time x1) (dt_time x2))
             else lt (dt_julian x1) (dt_julian x2)) s
        else rel_object R oper err pItem1 pItem2 s) }"

definition hb_vmLess :: "'w helpers \<Rightarrow> 'w vm \<Rightarrow> 'w vm option" where
  "hb_vmLess = vm_order (<) (<) d_lt (\<lambda>a b. \<not> a \<and> b) op_LESS 1073"

definition hb_vmLessEqual :: "'w helpers \<Rightarrow> 'w vm \<Rightarrow> 'w vm option" where
  "hb_vmLessEqual = vm_order (\<le>) (<) d_le (\<lambda>a b. \<not> a \<or> b) op_LESSEQUAL 1074"

definition hb_vmGreater :: "'w helpers \<Rightarrow> 'w vm \<Rightarrow> 'w vm option" where
  "hb_vmGreater = vm_order (>) (>) (\<lambda>x y. d_lt y x) (\<lambda>a b. a \<and> \<not> b) op_GREATER 1075"

definition hb_vmGreaterEqual :: "'w helpers \<Rightarrow> 'w vm \<Rightarrow> 'w vm option" where
  "hb_vmGreaterEqual = vm_order (\<ge>) (>) (\<lambda>x y. d_le y x) (\<lambda>a b. a \<or> \<not> b) op_GREATEREQUAL 1076"

section \<open>The operator $\<close>

definition hb_vmInstring :: "'w helpers \<Rightarrow> 'w vm \<Rightarrow> 'w vm option" where
  "hb_vmInstring R s = do {
     pItem1 \<leftarrow> hb_stackItemFromTop (- 2) s;
     pItem2 \<leftarrow> hb_stackItemFromTop (- 1) s;
     x1 \<leftarrow> item_rd pItem1 s;
     x2 \<leftarrow> item_rd pItem2 s;
     case (x1, x2) of
       (I_String m1 cs1, I_String m2 cs2) \<Rightarrow> put_logical_pop R pItem1 (hb_strAt cs1 cs2 \<noteq> 0) s
     | _ \<Rightarrow>
       (if HB_IS_HASH x2 \<and> (HB_IS_HASHKEY x1 \<or> hhashlen R x1 s = 1) then
          put_logical_pop R pItem1 (hhashscan R x2 x1 s) s
        else do {
          (done, s) \<leftarrow> hobjop R op_INCLUDE pItem1 pItem2 (Some pItem1) s;
          if done then hb_stackPop R s
          else rel_object R op_INSTRING 1109 pItem1 pItem2 s }) }"

section \<open>FOR\<close>

text \<open>
  The end test of FOR: the step on top of the stack tells the direction; then
  the counter and the limit are compared.
\<close>

definition hb_vmForTest :: "'w helpers \<Rightarrow> 'w vm \<Rightarrow> 'w vm option" where
  "hb_vmForTest R s = do {
     pStep \<leftarrow> hb_stackItemFromTop (- 1) s;
     x \<leftarrow> item_rd pStep s;
     if HB_IS_NUMERIC x then do {
       let fBack = d_lt (HB_ITEM_GET_NUMDBLRAW x) (d_of_int 0);
       s \<leftarrow> hb_stackDec s;
       if fBack then hb_vmLess R s else hb_vmGreater R s }
     else do {
       let s = hb_vmPushInteger 0 s;
       pZero \<leftarrow> hb_stackItemFromTop (- 1) s;
       (pResult, s) \<leftarrow> herrsubst R 1073 [pStep, pZero] s;
       case pResult of
         None \<Rightarrow> Some s
       | Some y \<Rightarrow>
         (case y of
            I_Logical fBack \<Rightarrow> do {
              s \<leftarrow> hb_stackPop R s;
              s \<leftarrow> hb_stackPop R s;
              if fBack then hb_vmLess R s else hb_vmGreater R s }
          | _ \<Rightarrow> do {
              p \<leftarrow> hb_stackItemFromTop (- 1) s;
              s \<leftarrow> move_result R p y s;
              p \<leftarrow> hb_stackItemFromTop (- 1) s;
              hcall R ''hb_errRT_BASE'' [N 1066, L p] s }) } }"

end
