(* ===== verification/VmFacts.thy ===== *)
theory VmFacts
  imports VmNum VmCmp
begin

text \<open>
  What the operators compute: the overflow tests are exact, comparisons agree
  with each other, a division by zero is an error, the direction of a FOR loop
  is the sign of its step.
\<close>

section \<open>Arithmetic on 64 bit integers\<close>

lemma maxint_mod: "maxint v = (v + 2 ^ 63) mod 2 ^ 64 - 2 ^ 63"
proof -
  have "maxint v = signed_take_bit 63 v" by (simp add: maxint_def sint_sbintrunc')
  then show ?thesis by (simp add: signed_take_bit_eq_take_bit_shift take_bit_eq_mod)
qed

lemma maxint_id: "HB_LIM_LONG v \<Longrightarrow> maxint v = v"
  by (simp add: maxint_mod HB_LIM_LONG_def)

lemma maxint_over:
  "2 ^ 63 \<le> v \<Longrightarrow> v < 2 ^ 64 \<Longrightarrow> maxint v = v - 2 ^ 64"
  "v < - (2 ^ 63) \<Longrightarrow> - (2 ^ 64) \<le> v \<Longrightarrow> maxint v = v + 2 ^ 64"
  unfolding maxint_mod
proof -
  assume "2 ^ 63 \<le> v" "v < 2 ^ 64"
  then have "(v + 2 ^ 63 - 2 ^ 64) mod 2 ^ 64 = v + 2 ^ 63 - 2 ^ 64"
    by (intro mod_pos_pos_trivial) simp_all
  then have "(v + 2 ^ 63) mod 2 ^ 64 = v + 2 ^ 63 - 2 ^ 64" by (simp only: minus_mod_self2)
  then show "(v + 2 ^ 63) mod 2 ^ 64 - 2 ^ 63 = v - 2 ^ 64" by simp
next
  assume "v < - (2 ^ 63)" "- (2 ^ 64) \<le> v"
  then have "(v + 2 ^ 63 + 2 ^ 64) mod 2 ^ 64 = v + 2 ^ 63 + 2 ^ 64"
    by (intro mod_pos_pos_trivial) simp_all
  then have "(v + 2 ^ 63) mod 2 ^ 64 = v + 2 ^ 63 + 2 ^ 64" by (simp only: mod_add_self2)
  then show "(v + 2 ^ 63) mod 2 ^ 64 - 2 ^ 63 = v + 2 ^ 64" by simp
qed

text \<open>The overflow tests of the C code are exact.\<close>

lemma plus_test:
  assumes "HB_LIM_LONG a" "HB_LIM_LONG b"
  shows "(if b \<ge> 0 then maxint (a + b) \<ge> a else maxint (a + b) < a) \<longleftrightarrow> HB_LIM_LONG (a + b)"
proof (cases "HB_LIM_LONG (a + b)")
  case True
  then show ?thesis by (simp add: maxint_id)
next
  case False
  then consider "2 ^ 63 \<le> a + b" | "a + b < - (2 ^ 63)" by (auto simp: HB_LIM_LONG_def)
  then show ?thesis
    by cases (use assms False maxint_over[of "a + b"] in \<open>auto simp: HB_LIM_LONG_def\<close>)
qed

lemma minus_test:
  assumes "HB_LIM_LONG a" "HB_LIM_LONG b"
  shows "(if b \<le> 0 then maxint (a - b) \<ge> a else maxint (a - b) < a) \<longleftrightarrow> HB_LIM_LONG (a - b)"
proof (cases "HB_LIM_LONG (a - b)")
  case True
  then show ?thesis by (simp add: maxint_id)
next
  case False
  then consider "2 ^ 63 \<le> a - b" | "a - b < - (2 ^ 63)" by (auto simp: HB_LIM_LONG_def)
  then show ?thesis
    by cases (use assms False maxint_over[of "a - b"] in \<open>auto simp: HB_LIM_LONG_def\<close>)
qed

fun num_wf :: "item \<Rightarrow> bool" where
  "num_wf (I_Integer v l) = HB_LIM_INT v"
| "num_wf (I_Long v l) = HB_LIM_LONG v"
| "num_wf _ = True"

lemma num_wf_raw: "HB_IS_NUMINT x \<Longrightarrow> num_wf x \<Longrightarrow> HB_LIM_LONG (HB_ITEM_GET_NUMINTRAW x)"
  by (cases x) (auto simp: HB_LIM_INT_def HB_LIM_LONG_def)

lemma put_num:
  "HB_IS_NUMINT (HB_ITEM_PUT_NUMINTRAW v)" "HB_ITEM_GET_NUMINTRAW (HB_ITEM_PUT_NUMINTRAW v) = v"
  "HB_LIM_LONG v \<Longrightarrow> num_wf (HB_ITEM_PUT_NUMINTRAW v)"
  by (simp_all add: HB_ITEM_PUT_NUMINTRAW_def)

lemma clear_simple:
  "item_rd p s = Some x \<Longrightarrow> \<not> HB_IS_COMPLEX x \<Longrightarrow> clear_if_complex R p s = Some s"
  by (simp add: clear_if_complex_def)

lemma sum_exact:
  assumes "item_rd p1 s = Some x1" "item_rd p2 s = Some x2"
    and "HB_IS_NUMINT x1" "HB_IS_NUMINT x2" "num_wf x1" "num_wf x2"
    and "item_rd p s = Some r" "\<not> HB_IS_COMPLEX r"
    and "a = HB_ITEM_GET_NUMINTRAW x1" "b = HB_ITEM_GET_NUMINTRAW x2"
  shows "hb_vmPlus R p p1 p2 s =
      item_wr p (if HB_LIM_LONG (a + b) then HB_ITEM_PUT_NUMINTRAW (a + b)
        else put_double (d_add (d_of_int a) (d_of_int b)) 0) s \<and>
    hb_vmMinus R p p1 p2 s =
      item_wr p (if HB_LIM_LONG (a - b) then HB_ITEM_PUT_NUMINTRAW (a - b)
        else put_double (d_sub (d_of_int a) (d_of_int b)) 0) s"
proof -
  have lim: "HB_LIM_LONG a" "HB_LIM_LONG b" using assms num_wf_raw by auto
  note t = plus_test[OF lim] minus_test[OF lim]
  have "hb_vmPlus R p p1 p2 s =
    item_wr p (if (if b \<ge> 0 then maxint (a + b) \<ge> a else maxint (a + b) < a)
     then HB_ITEM_PUT_NUMINTRAW (maxint (a + b)) else put_double (d_add (d_of_int a) (d_of_int b)) 0) s"
    using assms(1-4) clear_simple[OF assms(7,8)] by (simp add: hb_vmPlus_def Let_def assms(9,10))
  moreover have "hb_vmMinus R p p1 p2 s =
    item_wr p (if (if b \<le> 0 then maxint (a - b) \<ge> a else maxint (a - b) < a)
     then HB_ITEM_PUT_NUMINTRAW (maxint (a - b)) else put_double (d_sub (d_of_int a) (d_of_int b)) 0) s"
    using assms(1-4) clear_simple[OF assms(7,8)] by (simp add: hb_vmMinus_def Let_def assms(9,10))
  ultimately show ?thesis unfolding t by (simp add: maxint_id)
qed

text \<open>C6.
  hb_vmPlus and hb_vmMinus on two integers store the exact sum and difference
  when it fits the 64 bits of HB_MAXINT, and only then: their overflow test,
  made on the result that already wrapped around, has no false answer.  In the
  other case they store the sum or difference that the double arithmetic gives for
  the two operands, each converted to double first; this is not always the double
  nearest to the exact sum.
\<close>

theorem hb_vm_sum_exact:
  assumes "item_rd p1 s = Some x1" "item_rd p2 s = Some x2"
    and "HB_IS_NUMINT x1" "HB_IS_NUMINT x2" "num_wf x1" "num_wf x2"
    and "item_rd p s = Some r" "\<not> HB_IS_COMPLEX r"
    and "a = HB_ITEM_GET_NUMINTRAW x1" "b = HB_ITEM_GET_NUMINTRAW x2"
  shows "hb_vmPlus R p p1 p2 s =
      item_wr p (if HB_LIM_LONG (a + b) then HB_ITEM_PUT_NUMINTRAW (a + b)
        else put_double (d_add (d_of_int a) (d_of_int b)) 0) s \<and>
    hb_vmMinus R p p1 p2 s =
      item_wr p (if HB_LIM_LONG (a - b) then HB_ITEM_PUT_NUMINTRAW (a - b)
        else put_double (d_sub (d_of_int a) (d_of_int b)) 0) s"
  by (rule sum_exact[OF assms])

lemma hb_vm_sum_exact_witness:
  "hb_vmPlus base_helpers (AtStack 0) (AtStack 0) (AtStack 1)
     (vm_with [I_Integer 2147483647 10, I_Integer 1 10]) =
   Some (vm_with [I_Long 2147483648 10, I_Integer 1 10])"
  using hb_vm_sum_exact[of "AtStack 0" "vm_with [I_Integer 2147483647 10, I_Integer 1 10]"
      "I_Integer 2147483647 10" "AtStack 1" "I_Integer 1 10" "AtStack 0" "I_Integer 2147483647 10"
      2147483647 1 base_helpers]
  by (simp add: vm_with_def HB_LIM_LONG_def HB_LIM_INT_def HB_ITEM_PUT_NUMINTRAW_def
      HB_LONG_EXPLENGTH_def HB_LONG_LENGTH_def)

text \<open>C7.
  hb_vmInc, hb_vmDec and hb_vmNegate on an integer write the exact result
  while it fits HB_MAXINT, with the type that holds it: an Integer that leaves
  the 32 bits becomes a Long.
\<close>

theorem hb_vm_unary_exact:
  assumes "item_rd p s = Some x" "HB_IS_NUMINT x" "num_wf x" "a = HB_ITEM_GET_NUMINTRAW x"
  shows "(HB_LIM_LONG (a + 1) \<longrightarrow> (\<exists>y. hb_vmInc R p s = item_wr p y s \<and> num_wf y \<and>
        HB_IS_NUMINT y \<and> HB_ITEM_GET_NUMINTRAW y = a + 1)) \<and>
    (HB_LIM_LONG (a - 1) \<longrightarrow> (\<exists>y. hb_vmDec R p s = item_wr p y s \<and> num_wf y \<and>
        HB_IS_NUMINT y \<and> HB_ITEM_GET_NUMINTRAW y = a - 1)) \<and>
    (HB_LIM_LONG (- a) \<and> hb_stackItemFromTop (- 1) s = Some p \<longrightarrow>
      (\<exists>y. hb_vmNegate R s = item_wr p y s \<and> num_wf y \<and>
        HB_IS_NUMINT y \<and> HB_ITEM_GET_NUMINTRAW y = - a))"
proof (cases x)
  case (I_Integer v l)
  have v: "- (2 ^ 31) \<le> v" "v \<le> 2 ^ 31 - 1" using assms(3) by (simp_all add: I_Integer HB_LIM_INT_def)
  have "hb_vmInc R p s = item_wr p (if v < 2 ^ 31 - 1
      then I_Integer (v + 1) (HB_INT_EXPLENGTH (v + 1)) else I_Long (v + 1) (HB_LONG_EXPLENGTH (v + 1))) s"
    "hb_vmDec R p s = item_wr p (if v > - (2 ^ 31)
      then I_Integer (v - 1) (HB_INT_EXPLENGTH (v - 1)) else I_Long (v - 1) (HB_LONG_EXPLENGTH (v - 1))) s"
    "hb_stackItemFromTop (- 1) s = Some p \<Longrightarrow> hb_vmNegate R s = item_wr p (if v < - (2 ^ 31 - 1)
      then I_Long (- v) (HB_LONG_EXPLENGTH (- v)) else I_Integer (- v) (HB_INT_EXPLENGTH (- v))) s"
    using assms(1) I_Integer by (simp_all add: hb_vmInc_def hb_vmDec_def incdec_def hb_vmNegate_def)
  moreover have "num_wf (if v < 2 ^ 31 - 1 then I_Integer (v + 1) l1 else I_Long (v + 1) l2)"
    "num_wf (if v > - (2 ^ 31) then I_Integer (v - 1) l1 else I_Long (v - 1) l2)"
    "num_wf (if v < - (2 ^ 31 - 1) then I_Long (- v) l1 else I_Integer (- v) l2)" for l1 l2
    using v by (auto simp: HB_LIM_INT_def HB_LIM_LONG_def)
  ultimately show ?thesis unfolding assms(4) I_Integer
    by (intro conjI impI; (elim conjE)?) (force simp: I_Integer split: if_splits)+
next
  case (I_Long v l)
  then have "num_wf (I_Long (v + 1) l1) = HB_LIM_LONG (v + 1)" "num_wf (I_Long (v - 1) l1) = HB_LIM_LONG (v - 1)"
    "num_wf (I_Long (- v) l1) = HB_LIM_LONG (- v)" for l1 by simp_all
  moreover have "HB_LIM_LONG (v + 1) \<Longrightarrow> hb_vmInc R p s = item_wr p (I_Long (v + 1) (HB_LONG_EXPLENGTH (v + 1))) s"
    "HB_LIM_LONG (v - 1) \<Longrightarrow> hb_vmDec R p s = item_wr p (I_Long (v - 1) (HB_LONG_EXPLENGTH (v - 1))) s"
    "HB_LIM_LONG (- v) \<Longrightarrow> hb_stackItemFromTop (- 1) s = Some p \<Longrightarrow>
       hb_vmNegate R s = item_wr p (I_Long (- v) (HB_LONG_EXPLENGTH (- v))) s"
    using assms(1) I_Long
    by (simp_all add: hb_vmInc_def hb_vmDec_def incdec_def hb_vmNegate_def HB_LIM_LONG_def)
  ultimately show ?thesis unfolding assms(4) I_Long by (force simp: I_Long)
qed (use assms(2) in simp_all)

lemma hb_vm_unary_exact_witness:
  "\<exists>y. hb_vmDec base_helpers (AtStack 0) (vm_with [I_Integer (- (2 ^ 31)) 20]) =
      item_wr (AtStack 0) y (vm_with [I_Integer (- (2 ^ 31)) 20]) \<and> num_wf y \<and>
    HB_ITEM_GET_NUMINTRAW y = - (2 ^ 31) - 1"
  using hb_vm_unary_exact[of "AtStack 0" "vm_with [I_Integer (- (2 ^ 31)) 20]" "I_Integer (- (2 ^ 31)) 20"
      "- (2 ^ 31)" base_helpers]
  by (auto simp: vm_with_def HB_LIM_INT_def HB_LIM_LONG_def)

text \<open>C8.
  The product of two Integers always fits HB_MAXINT: hb_vmMult stores it exactly.
\<close>

theorem hb_vmMult_exact:
  assumes "item_rd p1 s = Some (I_Integer a k)" "item_rd p2 s = Some (I_Integer b l)"
    and "HB_LIM_INT a" "HB_LIM_INT b" "item_rd p s = Some r" "\<not> HB_IS_COMPLEX r"
  shows "\<exists>y. hb_vmMult R p p1 p2 s = item_wr p y s \<and> num_wf y \<and> HB_IS_NUMINT y \<and>
    HB_ITEM_GET_NUMINTRAW y = a * b"
proof -
  have "\<bar>a\<bar> \<le> 2 ^ 31" "\<bar>b\<bar> \<le> 2 ^ 31" using assms(3,4) by (auto simp: HB_LIM_INT_def)
  then have "\<bar>a\<bar> * \<bar>b\<bar> \<le> 2 ^ 31 * 2 ^ 31" by (intro mult_mono) auto
  then have m: "HB_LIM_LONG (a * b)" unfolding abs_mult[symmetric] HB_LIM_LONG_def abs_le_iff by auto
  have "hb_vmMult R p p1 p2 s = item_wr p (HB_ITEM_PUT_NUMINTRAW (a * b)) s"
    using assms(1,2) clear_simple[OF assms(5,6)] by (simp add: hb_vmMult_def Let_def maxint_id[OF m])
  then show ?thesis using put_num[of "a * b"] m by blast
qed

lemma hb_vmMult_exact_witness:
  "\<exists>y. hb_vmMult base_helpers (AtStack 0) (AtStack 0) (AtStack 1)
      (vm_with [I_Integer 2147483647 10, I_Integer (- 2147483647) 20]) =
    item_wr (AtStack 0) y (vm_with [I_Integer 2147483647 10, I_Integer (- 2147483647) 20]) \<and>
    num_wf y \<and> HB_IS_NUMINT y \<and> HB_ITEM_GET_NUMINTRAW y = 2147483647 * (- 2147483647)"
  by (rule hb_vmMult_exact[where k = 10 and l = 20 and r = "I_Integer 2147483647 10"])
    (simp_all add: vm_with_def HB_LIM_INT_def)

text \<open>C9.
  Division and modulus by a zero, integer or double, of any number raise the
  run-time error 1340 or 1341 and write the result only when the error block
  supplies a substitute.
\<close>

theorem hb_vm_zero_division:
  assumes "item_rd p1 s = Some x1" "item_rd p2 s = Some x2" "HB_IS_NUMERIC x1" "HB_IS_NUMERIC x2"
    and "HB_IS_NUMINT x2 \<Longrightarrow> HB_ITEM_GET_NUMINTRAW x2 = 0"
    and "HB_IS_DOUBLE x2 \<Longrightarrow> d_eq (hb_itemGetND x2) (d_of_int 0)"
  shows "hb_vmDivide R p p1 p2 s = err_subst R 1340 [p1, p2] p s \<and>
    hb_vmModulus R p p1 p2 s = err_subst R 1341 [p1, p2] p s"
proof (cases "HB_IS_NUMINT x2")
  case True
  have "d_eq (d_of_int 0) (d_of_int 0)" by (simp add: d_cmp_of_int)
  then have "d_eq (hb_itemGetND x2) (d_of_int 0)"
    using True assms(5) by (cases x2) (simp_all add: hb_itemGetND_def)
  then show ?thesis using assms True
    by (simp add: hb_vmDivide_def hb_vmModulus_def Let_def)
next
  case False
  then have "HB_IS_DOUBLE x2" using assms(4) by (simp add: HB_IS_NUMERIC_def)
  then show ?thesis using assms False
    by (simp add: hb_vmDivide_def hb_vmModulus_def Let_def HB_IS_NUMERIC_def)
qed

lemma hb_vm_zero_division_witness:
  "hb_vmDivide base_helpers (AtStack 0) (AtStack 0) (AtStack 1) (vm_with [I_Integer 1 10, I_Long 0 10]) =
     err_subst base_helpers 1340 [AtStack 0, AtStack 1] (AtStack 0) (vm_with [I_Integer 1 10, I_Long 0 10])"
  using hb_vm_zero_division[of "AtStack 0" "vm_with [I_Integer 1 10, I_Long 0 10]" "I_Integer 1 10"
      "AtStack 1" "I_Long 0 10" base_helpers "AtStack 0"]
  by (simp add: vm_with_def HB_IS_NUMERIC_def)

lemma norm_stamp_quotient:
  fixes j t :: int
  assumes "\<bar>t\<bar> < 2 * HB_MILLISECS_PER_DAY"
  defines "T \<equiv> j * HB_MILLISECS_PER_DAY + t"
  shows "norm_stamp j t =
    (if j < 0 then (- (- T div HB_MILLISECS_PER_DAY), - (- T mod HB_MILLISECS_PER_DAY))
     else (T div HB_MILLISECS_PER_DAY, T mod HB_MILLISECS_PER_DAY))"
proof -
  obtain d m where dm: "norm_stamp j t = (d, m)" by (cases "norm_stamp j t")
  define e n where "e = (if j < 0 then - d else d)" and "n = (if j < 0 then - m else m)"
  have n: "0 \<le> n" "n < HB_MILLISECS_PER_DAY"
    and sum: "e * HB_MILLISECS_PER_DAY + n = (if j < 0 then - T else T)"
    using dm assms(1)
    by (auto simp: e_def n_def T_def norm_stamp_def Let_def HB_MILLISECS_PER_DAY_def split: if_splits)
  have "(if j < 0 then - T else T) div HB_MILLISECS_PER_DAY = e \<and>
      (if j < 0 then - T else T) mod HB_MILLISECS_PER_DAY = n"
    unfolding sum[symmetric] using n by simp
  then show ?thesis by (auto simp: dm e_def n_def split: if_splits)
qed

text \<open>C12.
  For milliseconds of less than two days either way, as sums and differences of
  two times of day are, hb_vmTimeStampPut stores the same moment normalized by the
  sign of the day: for a day from 0 on, the quotient and the remainder of the total
  of milliseconds by those of a day; for a negative day, both with the sign turned,
  the milliseconds from minus one day (excluded) to 0.
\<close>

theorem hb_vmTimeStampPut_normal:
  fixes j t :: int
  assumes "\<bar>t\<bar> < 2 * HB_MILLISECS_PER_DAY" "T = j * HB_MILLISECS_PER_DAY + t"
  shows "hb_vmTimeStampPut R p j t s =
    (if j < 0 then hb_itemPutTDT R p (- (- T div HB_MILLISECS_PER_DAY)) (- (- T mod HB_MILLISECS_PER_DAY)) s
     else hb_itemPutTDT R p (T div HB_MILLISECS_PER_DAY) (T mod HB_MILLISECS_PER_DAY) s)"
  using norm_stamp_quotient[OF assms(1), of j] by (simp add: hb_vmTimeStampPut_def assms(2))

lemma hb_vmTimeStampPut_normal_witness:
  "hb_vmTimeStampPut base_helpers (AtStack 0) 10 (- 100000000) (vm_with [I_Nil]) =
   hb_itemPutTDT base_helpers (AtStack 0) 8 72800000 (vm_with [I_Nil])"
  using hb_vmTimeStampPut_normal[of "- 100000000" 764000000 10 base_helpers "AtStack 0" "vm_with [I_Nil]"]
  by (simp add: HB_MILLISECS_PER_DAY_def)

section \<open>Comparisons\<close>

lemma top_two:
  "stack s = xs @ [x1, x2] \<Longrightarrow> hb_stackItemFromTop (- 1) s = Some (AtStack (length xs + 1))"
  "stack s = xs @ [x1, x2] \<Longrightarrow> hb_stackItemFromTop (- 2) s = Some (AtStack (length xs))"
  "stack s = xs @ [x1, x2] \<Longrightarrow> item_rd (AtStack (length xs + 1)) s = Some x2"
  "stack s = xs @ [x1, x2] \<Longrightarrow> item_rd (AtStack (length xs)) s = Some x1"
  by (auto simp: hb_stackItemFromTop_def nth_append)

definition result_top :: "'w vm \<Rightarrow> item list \<Rightarrow> bool \<Rightarrow> 'w vm" where
  "result_top s xs b = s\<lparr>stack := xs @ [I_Logical b]\<rparr>"

lemma put_top:
  assumes "stack s = xs @ [x1, x2]"
  shows "put_logical_dec (AtStack (length xs)) b s = Some (result_top s xs b)"
  using assms by (simp add: result_top_def put_logical_dec_def hb_stackDec_def list_update_append butlast_append)

text \<open>The memory manager frees the text of a string item without other effects.\<close>

definition clears :: "'w helpers \<Rightarrow> bool" where
  "clears R \<longleftrightarrow> (\<forall>m cs s. hcall R ''hb_itemClear'' [X (I_String m cs)] s = Some s)"

definition plain_item :: "item \<Rightarrow> bool" where
  "plain_item x \<longleftrightarrow> HB_IS_STRING x \<or> \<not> HB_IS_COMPLEX x"

lemma plain_item_simps [simp]:
  "plain_item I_Nil" "plain_item (I_Logical b)" "plain_item (I_Integer v k)" "plain_item (I_Long v k)"
  "plain_item (I_Double d k n)" "plain_item (I_Date j)" "plain_item (I_TimeStamp j t)" "plain_item (I_String m cs)"
  by (simp_all add: plain_item_def)

lemma clear_plain:
  "clears R \<Longrightarrow> plain_item x \<Longrightarrow> HB_IS_COMPLEX x \<Longrightarrow> hcall R ''hb_itemClear'' [X x] s = Some s"
  by (cases x) (simp_all add: clears_def plain_item_def)

lemma put_pop_top:
  assumes "stack s = xs @ [x1, x2]" "clears R" "plain_item x1" "plain_item x2"
  shows "put_logical_pop R (AtStack (length xs)) b s = Some (result_top s xs b)"
  using assms(1) clear_plain[OF assms(2,3)] clear_plain[OF assms(2,4)]
  by (simp add: result_top_def put_logical_pop_def hb_stackPop_def hb_itemClear_def Let_def
      list_update_append butlast_append nth_append)

text \<open>Two items of one of the types that have an order without NaN.\<close>

definition ordered_pair :: "item \<Rightarrow> item \<Rightarrow> bool" where
  "ordered_pair x1 x2 \<longleftrightarrow> (HB_IS_NUMINT x1 \<and> HB_IS_NUMINT x2) \<or> (HB_IS_DATETIME x1 \<and> HB_IS_DATETIME x2) \<or>
     (HB_IS_LOGICAL x1 \<and> HB_IS_LOGICAL x2) \<or> (HB_IS_STRING x1 \<and> HB_IS_STRING x2)"

text \<open>The value of hb_vmLess, and of hb_vmEqual, on such items.\<close>

definition less_val :: "'w helpers \<Rightarrow> 'w vm \<Rightarrow> item \<Rightarrow> item \<Rightarrow> bool" where
  "less_val R s x1 x2 =
     (case (x1, x2) of
        (I_String m1 cs1, I_String m2 cs2) \<Rightarrow> hb_itemStrCmp R cs1 cs2 False s < 0
      | (I_Logical a, I_Logical b) \<Rightarrow> \<not> a \<and> b
      | (I_TimeStamp j t, I_TimeStamp k u) \<Rightarrow> j < k \<or> (j = k \<and> t < u)
      | _ \<Rightarrow> if HB_IS_NUMINT x1 then HB_ITEM_GET_NUMINTRAW x1 < HB_ITEM_GET_NUMINTRAW x2
             else dt_julian x1 < dt_julian x2)"

definition equal_val :: "'w helpers \<Rightarrow> 'w vm \<Rightarrow> item \<Rightarrow> item \<Rightarrow> bool" where
  "equal_val R s x1 x2 =
     (case (x1, x2) of
        (I_String m1 cs1, I_String m2 cs2) \<Rightarrow> hb_itemStrCmp R cs1 cs2 False s = 0
      | (I_Logical a, I_Logical b) \<Rightarrow> a = b
      | (I_TimeStamp j t, I_TimeStamp k u) \<Rightarrow> j = k \<and> t = u
      | _ \<Rightarrow> if HB_IS_NUMINT x1 then HB_ITEM_GET_NUMINTRAW x1 = HB_ITEM_GET_NUMINTRAW x2
             else dt_julian x1 = dt_julian x2)"

lemma ordered_pairE [consumes 1]:
  assumes "ordered_pair x1 x2"
  obtains (int) "HB_IS_NUMINT x1" "HB_IS_NUMINT x2"
    | (date) "HB_IS_DATETIME x1" "HB_IS_DATETIME x2"
    | (logical) a b where "x1 = I_Logical a" "x2 = I_Logical b"
    | (string) m1 cs1 m2 cs2 where "x1 = I_String m1 cs1" "x2 = I_String m2 cs2"
proof -
  have "\<exists>b. x = I_Logical b" if "HB_IS_LOGICAL x" for x using that by (cases x) auto
  moreover have "\<exists>m cs. x = I_String m cs" if "HB_IS_STRING x" for x using that by (cases x) auto
  ultimately show ?thesis using assms that unfolding ordered_pair_def by metis
qed

text \<open>The operators on each pair of types.\<close>

lemma vm_order_types:
  assumes "stack s = xs @ [x1, x2]"
  shows "HB_IS_NUMINT x1 \<Longrightarrow> HB_IS_NUMINT x2 \<Longrightarrow> vm_order lt st dlt bl n e R s =
      Some (result_top s xs (lt (HB_ITEM_GET_NUMINTRAW x1) (HB_ITEM_GET_NUMINTRAW x2)))"
    "HB_IS_DATETIME x1 \<Longrightarrow> HB_IS_DATETIME x2 \<Longrightarrow> vm_order lt st dlt bl n e R s =
      Some (result_top s xs
        (if HB_IS_TIMESTAMP x1 \<and> HB_IS_TIMESTAMP x2
         then st (dt_julian x1) (dt_julian x2) \<or> (dt_julian x1 = dt_julian x2 \<and> lt (dt_time x1) (dt_time x2))
         else lt (dt_julian x1) (dt_julian x2)))"
    "x1 = I_Logical a \<Longrightarrow> x2 = I_Logical b \<Longrightarrow> vm_order lt st dlt bl n e R s =
      Some (result_top s xs (bl a b))"
    "x1 = I_String m1 cs1 \<Longrightarrow> x2 = I_String m2 cs2 \<Longrightarrow> clears R \<Longrightarrow> vm_order lt st dlt bl n e R s =
      Some (result_top s xs (lt (hb_itemStrCmp R cs1 cs2 False s) 0))"
  unfolding vm_order_def top_two[OF assms] Option.bind.simps
  using put_top[OF assms] put_pop_top[OF assms]
  by (cases x1; simp; cases x2; simp add: HB_IS_NUMERIC_def)+

lemma vm_equality_types:
  assumes "stack s = xs @ [x1, x2]"
  shows "HB_IS_NUMINT x1 \<Longrightarrow> HB_IS_NUMINT x2 \<Longrightarrow> nil_equality eq R (vm_equality eq n e R) s =
      Some (result_top s xs ((HB_ITEM_GET_NUMINTRAW x1 = HB_ITEM_GET_NUMINTRAW x2) = eq))"
    "HB_IS_DATETIME x1 \<Longrightarrow> HB_IS_DATETIME x2 \<Longrightarrow> nil_equality eq R (vm_equality eq n e R) s =
      Some (result_top s xs
        ((dt_julian x1 = dt_julian x2 \<and>
          (HB_IS_TIMESTAMP x1 \<and> HB_IS_TIMESTAMP x2 \<longrightarrow> dt_time x1 = dt_time x2)) = eq))"
    "x1 = I_Logical a \<Longrightarrow> x2 = I_Logical b \<Longrightarrow> nil_equality eq R (vm_equality eq n e R) s =
      Some (result_top s xs ((a = b) = eq))"
    "x1 = I_String m1 cs1 \<Longrightarrow> x2 = I_String m2 cs2 \<Longrightarrow> clears R \<Longrightarrow> nil_equality eq R (vm_equality eq n e R) s =
      Some (result_top s xs ((hb_itemStrCmp R cs1 cs2 False s = 0) = eq))"
  unfolding nil_equality_def top_two[OF assms] Option.bind.simps
     apply (cases x1; simp; cases x2; simp add: vm_equality_def put_top[OF assms])
    apply (cases x1; simp; cases x2; simp add: vm_equality_def HB_IS_NUMERIC_def put_top[OF assms])
   apply (cases a; cases b; simp add: vm_equality_def put_top[OF assms])
  apply (simp add: vm_equality_def put_pop_top[OF assms])
  done

lemmas rel_names = hb_vmLess_def hb_vmLessEqual_def hb_vmGreater_def hb_vmGreaterEqual_def
  hb_vmEqual_def hb_vmNotEqual_def

lemma vals_numint:
  "HB_IS_NUMINT x1 \<Longrightarrow> HB_IS_NUMINT x2 \<Longrightarrow>
   less_val R s x1 x2 = (HB_ITEM_GET_NUMINTRAW x1 < HB_ITEM_GET_NUMINTRAW x2) \<and>
   equal_val R s x1 x2 = (HB_ITEM_GET_NUMINTRAW x1 = HB_ITEM_GET_NUMINTRAW x2)"
  by (cases x1; cases x2; simp add: less_val_def equal_val_def)

lemma vals_datetime:
  "HB_IS_DATETIME x1 \<Longrightarrow> HB_IS_DATETIME x2 \<Longrightarrow>
   less_val R s x1 x2 = (if HB_IS_TIMESTAMP x1 \<and> HB_IS_TIMESTAMP x2
     then dt_julian x1 < dt_julian x2 \<or> (dt_julian x1 = dt_julian x2 \<and> dt_time x1 < dt_time x2)
     else dt_julian x1 < dt_julian x2) \<and>
   equal_val R s x1 x2 = (dt_julian x1 = dt_julian x2 \<and>
     (HB_IS_TIMESTAMP x1 \<and> HB_IS_TIMESTAMP x2 \<longrightarrow> dt_time x1 = dt_time x2))"
  by (cases x1; cases x2; simp add: less_val_def equal_val_def)

lemma relations:
  assumes s: "stack s = xs @ [x1, x2]" and "ordered_pair x1 x2" and "clears R"
  shows "hb_vmLess R s = Some (result_top s xs (less_val R s x1 x2))"
    "hb_vmGreaterEqual R s = Some (result_top s xs (\<not> less_val R s x1 x2))"
    "hb_vmEqual R s = Some (result_top s xs (equal_val R s x1 x2))"
    "hb_vmNotEqual R s = Some (result_top s xs (\<not> equal_val R s x1 x2))"
    "hb_vmLessEqual R s = Some (result_top s xs (less_val R s x1 x2 \<or> equal_val R s x1 x2))"
    "hb_vmGreater R s = Some (result_top s xs (\<not> (less_val R s x1 x2 \<or> equal_val R s x1 x2)))"
proof -
  have "hb_vmLess R s = Some (result_top s xs (less_val R s x1 x2)) \<and>
    hb_vmGreaterEqual R s = Some (result_top s xs (\<not> less_val R s x1 x2)) \<and>
    hb_vmEqual R s = Some (result_top s xs (equal_val R s x1 x2)) \<and>
    hb_vmNotEqual R s = Some (result_top s xs (\<not> equal_val R s x1 x2)) \<and>
    hb_vmLessEqual R s = Some (result_top s xs (less_val R s x1 x2 \<or> equal_val R s x1 x2)) \<and>
    hb_vmGreater R s = Some (result_top s xs (\<not> (less_val R s x1 x2 \<or> equal_val R s x1 x2)))"
    using assms(2)
  proof (cases rule: ordered_pairE)
    case int
    note v = vm_order_types(1)[OF s int] vm_equality_types(1)[OF s int] vals_numint[OF int]
    show ?thesis by (simp add: rel_names v; intro conjI arg_cong[where f = "result_top s xs"]; linarith)
  next
    case date
    note v = vm_order_types(2)[OF s date] vm_equality_types(2)[OF s date] vals_datetime[OF date]
    show ?thesis unfolding rel_names v(1,2) option.inject
      by (intro conjI arg_cong[where f = "result_top s xs"]; auto simp: vals_datetime[OF date])
  next
    case (logical a b)
    note v = vm_order_types(3)[OF s logical] vm_equality_types(3)[OF s logical]
    show ?thesis by (cases a; cases b; simp add: rel_names v less_val_def equal_val_def logical)
  next
    case (string m1 cs1 m2 cs2)
    note v = vm_order_types(4)[OF s string assms(3)] vm_equality_types(4)[OF s string assms(3)]
    show ?thesis by (simp add: rel_names v less_val_def equal_val_def string; intro conjI arg_cong[where f = "result_top s xs"]; linarith)
  qed
  then show "hb_vmLess R s = Some (result_top s xs (less_val R s x1 x2))"
    "hb_vmGreaterEqual R s = Some (result_top s xs (\<not> less_val R s x1 x2))"
    "hb_vmEqual R s = Some (result_top s xs (equal_val R s x1 x2))"
    "hb_vmNotEqual R s = Some (result_top s xs (\<not> equal_val R s x1 x2))"
    "hb_vmLessEqual R s = Some (result_top s xs (less_val R s x1 x2 \<or> equal_val R s x1 x2))"
    "hb_vmGreater R s = Some (result_top s xs (\<not> (less_val R s x1 x2 \<or> equal_val R s x1 x2)))"
    by blast+
qed

text \<open>C10.
  The six relational operators agree on two integers, two dates or timestamps,
  two logical values and two strings, whatever SET EXACT and the code page:
  hb_vmGreaterEqual is the negation of hb_vmLess, hb_vmNotEqual of hb_vmEqual,
  hb_vmLessEqual is less or equal and hb_vmGreater its negation.  Each takes the
  two items off the stack and leaves the answer.
\<close>

theorem hb_vm_relations:
  assumes "stack s = xs @ [x1, x2]" "ordered_pair x1 x2" "clears R"
  shows "\<exists>lt eq. hb_vmLess R s = Some (result_top s xs lt) \<and>
    hb_vmGreaterEqual R s = Some (result_top s xs (\<not> lt)) \<and>
    hb_vmEqual R s = Some (result_top s xs eq) \<and>
    hb_vmNotEqual R s = Some (result_top s xs (\<not> eq)) \<and>
    hb_vmLessEqual R s = Some (result_top s xs (lt \<or> eq)) \<and>
    hb_vmGreater R s = Some (result_top s xs (\<not> (lt \<or> eq)))"
  using relations[OF assms] by blast

lemma hb_vm_relations_witness:
  "\<exists>lt eq. hb_vmLess base_helpers (vm_with [I_Date 5, I_TimeStamp 5 1000]) =
      Some (result_top (vm_with [I_Date 5, I_TimeStamp 5 1000]) [] lt) \<and>
    hb_vmEqual base_helpers (vm_with [I_Date 5, I_TimeStamp 5 1000]) =
      Some (result_top (vm_with [I_Date 5, I_TimeStamp 5 1000]) [] eq)"
  using hb_vm_relations[of "vm_with [I_Date 5, I_TimeStamp 5 1000]" "[]" "I_Date 5" "I_TimeStamp 5 1000"
      base_helpers]
  by (auto simp: vm_with_def ordered_pair_def clears_def base_helpers_def)

text \<open>C11.
  The end test of FOR on integers: the counter, the limit and the step are
  taken off the stack and the result tells that the counter is past the limit
  in the direction of the step, although the code compares the step as a double.
\<close>

theorem hb_vmForTest_integers:
  assumes "stack s = xs @ [c, l, st]" "HB_IS_NUMINT c" "HB_IS_NUMINT l" "HB_IS_NUMINT st" "num_wf st"
  shows "hb_vmForTest R s = Some (s\<lparr>stack := xs @ [I_Logical
    (if HB_ITEM_GET_NUMINTRAW st < 0 then HB_ITEM_GET_NUMINTRAW c < HB_ITEM_GET_NUMINTRAW l
     else HB_ITEM_GET_NUMINTRAW c > HB_ITEM_GET_NUMINTRAW l)]\<rparr>)"
proof -
  let ?s = "s\<lparr>stack := xs @ [c, l]\<rparr>"
  have dec: "hb_stackDec s = Some ?s"
    using assms(1) by (simp add: hb_stackDec_def butlast_append)
  have top: "hb_stackItemFromTop (- 1) s = Some (AtStack (length xs + 2))"
    "item_rd (AtStack (length xs + 2)) s = Some st"
    using assms(1) by (simp_all add: hb_stackItemFromTop_def nth_append nat_add_distrib)
  have "\<bar>HB_ITEM_GET_NUMINTRAW st\<bar> \<le> 2 ^ 64"
    using num_wf_raw[OF assms(4,5)] by (auto simp: HB_LIM_LONG_def)
  moreover have "HB_ITEM_GET_NUMDBLRAW st = d_of_int (HB_ITEM_GET_NUMINTRAW st)"
    using assms(4) by (cases st) simp_all
  ultimately have sign: "d_lt (HB_ITEM_GET_NUMDBLRAW st) (d_of_int 0) \<longleftrightarrow> HB_ITEM_GET_NUMINTRAW st < 0"
    using d_lt_0 by simp
  have "HB_IS_NUMERIC st" using assms(4) by (simp add: HB_IS_NUMERIC_def)
  moreover have "result_top ?s xs b = s\<lparr>stack := xs @ [I_Logical b]\<rparr>" for b
    by (simp add: result_top_def)
  ultimately show ?thesis
    using vm_order_types(1)[of ?s xs c l] assms(2,3)
    unfolding hb_vmForTest_def top Option.bind.simps
    by (simp add: dec sign hb_vmLess_def hb_vmGreater_def)
qed

lemma hb_vmForTest_integers_witness:
  "hb_vmForTest base_helpers (vm_with [I_Integer 1 10, I_Integer 3 10, I_Integer (- 1) 10]) =
   Some (vm_with [I_Logical True])"
  using hb_vmForTest_integers[of "vm_with [I_Integer 1 10, I_Integer 3 10, I_Integer (- 1) 10]" "[]"
      "I_Integer 1 10" "I_Integer 3 10" "I_Integer (- 1) 10" base_helpers]
  by (simp add: vm_with_def HB_LIM_INT_def)

end
