(* ===== verification/HbDate.thy ===== *)
theory HbDate
  imports HbPrelude "HOL-Library.Signed_Division"
begin

text \<open>
  Calendar dates of common/hbdate.c: a date is the number of days of the
  Julian day count, and year, month and day are those of the proleptic
  Gregorian calendar, year 0 to 9999.  Values are integers (every intermediate
  result of the functions fits the C types for the dates they accept); \<open>sdiv\<close>
  and \<open>smod\<close> are the division and remainder of C.
\<close>

section \<open>Days\<close>

definition HB_DATE_YEAR_LIMIT :: int where "HB_DATE_YEAR_LIMIT = 9999"

definition HB_STR_DATE_BASE :: int where "HB_STR_DATE_BASE = 1721060"

definition auiDayLimit :: "int list" where
  "auiDayLimit = [31, 28, 31, 30, 31, 30, 31, 31, 30, 31, 30, 31]"

definition hb_dateEncode :: "int \<Rightarrow> int \<Rightarrow> int \<Rightarrow> int" where
  "hb_dateEncode iYear iMonth iDay =
     (if iYear \<ge> 0 \<and> iYear \<le> HB_DATE_YEAR_LIMIT \<and> iMonth \<ge> 1 \<and> iMonth \<le> 12 \<and> iDay \<ge> 1 then
        if iDay \<le> auiDayLimit ! nat (iMonth - 1) \<or>
           (iDay = 29 \<and> iMonth = 2 \<and>
            iYear AND 3 = 0 \<and> (iYear smod 100 \<noteq> 0 \<or> iYear smod 400 = 0))
        then
          (let iFactor = (if iMonth < 3 then - 1 else 0) in
           (iFactor + 4800 + iYear) * 1461 sdiv 4 +
           (iMonth - 2 - iFactor * 12) * 367 sdiv 12 -
           ((iFactor + 4900 + iYear) sdiv 100 * 3 sdiv 4) +
           iDay - 32075)
        else 0
      else 0)"

definition hb_dateDecode :: "int \<Rightarrow> int \<times> int \<times> int" where
  "hb_dateDecode lJulian =
     (if lJulian \<ge> HB_STR_DATE_BASE then
        (let J = lJulian + 68569;
             W = J * 4 sdiv 146097;
             J = J - (146097 * W + 3) sdiv 4;
             X = 4000 * (J + 1) sdiv 1461001;
             J = J - (1461 * X sdiv 4 - 31);
             V = 80 * J sdiv 2447;
             U = V sdiv 11
         in (X + U + (W - 49) * 100, V + 2 - U * 12, J - 2447 * V sdiv 80))
      else (0, 0, 0))"

definition hb_dateJulianDOW :: "int \<Rightarrow> int" where
  "hb_dateJulianDOW lJulian =
     (if lJulian \<ge> HB_STR_DATE_BASE then (lJulian + 1) smod 7 + 1 else 0)"

definition hb_dateDOW :: "int \<Rightarrow> int \<Rightarrow> int \<Rightarrow> int" where
  "hb_dateDOW iYear iMonth iDay =
     (let (iMonth, iYear) = (if iMonth < 3 then (iMonth + 13, iYear - 1) else (iMonth + 1, iYear))
      in (iDay + 26 * iMonth sdiv 10 + iYear + iYear sdiv 4 - iYear sdiv 100 + iYear sdiv 400 + 6)
         smod 7 + 1)"

text \<open>ISO weeks: the result flag, the year, the week and the day of the week.\<close>

definition hb_dateDecWeek :: "int \<Rightarrow> bool \<times> int \<times> int \<times> int" where
  "hb_dateDecWeek lJulian =
     (if lJulian \<ge> HB_STR_DATE_BASE then
        (let iDay = lJulian smod 7 + 1;
             lJulian = lJulian + (4 - iDay);
             (iYear, iMonth, iD) = hb_dateDecode lJulian
         in (True, iYear, (lJulian - hb_dateEncode iYear 1 1) sdiv 7 + 1, iDay))
      else (False, 0, 0, 0))"

definition hb_dateEncWeek :: "int \<Rightarrow> int \<Rightarrow> int \<Rightarrow> int" where
  "hb_dateEncWeek iYear iWeek iDay =
     (if iWeek > 0 \<and> iWeek \<le> 53 \<and> iDay > 0 \<and> iDay \<le> 7 then
        (let lDate = hb_dateEncode iYear 1 1 in
         lDate + ((iWeek - 1) * 7 + iDay - (lDate + 3) smod 7 + 2))
      else 0)"

section \<open>Milliseconds of a day\<close>

definition hb_timeEncode :: "int \<Rightarrow> int \<Rightarrow> int \<Rightarrow> int \<Rightarrow> int" where
  "hb_timeEncode iHour iMinutes iSeconds iMSec =
     (if iHour \<ge> 0 \<and> iHour < 24 \<and> iMinutes \<ge> 0 \<and> iMinutes < 60 \<and>
         iSeconds \<ge> 0 \<and> iSeconds < 60 \<and> iMSec \<ge> 0 \<and> iMSec < 1000
      then ((iHour * 60 + iMinutes) * 60 + iSeconds) * 1000 + iMSec
      else 0)"

definition hb_timeDecode :: "int \<Rightarrow> int \<times> int \<times> int \<times> int" where
  "hb_timeDecode lMilliSec =
     (if lMilliSec \<le> 0 then (0, 0, 0, 0)
      else
        (let iMSec = lMilliSec smod 1000;
             lMilliSec = lMilliSec sdiv 1000;
             iSeconds = lMilliSec smod 60;
             lMilliSec = lMilliSec sdiv 60;
             iMinutes = lMilliSec smod 60;
             lMilliSec = lMilliSec sdiv 60
         in if lMilliSec \<ge> 24 then (0, 0, 0, 0)
            else (lMilliSec, iMinutes, iSeconds, iMSec)))"

section \<open>The calendar\<close>

lemma sdiv_nonneg: "0 \<le> (a::int) \<Longrightarrow> 0 \<le> b \<Longrightarrow> a sdiv b = a div b"
  by (cases "b = 0"; cases "a = 0") (simp_all add: signed_divide_int_def)

lemma smod_nonneg: "0 \<le> (a::int) \<Longrightarrow> 0 \<le> b \<Longrightarrow> a smod b = a mod b"
  by (cases "a = 0") (simp_all add: signed_modulo_int_def)

lemma and_3: "(a::int) AND 3 = a mod 4"
proof -
  have "(3::int) = mask 2" by (simp add: mask_eq_exp_minus_1)
  then have "a AND 3 = take_bit 2 a" by (simp add: take_bit_eq_mask)
  then show ?thesis by (simp add: take_bit_eq_mod)
qed

lemma month_cases:
  "1 \<le> (m::int) \<Longrightarrow> m \<le> 12 \<Longrightarrow> m = 1 \<or> m = 2 \<or> m = 3 \<or> m = 4 \<or> m = 5 \<or> m = 6 \<or> m = 7 \<or>
   m = 8 \<or> m = 9 \<or> m = 10 \<or> m = 11 \<or> m = 12"
  by presburger

definition leap :: "int \<Rightarrow> bool" where
  "leap y \<longleftrightarrow> y mod 4 = 0 \<and> (y mod 100 \<noteq> 0 \<or> y mod 400 = 0)"

definition month_days :: "int \<Rightarrow> int \<Rightarrow> int" where
  "month_days y m = (if m = 2 then (if leap y then 29 else 28)
     else if m \<in> {4, 6, 9, 11} then 30 else 31)"

definition valid_date :: "int \<Rightarrow> int \<Rightarrow> int \<Rightarrow> bool" where
  "valid_date y m d \<longleftrightarrow> 0 \<le> y \<and> y \<le> 9999 \<and> 1 \<le> m \<and> m \<le> 12 \<and> 1 \<le> d \<and> d \<le> month_days y m"

text \<open>The day count with March as the first month: \<open>M\<close> from 1 to 12.\<close>

definition march_days :: "int \<Rightarrow> int \<Rightarrow> int \<Rightarrow> int" where
  "march_days Y M d = Y * 1461 div 4 + M * 367 div 12 - (Y + 100) div 100 * 3 div 4 + d - 32075"

lemma Encode_valid:
  assumes "valid_date y m d"
  shows "hb_dateEncode y m d =
    (if m < 3 then march_days (y + 4799) (m + 10) d else march_days (y + 4800) (m - 2) d)"
proof -
  have "1 \<le> m" "m \<le> 12" using assms by (simp_all add: valid_date_def)
  note m = month_cases[OF this]
  from m have lim: "d \<le> auiDayLimit ! nat (m - 1) \<or> (d = 29 \<and> m = 2 \<and> leap y)"
    using assms by (auto simp: valid_date_def month_days_def auiDayLimit_def leap_def split: if_splits)
  show ?thesis using assms lim
    by (auto simp: hb_dateEncode_def valid_date_def HB_DATE_YEAR_LIMIT_def and_3 leap_def
      smod_nonneg sdiv_nonneg march_days_def Let_def algebra_simps)
qed

text \<open>The days of the year that starts in March, up to month \<open>M\<close>.\<close>

definition march_doy :: "int \<Rightarrow> int \<Rightarrow> int" where
  "march_doy M d = M * 367 div 12 - 31 + d"

definition march_limit :: "int \<Rightarrow> int \<Rightarrow> int" where
  "march_limit Y M = (if M = 12 then (if leap (Y + 1) then 29 else 28)
     else if M \<in> {2, 4, 7, 9} then 30 else 31)"

lemma century:
  assumes "0 \<le> r" "r < (100::int)"
  shows "(100 * c + r) * 1461 div 4 = 36525 * c + 1461 * r div 4" "(100 * c + r + 100) div 100 = c + 1"
proof -
  have e: "(100 * c + r) * 1461 = 4 * (36525 * c) + 1461 * r" "100 * c + r + 100 = 100 * (c + 1) + r"
    by simp_all
  show "(100 * c + r) * 1461 div 4 = 36525 * c + 1461 * r div 4"
    unfolding e by (subst div_mult_self4) simp_all
  show "(100 * c + r + 100) div 100 = c + 1"
    unfolding e using assms by (subst div_mult_self4) simp_all
qed

lemma quarter: "(k::int) - k * 3 div 4 = (k + 3) div 4"
  by presburger

lemma century_days: "(146097 * k + 3) div 4 = 36524 * k + (k + 3) div (4::int)"
proof -
  have e: "146097 * k + 3 = 4 * (36524 * k) + (k + 3)" by simp
  show ?thesis unfolding e by (subst div_mult_self4) simp_all
qed

lemma march_days_eq:
  assumes "0 \<le> r" "r < 100"
  shows "march_days (100 * c + r) M d + 68569 =
     (146097 * (c + 1) + 3) div 4 + (1461 * r div 4 + march_doy M d)"
  using century[OF assms] quarter[of "c + 1"] century_days[of "c + 1"]
  by (simp add: march_days_def march_doy_def)

lemma march_doy_bounds:
  assumes "1 \<le> M" "M \<le> 12" "1 \<le> d" "d \<le> march_limit Y M"
  shows "0 \<le> march_doy M d" "march_doy M d \<le> (if leap (Y + 1) then 365 else 364)"
    "80 * (march_doy M d + 31) div 2447 = M" "march_doy M d + 31 - 2447 * M div 80 = d"
proof -
  have "d \<le> 31" using assms(4) by (auto simp: march_limit_def split: if_splits)
  with month_cases[OF assms(1,2)] assms(3,4)
  show "0 \<le> march_doy M d" "march_doy M d \<le> (if leap (Y + 1) then 365 else 364)"
    "80 * (march_doy M d + 31) div 2447 = M" "march_doy M d + 31 - 2447 * M div 80 = d"
    by (auto simp: march_doy_def march_limit_def split: if_splits)
qed

lemma div_unique: "(b::int) * q \<le> a \<Longrightarrow> a < b * (q + 1) \<Longrightarrow> 0 < b \<Longrightarrow> a div b = q"
  by (rule int_div_pos_eq[of a b q "a - b * q"]) (auto simp: algebra_simps)

lemma leap_century: "leap (100 * k) \<longleftrightarrow> k mod 4 = 0"
proof -
  have "100 * k mod 4 = 0" using mod_mult_self1_is_0[of 4 "25 * k"] by simp
  moreover have "100 * k mod 100 = 0" by simp
  moreover have "100 * k mod 400 = 100 * (k mod 4)" using mult_mod_right[of 100 k 4] by simp
  ultimately show ?thesis by (simp add: leap_def)
qed

lemma leap_shift: "leap (4800 + y) = leap y"
  using mod_add_left_eq[of 4800 4 y] mod_add_left_eq[of 4800 100 y] mod_add_left_eq[of 4800 400 y]
  by (simp add: leap_def)

lemma leap_year_mod: "leap y \<Longrightarrow> y mod 4 = 0"
  by (simp add: leap_def)

text \<open>The days of a century before the March year \<open>r\<close>, with the day in it.\<close>

lemma century_day_bound:
  assumes "0 \<le> r" "r < 100" "0 \<le> e" "e \<le> (if leap (100 * c + r + 1) then 365 else 364)"
  shows "1461 * r div 4 + e \<le> (if (c + 1) mod 4 = 0 then 36524 else 36523)"
proof (cases "r = 99")
  case True
  then have "100 * c + r + 1 = 100 * (c + 1)" by simp
  then have "leap (100 * c + r + 1) \<longleftrightarrow> (c + 1) mod 4 = 0" by (simp only: leap_century)
  then show ?thesis using True assms(4) by (auto split: if_splits)
next
  case False
  then have "1461 * r div 4 \<le> 1461 * 98 div 4" using assms(2) by (intro zdiv_mono1) auto
  then show ?thesis using assms(4) by (auto split: if_splits)
qed

lemma century_of_day:
  assumes "0 \<le> D" "D \<le> (if k mod 4 = 0 then 36524 else 36523)" "0 \<le> (k::int)"
  shows "((146097 * k + 3) div 4 + D) * 4 div 146097 = k"
proof (cases "k mod 4 = 0")
  case True
  then have "\<exists>j. k = 4 * j" by presburger
  then obtain j where j: "k = 4 * j" ..
  have "(4 * (146097 * j) + 3) div 4 = 146097 * j" by (subst div_mult_self4) simp_all
  then have "(584388 * j + 3) div 4 = 146097 * j" by simp
  then show ?thesis using assms j by (intro div_unique) auto
next
  case False
  then show ?thesis using assms by (intro div_unique) auto
qed

lemma year_of_day:
  assumes "0 \<le> r" "r < 100" "0 \<le> e" "e \<le> (if (r + 1) mod 4 = 0 then 365 else (364::int))"
  shows "4000 * (1461 * r div 4 + e + 1) div 1461001 = r"
proof (cases "(r + 1) mod 4 = 0")
  case True
  then have "\<exists>j. r = 4 * j + 3" by presburger
  then obtain j where j: "r = 4 * j + 3" ..
  have "(4 * (1461 * j) + 4383) div 4 = 1461 * j + 1095" by (subst div_mult_self4) simp_all
  then have "(5844 * j + 4383) div 4 = 1461 * j + 1095" by simp
  then show ?thesis using assms j by (intro div_unique) auto
next
  case False
  then show ?thesis using assms by (intro div_unique) auto
qed

lemma Decode_steps:
  assumes "HB_STR_DATE_BASE \<le> j" "(j + 68569) * 4 div 146097 = W"
    and "J1 = j + 68569 - (146097 * W + 3) div 4" "0 \<le> J1" "4000 * (J1 + 1) div 1461001 = X"
    and "J2 = J1 - (1461 * X div 4 - 31)" "0 \<le> J2" "80 * J2 div 2447 = V"
  shows "hb_dateDecode j = (X + V div 11 + (W - 49) * 100, V + 2 - V div 11 * 12, J2 - 2447 * V div 80)"
proof -
  have "0 \<le> j" using assms(1) by (simp add: HB_STR_DATE_BASE_def)
  moreover from this have "0 \<le> W" using assms(2) by (auto simp: pos_imp_zdiv_nonneg_iff)
  moreover have "0 \<le> X" "0 \<le> V" using assms(4,5,7,8) by (auto simp: pos_imp_zdiv_nonneg_iff)
  ultimately have "(j + 68569) * 4 sdiv 146097 = W" "j + 68569 - (146097 * W + 3) sdiv 4 = J1"
    "4000 * (J1 + 1) sdiv 1461001 = X" "J1 - (1461 * X sdiv 4 - 31) = J2" "80 * J2 sdiv 2447 = V"
    "V sdiv 11 = V div 11" "2447 * V sdiv 80 = 2447 * V div 80"
    using assms(2-8) by (simp_all only: sdiv_nonneg) (simp_all add: sdiv_nonneg)
  then show ?thesis using assms(1) by (simp only: hb_dateDecode_def Let_def if_True prod.inject)
qed

lemma Decode_march:
  assumes "0 \<le> c" "0 \<le> r" "r < 100" "1 \<le> M" "M \<le> 12" "1 \<le> d" "d \<le> march_limit (100 * c + r) M"
    and "HB_STR_DATE_BASE \<le> march_days (100 * c + r) M d"
  shows "hb_dateDecode (march_days (100 * c + r) M d) =
    (100 * c + r - 4800 + M div 11, M + 2 - 12 * (M div 11), d)"
proof -
  note doy = march_doy_bounds[OF assms(4-7)]
  let ?e = "march_doy M d" and ?D = "1461 * r div 4 + march_doy M d"
  have "(100 * c + r + 1) mod 4 = (r + 1) mod 4" 
    by (simp add: mod_add_left_eq[of "100 * c", symmetric] add.assoc)
  then have "(r + 1) mod 4 = 0" if "leap (100 * c + r + 1)" using leap_year_mod[OF that] by simp
  then have e: "?e \<le> (if (r + 1) mod 4 = 0 then 365 else 364)"
    using doy(2) by (cases "leap (100 * c + r + 1)") simp_all
  have D: "0 \<le> ?D" using assms(2) doy(1) by simp
  note W = century_of_day[OF D century_day_bound[OF assms(2,3) doy(1,2)]]
  note X = year_of_day[OF assms(2,3) doy(1) e]
  have J: "march_days (100 * c + r) M d + 68569 - (146097 * (c + 1) + 3) div 4 = ?D"
    using march_days_eq[OF assms(2,3), of c M d] by simp
  have J2: "?e + 31 = ?D - (1461 * r div 4 - 31)" by simp
  have W': "(march_days (100 * c + r) M d + 68569) * 4 div 146097 = c + 1"
    using W assms(1) march_days_eq[OF assms(2,3), of c M d] by simp
  have "hb_dateDecode (march_days (100 * c + r) M d) =
    (r + M div 11 + (c + 1 - 49) * 100, M + 2 - M div 11 * 12, ?e + 31 - 2447 * M div 80)"
    by (rule Decode_steps[OF assms(8) W' J[symmetric] D X J2 _ doy(3)]) (use doy(1) in simp)
  then show ?thesis using doy(4) by simp
qed

lemma valid_march:
  assumes "valid_date y m d"
  obtains c r M where "0 \<le> c" "0 \<le> r" "r < 100" "1 \<le> M" "M \<le> 12" "1 \<le> d"
    "d \<le> march_limit (100 * c + r) M" "hb_dateEncode y m d = march_days (100 * c + r) M d"
    "y = 100 * c + r - 4800 + M div 11" "m = M + 2 - 12 * (M div 11)"
proof -
  let ?Y = "if m < 3 then y + 4799 else y + 4800" and ?M = "if m < 3 then m + 10 else m - 2"
  have v: "0 \<le> y" "1 \<le> m" "m \<le> 12" "1 \<le> d" "d \<le> month_days y m" using assms by (auto simp: valid_date_def)
  note l = leap_shift[of y]
  have lim: "month_days y m = march_limit ?Y ?M"
    using month_cases[OF v(2,3)] by (elim disjE) (simp_all add: month_days_def march_limit_def l)
  have split: "?Y = 100 * (?Y div 100) + ?Y mod 100" by simp
  have inv: "m = ?M + 2 - 12 * (?M div 11)" "y = ?Y - 4800 + ?M div 11"
    using month_cases[OF v(2,3)] by (elim disjE; simp)+
  have enc: "hb_dateEncode y m d = march_days ?Y ?M d" using Encode_valid[OF assms] by (simp split: if_splits)
  show ?thesis
  proof (rule that[of "?Y div 100" "?Y mod 100" ?M])
    show "0 \<le> ?Y div 100" using v(1) by (intro pos_imp_zdiv_nonneg_iff[THEN iffD2]) auto
    show "1 \<le> ?M" "?M \<le> 12" using v(2,3) by auto
    show "d \<le> march_limit (100 * (?Y div 100) + ?Y mod 100) ?M" using v(5) lim split by simp
    show "hb_dateEncode y m d = march_days (100 * (?Y div 100) + ?Y mod 100) ?M d" using enc split by simp
    show "y = 100 * (?Y div 100) + ?Y mod 100 - 4800 + ?M div 11" using inv(2) split by simp
  qed (use v(4) inv(1) in simp_all)
qed


lemma march_base:
  assumes "0 \<le> r" "r < 100" "1 \<le> M" "M \<le> 12" "1 \<le> d" "0 \<le> 100 * c + r - 4800 + M div 11"
  shows "HB_STR_DATE_BASE \<le> march_days (100 * c + r) M d"
proof -
  have u: "M div 11 \<le> 1" using assms(3,4) by simp
  have doy: "M * 367 div 12 - 30 \<le> march_doy M d" using assms(5) by (simp add: march_doy_def)
  show ?thesis
  proof (cases "48 \<le> c")
    case True
    then have "(146097 * 49 + 3) div 4 \<le> (146097 * (c + 1) + 3) div 4" by (intro zdiv_mono1) auto
    moreover have "0 \<le> M * 367 div 12 - 30" using zdiv_mono1[of 367 "M * 367" 12] assms(3) by simp
    ultimately show ?thesis
      using march_days_eq[OF assms(1,2), of c M d] doy assms(1) by (simp add: HB_STR_DATE_BASE_def)
  next
    case False
    then have c: "c = 47" "r = 99" "M div 11 = 1" using assms(2,6) u by auto
    then have "11 \<le> M" using assms(3) by presburger
    then have "336 \<le> M * 367 div 12" using zdiv_mono1[of "11 * 367" "M * 367" 12] by simp
    then show ?thesis
      using march_days_eq[OF assms(1,2), of c M d] doy c by (simp add: HB_STR_DATE_BASE_def)
  qed
qed

lemma Decode_Encode:
  assumes "valid_date y m d"
  shows "HB_STR_DATE_BASE \<le> hb_dateEncode y m d \<and> hb_dateDecode (hb_dateEncode y m d) = (y, m, d)"
proof -
  obtain c r M where p: "0 \<le> c" "0 \<le> r" "r < 100" "1 \<le> M" "M \<le> 12" "1 \<le> d"
    "d \<le> march_limit (100 * c + r) M" and e: "hb_dateEncode y m d = march_days (100 * c + r) M d"
    and y: "y = 100 * c + r - 4800 + M div 11" "m = M + 2 - 12 * (M div 11)"
    using valid_march[OF assms] .
  have "0 \<le> 100 * c + r - 4800 + M div 11" using assms y(1) by (simp add: valid_date_def)
  note base = march_base[OF p(2-6) this]
  show ?thesis using base Decode_march[OF p base] e y by simp
qed

text \<open>C13.
  Decoding an encoded date gives the date back, for every date of the calendar
  in years 0 to 9999, and the encoded value is never below the first day.\<close>

theorem hb_date_roundtrip:
  assumes "valid_date y m d"
  shows "HB_STR_DATE_BASE \<le> hb_dateEncode y m d \<and> hb_dateDecode (hb_dateEncode y m d) = (y, m, d)"
  using assms by (rule Decode_Encode)

lemma hb_date_roundtrip_witness:
  "HB_STR_DATE_BASE \<le> hb_dateEncode 2024 2 29 \<and> hb_dateDecode (hb_dateEncode 2024 2 29) = (2024, 2, 29)"
  by (rule hb_date_roundtrip) (simp add: valid_date_def month_days_def leap_def)

text \<open>Every day from the first one is the day of a date in the March calendar.\<close>

lemma march_doy_surj:
  assumes "0 \<le> e" "e \<le> (if leap (Y + 1) then 365 else 364)"
  obtains M d where "1 \<le> M" "M \<le> 12" "1 \<le> d" "d \<le> march_limit Y M" "march_doy M d = e"
proof -
  have lim: "e \<le> 365" using assms(2) by (simp split: if_splits)
  note d = march_limit_def march_doy_def
  consider "e < 31" | "31 \<le> e" "e < 61" | "61 \<le> e" "e < 92" | "92 \<le> e" "e < 122" | "122 \<le> e" "e < 153" | "153 \<le> e" "e < 184" | "184 \<le> e" "e < 214" | "214 \<le> e" "e < 245" | "245 \<le> e" "e < 275" | "275 \<le> e" "e < 306" | "306 \<le> e" "e < 337" | "337 \<le> e" using assms(1) by linarith
  then show ?thesis
  proof cases
    case 1
    then show ?thesis using that[of 1 "e + 1"] assms  by (simp add: d)
  next
    case 2
    then show ?thesis using that[of 2 "e - 30"] assms  by (simp add: d)
  next
    case 3
    then show ?thesis using that[of 3 "e - 60"] assms  by (simp add: d)
  next
    case 4
    then show ?thesis using that[of 4 "e - 91"] assms  by (simp add: d)
  next
    case 5
    then show ?thesis using that[of 5 "e - 121"] assms  by (simp add: d)
  next
    case 6
    then show ?thesis using that[of 6 "e - 152"] assms  by (simp add: d)
  next
    case 7
    then show ?thesis using that[of 7 "e - 183"] assms  by (simp add: d)
  next
    case 8
    then show ?thesis using that[of 8 "e - 213"] assms  by (simp add: d)
  next
    case 9
    then show ?thesis using that[of 9 "e - 244"] assms  by (simp add: d)
  next
    case 10
    then show ?thesis using that[of 10 "e - 274"] assms  by (simp add: d)
  next
    case 11
    then show ?thesis using that[of 11 "e - 305"] assms  by (simp add: d)
  next
    case 12
    then show ?thesis using that[of 12 "e - 336"] assms by (cases "leap (Y + 1)") (simp_all add: d)
  qed
qed

lemma century_bounds:
  fixes J k :: int
  assumes "J * 4 div 146097 = k" "0 \<le> k"
  defines "D \<equiv> J - (146097 * k + 3) div 4"
  shows "0 \<le> D" "D \<le> (if k mod 4 = 0 then 36524 else 36523)"
proof -
  have b: "146097 * k \<le> J * 4" "J * 4 < 146097 * k + 146097" using assms(1) by auto
  define m i where "m = k div 4" and "i = k mod 4"
  have k: "k = 4 * m + i" by (simp add: m_def i_def)
  have i: "i = 0 \<or> i = 1 \<or> i = 2 \<or> i = 3" unfolding i_def by presburger
  have "146097 * k + 3 = 4 * (146097 * m) + (146097 * i + 3)" by (simp add: k)
  then have q: "(146097 * k + 3) div 4 = 146097 * m + (146097 * i + 3) div 4"
    by (simp only: div_mult_self4) 
  have km: "k mod 4 = 0 \<longleftrightarrow> i = 0" by (simp add: i_def)
  show "0 \<le> D" "D \<le> (if k mod 4 = 0 then 36524 else 36523)"
    unfolding D_def q km using b i by (auto simp: k)
qed

lemma year_bounds:
  fixes D :: int
  assumes "0 \<le> D" "D \<le> 36524"
  defines "r \<equiv> 4000 * (D + 1) div 1461001"
  shows "0 \<le> r" "r < 100" "0 \<le> D - 1461 * r div 4"
    "D - 1461 * r div 4 \<le> (if r mod 4 = 3 then 365 else 364)"
proof -
  have b: "1461001 * r \<le> 4000 * (D + 1)" "4000 * (D + 1) < 1461001 * r + 1461001" unfolding r_def by auto
  show r: "0 \<le> r" using assms(1) by (simp add: r_def)
  show "r < 100" using b(1) assms(2) by simp
  show "0 \<le> D - 1461 * r div 4" using b(1) r assms(1) by simp
  define m i where "m = r div 4" and "i = r mod 4"
  have k: "r = 4 * m + i" by (simp add: m_def i_def)
  have i: "i = 0 \<or> i = 1 \<or> i = 2 \<or> i = 3" unfolding i_def by presburger
  have "1461 * r = 4 * (1461 * m) + 1461 * i" by (simp add: k)
  then have q: "1461 * r div 4 = 1461 * m + 1461 * i div 4" by (simp only: div_mult_self4)
  show "D - 1461 * r div 4 \<le> (if r mod 4 = 3 then 365 else 364)"
    unfolding q i_def[symmetric] using b \<open>r < 100\<close> i by (auto simp: k)
qed

definition last_day :: int where "last_day = 5373484"

lemma day_march:
  assumes "HB_STR_DATE_BASE \<le> j"
  obtains c r M d where "0 \<le> c" "0 \<le> r" "r < 100" "1 \<le> M" "M \<le> 12" "1 \<le> d"
    "d \<le> march_limit (100 * c + r) M" "j = march_days (100 * c + r) M d"
proof -
  define k where "k = (j + 68569) * 4 div 146097"
  have k: "48 \<le> k" using zdiv_mono1[of "1789629 * 4" "(j + 68569) * 4" 146097] assms
    by (simp add: k_def HB_STR_DATE_BASE_def)
  define D where "D = j + 68569 - (146097 * k + 3) div 4"
  have D: "0 \<le> D" "D \<le> (if k mod 4 = 0 then 36524 else 36523)"
    using century_bounds[of "j + 68569" k] k by (simp_all add: D_def k_def)
  define r where "r = 4000 * (D + 1) div 1461001"
  define e where "e = D - 1461 * r div 4"
  have "D \<le> 36524" using D(2) by (simp split: if_splits)
  note y = year_bounds[OF D(1) this, folded r_def, folded e_def]
  have e: "e \<le> (if leap (100 * (k - 1) + r + 1) then 365 else 364)"
  proof (cases "r = 99")
    case True
    have "100 * (k - 1) + 99 + 1 = 100 * k" by simp
    then have "leap (100 * (k - 1) + r + 1) \<longleftrightarrow> k mod 4 = 0" using True by (simp only: leap_century)
    then show ?thesis using D(2) y(4) True by (auto simp: e_def)
  next
    case False
    have "leap (100 * (k - 1) + r + 1)" if "r mod 4 = 3"
    proof -
      have "(100 * (k - 1) + (r + 1)) mod 100 = (r + 1) mod 100" by (rule mod_mult_self4)
      moreover have "(r + 1) mod 100 = r + 1" using y(1,2) False by (intro mod_pos_pos_trivial) auto
      moreover have "(100 * (k - 1) + (r + 1)) mod 4 = (r + 1) mod 4"
        using mod_mult_self4[of 4 "25 * (k - 1)" "r + 1"] by simp
      moreover have "(r + 1) mod 4 = 0" using that by presburger
      moreover have "100 * (k - 1) + r + 1 = 100 * (k - 1) + (r + 1)" by simp
      ultimately show ?thesis using y(1) unfolding leap_def by (simp only:) linarith
    qed
    then show ?thesis using y(4) by (auto split: if_splits)
  qed
  obtain M d where M: "1 \<le> M" "M \<le> 12" "1 \<le> d" "d \<le> march_limit (100 * (k - 1) + r) M" "march_doy M d = e"
    using march_doy_surj[OF y(3) e] .
  have "j = march_days (100 * (k - 1) + r) M d"
    using march_days_eq[OF y(1,2), of "k - 1" M d] M(5) by (simp add: e_def D_def)
  then show ?thesis using that[of "k - 1" r M d] k y(1,2) M by simp
qed

lemma march_valid:
  assumes "0 \<le> c" "0 \<le> r" "r < 100" "1 \<le> M" "M \<le> 12" "1 \<le> d" "d \<le> march_limit (100 * c + r) M"
    and "HB_STR_DATE_BASE \<le> march_days (100 * c + r) M d" "march_days (100 * c + r) M d \<le> last_day"
  shows "valid_date (100 * c + r - 4800 + M div 11) (M + 2 - 12 * (M div 11)) d"
    "hb_dateEncode (100 * c + r - 4800 + M div 11) (M + 2 - 12 * (M div 11)) d = march_days (100 * c + r) M d"
proof -
  let ?y = "100 * c + r - 4800 + M div 11" and ?m = "M + 2 - 12 * (M div 11)"
  have u: "M div 11 = (if 11 \<le> M then 1 else 0)" using month_cases[OF assms(4,5)] by auto
  note eq = march_days_eq[OF assms(2,3), of c M d]
  note doy = march_doy_bounds(1,2)[OF assms(4-7)]
  have y1: "1461 * r div 4 \<le> 36159" using zdiv_mono1[of "1461 * r" "1461 * 99" 4] assms(3) by simp
  have e1: "march_doy M d \<le> 365" using doy(2) by (simp split: if_splits)
  have "47 \<le> c"
  proof (rule ccontr)
    assume "\<not> 47 \<le> c"
    then have "(146097 * (c + 1) + 3) div 4 \<le> 1716640" using zdiv_mono1[of "146097 * (c + 1) + 3" "146097 * 47 + 3" 4] by simp
    then show False using eq y1 e1 assms(8) by (simp add: HB_STR_DATE_BASE_def)
  qed
  have late: "306 \<le> march_doy M d \<Longrightarrow> 11 \<le> M" using month_cases[OF assms(4,5)] assms(6,7)
    by (elim disjE) (auto simp: march_doy_def march_limit_def split: if_splits)
  have y0: "0 \<le> ?y"
  proof (cases "c = 47")
    case True
    then have "36465 \<le> 1461 * r div 4 + march_doy M d" using eq assms(8) by (simp add: HB_STR_DATE_BASE_def)
    moreover have "r = 99 \<or> 1461 * r div 4 \<le> 35794" using zdiv_mono1[of "1461 * r" "1461 * 98" 4] assms(3) by auto
    ultimately show ?thesis using True late e1 y1 by (auto simp: u)
  next
    case False
    then show ?thesis using \<open>47 \<le> c\<close> assms(2) by (simp add: u)
  qed
  have y9: "?y \<le> 9999"
  proof (rule ccontr)
    assume "\<not> ?y \<le> 9999"
    then have "148 \<le> c \<or> c = 147 \<and> r = 99 \<and> 11 \<le> M" using assms(3) by (auto simp: u split: if_splits)
    then show False
    proof
      assume "148 \<le> c"
      then have "5442114 \<le> (146097 * (c + 1) + 3) div 4" using zdiv_mono1[of "146097 * 149 + 3" "146097 * (c + 1) + 3" 4] by simp
      then show False using eq doy(1) assms(2,9) by (simp add: last_day_def)
    next
      assume b: "c = 147 \<and> r = 99 \<and> 11 \<le> M"
      then have "336 \<le> M * 367 div 12" using zdiv_mono1[of "11 * 367" "M * 367" 12] by simp
      then show False using b eq assms(6,9) by (simp add: last_day_def march_doy_def)
    qed
  qed
  have l: "leap (100 * c + r + 1) \<longleftrightarrow> leap (100 * c + r + 1 - 4800)"
    using leap_shift[of "100 * c + r + 1 - 4800"] by (simp add: ac_simps)
  have "d \<le> month_days ?y ?m"
    using month_cases[OF assms(4,5)] assms(7) l
    by (elim disjE) (simp_all add: month_days_def march_limit_def algebra_simps split: if_splits)
  then show v: "valid_date ?y ?m d"
    using y0 y9 assms(4-6) by (auto simp: valid_date_def u)
  show "hb_dateEncode ?y ?m d = march_days (100 * c + r) M d"
    using Encode_valid[OF v] month_cases[OF assms(4,5)] by (elim disjE) simp_all
qed

lemma Decode_valid:
  assumes "HB_STR_DATE_BASE \<le> j" "j \<le> last_day"
  shows "\<exists>y m d. hb_dateDecode j = (y, m, d) \<and> valid_date y m d \<and> hb_dateEncode y m d = j"
proof -
  obtain c r M d where p: "0 \<le> c" "0 \<le> r" "r < 100" "1 \<le> M" "M \<le> 12" "1 \<le> d"
    "d \<le> march_limit (100 * c + r) M" and j: "j = march_days (100 * c + r) M d"
    using day_march[OF assms(1)] .
  note b = assms[unfolded j]
  show ?thesis using Decode_march[OF p b(1)] march_valid[OF p b] unfolding j by blast
qed

text \<open>C14.
  Every day from 0000-01-01 to 9999-12-31 decodes to a date of the calendar,
  and encoding that date gives the day back: with the round trip, days and
  valid dates correspond one to one.\<close>

theorem hb_date_decode_valid:
  assumes "HB_STR_DATE_BASE \<le> j" "j \<le> last_day"
  shows "\<exists>y m d. hb_dateDecode j = (y, m, d) \<and> valid_date y m d \<and> hb_dateEncode y m d = j"
  using assms by (rule Decode_valid)

lemma hb_date_decode_valid_witness:
  "\<exists>y m d. hb_dateDecode 2460000 = (y, m, d) \<and> valid_date y m d \<and> hb_dateEncode y m d = 2460000"
  by (rule hb_date_decode_valid) (simp_all add: HB_STR_DATE_BASE_def last_day_def)

text \<open>Anything else than a date of the calendar encodes to 0.\<close>

lemma Encode_cases: "hb_dateEncode y m d = 0 \<or> valid_date y m d"
proof (cases "0 \<le> y \<and> y \<le> 9999 \<and> 1 \<le> m \<and> m \<le> 12 \<and> 1 \<le> d")
  case True
  then have m: "1 \<le> m" "m \<le> 12" by simp_all
  show ?thesis using True month_cases[OF m]
    by (elim disjE; elim conjE) (auto simp: hb_dateEncode_def valid_date_def month_days_def auiDayLimit_def
      leap_def and_3 smod_nonneg)
next
  case False
  then show ?thesis by (auto simp: hb_dateEncode_def HB_DATE_YEAR_LIMIT_def)
qed

lemma Encode_nonneg: "0 \<le> hb_dateEncode y m d"
  using Encode_cases[of y m d] Decode_Encode[of y m d] by (auto simp: HB_STR_DATE_BASE_def)

end
