(* ===== verification/HbTime.thy ===== *)
theory HbTime
  imports HbDate
begin

text \<open>
  Times and timestamps as text, in common/hbdate.c: the functions that write
  the fixed formats and the ones that read them back.  A C string is the list
  of its character codes; \<open>ch s i\<close> is s[ i ], 0 at the end, and a pointer that
  moved on is the rest of the list.  hb_snprintf with \<open>%0<w>d\<close> is \<open>fmt\<close>.
\<close>

section \<open>Characters\<close>

type_synonym cstr = "int list"

definition ch :: "cstr \<Rightarrow> nat \<Rightarrow> int" where
  "ch s i = (if i < length s then s ! i else 0)"

definition HB_ISDIGIT :: "int \<Rightarrow> bool" where
  "HB_ISDIGIT c \<longleftrightarrow> c \<ge> 48 \<and> c \<le> 57"

definition HB_ISSPACE :: "int \<Rightarrow> bool" where
  "HB_ISSPACE c \<longleftrightarrow> c = 32 \<or> c = 9 \<or> c = 10 \<or> c = 13"

definition HB_TOUPPER :: "int \<Rightarrow> int" where
  "HB_TOUPPER c = (if c \<ge> 97 \<and> c \<le> 122 then c - 32 else c)"

fun skip_space :: "cstr \<Rightarrow> cstr" where
  "skip_space [] = []"
| "skip_space (c # s) = (if HB_ISSPACE c then skip_space s else c # s)"

fun digits :: "nat \<Rightarrow> nat \<Rightarrow> cstr" where
  "digits 0 n = []"
| "digits (Suc w) n = digits w (n div 10) @ [int (n mod 10) + 48]"

text \<open>\<open>%0<w>d\<close> of a number with at most \<open>w\<close> digits.\<close>

definition fmt :: "nat \<Rightarrow> int \<Rightarrow> cstr" where
  "fmt w i = digits w (nat i)"

section \<open>Dates\<close>

definition hb_dateStrPut :: "int \<Rightarrow> int \<Rightarrow> int \<Rightarrow> cstr" where
  "hb_dateStrPut iYear iMonth iDay =
     (if iYear \<ge> 0 \<and> iMonth > 0 \<and> iDay > 0 then
        [iYear sdiv 1000 smod 10 + 48, iYear sdiv 100 smod 10 + 48, iYear sdiv 10 smod 10 + 48,
         iYear smod 10 + 48, iMonth sdiv 10 smod 10 + 48, iMonth smod 10 + 48,
         iDay sdiv 10 smod 10 + 48, iDay smod 10 + 48]
      else replicate 8 48)"

definition hb_dateStrGet :: "cstr option \<Rightarrow> int \<times> int \<times> int" where
  "hb_dateStrGet szDate =
     (case szDate of
        Some s \<Rightarrow>
          ((((ch s 0 - 48) * 10 + (ch s 1 - 48)) * 10 + (ch s 2 - 48)) * 10 + (ch s 3 - 48),
           (ch s 4 - 48) * 10 + (ch s 5 - 48),
           (ch s 6 - 48) * 10 + (ch s 7 - 48))
      | None \<Rightarrow> (0, 0, 0))"

definition hb_dateDecStr :: "int \<Rightarrow> cstr" where
  "hb_dateDecStr lJulian =
     (if lJulian \<le> 0 then replicate 8 32
      else (case hb_dateDecode lJulian of (y, m, d) \<Rightarrow> hb_dateStrPut y m d))"

definition hb_dateEncStr :: "cstr option \<Rightarrow> int" where
  "hb_dateEncStr szDate = (case hb_dateStrGet szDate of (y, m, d) \<Rightarrow> hb_dateEncode y m d)"

section \<open>Times\<close>

definition hb_timeStr :: "int \<Rightarrow> cstr" where
  "hb_timeStr lMilliSec =
     (case hb_timeDecode lMilliSec of (iHour, iMinutes, iSeconds, iMSec) \<Rightarrow>
        fmt 2 iHour @ [58] @ fmt 2 iMinutes @ [58] @ fmt 2 iSeconds @ [46] @ fmt 3 iMSec)"

text \<open>One or two digits: the value and the rest.\<close>

definition get_num :: "cstr \<Rightarrow> int \<times> cstr" where
  "get_num s =
     (let v = ch s 0 - 48; s = drop 1 s in
      if HB_ISDIGIT (ch s 0) then (v * 10 + (ch s 0 - 48), drop 1 s) else (v, s))"

fun skip_frac :: "nat \<Rightarrow> cstr \<Rightarrow> cstr" where
  "skip_frac 0 s = s"
| "skip_frac (Suc k) s = (if HB_ISDIGIT (ch s 0) then skip_frac k (drop 1 s) else s)"

text \<open>Milliseconds after the point; digits up to the ninth are skipped.\<close>

definition get_frac :: "cstr \<Rightarrow> int \<times> cstr" where
  "get_frac s =
     (let v = (ch s 0 - 48) * 100; s = drop 1 s in
      if HB_ISDIGIT (ch s 0) then
        (let v = v + (ch s 0 - 48) * 10; s = drop 1 s in
         if HB_ISDIGIT (ch s 0) then (v + (ch s 0 - 48), skip_frac 6 (drop 1 s)) else (v, s))
      else (v, s))"

text \<open>\<open>hh[:mm[:ss[.fff]]]\<close>: the fields, the number of blocks after the hour, the rest.\<close>

definition get_time :: "cstr \<Rightarrow> int \<times> int \<times> int \<times> int \<times> nat \<times> cstr" where
  "get_time s =
     (let (iHour, s) = get_num s in
      if ch s 0 = 58 \<and> HB_ISDIGIT (ch s 1) then
        (let (iMinutes, s) = get_num (drop 1 s) in
         if ch s 0 = 58 \<and> HB_ISDIGIT (ch s 1) then
           (let (iSeconds, s) = get_num (drop 1 s) in
            if ch s 0 = 46 \<and> HB_ISDIGIT (ch s 1) then
              (let (iMSec, s) = get_frac (drop 1 s) in (iHour, iMinutes, iSeconds, iMSec, 3, s))
            else (iHour, iMinutes, iSeconds, 0, 2, s))
         else (iHour, iMinutes, 0, 0, 1, s))
      else (iHour, 0, 0, 0, 0, s))"

text \<open>The offset from UTC in seconds, \<open>+hh[[:]mm]\<close>, at a sign.\<close>

definition get_offset :: "cstr \<Rightarrow> int \<times> cstr" where
  "get_offset s =
     (let fMinus = (ch s 0 = 45);
          (off, s) = get_num (drop 1 s);
          off = off * 60;
          s = (if ch s 0 = 58 \<and> HB_ISDIGIT (ch s 1) then drop 1 s else s);
          (off, s) = (if ch s 0 \<ge> 48 \<and> ch s 0 \<le> 53 \<and> HB_ISDIGIT (ch s 1)
                      then (off + ((ch s 0 - 48) * 10 + (ch s 1 - 48)), drop 2 s) else (off, s));
          off = off * 60
      in (if fMinus then - off else off, s))"

text \<open>What may follow the time: Z, AM or PM, an offset.\<close>

definition get_suffix :: "int \<Rightarrow> nat \<Rightarrow> cstr \<Rightarrow> int \<times> int \<times> bool \<times> nat \<times> cstr" where
  "get_suffix iHour iBlocks s =
     (if iBlocks > 0 \<and> (ch s 0 = 90 \<or> ch s 0 = 122) then (iHour, 0, True, iBlocks, drop 1 s)
      else
        (let s = skip_space s in
         if (ch s 0 = 112 \<or> ch s 0 = 80) \<and> (ch s 1 = 109 \<or> ch s 1 = 77) then
           (if iHour = 0 then 24 else if iHour \<noteq> 12 then iHour + 12 else iHour,
            0, False, iBlocks + 1, drop 2 s)
         else if (ch s 0 = 97 \<or> ch s 0 = 65) \<and> (ch s 1 = 109 \<or> ch s 1 = 77) then
           (if iHour = 0 then 24 else if iHour = 12 then 0 else iHour,
            0, False, iBlocks + 1, drop 2 s)
         else
           (let s = (if HB_TOUPPER (ch s 0) = 85 \<and> HB_TOUPPER (ch s 1) = 84 \<and>
                        HB_TOUPPER (ch s 2) = 67 \<and> (ch s 3 = 43 \<or> ch s 3 = 45)
                     then drop 3 s else s) in
            if (ch s 0 = 43 \<or> ch s 0 = 45) \<and> HB_ISDIGIT (ch s 1)
            then (case get_offset s of (off, s) \<Rightarrow> (iHour, off, True, iBlocks, s))
            else (iHour, 0, False, iBlocks, s))))"

record utc_time =
  tmValid :: bool
  tmHour :: int
  tmMinutes :: int
  tmSeconds :: int
  tmMSec :: int
  tmUTCOffset :: int
  tmUTC :: bool

definition no_time :: utc_time where
  "no_time = \<lparr>tmValid = False, tmHour = 0, tmMinutes = 0, tmSeconds = 0, tmMSec = 0,
     tmUTCOffset = 0, tmUTC = False\<rparr>"

definition hb_timeStrGetUTC :: "cstr option \<Rightarrow> utc_time" where
  "hb_timeStrGetUTC szTime =
     (case szTime of
        None \<Rightarrow> no_time
      | Some s \<Rightarrow>
        (let s = skip_space s in
         if HB_ISDIGIT (ch s 0) then
           (let (iHour, iMinutes, iSeconds, iMSec, iBlocks, s) = get_time s;
                (iHour, iUTCOffset, fUTC, iBlocks, s) = get_suffix iHour iBlocks s;
                s = skip_space s
            in if ch s 0 = 0 \<and> iBlocks > 0 \<and> iHour < 24 \<and> iMinutes < 60 \<and> iSeconds < 60 \<and>
                  iUTCOffset \<ge> - 43200 \<and> iUTCOffset \<le> 43200
               then \<lparr>tmValid = True, tmHour = iHour, tmMinutes = iMinutes, tmSeconds = iSeconds,
                     tmMSec = iMSec, tmUTCOffset = iUTCOffset, tmUTC = fUTC\<rparr>
               else no_time)
         else no_time))"

section \<open>The formats without separators\<close>

text \<open>The number of digits at the start, at most \<open>k\<close>.\<close>

fun digit_run :: "nat \<Rightarrow> cstr \<Rightarrow> nat" where
  "digit_run 0 s = 0"
| "digit_run (Suc k) s = (if HB_ISDIGIT (ch s 0) then Suc (digit_run k (drop 1 s)) else 0)"

definition num2 :: "cstr \<Rightarrow> nat \<Rightarrow> int" where
  "num2 s i = (ch s i - 48) * 10 + (ch s (i + 1) - 48)"

definition hb_timeStrRawGet :: "cstr option \<Rightarrow> int \<times> int \<times> int \<times> int" where
  "hb_timeStrRawGet szTime =
     (case szTime of
        None \<Rightarrow> (0, 0, 0, 0)
      | Some s \<Rightarrow>
        (let iLen = digit_run 10 s in
         if iLen \<ge> 2 \<and> (iLen mod 2 = 0 \<or> iLen = 7 \<or> iLen = 9) then
           (let iHour = num2 s 0; iLen = iLen - 2 in
            if iLen \<ge> 2 then
              (let iMinutes = num2 s 2; iLen = iLen - 2 in
               if iLen \<ge> 2 then
                 (let iSeconds = num2 s 4; iLen = iLen - 2;
                      iMSec = (if iLen = 4 \<or> iLen = 3 then num2 s 6 * 10 + (ch s 8 - 48)
                               else if iLen = 2 then num2 s 6 * 10
                               else if iLen = 1 then (ch s 6 - 48) * 100
                               else 0)
                  in (iHour, iMinutes, iSeconds, iMSec))
               else (iHour, iMinutes, 0, 0))
            else (iHour, 0, 0, 0))
         else (0, 0, 0, 0)))"

definition hb_timeStampStrRawPut :: "int \<Rightarrow> int \<Rightarrow> cstr" where
  "hb_timeStampStrRawPut lJulian lMilliSec =
     (case (hb_dateDecode lJulian, hb_timeDecode lMilliSec) of
        ((iYear, iMonth, iDay), (iHour, iMinutes, iSeconds, iMSec)) \<Rightarrow>
          hb_dateStrPut iYear iMonth iDay @
          fmt 2 iHour @ fmt 2 iMinutes @ fmt 2 iSeconds @ fmt 3 iMSec)"

definition hb_timeStampStrRawGet :: "cstr \<Rightarrow> int \<times> int" where
  "hb_timeStampStrRawGet s =
     (let iLen = digit_run 10 s;
          (lJulian, s, iLen) =
            (if iLen = 8 \<or> iLen \<ge> 10
             then (case hb_dateStrGet (Some s) of (y, m, d) \<Rightarrow> (hb_dateEncode y m d, drop 8 s, iLen - 8))
             else (0, s, iLen));
          lMilliSec =
            (if iLen \<ge> 2
             then (case hb_timeStrRawGet (Some s) of (h, mi, se, ms) \<Rightarrow> hb_timeEncode h mi se ms)
             else 0)
      in (lJulian, lMilliSec))"

section \<open>Timestamps\<close>

definition hb_timeStampStr :: "int \<Rightarrow> int \<Rightarrow> cstr" where
  "hb_timeStampStr lJulian lMilliSec =
     (case (hb_dateDecode lJulian, hb_timeDecode lMilliSec) of
        ((iYear, iMonth, iDay), (iHour, iMinutes, iSeconds, iMSec)) \<Rightarrow>
          fmt 4 iYear @ [45] @ fmt 2 iMonth @ [45] @ fmt 2 iDay @ [32] @
          fmt 2 iHour @ [58] @ fmt 2 iMinutes @ [58] @ fmt 2 iSeconds @ [46] @ fmt 3 iMSec)"

definition is_digits :: "cstr \<Rightarrow> nat list \<Rightarrow> bool" where
  "is_digits s is \<longleftrightarrow> list_all (\<lambda>i. HB_ISDIGIT (ch s i)) is"

text \<open>The three ISO 8601 forms of a date after the year: the date and the rest.\<close>

definition get_date :: "int \<Rightarrow> cstr \<Rightarrow> ((int \<times> int \<times> int) \<times> cstr) option" where
  "get_date iYear s =
     (if is_digits s [5, 6] \<and> ch s 7 = ch s 4 \<and> is_digits s [8, 9] \<and> \<not> HB_ISDIGIT (ch s 10) then
        (let iMonth = num2 s 5; iDay = num2 s 8 in
         if hb_dateEncode iYear iMonth iDay \<noteq> 0 \<or> (iYear = 0 \<and> iMonth = 0 \<and> iDay = 0)
         then Some ((iYear, iMonth, iDay), drop 10 s) else None)
      else if (ch s 5 = 87 \<or> ch s 5 = 119) \<and> is_digits s [6, 7] \<and> ch s 8 = ch s 4 \<and>
              HB_ISDIGIT (ch s 9) \<and> \<not> HB_ISDIGIT (ch s 10) then
        (let lDate = hb_dateEncWeek iYear (num2 s 6) (ch s 9 - 48) in
         if lDate \<noteq> 0 then Some (hb_dateDecode lDate, drop 10 s) else None)
      else if ch s 4 = 45 \<and> is_digits s [5, 6, 7] \<and> \<not> HB_ISDIGIT (ch s 8) then
        (let iDay = num2 s 5 * 10 + (ch s 7 - 48) in
         if iDay > 0 \<and> (iDay \<le> 365 \<or> (iDay = 366 \<and>
              iYear smod 4 = 0 \<and> (iYear smod 100 \<noteq> 0 \<or> iYear smod 400 = 0)))
         then (let lDate = hb_dateEncode iYear 1 1 in
               if lDate \<noteq> 0 then Some (hb_dateDecode (lDate + iDay - 1), drop 8 s) else None)
         else None)
      else None)"

text \<open>
  The date part: valid flag, date and what is left of the text, None for the
  null pointer.
\<close>

definition get_date_part :: "cstr option \<Rightarrow> bool \<times> (int \<times> int \<times> int) \<times> cstr option" where
  "get_date_part szDateTime =
     (case szDateTime of
        None \<Rightarrow> (False, (0, 0, 0), None)
      | Some s \<Rightarrow>
        (let s = skip_space s in
         if is_digits s [0, 1, 2, 3] \<and> (ch s 4 = 45 \<or> ch s 4 = 47 \<or> ch s 4 = 46) then
           (case get_date (num2 s 0 * 100 + num2 s 2) s of
              Some (ymd, s) \<Rightarrow>
                if ch s 0 = 84 \<or> ch s 0 = 116
                then (False, ymd, Some (if HB_ISDIGIT (ch s 1) then drop 1 s else s))
                else
                  (let s = skip_space (if ch s 0 = 44 \<or> ch s 0 = 59 then drop 1 s else s) in
                   (True, ymd, if ch s 0 = 0 then None else Some s))
            | None \<Rightarrow> (False, (0, 0, 0), None))
         else (False, (0, 0, 0), Some s)))"

text \<open>hb_timeStampStrGetUTC with every result pointer given.\<close>

definition hb_timeStampStrGetUTC :: "cstr option \<Rightarrow> bool \<times> (int \<times> int \<times> int) \<times> utc_time" where
  "hb_timeStampStrGetUTC szDateTime =
     (let (fValid, ymd, s) = get_date_part szDateTime;
          t = hb_timeStrGetUTC s
      in (if tmValid t then True else if s \<noteq> None then False else fValid, ymd, t))"

definition hb_timeStampStrGetDTU :: "cstr option \<Rightarrow> bool \<times> int \<times> int \<times> bool" where
  "hb_timeStampStrGetDTU szDateTime =
     (let (fValid, (iYear, iMonth, iDay), t) = hb_timeStampStrGetUTC szDateTime;
          lJulian = hb_dateEncode iYear iMonth iDay;
          lMilliSec = hb_timeEncode (tmHour t) (tmMinutes t) (tmSeconds t) (tmMSec t)
      in if tmUTCOffset t \<noteq> 0 \<and> fValid then
           (let lMilliSec = lMilliSec - tmUTCOffset t * 1000 in
            if lMilliSec < 0
            then (lJulian - 1 \<ge> 0, lJulian - 1, lMilliSec + 86400000, tmUTC t)
            else if lMilliSec \<ge> 86400000
            then (fValid, lJulian + 1, lMilliSec - 86400000, tmUTC t)
            else (fValid, lJulian, lMilliSec, tmUTC t))
         else (fValid, lJulian, lMilliSec, tmUTC t))"

section \<open>Times of the clock\<close>

lemma div_digit: "0 \<le> b \<Longrightarrow> b < n \<Longrightarrow> (a * n + b) div n = (a::int)" "0 \<le> b \<Longrightarrow> b < n \<Longrightarrow> (a * n + b) mod n = b"
  by (simp_all add: mod_pos_pos_trivial div_pos_pos_trivial)

definition clock :: "int \<Rightarrow> int \<Rightarrow> int \<Rightarrow> int \<Rightarrow> bool" where
  "clock h mi se ms \<longleftrightarrow> 0 \<le> h \<and> h < 24 \<and> 0 \<le> mi \<and> mi < 60 \<and> 0 \<le> se \<and> se < 60 \<and> 0 \<le> ms \<and> ms < 1000"

lemma timeDecode_Encode:
  assumes "clock h mi se ms"
  shows "hb_timeDecode (hb_timeEncode h mi se ms) = (h, mi, se, ms)"
proof -
  have b: "0 \<le> h" "h < 24" "0 \<le> mi" "mi < 60" "0 \<le> se" "se < 60" "0 \<le> ms" "ms < 1000"
    using assms by (simp_all add: clock_def)
  let ?s = "(h * 60 + mi) * 60 + se"
  have e: "hb_timeEncode h mi se ms = ?s * 1000 + ms" using b by (simp add: hb_timeEncode_def)
  show ?thesis
  proof (cases "?s * 1000 + ms = 0")
    case True
    then have "h = 0 \<and> mi = 0 \<and> se = 0 \<and> ms = 0" using b by (simp add: add_nonneg_eq_0_iff)
    then show ?thesis by (simp add: hb_timeDecode_def hb_timeEncode_def)
  next
    case False
    moreover have p: "0 \<le> ?s * 1000 + ms" "0 \<le> ?s" "0 \<le> h * 60 + mi" "\<not> h \<ge> 24" using b by auto
    ultimately have "\<not> ?s * 1000 + ms \<le> 0" by simp
    then show ?thesis unfolding e hb_timeDecode_def Let_def
      using p b by (simp only: sdiv_nonneg smod_nonneg div_digit if_False zero_le_numeral)
  qed
qed

lemma timeEncode_Decode:
  assumes "0 \<le> t" "t < 86400000"
  obtains h mi se ms where "hb_timeDecode t = (h, mi, se, ms)" "clock h mi se ms" "hb_timeEncode h mi se ms = t"
proof (cases "t = 0")
  case True
  then show ?thesis using that[of 0 0 0 0] by (simp add: hb_timeDecode_def hb_timeEncode_def clock_def)
next
  case False
  have "t div 1000 div 60 div 60 < 24" using assms by (simp add: zdiv_zmult2_eq[symmetric])
  then show ?thesis using that[of "t div 1000 div 60 div 60" "t div 1000 div 60 mod 60" "t div 1000 mod 60" "t mod 1000"]
      assms False
    by (simp add: hb_timeDecode_def hb_timeEncode_def Let_def sdiv_nonneg smod_nonneg clock_def)
qed

text \<open>C18.
  Encoding and decoding of a time of day are inverse: on the times of the
  clock, and on the milliseconds of a day.\<close>

theorem hb_time_roundtrip:
  "(clock h mi se ms \<longrightarrow> hb_timeDecode (hb_timeEncode h mi se ms) = (h, mi, se, ms)) \<and>
   (0 \<le> t \<and> t < 86400000 \<longrightarrow> (\<exists>h mi se ms. hb_timeDecode t = (h, mi, se, ms) \<and>
      clock h mi se ms \<and> hb_timeEncode h mi se ms = t))"
proof (intro conjI impI)
  show "clock h mi se ms \<Longrightarrow> hb_timeDecode (hb_timeEncode h mi se ms) = (h, mi, se, ms)"
    by (rule timeDecode_Encode)
  assume "0 \<le> t \<and> t < 86400000"
  then obtain h mi se ms where "hb_timeDecode t = (h, mi, se, ms)" "clock h mi se ms" "hb_timeEncode h mi se ms = t"
    using timeEncode_Decode[of t] by blast
  then show "\<exists>h mi se ms. hb_timeDecode t = (h, mi, se, ms) \<and> clock h mi se ms \<and> hb_timeEncode h mi se ms = t"
    by blast
qed

lemma hb_time_roundtrip_witness:
  "hb_timeDecode (hb_timeEncode 23 59 59 999) = (23, 59, 59, 999) \<and>
   (\<exists>h mi se ms. hb_timeDecode 43200001 = (h, mi, se, ms) \<and> clock h mi se ms \<and> hb_timeEncode h mi se ms = 43200001)"
  using hb_time_roundtrip[of 23 59 59 999 43200001] by (simp add: clock_def)

section \<open>Digits\<close>

lemma digits_Suc:
  "digits (Suc (Suc 0)) n = [int (n div 10 mod 10) + 48, int (n mod 10) + 48]"
  "digits (Suc (Suc (Suc 0))) n = [int (n div 10 div 10 mod 10) + 48, int (n div 10 mod 10) + 48, int (n mod 10) + 48]"
  "digits (Suc (Suc (Suc (Suc 0)))) n = [int (n div 10 div 10 div 10 mod 10) + 48,
     int (n div 10 div 10 mod 10) + 48, int (n div 10 mod 10) + 48, int (n mod 10) + 48]"
  by (simp_all only: digits.simps append.simps)

lemma fmt_digits:
  assumes "0 \<le> i"
  shows "fmt 2 i = [i div 10 mod 10 + 48, i mod 10 + 48]"
    "fmt 3 i = [i div 10 div 10 mod 10 + 48, i div 10 mod 10 + 48, i mod 10 + 48]"
    "fmt 4 i = [i div 10 div 10 div 10 mod 10 + 48, i div 10 div 10 mod 10 + 48, i div 10 mod 10 + 48, i mod 10 + 48]"
proof -
  obtain n where "i = int n" using assms nonneg_int_cases by blast
  moreover have "(2::nat) = Suc (Suc 0)" "(3::nat) = Suc (Suc (Suc 0))" "(4::nat) = Suc (Suc (Suc (Suc 0)))" by simp_all
  ultimately show "fmt 2 i = [i div 10 mod 10 + 48, i mod 10 + 48]"
    "fmt 3 i = [i div 10 div 10 mod 10 + 48, i div 10 mod 10 + 48, i mod 10 + 48]"
    "fmt 4 i = [i div 10 div 10 div 10 mod 10 + 48, i div 10 div 10 mod 10 + 48, i div 10 mod 10 + 48, i mod 10 + 48]"
    by (simp_all only: fmt_def nat_int digits_Suc zdiv_int zmod_int of_nat_numeral)
qed

lemma digit_value:
  "0 \<le> i \<Longrightarrow> i < 100 \<Longrightarrow> i div 10 mod 10 * 10 + i mod 10 = (i::int)"
  "0 \<le> i \<Longrightarrow> i < 1000 \<Longrightarrow> (i div 10 div 10 mod 10 * 10 + i div 10 mod 10) * 10 + i mod 10 = i"
  "0 \<le> i \<Longrightarrow> i < 10000 \<Longrightarrow>
   ((i div 10 div 10 div 10 mod 10 * 10 + i div 10 div 10 mod 10) * 10 + i div 10 mod 10) * 10 + i mod 10 = i"
proof -
  have m: "(x::int) div 10 * 10 + x mod 10 = x" for x by simp
  show "0 \<le> i \<Longrightarrow> i < 100 \<Longrightarrow> i div 10 mod 10 * 10 + i mod 10 = i"
    using m[of i] by (simp add: mod_pos_pos_trivial)
  show "0 \<le> i \<Longrightarrow> i < 1000 \<Longrightarrow> (i div 10 div 10 mod 10 * 10 + i div 10 mod 10) * 10 + i mod 10 = i"
    using m[of i] m[of "i div 10"] by (simp add: mod_pos_pos_trivial)
  show "0 \<le> i \<Longrightarrow> i < 10000 \<Longrightarrow>
   ((i div 10 div 10 div 10 mod 10 * 10 + i div 10 div 10 mod 10) * 10 + i div 10 mod 10) * 10 + i mod 10 = i"
    using m[of i] m[of "i div 10"] m[of "i div 10 div 10"] by (simp add: mod_pos_pos_trivial)
qed

lemma HB_ISDIGIT_mod [simp]: "HB_ISDIGIT (i mod 10 + 48)"
  by (simp add: HB_ISDIGIT_def) 

lemma ch_simps [simp]: "ch [] i = 0" "ch (c # s) 0 = c" "ch (c # s) (Suc i) = ch s i"
  by (simp_all add: ch_def)

lemma ch_numeral [simp]: "ch (c # s) (numeral k) = ch s (pred_numeral k)"
  by (simp add: ch_def)

lemma skip_space_digit: "HB_ISDIGIT (ch s 0) \<Longrightarrow> skip_space s = s"
  by (cases s) (auto simp: HB_ISDIGIT_def HB_ISSPACE_def)


section \<open>Reading the times back\<close>

lemma get_num_digits: "HB_ISDIGIT c \<Longrightarrow> get_num (b # c # s) = ((b - 48) * 10 + (c - 48), s)"
  by (simp add: get_num_def)

lemma get_frac_digits:
  "HB_ISDIGIT b \<Longrightarrow> HB_ISDIGIT c \<Longrightarrow> get_frac [a, b, c] = (((a - 48) * 10 + (b - 48)) * 10 + (c - 48), [])"
  by (simp add: get_frac_def Let_def numeral_eq_Suc HB_ISDIGIT_def)

lemma get_time_digits:
  assumes "list_all HB_ISDIGIT [h2, m1, m2, s1, s2, f1, f2, f3]"
  shows "get_time [h1, h2, 58, m1, m2, 58, s1, s2, 46, f1, f2, f3] =
    ((h1 - 48) * 10 + (h2 - 48), (m1 - 48) * 10 + (m2 - 48), (s1 - 48) * 10 + (s2 - 48),
     ((f1 - 48) * 10 + (f2 - 48)) * 10 + (f3 - 48), 3, [])"
  using assms by (simp add: get_time_def get_num_digits get_frac_digits)

lemma get_time_clock:
  assumes "clock h mi se ms"
  shows "get_time (fmt 2 h @ [58] @ fmt 2 mi @ [58] @ fmt 2 se @ [46] @ fmt 3 ms) = (h, mi, se, ms, 3, [])"
proof -
  have b: "0 \<le> h" "h < 100" "0 \<le> mi" "mi < 100" "0 \<le> se" "se < 100" "0 \<le> ms" "ms < 1000"
    using assms by (simp_all add: clock_def)
  show ?thesis
    unfolding fmt_digits(1)[OF b(1)] fmt_digits(1)[OF b(3)] fmt_digits(1)[OF b(5)] fmt_digits(2)[OF b(7)] append.simps
    by (subst get_time_digits) (simp_all only: list.pred_inject HB_ISDIGIT_mod simp_thms add_diff_cancel_right' digit_value b)
qed

lemma get_suffix_none: "get_suffix h n [] = (h, 0, False, n, [])"
  by (simp add: get_suffix_def HB_TOUPPER_def)

lemma timeStrGetUTC_clock:
  assumes "clock h mi se ms"
  shows "hb_timeStrGetUTC (Some (fmt 2 h @ [58] @ fmt 2 mi @ [58] @ fmt 2 se @ [46] @ fmt 3 ms)) =
    \<lparr>tmValid = True, tmHour = h, tmMinutes = mi, tmSeconds = se, tmMSec = ms, tmUTCOffset = 0, tmUTC = False\<rparr>"
    (is "hb_timeStrGetUTC (Some ?s) = _")
proof -
  have d: "HB_ISDIGIT (ch ?s 0)" using assms by (simp add: clock_def fmt_digits(1))
  have b: "h < 24" "mi < 60" "se < 60" using assms by (simp_all add: clock_def)
  show ?thesis
    unfolding hb_timeStrGetUTC_def option.case Let_def skip_space_digit[OF d] get_time_clock[OF assms]
    using d b by (simp add: get_suffix_none)
qed

text \<open>C19.
  The text that hb_timeStr writes for a number of milliseconds is accepted by
  hb_timeStrGetUTC, which reads the same time back and no UTC offset.\<close>

theorem hb_timeStr_roundtrip:
  assumes "0 \<le> t" "t < 86400000"
  shows "\<exists>r. hb_timeStrGetUTC (Some (hb_timeStr t)) = r \<and> tmValid r \<and> \<not> tmUTC r \<and> tmUTCOffset r = 0 \<and>
    hb_timeEncode (tmHour r) (tmMinutes r) (tmSeconds r) (tmMSec r) = t"
proof -
  obtain h mi se ms where "hb_timeDecode t = (h, mi, se, ms)" "clock h mi se ms" "hb_timeEncode h mi se ms = t"
    using timeEncode_Decode[OF assms] .
  then show ?thesis using timeStrGetUTC_clock[of h mi se ms] by (simp add: hb_timeStr_def)
qed

lemma hb_timeStr_roundtrip_witness:
  "\<exists>r. hb_timeStrGetUTC (Some (hb_timeStr 45296789)) = r \<and> tmValid r \<and> \<not> tmUTC r \<and> tmUTCOffset r = 0 \<and>
    hb_timeEncode (tmHour r) (tmMinutes r) (tmSeconds r) (tmMSec r) = 45296789"
  by (rule hb_timeStr_roundtrip) simp_all

text \<open>Whatever is read, the fields of the time are small and not negative.\<close>

lemma get_num_bounds: "HB_ISDIGIT (ch s 0) \<Longrightarrow> get_num s = (v, s') \<Longrightarrow> 0 \<le> v \<and> v < 100"
  by (auto simp: get_num_def HB_ISDIGIT_def Let_def split: if_splits)

lemma get_frac_bounds: "HB_ISDIGIT (ch s 0) \<Longrightarrow> get_frac s = (v, s') \<Longrightarrow> 0 \<le> v \<and> v < 1000"
  by (auto simp: get_frac_def HB_ISDIGIT_def Let_def split: if_splits)

lemma ch_drop: "ch (drop n s) i = ch s (n + i)"
  by (auto simp: ch_def nth_drop)

lemma get_time_bounds:
  assumes "HB_ISDIGIT (ch s 0)" "get_time s = (h, mi, se, ms, n, s')"
  shows "0 \<le> h" "0 \<le> mi" "0 \<le> se" "0 \<le> ms" "ms < 1000"
proof -
  note g = get_num_bounds get_frac_bounds
  have "0 \<le> h \<and> 0 \<le> mi \<and> 0 \<le> se \<and> 0 \<le> ms \<and> ms < 1000"
    using assms(2) g(1)[OF assms(1)]
    by (auto simp: get_time_def Let_def ch_drop split: if_splits prod.splits dest!: g[rotated])
  then show "0 \<le> h" "0 \<le> mi" "0 \<le> se" "0 \<le> ms" "ms < 1000" by simp_all
qed

lemma get_suffix_hour: "0 \<le> h \<Longrightarrow> get_suffix h n s = (h', off, u, n', s') \<Longrightarrow> 0 \<le> h'"
  by (auto simp: get_suffix_def Let_def split: if_splits prod.splits)

lemma GetUTC_bounds:
  "(let r = hb_timeStrGetUTC szTime in
    if tmValid r then clock (tmHour r) (tmMinutes r) (tmSeconds r) (tmMSec r) \<and> \<bar>tmUTCOffset r\<bar> \<le> 43200
    else r = no_time)"
proof (cases szTime)
  case None
  then show ?thesis by (simp add: hb_timeStrGetUTC_def no_time_def)
next
  case (Some s)
  obtain h mi se ms n s1 where t: "get_time (skip_space s) = (h, mi, se, ms, n, s1)" by (metis prod_cases6)
  obtain h' off u n' s2 where x: "get_suffix h n s1 = (h', off, u, n', s2)" by (metis prod_cases5)
  show ?thesis
  proof (cases "HB_ISDIGIT (ch (skip_space s) 0)")
    case True
    note g = get_time_bounds[OF True t]
    show ?thesis using g get_suffix_hour[OF g(1) x]
      by (auto simp: hb_timeStrGetUTC_def Some True t x Let_def clock_def no_time_def)
  qed (simp add: hb_timeStrGetUTC_def Some no_time_def)
qed

text \<open>C20.
  On every text, hb_timeStrGetUTC either gives a time of the clock with an
  offset of at most twelve hours, or reports an error with every field zero.\<close>

theorem hb_timeStrGetUTC_bounds:
  "(let r = hb_timeStrGetUTC szTime in
    if tmValid r then clock (tmHour r) (tmMinutes r) (tmSeconds r) (tmMSec r) \<and> \<bar>tmUTCOffset r\<bar> \<le> 43200
    else r = no_time)"
  by (rule GetUTC_bounds)

end
