(* ===== verification/ExprOpt.thy ===== *)
theory ExprOpt
  imports VmFacts HbTime
begin

text \<open>
  The optimiser of expressions, common/expropt2.c: operators and functions of
  literal arguments are computed when the program is compiled.  An expression is
  the tree the parser made; freeing the nodes of a tree is not modelled.
\<close>

section \<open>Expressions\<close>

datatype binop = EO_OR | EO_AND | EO_EQUAL | EO_EQ | EO_NE | EO_IN | EO_LT | EO_GT | EO_LE | EO_GE
  | EO_PLUS | EO_MINUS | EO_MULT | EO_DIV | EO_MOD | EO_POWER

text \<open>The functions the compiler knows, hb_compExprUseFunCall; \<open>F_ARRAYTOPARAMS\<close> may stand for several values.\<close>

datatype func = F_AT | F_ASC | F_CHR | F_LEN | F_UPPER | F_EMPTY | F_INT | F_MAX | F_MIN | F_STOD | F_STOT
  | F_DTOS | F_CTOD | F_BCHAR | F_BCODE | F_BITAND | F_BITOR | F_BITXOR | F_BITSET | F_BITRESET | F_BITSHIFT
  | F_BITTEST | F_BITNOT | F_ARRAYTOPARAMS | F_OTHER nat

datatype numval = NUM_LONG int | is_double: NUM_DOUBLE "64 word"

text \<open>
  A number has its width and decimals for printing; 255 means the default.
  The lists of \<open>E_ARRAY\<close>, \<open>E_HASH\<close> (keys and values in turn), \<open>E_LIST\<close> and
  \<open>E_FUNCALL\<close> are the chains of expressions.  \<open>E_LOCAL\<close> is a variable that is a
  local of the function; \<open>E_TERM\<close> stands for the kinds up to HB_ET_VARIABLE this
  theory has no constructor for, \<open>E_OPER\<close> for the other operators.
\<close>

datatype expr =
    E_NONE
  | is_nil: E_NIL
  | is_num: E_NUMERIC (asNum: numval) (bWidth: nat) (bDec: nat)
  | is_day: E_DATE (asDate: int)
  | is_stamp: E_TIMESTAMP (asDays: int) (asTime: int)
  | is_string: E_STRING (asString: "HB_BYTE list")
  | is_logical: E_LOGICAL (asLogical: bool)
  | is_block: E_CODEBLOCK nat
  | is_funref: E_FUNREF nat
  | is_ref: E_REF nat
  | is_array: E_ARRAY "expr list"
  | is_hash: E_HASH "expr list"
  | E_LOCAL int
  | E_TERM nat
  | E_OPER nat
  | E_IIF expr expr expr
  | is_list: E_LIST (asList: "expr list")
  | E_FUNCALL func "expr list"
  | E_BIN binop (pLeft: expr) (pRight: expr)
  | is_not: E_NOT (pNot: expr)
  | is_negate: E_NEGATE (pNegate: expr)

text \<open>The switches of the compiler; \<open>fCompiler\<close> is false in the macro compiler.\<close>

record comp_flags =
  fHarbour :: bool
  fExtopt :: bool
  fMacrotext :: bool
  fUsercp :: bool
  fShortcuts :: bool
  fCompiler :: bool

definition hb_compExprNewLong :: "int \<Rightarrow> expr" where
  "hb_compExprNewLong nValue = E_NUMERIC (NUM_LONG nValue) 255 0"

definition hb_compExprNewDouble :: "64 word \<Rightarrow> nat \<Rightarrow> nat \<Rightarrow> expr" where
  "hb_compExprNewDouble dValue ucWidth ucDec = E_NUMERIC (NUM_DOUBLE dValue) ucWidth ucDec"

fun num_dbl :: "numval \<Rightarrow> 64 word" where
  "num_dbl (NUM_LONG l) = d_of_int l"
| "num_dbl (NUM_DOUBLE d) = d"

section \<open>Arithmetic in long double\<close>

text \<open>
  HB_MAXDBL is long double, with a mantissa of 64 bits: the value closest to an
  integer, ties to even.
\<close>

definition ld_of_int :: "int \<Rightarrow> int" where
  "ld_of_int v =
     (let n = nbits \<bar>v\<bar>
      in if n \<le> 64 then v else (if v < 0 then - 1 else 1) * (rne \<bar>v\<bar> (n - 64) * 2 ^ (n - 64)))"

text \<open>The result of an operation on two integers, \<open>v\<close> its exact value.\<close>

definition long_result :: "int \<Rightarrow> numval" where
  "long_result v =
     (let dVal = ld_of_int v
      in if HB_LIM_LONG dVal then NUM_LONG (maxint v) else NUM_DOUBLE (d_of_int dVal))"

section \<open>Macro text\<close>

definition name_start :: "HB_BYTE \<Rightarrow> bool" where
  "name_start c \<longleftrightarrow> c = 95 \<or> (65 \<le> c \<and> c \<le> 90) \<or> (97 \<le> c \<and> c \<le> 122)"

fun hb_compExprHasMacro :: "comp_flags \<Rightarrow> HB_BYTE list \<Rightarrow> bool" where
  "hb_compExprHasMacro F [] = False"
| "hb_compExprHasMacro F (c # cs) =
     (if c = 38 \<and> (\<not> fHarbour F \<or> (case cs of [] \<Rightarrow> False | d # _ \<Rightarrow> name_start d)) then True
      else hb_compExprHasMacro F cs)"

text \<open>
  The loop of the operators + and - on strings: an ampersand in the left text
  whose next character, perhaps the first of the right text, may begin a name.
\<close>

fun joins_macro :: "comp_flags \<Rightarrow> HB_BYTE list \<Rightarrow> HB_BYTE list \<Rightarrow> bool" where
  "joins_macro F [] right = False"
| "joins_macro F (c # cs) right =
     (if c = 38 \<and> (name_start (case cs of [] \<Rightarrow> hd right | d # _ \<Rightarrow> d) \<or> \<not> fHarbour F) then True
      else joins_macro F cs right)"

section \<open>Modulus, division, product, power\<close>

text \<open>
  Quotient and remainder of two HB_MAXINT numbers in C: undefined when the divisor
  is 0 or the quotient is not a number of the type; the processor traps, and the
  compiler ends.
\<close>

definition c_traps :: "int \<Rightarrow> int \<Rightarrow> bool" where
  "c_traps l r \<longleftrightarrow> r = 0 \<or> (l = - (2 ^ 63) \<and> r = - 1)"

definition c_div :: "int \<Rightarrow> int \<Rightarrow> int option" where
  "c_div l r = (if c_traps l r then None else Some (l sdiv r))"

definition c_mod :: "int \<Rightarrow> int \<Rightarrow> int option" where
  "c_mod l r = (if c_traps l r then None else Some (l smod r))"

definition hb_compExprReduceMod :: "comp_flags \<Rightarrow> expr \<Rightarrow> expr \<Rightarrow> expr option" where
  "hb_compExprReduceMod F l r =
     (let pSelf = E_BIN EO_MOD l r in
      if is_num l \<and> is_num r then
        (case (asNum l, asNum r) of
           (NUM_LONG a, NUM_LONG b) \<Rightarrow>
             (if b \<noteq> 0 then map_option (\<lambda>v. E_NUMERIC (NUM_LONG v) 255 0) (c_mod a b) else Some pSelf)
         | (x, y) \<Rightarrow>
             Some (if fHarbour F \<and> d_ne (num_dbl y) (d_of_int 0)
                   then E_NUMERIC (NUM_DOUBLE (d_fmod (num_dbl x) (num_dbl y))) 255 255
                   else pSelf))
      else Some pSelf)"

definition hb_compExprReduceDiv :: "expr \<Rightarrow> expr \<Rightarrow> expr option" where
  "hb_compExprReduceDiv l r =
     (let pSelf = E_BIN EO_DIV l r in
      if is_num l \<and> is_num r then
        (case (asNum l, asNum r) of
           (NUM_LONG a, NUM_LONG b) \<Rightarrow>
             (if b \<noteq> 0 then
                (case c_mod a b of
                   None \<Rightarrow> None
                 | Some m \<Rightarrow>
                     if m = 0 then map_option (\<lambda>q. E_NUMERIC (NUM_LONG q) 255 0) (c_div a b)
                     else Some (E_NUMERIC (NUM_DOUBLE (d_div (d_of_int a) (d_of_int b))) 255 255))
              else Some pSelf)
         | (NUM_DOUBLE x, NUM_LONG b) \<Rightarrow>
             Some (if b \<noteq> 0 then E_NUMERIC (NUM_DOUBLE (d_div x (d_of_int b))) 255 255 else pSelf)
         | (x, NUM_DOUBLE y) \<Rightarrow>
             Some (if d_ne y (d_of_int 0) then E_NUMERIC (NUM_DOUBLE (d_div (num_dbl x) y)) 255 255
                   else pSelf))
      else Some pSelf)"

definition hb_compExprReduceMult :: "expr \<Rightarrow> expr \<Rightarrow> expr" where
  "hb_compExprReduceMult l r =
     (if is_num l \<and> is_num r then
        (case (asNum l, asNum r) of
           (NUM_LONG a, NUM_LONG b) \<Rightarrow> E_NUMERIC (long_result (a * b)) 255 0
         | (NUM_DOUBLE x, NUM_DOUBLE y) \<Rightarrow>
             E_NUMERIC (NUM_DOUBLE (d_mul x y)) 255 (min (bDec l + bDec r) 255)
         | (NUM_DOUBLE x, NUM_LONG b) \<Rightarrow> E_NUMERIC (NUM_DOUBLE (d_mul x (d_of_int b))) 255 (bDec l)
         | (NUM_LONG a, NUM_DOUBLE y) \<Rightarrow> E_NUMERIC (NUM_DOUBLE (d_mul (d_of_int a) y)) 255 (bDec r))
      else E_BIN EO_MULT l r)"

text \<open>\<open>pow\<close> is the library function.\<close>

definition hb_compExprReducePower :: "(64 word \<Rightarrow> 64 word \<Rightarrow> 64 word) \<Rightarrow> expr \<Rightarrow> expr \<Rightarrow> expr" where
  "hb_compExprReducePower pow l r =
     (if is_num l \<and> is_num r
      then E_NUMERIC (NUM_DOUBLE (pow (num_dbl (asNum l)) (num_dbl (asNum r)))) 255 255
      else E_BIN EO_POWER l r)"

section \<open>Minus and plus\<close>

definition is_date :: "expr \<Rightarrow> bool" where
  "is_date x \<longleftrightarrow> is_day x \<or> is_stamp x"

definition lDate :: "expr \<Rightarrow> int" where
  "lDate x = (if is_day x then asDate x else asDays x)"

text \<open>The time of a date is 0.\<close>

definition lTime :: "expr \<Rightarrow> int" where
  "lTime x = (if is_day x then 0 else asTime x)"

definition hb_compExprReduceTimeStampPut :: "int \<Rightarrow> int \<Rightarrow> expr" where
  "hb_compExprReduceTimeStampPut lJulian lMilliSec =
     (let (j, t) =
        (if lJulian < 0 then
           (if lMilliSec \<le> - HB_MILLISECS_PER_DAY then (lJulian - 1, lMilliSec + HB_MILLISECS_PER_DAY)
            else if lMilliSec > 0 then
              (let t = lMilliSec - HB_MILLISECS_PER_DAY; j = lJulian + 1
               in if t > 0 then (j + 1, t - HB_MILLISECS_PER_DAY) else (j, t))
            else (lJulian, lMilliSec))
         else
           (if lMilliSec \<ge> HB_MILLISECS_PER_DAY then (lJulian + 1, lMilliSec - HB_MILLISECS_PER_DAY)
            else if lMilliSec < 0 then
              (let t = lMilliSec + HB_MILLISECS_PER_DAY; j = lJulian - 1
               in if t < 0 then (j - 1, t + HB_MILLISECS_PER_DAY) else (j, t))
            else (lJulian, lMilliSec)))
      in E_TIMESTAMP j t)"

definition hb_compExprReduceTimeStampAdd :: "expr \<Rightarrow> 64 word \<Rightarrow> expr" where
  "hb_compExprReduceTimeStampAdd pTimeStamp dValue =
     (let (lJulian, lMilliSec) = hb_timeStampUnpackDT dValue
      in hb_compExprReduceTimeStampPut (lJulian + lDate pTimeStamp) (lMilliSec + lTime pTimeStamp))"

text \<open>A date and \<open>k\<close> times a number, \<open>k\<close> being 1 or -1.\<close>

definition date_add :: "expr \<Rightarrow> int \<Rightarrow> numval \<Rightarrow> expr" where
  "date_add pDate k n =
     (if is_day pDate
      then E_DATE (lDate pDate + k * (case n of NUM_LONG l \<Rightarrow> l | NUM_DOUBLE d \<Rightarrow> d_to_long d))
      else (case n of
              NUM_LONG l \<Rightarrow> hb_compExprReduceTimeStampPut (lDate pDate + k * l) (lTime pDate)
            | NUM_DOUBLE d \<Rightarrow> hb_compExprReduceTimeStampAdd pDate (if k < 0 then d_neg d else d)))"

definition hb_compExprReducePlusStrings :: "HB_BYTE list \<Rightarrow> HB_BYTE list \<Rightarrow> expr" where
  "hb_compExprReducePlusStrings l r = E_STRING (l @ r)"

definition hb_compExprReduceMinusStrings :: "HB_BYTE list \<Rightarrow> HB_BYTE list \<Rightarrow> expr" where
  "hb_compExprReduceMinusStrings l r =
     (let t = trim_to 0 l in E_STRING (t @ r @ replicate (length l - length t) 32))"

text \<open>The sum or difference of two numbers; \<open>k\<close> is 1 or -1 and \<open>f\<close> the operation on doubles.\<close>

definition sum_nums :: "int \<Rightarrow> (64 word \<Rightarrow> 64 word \<Rightarrow> 64 word) \<Rightarrow> expr \<Rightarrow> expr \<Rightarrow> expr" where
  "sum_nums k f l r =
     (case (asNum l, asNum r) of
        (NUM_LONG a, NUM_LONG b) \<Rightarrow> E_NUMERIC (long_result (a + k * b)) 255 0
      | (NUM_DOUBLE x, NUM_DOUBLE y) \<Rightarrow>
          E_NUMERIC (NUM_DOUBLE (f x y)) 255 (if bDec l < bDec r then bDec r else bDec l)
      | (NUM_DOUBLE x, NUM_LONG b) \<Rightarrow> E_NUMERIC (NUM_DOUBLE (f x (d_of_int b))) 255 (bDec l)
      | (NUM_LONG a, NUM_DOUBLE y) \<Rightarrow> E_NUMERIC (NUM_DOUBLE (f (d_of_int a) y)) 255 (bDec r))"

definition hb_compExprReduceMinus :: "comp_flags \<Rightarrow> expr \<Rightarrow> expr \<Rightarrow> expr" where
  "hb_compExprReduceMinus F l r =
     (if is_num l \<and> is_num r then sum_nums (- 1) d_sub l r
      else if is_date l \<and> is_date r then
        (let t = lTime l - lTime r; d = lDate l - lDate r
         in if t = 0 then E_NUMERIC (NUM_LONG d) 255 0
            else E_NUMERIC (NUM_DOUBLE (hb_timeStampPackDT d t)) 255 6)
      else if is_date l \<and> is_num r then date_add l (- 1) (asNum r)
      else if is_string l \<and> is_string r then
        (if asString r = [] then l else if asString l = [] then r
         else if fMacrotext F \<and> joins_macro F (trim_to 0 (asString l)) (asString r) then E_BIN EO_MINUS l r
         else hb_compExprReduceMinusStrings (asString l) (asString r))
      else E_BIN EO_MINUS l r)"

text \<open>The chain of additions \<open>pSelf\<close> with another literal added to its first one.\<close>

definition is_plus :: "expr \<Rightarrow> bool" where
  "is_plus x = (case x of E_BIN oper l r \<Rightarrow> oper = EO_PLUS | _ \<Rightarrow> False)"

function hb_compExprReducePlusNums :: "expr \<Rightarrow> expr \<Rightarrow> expr option" where
  "hb_compExprReducePlusNums x pAdd =
     (case x of
        E_BIN oper l r \<Rightarrow>
          (if is_num l then Some (E_BIN oper (sum_nums 1 d_add l pAdd) r)
           else if is_num r then Some (E_BIN oper l (sum_nums 1 d_add r pAdd))
           else if is_plus l then map_option (\<lambda>y. E_BIN oper y r) (hb_compExprReducePlusNums l pAdd)
           else if is_plus r then map_option (\<lambda>y. E_BIN oper l y) (hb_compExprReducePlusNums r pAdd)
           else None)
      | _ \<Rightarrow> None)"
  by pat_completeness auto
termination by (relation "measure (\<lambda>(x, _). size x)") simp_all

declare hb_compExprReducePlusNums.simps [simp del]

fun num_zero :: "numval \<Rightarrow> bool" where
  "num_zero (NUM_LONG l) = (l = 0)"
| "num_zero (NUM_DOUBLE d) = d_eq d (d_of_int 0)"

text \<open>The operator + of a literal number \<open>n\<close> and a side \<open>x\<close> that is no number.\<close>

definition plus_num :: "comp_flags \<Rightarrow> expr \<Rightarrow> expr \<Rightarrow> expr \<Rightarrow> expr" where
  "plus_num F pSelf n x =
     (if is_date x then date_add x 1 (asNum n)
      else if fExtopt F \<and> num_zero (asNum n) then x
      else if fExtopt F \<and> is_plus x
      then (case hb_compExprReducePlusNums x n of Some y \<Rightarrow> y | None \<Rightarrow> pSelf)
      else pSelf)"

definition hb_compExprReducePlus :: "comp_flags \<Rightarrow> expr \<Rightarrow> expr \<Rightarrow> expr" where
  "hb_compExprReducePlus F l r =
     (let pSelf = E_BIN EO_PLUS l r in
      if is_num l then (if is_num r then sum_nums 1 d_add l r else plus_num F pSelf l r)
      else if is_num r then plus_num F pSelf r l
      else if is_date l \<and> is_date r then
        (if is_stamp l \<or> is_stamp r
         then hb_compExprReduceTimeStampPut (lDate l + lDate r) (lTime l + lTime r)
         else E_DATE (lDate l + lDate r))
      else if is_string l \<and> is_string r then
        (if asString r = [] then l else if asString l = [] then r
         else if fMacrotext F \<and> joins_macro F (asString l) (asString r) then pSelf
         else hb_compExprReducePlusStrings (asString l) (asString r))
      else pSelf)"

definition hb_compExprReduceNegate :: "comp_flags \<Rightarrow> expr \<Rightarrow> expr" where
  "hb_compExprReduceNegate F x =
     (if is_num x then
        (case asNum x of
           NUM_DOUBLE d \<Rightarrow> E_NUMERIC (NUM_DOUBLE (d_neg d)) 255 (bDec x)
         | NUM_LONG l \<Rightarrow>
             (if l < - (2 ^ 63 - 1) then E_NUMERIC (NUM_DOUBLE (d_neg (d_of_int l))) 255 0
              else E_NUMERIC (NUM_LONG (- l)) 255 (bDec x)))
      else if is_negate x \<and> fExtopt F then pNegate x
      else E_NEGATE x)"

section \<open>Relations\<close>

definition hb_compExprReduceIN :: "comp_flags \<Rightarrow> expr \<Rightarrow> expr \<Rightarrow> expr" where
  "hb_compExprReduceIN F l r =
     (if is_string l \<and> is_string r \<and>
         (\<not> fMacrotext F \<or> (\<not> hb_compExprHasMacro F (asString l) \<and> \<not> hb_compExprHasMacro F (asString r)))
      then E_LOGICAL (if asString l = [] then fCompiler F \<and> \<not> fHarbour F
                      else hb_strAt (asString l) (asString r) \<noteq> 0)
      else E_BIN EO_IN l r)"

text \<open>Literals that are not NIL.\<close>

definition is_const :: "expr \<Rightarrow> bool" where
  "is_const x \<longleftrightarrow> is_num x \<or> is_logical x \<or> is_day x \<or> is_stamp x \<or> is_string x \<or> is_block x \<or>
     is_array x \<or> is_hash x \<or> is_funref x"

text \<open>
  An integer and a double are compared as doubles.  \<open>li\<close> compares integers and
  \<open>ld\<close> doubles.
\<close>

definition cmp_nums :: "(int \<Rightarrow> int \<Rightarrow> bool) \<Rightarrow> (64 word \<Rightarrow> 64 word \<Rightarrow> bool) \<Rightarrow> numval \<Rightarrow> numval \<Rightarrow> bool" where
  "cmp_nums li ld x y =
     (case (x, y) of
        (NUM_LONG a, NUM_LONG b) \<Rightarrow> li a b
      | _ \<Rightarrow> ld (num_dbl x) (num_dbl y))"

text \<open>A logical literal \<open>b\<close> compared with an expression, under -ko; \<open>keep\<close> is the value that leaves it as it is.\<close>

definition cmp_logical :: "bool \<Rightarrow> bool \<Rightarrow> expr \<Rightarrow> expr" where
  "cmp_logical keep b x = (if b = keep then x else if is_not x then pNot x else E_NOT x)"

definition hb_compExprReduceNE :: "comp_flags \<Rightarrow> expr \<Rightarrow> expr \<Rightarrow> expr" where
  "hb_compExprReduceNE F l r =
     (if is_logical l \<and> is_logical r then E_LOGICAL (asLogical l \<noteq> asLogical r)
      else if is_string l \<and> is_string r then
        (if asString l = [] \<and> asString r = [] then E_LOGICAL False else E_BIN EO_NE l r)
      else if is_num l \<and> is_num r then E_LOGICAL (cmp_nums (\<noteq>) d_ne (asNum l) (asNum r))
      else if (is_day l \<and> is_day r) \<or> (is_stamp l \<and> is_stamp r)
      then E_LOGICAL (lDate l \<noteq> lDate r \<or> lTime l \<noteq> lTime r)
      else if is_nil l \<and> is_nil r then E_LOGICAL False
      else if is_date l \<and> is_date r then E_LOGICAL (lDate l \<noteq> lDate r)
      else if fExtopt F \<and> (is_logical l \<or> is_logical r) then
        (if is_logical l then cmp_logical False (asLogical l) r else cmp_logical False (asLogical r) l)
      else if (is_nil l \<and> is_const r) \<or> (is_nil r \<and> is_const l) then E_LOGICAL True
      else E_BIN EO_NE l r)"

text \<open>
  The four orders differ in the comparisons only: \<open>bl\<close> of logical values, \<open>li\<close>
  of integers and of days and times, \<open>st\<close> its strict part, \<open>ld\<close> of doubles.
\<close>

definition reduce_order ::
  "(bool \<Rightarrow> bool \<Rightarrow> bool) \<Rightarrow> (int \<Rightarrow> int \<Rightarrow> bool) \<Rightarrow> (int \<Rightarrow> int \<Rightarrow> bool) \<Rightarrow> (64 word \<Rightarrow> 64 word \<Rightarrow> bool) \<Rightarrow>
   binop \<Rightarrow> expr \<Rightarrow> expr \<Rightarrow> expr" where
  "reduce_order bl li st ld oper l r =
     (if is_logical l \<and> is_logical r then E_LOGICAL (bl (asLogical l) (asLogical r))
      else if is_num l \<and> is_num r then E_LOGICAL (cmp_nums li ld (asNum l) (asNum r))
      else if (is_day l \<and> is_day r) \<or> (is_stamp l \<and> is_stamp r)
      then E_LOGICAL (st (lDate l) (lDate r) \<or> (lDate l = lDate r \<and> li (lTime l) (lTime r)))
      else if is_date l \<and> is_date r then E_LOGICAL (li (lDate l) (lDate r))
      else E_BIN oper l r)"

definition hb_compExprReduceGE :: "expr \<Rightarrow> expr \<Rightarrow> expr" where
  "hb_compExprReduceGE = reduce_order (\<lambda>a b. \<not> (\<not> a \<and> b)) (\<ge>) (>) (\<lambda>x y. d_le y x) EO_GE"

definition hb_compExprReduceLE :: "expr \<Rightarrow> expr \<Rightarrow> expr" where
  "hb_compExprReduceLE = reduce_order (\<lambda>a b. \<not> (a \<and> \<not> b)) (\<le>) (<) d_le EO_LE"

definition hb_compExprReduceGT :: "expr \<Rightarrow> expr \<Rightarrow> expr" where
  "hb_compExprReduceGT = reduce_order (\<lambda>a b. a \<and> \<not> b) (>) (>) (\<lambda>x y. d_lt y x) EO_GT"

definition hb_compExprReduceLT :: "expr \<Rightarrow> expr \<Rightarrow> expr" where
  "hb_compExprReduceLT = reduce_order (\<lambda>a b. \<not> a \<and> b) (<) (<) d_lt EO_LT"

text \<open>Both = (\<open>EO_EQUAL\<close>) and == (\<open>EO_EQ\<close>).\<close>

definition hb_compExprReduceEQ :: "comp_flags \<Rightarrow> binop \<Rightarrow> expr \<Rightarrow> expr \<Rightarrow> expr" where
  "hb_compExprReduceEQ F oper l r =
     (if is_logical l \<and> is_logical r then E_LOGICAL (asLogical l = asLogical r)
      else if is_string l \<and> is_string r then
        (if (asString l = [] \<and> asString r = []) \<or>
            (oper = EO_EQ \<and>
             (\<not> fMacrotext F \<or> (\<not> hb_compExprHasMacro F (asString l) \<and> \<not> hb_compExprHasMacro F (asString r))))
         then E_LOGICAL (asString l = asString r) else E_BIN oper l r)
      else if is_num l \<and> is_num r then E_LOGICAL (cmp_nums (=) d_eq (asNum l) (asNum r))
      else if (is_day l \<and> is_day r) \<or> (is_stamp l \<and> is_stamp r)
      then E_LOGICAL (lDate l = lDate r \<and> lTime l = lTime r)
      else if is_nil l \<and> is_nil r then E_LOGICAL True
      else if is_date l \<and> is_date r
      then E_LOGICAL (lDate l = lDate r \<and> (lTime l = lTime r \<or> oper \<noteq> EO_EQ))
      else if fExtopt F \<and> (is_logical l \<or> is_logical r) then
        (if is_logical l then cmp_logical True (asLogical l) r else cmp_logical True (asLogical r) l)
      else if (is_nil l \<and> is_const r) \<or> (is_nil r \<and> is_const l) then E_LOGICAL False
      else E_BIN oper l r)"

section \<open>Logical operators and IIF\<close>

text \<open>Both operators: \<open>unit\<close> is the value that leaves the other side, .T. for .AND. and .F. for .OR.\<close>

definition reduce_junct :: "comp_flags \<Rightarrow> binop \<Rightarrow> bool \<Rightarrow> (bool \<Rightarrow> bool \<Rightarrow> bool) \<Rightarrow> expr \<Rightarrow> expr \<Rightarrow> expr" where
  "reduce_junct F oper unit f l r =
     (if is_logical l \<and> is_logical r then E_LOGICAL (f (asLogical l) (asLogical r))
      else if is_logical l \<and> fShortcuts F then (if asLogical l = unit then r else E_LOGICAL (\<not> unit))
      else if is_logical r \<and> fShortcuts F \<and> (fCompiler F \<or> fHarbour F)
      then (if asLogical r = unit then l else E_LOGICAL (\<not> unit))
      else E_BIN oper l r)"

definition hb_compExprReduceAnd :: "comp_flags \<Rightarrow> expr \<Rightarrow> expr \<Rightarrow> expr" where
  "hb_compExprReduceAnd F = reduce_junct F EO_AND True (\<and>)"

definition hb_compExprReduceOr :: "comp_flags \<Rightarrow> expr \<Rightarrow> expr \<Rightarrow> expr" where
  "hb_compExprReduceOr F = reduce_junct F EO_OR False (\<or>)"

definition hb_compExprReduceNot :: "comp_flags \<Rightarrow> expr \<Rightarrow> expr" where
  "hb_compExprReduceNot F x =
     (if is_logical x then E_LOGICAL (\<not> asLogical x)
      else if is_not x \<and> fExtopt F then pNot x
      else E_NOT x)"

text \<open>
  The second component tells that the condition is reported as an error of type,
  HB_COMP_ERROR_TYPE.
\<close>

definition hb_compExprReduceIIF :: "expr \<Rightarrow> expr \<Rightarrow> expr \<Rightarrow> expr \<times> bool" where
  "hb_compExprReduceIIF c t f =
     (if is_logical c then ((if asLogical c then t else f), False)
      else (E_IIF c t f, is_nil c \<or> is_num c \<or> is_day c \<or> is_stamp c \<or> is_string c \<or> is_block c \<or>
        is_array c \<or> is_hash c \<or> is_ref c \<or> is_funref c))"

text \<open>Parentheses: a list of one expression up to HB_ET_VARIABLE that stands for one value.\<close>

definition is_operand :: "expr \<Rightarrow> bool" where
  "is_operand x = (case x of
     E_OPER k \<Rightarrow> False | E_BIN oper l r \<Rightarrow> False | E_NOT y \<Rightarrow> False | E_NEGATE y \<Rightarrow> False | _ \<Rightarrow> True)"

definition hb_compExprIsArrayToParams :: "expr \<Rightarrow> bool" where
  "hb_compExprIsArrayToParams x = (case x of E_FUNCALL f xs \<Rightarrow> f = F_ARRAYTOPARAMS | _ \<Rightarrow> False)"

function hb_compExprListStrip :: "expr \<Rightarrow> expr" where
  "hb_compExprListStrip pSelf =
     (case pSelf of
        E_LIST xs \<Rightarrow>
          (case xs of
             [x] \<Rightarrow> (if is_operand x \<and> \<not> hb_compExprIsArrayToParams x then hb_compExprListStrip x else pSelf)
           | _ \<Rightarrow> pSelf)
      | _ \<Rightarrow> pSelf)"
  by pat_completeness auto
termination by (relation "measure size") simp_all

declare hb_compExprListStrip.simps [simp del]

end
