(* ===== verification/ExprRed.thy ===== *)
theory ExprRed
  imports ExprOpt
begin

text \<open>
  Calls of known functions with literal arguments, and the reduction of a whole
  expression, common/expropt2.c and the messages HB_EA_REDUCE of
  include/hbexprb.c.
\<close>

section \<open>Functions of literals\<close>

text \<open>A function gives the literal that takes the place of the call, if any.\<close>

definition hb_compExprReduceAT :: "comp_flags \<Rightarrow> expr \<Rightarrow> expr \<Rightarrow> expr option" where
  "hb_compExprReduceAT F pSub pText =
     (if is_string pSub \<and> is_string pText \<and> \<not> fUsercp F
      then Some (hb_compExprNewLong
        (if asString pSub = [] then (if fCompiler F \<and> \<not> fHarbour F then 1 else 0)
         else int (hb_strAt (asString pSub) (asString pText))))
      else None)"

text \<open>The conversions of a number to the C type int, of 32 bits.\<close>

definition c_int :: "int \<Rightarrow> int" where
  "c_int v = sint (word_of_int v :: 32 word)"

definition d_to_int :: "64 word \<Rightarrow> int" where
  "d_to_int d = (let v = d_to_long d in if HB_LIM_INT v then v else - (2 ^ 31))"

definition hb_compExprReduceCHR :: "comp_flags \<Rightarrow> expr \<Rightarrow> expr option" where
  "hb_compExprReduceCHR F pArg =
     (if is_num pArg \<and>
         (fUsercp F \<longrightarrow>
           (let iVal = (case asNum pArg of NUM_LONG l \<Rightarrow> c_int l | NUM_DOUBLE d \<Rightarrow> d_to_int d)
            in 0 \<le> iVal \<and> iVal \<le> 127))
      then Some (case asNum pArg of
          NUM_LONG l \<Rightarrow>
            (if fCompiler F \<and> \<not> fHarbour F \<and> l mod 256 = 0 \<and> l \<noteq> 0 then E_STRING []
             else E_STRING [word_of_int (c_int l)])
        | NUM_DOUBLE d \<Rightarrow> E_STRING [word_of_int (c_int (d_to_long d))])
      else None)"

definition hb_compExprReduceBCHAR :: "expr \<Rightarrow> expr option" where
  "hb_compExprReduceBCHAR pArg =
     (if is_num pArg
      then Some (E_STRING [word_of_int (c_int (case asNum pArg of NUM_LONG l \<Rightarrow> l | NUM_DOUBLE d \<Rightarrow> d_to_long d))])
      else None)"

definition hb_compExprReduceLEN :: "comp_flags \<Rightarrow> expr \<Rightarrow> expr option" where
  "hb_compExprReduceLEN F pArg =
     (case pArg of
        E_STRING cs \<Rightarrow> (if fUsercp F then None else Some (hb_compExprNewLong (int (length cs))))
      | E_ARRAY xs \<Rightarrow> Some (hb_compExprNewLong (int (length xs)))
      | E_HASH xs \<Rightarrow> Some (hb_compExprNewLong (int (length xs div 2)))
      | _ \<Rightarrow> None)"

definition hb_compExprReduceEMPTY :: "expr \<Rightarrow> expr option" where
  "hb_compExprReduceEMPTY pArg =
     map_option E_LOGICAL
       (case pArg of
          E_STRING cs \<Rightarrow> Some (hb_strEmpty cs)
        | E_ARRAY xs \<Rightarrow> Some (xs = [])
        | E_HASH xs \<Rightarrow> Some (xs = [])
        | E_NUMERIC n w d \<Rightarrow> Some (num_zero n)
        | E_LOGICAL b \<Rightarrow> Some (\<not> b)
        | E_NIL \<Rightarrow> Some True
        | E_DATE j \<Rightarrow> Some (j = 0)
        | E_TIMESTAMP j t \<Rightarrow> Some (j = 0 \<and> t = 0)
        | E_CODEBLOCK k \<Rightarrow> Some False
        | _ \<Rightarrow> None)"

text \<open>A string of the compiler ends with a zero byte after its last.\<close>

definition first_byte :: "HB_BYTE list \<Rightarrow> HB_BYTE" where
  "first_byte cs = (case cs of [] \<Rightarrow> 0 | c # _ \<Rightarrow> c)"

definition hb_compExprReduceASC :: "comp_flags \<Rightarrow> expr \<Rightarrow> expr option" where
  "hb_compExprReduceASC F pArg =
     (if is_string pArg \<and> (\<not> fUsercp F \<or> first_byte (asString pArg) \<le> 127)
      then Some (hb_compExprNewLong (uint (first_byte (asString pArg)))) else None)"

definition hb_compExprReduceBCODE :: "expr \<Rightarrow> expr option" where
  "hb_compExprReduceBCODE pArg =
     (if is_string pArg then Some (hb_compExprNewLong (uint (first_byte (asString pArg)))) else None)"

definition hb_compExprReduceINT :: "expr \<Rightarrow> expr option" where
  "hb_compExprReduceINT pArg =
     (if is_num pArg
      then Some (case asNum pArg of
          NUM_LONG l \<Rightarrow> hb_compExprNewLong l
        | NUM_DOUBLE d \<Rightarrow>
            (if HB_DBL_LIM_LONG d then hb_compExprNewLong (d_to_long d)
             else hb_compExprNewDouble d (bWidth pArg) 0))
      else None)"

text \<open>The characters of a literal, as the type char of C.\<close>

definition c_chars :: "HB_BYTE list \<Rightarrow> int list" where
  "c_chars cs = map sint cs"

text \<open>\<open>xs\<close> holds the argument, if there is one.\<close>

definition hb_compExprReduceSTOT :: "expr list \<Rightarrow> expr option" where
  "hb_compExprReduceSTOT xs =
     (case xs of
        [] \<Rightarrow> Some (E_TIMESTAMP 0 0)
      | x # _ \<Rightarrow>
          (if is_string x
           then (case hb_timeStampStrRawGet (c_chars (asString x)) of (j, t) \<Rightarrow> Some (E_TIMESTAMP j t))
           else None))"

definition hb_compExprReduceSTOD :: "expr list \<Rightarrow> expr option" where
  "hb_compExprReduceSTOD xs =
     (case xs of
        [] \<Rightarrow> Some (E_DATE 0)
      | x # _ \<Rightarrow>
          (if is_string x \<and> (length (asString x) \<ge> 7 \<or> asString x = [])
           then Some (E_DATE (if asString x = [] then 0 else hb_dateEncStr (Some (c_chars (asString x)))))
           else None))"

definition hb_compExprReduceDTOS :: "expr \<Rightarrow> expr option" where
  "hb_compExprReduceDTOS pArg =
     (if is_date pArg then Some (E_STRING (map word_of_int (hb_dateDecStr (lDate pArg)))) else None)"

definition hb_compExprReduceCTOD :: "expr \<Rightarrow> expr option" where
  "hb_compExprReduceCTOD pArg = (if is_string pArg \<and> asString pArg = [] then Some (E_DATE 0) else None)"

text \<open>The letters and digits whose upper case no code page changes.\<close>

definition is_lower_char :: "HB_BYTE \<Rightarrow> bool" where
  "is_lower_char c \<longleftrightarrow> 97 \<le> c \<and> c \<le> 122"

definition plain_char :: "HB_BYTE \<Rightarrow> bool" where
  "plain_char c \<longleftrightarrow> is_lower_char c \<or> (65 \<le> c \<and> c \<le> 90) \<or> (48 \<le> c \<and> c \<le> 57) \<or> c = 32"

definition hb_compExprReduceUPPER :: "expr \<Rightarrow> expr option" where
  "hb_compExprReduceUPPER pArg =
     (if is_string pArg \<and> list_all plain_char (asString pArg)
      then Some (E_STRING (if list_ex is_lower_char (asString pArg) then map to_upper (asString pArg)
                           else asString pArg))
      else None)"

text \<open>
  MIN and MAX: \<open>li\<close> and \<open>ld\<close> choose the first of two integers or doubles, \<open>st\<close> is
  the strict order of days and \<open>b\<close> the logical value that is chosen.
\<close>

definition pick_expr ::
  "(int \<Rightarrow> int \<Rightarrow> bool) \<Rightarrow> (int \<Rightarrow> int \<Rightarrow> bool) \<Rightarrow> (64 word \<Rightarrow> 64 word \<Rightarrow> bool) \<Rightarrow> bool \<Rightarrow>
   expr \<Rightarrow> expr \<Rightarrow> expr option" where
  "pick_expr li st ld b x y =
     (if is_num x \<and> is_num y then Some (if cmp_nums li ld (asNum x) (asNum y) then x else y)
      else if is_day x \<and> is_day y then Some (if li (lDate x) (lDate y) then x else y)
      else if is_stamp x \<and> is_stamp y
      then Some (if st (lDate x) (lDate y) \<or> (lDate x = lDate y \<and> li (lTime x) (lTime y)) then x else y)
      else if is_logical x \<and> is_logical y then Some (if asLogical x = b then x else y)
      else if is_day x \<and> is_stamp y then Some (if li (lDate x) (lDate y) then x else y)
      else if is_stamp x \<and> is_day y then Some (if st (lDate x) (lDate y) then x else y)
      else None)"

definition hb_compExprReduceMIN :: "expr \<Rightarrow> expr \<Rightarrow> expr option" where
  "hb_compExprReduceMIN = pick_expr (\<le>) (<) d_le False"

definition hb_compExprReduceMAX :: "expr \<Rightarrow> expr \<Rightarrow> expr option" where
  "hb_compExprReduceMAX = pick_expr (\<ge>) (>) (\<lambda>x y. d_le y x) True"

section \<open>Bit functions\<close>

definition hb_compExprAsLongNum :: "expr \<Rightarrow> int" where
  "hb_compExprAsLongNum x =
     (if is_num x then (case asNum x of NUM_LONG l \<Rightarrow> l | NUM_DOUBLE d \<Rightarrow> d_to_long d) else 0)"

definition hb_compExprReduceBitFunc :: "int \<Rightarrow> bool \<Rightarrow> expr" where
  "hb_compExprReduceBitFunc nResult fBool =
     (if fBool then E_LOGICAL (nResult \<noteq> 0) else hb_compExprNewLong nResult)"

text \<open>The shifts of HB_MAXINT; the processor takes the count modulo 64.\<close>

definition c_shl :: "int \<Rightarrow> int \<Rightarrow> int" where
  "c_shl v k = maxint (v * 2 ^ nat (k mod 64))"

definition c_shr :: "int \<Rightarrow> int \<Rightarrow> int" where
  "c_shr v k = v div 2 ^ nat (k mod 64)"

text \<open>The loop of HB_F_BITAND, HB_F_BITOR and HB_F_BITXOR over the arguments after the first.\<close>

fun bit_loop :: "(int \<Rightarrow> int \<Rightarrow> int) \<Rightarrow> int \<Rightarrow> expr list \<Rightarrow> int option" where
  "bit_loop f lResult [] = Some lResult"
| "bit_loop f lResult (x # xs) =
     (if is_num x then bit_loop f (f lResult (hb_compExprAsLongNum x)) xs else None)"

definition reduce_bits :: "func \<Rightarrow> expr list \<Rightarrow> expr option" where
  "reduce_bits f xs =
     (case xs of
        x # y # zs \<Rightarrow>
          (if is_num x \<and> is_num y then
             (let l = hb_compExprAsLongNum x; b = hb_compExprAsLongNum y in
              if f = F_BITTEST
              then Some (hb_compExprReduceBitFunc (of_bool (and l (c_shl 1 b) \<noteq> 0)) True)
              else map_option (\<lambda>v. hb_compExprReduceBitFunc v False)
                (if f = F_BITAND then bit_loop and l (y # zs)
                 else if f = F_BITOR then bit_loop or l (y # zs)
                 else if f = F_BITXOR then bit_loop xor l (y # zs)
                 else if f = F_BITSET then Some (or l (c_shl 1 b))
                 else if f = F_BITRESET then Some (and l (not (c_shl 1 b)))
                 else Some (if b < 0 then c_shr l (- b) else c_shl l b)))
           else None)
      | _ \<Rightarrow> None)"

section \<open>Calls\<close>

text \<open>
  The message HB_EA_REDUCE of hb_compExprUseFunCall, the arguments reduced.
  \<open>chk\<close> is hb_compFunCallCheck, which reports a wrong number of arguments.
\<close>

definition reduce_call :: "comp_flags \<Rightarrow> (func \<Rightarrow> nat \<Rightarrow> bool) \<Rightarrow> func \<Rightarrow> expr list \<Rightarrow> expr" where
  "reduce_call F chk f ps =
     (let xs = (if ps = [E_NONE] then [] else ps);
          n = length xs;
          r = (if \<not> chk f n then None
               else case f of
                 F_AT \<Rightarrow> (case xs of [a, b] \<Rightarrow> hb_compExprReduceAT F a b | _ \<Rightarrow> None)
               | F_ASC \<Rightarrow> (case xs of a # _ \<Rightarrow> hb_compExprReduceASC F a | _ \<Rightarrow> None)
               | F_CHR \<Rightarrow> (case xs of a # _ \<Rightarrow> hb_compExprReduceCHR F a | _ \<Rightarrow> None)
               | F_LEN \<Rightarrow> (case xs of a # _ \<Rightarrow> hb_compExprReduceLEN F a | _ \<Rightarrow> None)
               | F_UPPER \<Rightarrow> (case xs of a # _ \<Rightarrow> hb_compExprReduceUPPER a | _ \<Rightarrow> None)
               | F_EMPTY \<Rightarrow> (case xs of a # _ \<Rightarrow> if fHarbour F then hb_compExprReduceEMPTY a else None | _ \<Rightarrow> None)
               | F_INT \<Rightarrow> (case xs of [a] \<Rightarrow> if fHarbour F then hb_compExprReduceINT a else None | _ \<Rightarrow> None)
               | F_MAX \<Rightarrow> (case xs of [a, b] \<Rightarrow> if fHarbour F then hb_compExprReduceMAX a b else None | _ \<Rightarrow> None)
               | F_MIN \<Rightarrow> (case xs of [a, b] \<Rightarrow> if fHarbour F then hb_compExprReduceMIN a b else None | _ \<Rightarrow> None)
               | F_STOD \<Rightarrow> (if n < 2 \<and> fHarbour F then hb_compExprReduceSTOD xs else None)
               | F_STOT \<Rightarrow> hb_compExprReduceSTOT xs
               | F_DTOS \<Rightarrow> (case xs of [a] \<Rightarrow> hb_compExprReduceDTOS a | _ \<Rightarrow> None)
               | F_CTOD \<Rightarrow> (case xs of a # _ \<Rightarrow> if fHarbour F then hb_compExprReduceCTOD a else None | _ \<Rightarrow> None)
               | F_BCHAR \<Rightarrow> (case xs of a # _ \<Rightarrow> hb_compExprReduceBCHAR a | _ \<Rightarrow> None)
               | F_BCODE \<Rightarrow> (case xs of a # _ \<Rightarrow> hb_compExprReduceBCODE a | _ \<Rightarrow> None)
               | F_BITNOT \<Rightarrow>
                   (case xs of
                      a # _ \<Rightarrow> (if is_num a then Some (hb_compExprReduceBitFunc (not (hb_compExprAsLongNum a)) False) else None)
                    | _ \<Rightarrow> None)
               | F_ARRAYTOPARAMS \<Rightarrow> None
               | F_OTHER k \<Rightarrow> None
               | _ \<Rightarrow> reduce_bits f xs)
      in case r of Some x \<Rightarrow> x | None \<Rightarrow> E_FUNCALL f ps)"

section \<open>Whole expressions\<close>

text \<open>The parameters: the switches, the library function pow and hb_compFunCallCheck.\<close>

record comp_param =
  flags :: comp_flags
  c_pow :: "64 word \<Rightarrow> 64 word \<Rightarrow> 64 word"
  fun_check :: "func \<Rightarrow> nat \<Rightarrow> bool"

definition reduce_bin :: "comp_param \<Rightarrow> binop \<Rightarrow> expr \<Rightarrow> expr \<Rightarrow> expr option" where
  "reduce_bin P oper l r =
     (let F = flags P in
      case oper of
        EO_OR \<Rightarrow> Some (hb_compExprReduceOr F l r)
      | EO_AND \<Rightarrow> Some (hb_compExprReduceAnd F l r)
      | EO_EQUAL \<Rightarrow> Some (hb_compExprReduceEQ F EO_EQUAL l r)
      | EO_EQ \<Rightarrow> Some (hb_compExprReduceEQ F EO_EQ l r)
      | EO_NE \<Rightarrow> Some (hb_compExprReduceNE F l r)
      | EO_IN \<Rightarrow> Some (hb_compExprReduceIN F l r)
      | EO_LT \<Rightarrow> Some (hb_compExprReduceLT l r)
      | EO_GT \<Rightarrow> Some (hb_compExprReduceGT l r)
      | EO_LE \<Rightarrow> Some (hb_compExprReduceLE l r)
      | EO_GE \<Rightarrow> Some (hb_compExprReduceGE l r)
      | EO_PLUS \<Rightarrow> Some (hb_compExprReducePlus F l r)
      | EO_MINUS \<Rightarrow> Some (hb_compExprReduceMinus F l r)
      | EO_MULT \<Rightarrow> Some (hb_compExprReduceMult l r)
      | EO_DIV \<Rightarrow> hb_compExprReduceDiv l r
      | EO_MOD \<Rightarrow> hb_compExprReduceMod F l r
      | EO_POWER \<Rightarrow> Some (if fHarbour F then hb_compExprReducePower (c_pow P) l r else E_BIN EO_POWER l r))"

text \<open>
  hb_compExprReduce: the operands first, then the node.  None when the compiler
  traps.  The lists of HB_ET_LIST are the parentheses of the source.
\<close>

function hb_compExprReduce :: "comp_param \<Rightarrow> expr \<Rightarrow> expr option" where
  "hb_compExprReduce P pExpr =
     (case pExpr of
        E_BIN oper l r \<Rightarrow> do {
          l \<leftarrow> hb_compExprReduce P l;
          r \<leftarrow> hb_compExprReduce P r;
          reduce_bin P oper l r }
      | E_NOT x \<Rightarrow> map_option (hb_compExprReduceNot (flags P)) (hb_compExprReduce P x)
      | E_NEGATE x \<Rightarrow> map_option (hb_compExprReduceNegate (flags P)) (hb_compExprReduce P x)
      | E_IIF c t f \<Rightarrow> do {
          c \<leftarrow> hb_compExprReduce P c;
          t \<leftarrow> hb_compExprReduce P t;
          f \<leftarrow> hb_compExprReduce P f;
          Some (fst (hb_compExprReduceIIF c t f)) }
      | E_LIST xs \<Rightarrow>
          map_option (\<lambda>ys. if fHarbour (flags P) then hb_compExprListStrip (E_LIST ys) else E_LIST ys)
            (those (map (hb_compExprReduce P) xs))
      | E_ARRAY xs \<Rightarrow> map_option E_ARRAY (those (map (hb_compExprReduce P) xs))
      | E_HASH xs \<Rightarrow> map_option E_HASH (those (map (hb_compExprReduce P) xs))
      | E_FUNCALL f xs \<Rightarrow>
          map_option (reduce_call (flags P) (fun_check P) f) (those (map (hb_compExprReduce P) xs))
      | _ \<Rightarrow> Some pExpr)"
  by pat_completeness auto
termination
  by (relation "measure (\<lambda>(P, x). size x)") (auto simp: less_Suc_eq_le intro: size_list_estimation' )

declare hb_compExprReduce.simps [simp del]

end
