(* ===== verification/Pcdec.thy ===== *)
theory Pcdec
  imports HbPcode
begin

text \<open>
  src/compiler/hb_pcdec.c and hb_pcdec.h: the decoder table of the
  straight-line backend, the length of an instruction, the displacement of a
  jump and the scan hb_pcodeAnalyze.  A read of hb_pcInfo past its last entry
  is the value \<open>None\<close> (\<open>Analyze_UB\<close> for the scan); the statement
  \<open>return 0\<close> of hb_pcodeInstrLen is the length 0.
\<close>

section \<open>The table\<close>

datatype HB_PCKIND =
    HB_PCK_FIXED
  | HB_PCK_STR1
  | HB_PCK_STR2
  | HB_PCK_STR3
  | HB_PCK_VARBLOCK
  | HB_PCK_SWITCH
  | HB_PCK_UNKNOWN

record HB_PCINFO =
  kind :: HB_PCKIND
  nLen :: nat
  fSupported :: bool

abbreviation (input) PI :: "HB_PCKIND \<Rightarrow> nat \<Rightarrow> bool \<Rightarrow> HB_PCINFO" where
  "PI k n s \<equiv> \<lparr>kind = k, nLen = n, fSupported = s\<rparr>"

definition hb_pcInfo :: "HB_PCINFO list" where
  "hb_pcInfo = [
    PI HB_PCK_FIXED 1 True, PI HB_PCK_FIXED 1 True, PI HB_PCK_FIXED 1 True,
    PI HB_PCK_FIXED 3 True, PI HB_PCK_FIXED 3 True, PI HB_PCK_FIXED 1 True,
    PI HB_PCK_FIXED 1 False, PI HB_PCK_FIXED 1 True, PI HB_PCK_FIXED 1 True,
    PI HB_PCK_FIXED 1 True, PI HB_PCK_FIXED 1 True, PI HB_PCK_FIXED 3 True,
    PI HB_PCK_FIXED 2 True, PI HB_PCK_FIXED 3 True, PI HB_PCK_FIXED 1 True,
    PI HB_PCK_FIXED 1 True, PI HB_PCK_FIXED 1 True, PI HB_PCK_FIXED 1 True,
    PI HB_PCK_FIXED 1 True, PI HB_PCK_FIXED 3 True, PI HB_PCK_FIXED 2 True,
    PI HB_PCK_FIXED 1 True, PI HB_PCK_FIXED 9 False, PI HB_PCK_FIXED 1 True,
    PI HB_PCK_FIXED 1 False, PI HB_PCK_FIXED 2 True, PI HB_PCK_FIXED 3 True,
    PI HB_PCK_FIXED 4 True, PI HB_PCK_FIXED 2 True, PI HB_PCK_FIXED 3 True,
    PI HB_PCK_FIXED 4 True, PI HB_PCK_FIXED 2 True, PI HB_PCK_FIXED 3 True,
    PI HB_PCK_FIXED 4 True, PI HB_PCK_FIXED 1 True, PI HB_PCK_FIXED 1 True,
    PI HB_PCK_FIXED 3 True, PI HB_PCK_UNKNOWN 0 False, PI HB_PCK_FIXED 2 True,
    PI HB_PCK_FIXED 2 True, PI HB_PCK_FIXED 2 True, PI HB_PCK_FIXED 3 True,
    PI HB_PCK_FIXED 2 True, PI HB_PCK_FIXED 1 True, PI HB_PCK_FIXED 2 True,
    PI HB_PCK_FIXED 2 True, PI HB_PCK_FIXED 1 True, PI HB_PCK_FIXED 1 True,
    PI HB_PCK_FIXED 3 True, PI HB_PCK_FIXED 1 True, PI HB_PCK_FIXED 1 True,
    PI HB_PCK_UNKNOWN 0 False, PI HB_PCK_UNKNOWN 0 False, PI HB_PCK_UNKNOWN 0 False,
    PI HB_PCK_UNKNOWN 0 False, PI HB_PCK_UNKNOWN 0 False, PI HB_PCK_UNKNOWN 0 False,
    PI HB_PCK_UNKNOWN 0 False, PI HB_PCK_UNKNOWN 0 False, PI HB_PCK_VARBLOCK 0 False,
    PI HB_PCK_UNKNOWN 0 False, PI HB_PCK_UNKNOWN 0 False, PI HB_PCK_UNKNOWN 0 False,
    PI HB_PCK_UNKNOWN 0 False, PI HB_PCK_UNKNOWN 0 False, PI HB_PCK_FIXED 1 True,
    PI HB_PCK_FIXED 1 True, PI HB_PCK_FIXED 1 True, PI HB_PCK_FIXED 1 True,
    PI HB_PCK_FIXED 1 True, PI HB_PCK_FIXED 1 True, PI HB_PCK_FIXED 4 False,
    PI HB_PCK_FIXED 1 True, PI HB_PCK_FIXED 1 True, PI HB_PCK_FIXED 1 True,
    PI HB_PCK_FIXED 3 True, PI HB_PCK_FIXED 2 True, PI HB_PCK_FIXED 3 True,
    PI HB_PCK_FIXED 3 True, PI HB_PCK_FIXED 3 True, PI HB_PCK_FIXED 2 True,
    PI HB_PCK_FIXED 3 True, PI HB_PCK_FIXED 3 True, PI HB_PCK_FIXED 3 True,
    PI HB_PCK_FIXED 1 True, PI HB_PCK_FIXED 1 True, PI HB_PCK_FIXED 3 True,
    PI HB_PCK_FIXED 2 True, PI HB_PCK_FIXED 3 True, PI HB_PCK_VARBLOCK 0 True,
    PI HB_PCK_VARBLOCK 0 True, PI HB_PCK_FIXED 3 True, PI HB_PCK_FIXED 2 True,
    PI HB_PCK_FIXED 3 True, PI HB_PCK_FIXED 3 True, PI HB_PCK_FIXED 2 True,
    PI HB_PCK_FIXED 3 True, PI HB_PCK_FIXED 5 True, PI HB_PCK_FIXED 3 True,
    PI HB_PCK_FIXED 3 True, PI HB_PCK_FIXED 1 True, PI HB_PCK_FIXED 11 True,
    PI HB_PCK_FIXED 1 True, PI HB_PCK_FIXED 3 True, PI HB_PCK_FIXED 3 True,
    PI HB_PCK_STR2 0 True, PI HB_PCK_STR1 0 True, PI HB_PCK_FIXED 3 True,
    PI HB_PCK_FIXED 2 True, PI HB_PCK_FIXED 3 True, PI HB_PCK_FIXED 1 True,
    PI HB_PCK_FIXED 3 True, PI HB_PCK_FIXED 2 True, PI HB_PCK_FIXED 4 True,
    PI HB_PCK_FIXED 4 True, PI HB_PCK_FIXED 1 True, PI HB_PCK_FIXED 3 False,
    PI HB_PCK_FIXED 5 False, PI HB_PCK_UNKNOWN 0 False, PI HB_PCK_FIXED 1 True,
    PI HB_PCK_FIXED 1 True, PI HB_PCK_FIXED 1 True, PI HB_PCK_FIXED 1 True,
    PI HB_PCK_FIXED 3 True, PI HB_PCK_FIXED 3 True, PI HB_PCK_STR2 0 False,
    PI HB_PCK_FIXED 4 True, PI HB_PCK_FIXED 1 True, PI HB_PCK_FIXED 9 True,
    PI HB_PCK_FIXED 3 True, PI HB_PCK_FIXED 1 True, PI HB_PCK_FIXED 1 True,
    PI HB_PCK_FIXED 1 True, PI HB_PCK_SWITCH 0 True, PI HB_PCK_FIXED 5 False,
    PI HB_PCK_FIXED 1 True, PI HB_PCK_FIXED 1 True, PI HB_PCK_FIXED 1 True,
    PI HB_PCK_FIXED 1 True, PI HB_PCK_FIXED 1 True, PI HB_PCK_FIXED 1 True,
    PI HB_PCK_FIXED 1 True, PI HB_PCK_FIXED 1 True, PI HB_PCK_FIXED 1 True,
    PI HB_PCK_FIXED 3 True, PI HB_PCK_FIXED 1 True, PI HB_PCK_FIXED 3 True,
    PI HB_PCK_FIXED 1 True, PI HB_PCK_FIXED 1 True, PI HB_PCK_FIXED 3 False,
    PI HB_PCK_FIXED 4 False, PI HB_PCK_FIXED 4 False, PI HB_PCK_UNKNOWN 0 False,
    PI HB_PCK_FIXED 5 True, PI HB_PCK_FIXED 1 True, PI HB_PCK_FIXED 1 True,
    PI HB_PCK_FIXED 1 True, PI HB_PCK_FIXED 1 True, PI HB_PCK_FIXED 1 True,
    PI HB_PCK_VARBLOCK 0 False, PI HB_PCK_STR3 0 False, PI HB_PCK_VARBLOCK 0 True,
    PI HB_PCK_STR3 0 True, PI HB_PCK_FIXED 2 False, PI HB_PCK_FIXED 1 False,
    PI HB_PCK_FIXED 1 True, PI HB_PCK_FIXED 4 True, PI HB_PCK_FIXED 4 True,
    PI HB_PCK_FIXED 1 True, PI HB_PCK_FIXED 1 True, PI HB_PCK_FIXED 1 True,
    PI HB_PCK_FIXED 1 True, PI HB_PCK_FIXED 1 True, PI HB_PCK_FIXED 3 True,
    PI HB_PCK_FIXED 3 True, PI HB_PCK_FIXED 3 True, PI HB_PCK_FIXED 3 True,
    PI HB_PCK_FIXED 3 True, PI HB_PCK_FIXED 1 True, PI HB_PCK_UNKNOWN 0 False,
    PI HB_PCK_FIXED 1 True]"

definition pcInfo_at :: "nat \<Rightarrow> HB_PCINFO option" where
  "pcInfo_at op = (if op < length hb_pcInfo then Some (hb_pcInfo ! op) else None)"

section \<open>Instruction length\<close>

text \<open>The two inner switches of the case HB_PCK_SWITCH; \<open>None\<close> is \<open>return 0\<close>.\<close>

definition switch_literal_len :: "pcptr \<Rightarrow> nat option" where
  "switch_literal_len p =
     (if opc p = HB_P_PUSHLONG then Some 5
      else if opc p = HB_P_PUSHSTRSHORT then Some (2 + unat (p 1))
      else if opc p = HB_P_PUSHNIL then Some 1
      else None)"

definition switch_jump_len :: "pcptr \<Rightarrow> nat option" where
  "switch_jump_len p =
     (if opc p = HB_P_JUMPNEAR then Some 2
      else if opc p = HB_P_JUMP then Some 3
      else if opc p = HB_P_JUMPFAR then Some 4
      else None)"

text \<open>The loop over the case entries: \<open>k\<close> entries are left, \<open>off\<close> is \<open>p - pCode\<close>.\<close>

fun switch_scan :: "pcptr \<Rightarrow> nat \<Rightarrow> nat \<Rightarrow> nat option" where
  "switch_scan pCode 0 off = Some off"
| "switch_scan pCode (Suc k) off =
     (case switch_literal_len (pc_at pCode off) of
        None \<Rightarrow> None
      | Some l \<Rightarrow>
          (case switch_jump_len (pc_at pCode (off + l)) of
             None \<Rightarrow> None
           | Some j \<Rightarrow> switch_scan pCode k (off + l + j)))"

definition hb_pcodeInstrLen :: "pcptr \<Rightarrow> nat option" where
  "hb_pcodeInstrLen pCode =
     (case pcInfo_at (opc pCode) of
        None \<Rightarrow> None
      | Some pInfo \<Rightarrow>
          Some (case kind pInfo of
             HB_PCK_FIXED \<Rightarrow> nLen pInfo
           | HB_PCK_STR1 \<Rightarrow> 2 + unat (pCode 1)
           | HB_PCK_STR2 \<Rightarrow> 3 + HB_PCODE_MKUSHORT (pc_at pCode 1)
           | HB_PCK_STR3 \<Rightarrow> 4 + HB_PCODE_MKUINT24 (pc_at pCode 1)
           | HB_PCK_SWITCH \<Rightarrow>
               (case switch_scan pCode (HB_PCODE_MKUSHORT (pc_at pCode 1)) 3 of
                  None \<Rightarrow> 0 | Some n \<Rightarrow> n)
           | HB_PCK_VARBLOCK \<Rightarrow>
               (if opc pCode = HB_P_PUSHBLOCKSHORT then unat (pCode 1)
                else if opc pCode = HB_P_PUSHBLOCKLARGE \<or> opc pCode = HB_P_MPUSHBLOCKLARGE
                then HB_PCODE_MKUINT24 (pc_at pCode 1)
                else HB_PCODE_MKUSHORT (pc_at pCode 1))
           | HB_PCK_UNKNOWN \<Rightarrow> 0))"

section \<open>Jumps\<close>

definition hb_pcodeJumpOffset :: "pcptr \<Rightarrow> int" where
  "hb_pcodeJumpOffset pCode =
     (if opc pCode \<in> {HB_P_JUMPNEAR, HB_P_JUMPFALSENEAR, HB_P_JUMPTRUENEAR}
      then schar (pCode 1)
      else if opc pCode \<in> {HB_P_JUMP, HB_P_JUMPFALSE, HB_P_JUMPTRUE}
      then HB_PCODE_MKSHORT (pc_at pCode 1)
      else if opc pCode \<in> {HB_P_JUMPFAR, HB_P_JUMPFALSEFAR, HB_P_JUMPTRUEFAR}
      then HB_PCODE_MKINT24 (pc_at pCode 1)
      else 0)"

definition hb_pcodeIsJump :: "nat \<Rightarrow> bool" where
  "hb_pcodeIsJump op \<longleftrightarrow>
     op \<in> {HB_P_JUMP, HB_P_JUMPNEAR, HB_P_JUMPFAR,
           HB_P_JUMPFALSE, HB_P_JUMPFALSENEAR, HB_P_JUMPFALSEFAR,
           HB_P_JUMPTRUE, HB_P_JUMPTRUENEAR, HB_P_JUMPTRUEFAR}"

section \<open>The scan\<close>

record HB_PCMAP =
  abLeader :: "bool list"
  nSize :: nat
  fAllSupported :: bool

datatype analyze_result = Analyze_UB | Analyze_FALSE | Analyze_TRUE HB_PCMAP

text \<open>One turn of the loop's jump branch: \<open>None\<close> is the target check failing.\<close>

definition mark_jump :: "pcptr \<Rightarrow> nat \<Rightarrow> nat \<Rightarrow> nat \<Rightarrow> bool list \<Rightarrow> bool list option" where
  "mark_jump pCode n pos len lead =
     (let target = int pos + hb_pcodeJumpOffset (pc_at pCode pos) in
      if target < 0 \<or> nat target > n then None
      else
        (let lead1 = (if nat target < n then lead[nat target := True] else lead) in
         Some (if pos + len < n then lead1[pos + len := True] else lead1)))"

function analyze_loop ::
  "pcptr \<Rightarrow> nat \<Rightarrow> nat \<Rightarrow> bool list \<Rightarrow> bool \<Rightarrow> analyze_result" where
  "analyze_loop pCode n pos lead supp =
     (if pos < n then
        (case hb_pcodeInstrLen (pc_at pCode pos) of
           None \<Rightarrow> Analyze_UB
         | Some len \<Rightarrow>
             if len = 0 \<or> pos + len > n then Analyze_FALSE
             else
               (let op = opc (pc_at pCode pos);
                    supp1 = (if \<not> fSupported (hb_pcInfo ! op) then False else supp)
                in
                if hb_pcodeIsJump op then
                  (case mark_jump pCode n pos len lead of
                     None \<Rightarrow> Analyze_FALSE
                   | Some lead1 \<Rightarrow> analyze_loop pCode n (pos + len) lead1 supp1)
                else analyze_loop pCode n (pos + len) lead supp1))
      else Analyze_TRUE \<lparr>abLeader = lead, nSize = n, fAllSupported = supp\<rparr>)"
  by pat_completeness auto
termination by (relation "measure (\<lambda>(_, n, pos, _, _). n - pos)") auto

declare analyze_loop.simps [simp del]

definition hb_pcodeAnalyze :: "pcptr \<Rightarrow> nat \<Rightarrow> analyze_result" where
  "hb_pcodeAnalyze pCode n =
     (let lead = replicate (n + 1) False in
      analyze_loop pCode n 0 (if n > 0 then lead[0 := True] else lead) True)"


section \<open>Instruction starts\<close>

text \<open>
  The offsets a loop \<open>while( pos < nSize ) pos += hb_pcodeInstrLen( &pCode[ pos ] )\<close>
  visits.  Every pass of the code generator is such a loop.  \<open>None\<close> stands for
  a visit to an instruction of length 0 (the loop would not advance) or to an
  opcode outside the table.
\<close>

function pcode_walk :: "pcptr \<Rightarrow> nat \<Rightarrow> nat \<Rightarrow> nat list option" where
  "pcode_walk pCode n pos =
     (if pos < n then
        (case hb_pcodeInstrLen (pc_at pCode pos) of
           None \<Rightarrow> None
         | Some len \<Rightarrow>
             if len = 0 then None
             else map_option (Cons pos) (pcode_walk pCode n (pos + len)))
      else Some [])"
  by pat_completeness auto
termination by (relation "measure (\<lambda>(_, n, pos). n - pos)") auto

declare pcode_walk.simps [simp del]

inductive instr_at :: "pcptr \<Rightarrow> nat \<Rightarrow> nat \<Rightarrow> bool" for pCode n where
  start: "instr_at pCode n 0"
| more: "instr_at pCode n pos \<Longrightarrow> pos < n \<Longrightarrow>
     hb_pcodeInstrLen (pc_at pCode pos) = Some len \<Longrightarrow> 0 < len \<Longrightarrow>
     instr_at pCode n (pos + len)"

definition ilen :: "pcptr \<Rightarrow> nat \<Rightarrow> nat" where
  "ilen pCode pos = (case hb_pcodeInstrLen (pc_at pCode pos) of None \<Rightarrow> 0 | Some l \<Rightarrow> l)"

definition jump_target :: "pcptr \<Rightarrow> nat \<Rightarrow> int" where
  "jump_target pCode pos = int pos + hb_pcodeJumpOffset (pc_at pCode pos)"

definition is_jump_at :: "pcptr \<Rightarrow> nat \<Rightarrow> bool" where
  "is_jump_at pCode pos = hb_pcodeIsJump (opc (pc_at pCode pos))"

definition supported_at :: "pcptr \<Rightarrow> nat \<Rightarrow> bool" where
  "supported_at pCode pos = fSupported (hb_pcInfo ! opc (pc_at pCode pos))"

text \<open>What the scan checks of the instruction at \<open>pos\<close>.\<close>

definition scan_ok :: "pcptr \<Rightarrow> nat \<Rightarrow> nat \<Rightarrow> bool" where
  "scan_ok pCode n pos \<longleftrightarrow>
     pos + ilen pCode pos \<le> n \<and>
     (is_jump_at pCode pos \<longrightarrow> 0 \<le> jump_target pCode pos \<and> jump_target pCode pos \<le> int n)"

text \<open>The block leaders: entry, jump targets and the instruction after a jump.\<close>

definition leader_spec :: "pcptr \<Rightarrow> nat \<Rightarrow> nat list \<Rightarrow> nat \<Rightarrow> bool" where
  "leader_spec pCode n ps i \<longleftrightarrow>
     i < n \<and> (i = 0 \<or> (\<exists>pos\<in>set ps. is_jump_at pCode pos \<and>
       (int i = jump_target pCode pos \<or> i = pos + ilen pCode pos)))"

lemma length_hb_pcInfo [simp]: "length hb_pcInfo = 181"
  by (simp add: hb_pcInfo_def)

text \<open>The table row by row, for evaluation.\<close>

lemma pcInfo_rows [pc_simps]:
  "hb_pcInfo ! HB_P_AND = PI HB_PCK_FIXED 1 True"
  "hb_pcInfo ! HB_P_ARRAYPUSH = PI HB_PCK_FIXED 1 True"
  "hb_pcInfo ! HB_P_ARRAYPOP = PI HB_PCK_FIXED 1 True"
  "hb_pcInfo ! HB_P_ARRAYDIM = PI HB_PCK_FIXED 3 True"
  "hb_pcInfo ! HB_P_ARRAYGEN = PI HB_PCK_FIXED 3 True"
  "hb_pcInfo ! HB_P_EQUAL = PI HB_PCK_FIXED 1 True"
  "hb_pcInfo ! HB_P_ENDBLOCK = PI HB_PCK_FIXED 1 False"
  "hb_pcInfo ! HB_P_ENDPROC = PI HB_PCK_FIXED 1 True"
  "hb_pcInfo ! HB_P_EXACTLYEQUAL = PI HB_PCK_FIXED 1 True"
  "hb_pcInfo ! HB_P_FALSE = PI HB_PCK_FIXED 1 True"
  "hb_pcInfo ! HB_P_FORTEST = PI HB_PCK_FIXED 1 True"
  "hb_pcInfo ! HB_P_FUNCTION = PI HB_PCK_FIXED 3 True"
  "hb_pcInfo ! HB_P_FUNCTIONSHORT = PI HB_PCK_FIXED 2 True"
  "hb_pcInfo ! HB_P_FRAME = PI HB_PCK_FIXED 3 True"
  "hb_pcInfo ! HB_P_FUNCPTR = PI HB_PCK_FIXED 1 True"
  "hb_pcInfo ! HB_P_GREATER = PI HB_PCK_FIXED 1 True"
  "hb_pcInfo ! HB_P_GREATEREQUAL = PI HB_PCK_FIXED 1 True"
  "hb_pcInfo ! HB_P_DEC = PI HB_PCK_FIXED 1 True"
  "hb_pcInfo ! HB_P_DIVIDE = PI HB_PCK_FIXED 1 True"
  "hb_pcInfo ! HB_P_DO = PI HB_PCK_FIXED 3 True"
  "hb_pcInfo ! HB_P_DOSHORT = PI HB_PCK_FIXED 2 True"
  "hb_pcInfo ! HB_P_DUPLICATE = PI HB_PCK_FIXED 1 True"
  "hb_pcInfo ! HB_P_PUSHTIMESTAMP = PI HB_PCK_FIXED 9 False"
  "hb_pcInfo ! HB_P_INC = PI HB_PCK_FIXED 1 True"
  "hb_pcInfo ! HB_P_INSTRING = PI HB_PCK_FIXED 1 False"
  "hb_pcInfo ! HB_P_JUMPNEAR = PI HB_PCK_FIXED 2 True"
  "hb_pcInfo ! HB_P_JUMP = PI HB_PCK_FIXED 3 True"
  "hb_pcInfo ! HB_P_JUMPFAR = PI HB_PCK_FIXED 4 True"
  "hb_pcInfo ! HB_P_JUMPFALSENEAR = PI HB_PCK_FIXED 2 True"
  "hb_pcInfo ! HB_P_JUMPFALSE = PI HB_PCK_FIXED 3 True"
  "hb_pcInfo ! HB_P_JUMPFALSEFAR = PI HB_PCK_FIXED 4 True"
  "hb_pcInfo ! HB_P_JUMPTRUENEAR = PI HB_PCK_FIXED 2 True"
  "hb_pcInfo ! HB_P_JUMPTRUE = PI HB_PCK_FIXED 3 True"
  "hb_pcInfo ! HB_P_JUMPTRUEFAR = PI HB_PCK_FIXED 4 True"
  "hb_pcInfo ! HB_P_LESSEQUAL = PI HB_PCK_FIXED 1 True"
  "hb_pcInfo ! HB_P_LESS = PI HB_PCK_FIXED 1 True"
  "hb_pcInfo ! HB_P_LINE = PI HB_PCK_FIXED 3 True"
  "hb_pcInfo ! HB_P_LOCALNAME = PI HB_PCK_UNKNOWN 0 False"
  "hb_pcInfo ! HB_P_MACROPOP = PI HB_PCK_FIXED 2 True"
  "hb_pcInfo ! HB_P_MACROPOPALIASED = PI HB_PCK_FIXED 2 True"
  "hb_pcInfo ! HB_P_MACROPUSH = PI HB_PCK_FIXED 2 True"
  "hb_pcInfo ! HB_P_MACROARRAYGEN = PI HB_PCK_FIXED 3 True"
  "hb_pcInfo ! HB_P_MACROPUSHLIST = PI HB_PCK_FIXED 2 True"
  "hb_pcInfo ! HB_P_MACROPUSHINDEX = PI HB_PCK_FIXED 1 True"
  "hb_pcInfo ! HB_P_MACROPUSHPARE = PI HB_PCK_FIXED 2 True"
  "hb_pcInfo ! HB_P_MACROPUSHALIASED = PI HB_PCK_FIXED 2 True"
  "hb_pcInfo ! HB_P_MACROSYMBOL = PI HB_PCK_FIXED 1 True"
  "hb_pcInfo ! HB_P_MACROTEXT = PI HB_PCK_FIXED 1 True"
  "hb_pcInfo ! HB_P_MESSAGE = PI HB_PCK_FIXED 3 True"
  "hb_pcInfo ! HB_P_MINUS = PI HB_PCK_FIXED 1 True"
  "hb_pcInfo ! HB_P_MODULUS = PI HB_PCK_FIXED 1 True"
  "hb_pcInfo ! HB_P_MODULENAME = PI HB_PCK_UNKNOWN 0 False"
  "hb_pcInfo ! HB_P_MMESSAGE = PI HB_PCK_UNKNOWN 0 False"
  "hb_pcInfo ! HB_P_MPOPALIASEDFIELD = PI HB_PCK_UNKNOWN 0 False"
  "hb_pcInfo ! HB_P_MPOPALIASEDVAR = PI HB_PCK_UNKNOWN 0 False"
  "hb_pcInfo ! HB_P_MPOPFIELD = PI HB_PCK_UNKNOWN 0 False"
  "hb_pcInfo ! HB_P_MPOPMEMVAR = PI HB_PCK_UNKNOWN 0 False"
  "hb_pcInfo ! HB_P_MPUSHALIASEDFIELD = PI HB_PCK_UNKNOWN 0 False"
  "hb_pcInfo ! HB_P_MPUSHALIASEDVAR = PI HB_PCK_UNKNOWN 0 False"
  "hb_pcInfo ! HB_P_MPUSHBLOCK = PI HB_PCK_VARBLOCK 0 False"
  "hb_pcInfo ! HB_P_MPUSHFIELD = PI HB_PCK_UNKNOWN 0 False"
  "hb_pcInfo ! HB_P_MPUSHMEMVAR = PI HB_PCK_UNKNOWN 0 False"
  "hb_pcInfo ! HB_P_MPUSHMEMVARREF = PI HB_PCK_UNKNOWN 0 False"
  "hb_pcInfo ! HB_P_MPUSHSYM = PI HB_PCK_UNKNOWN 0 False"
  "hb_pcInfo ! HB_P_MPUSHVARIABLE = PI HB_PCK_UNKNOWN 0 False"
  "hb_pcInfo ! HB_P_MULT = PI HB_PCK_FIXED 1 True"
  "hb_pcInfo ! HB_P_NEGATE = PI HB_PCK_FIXED 1 True"
  "hb_pcInfo ! HB_P_NOOP = PI HB_PCK_FIXED 1 True"
  "hb_pcInfo ! HB_P_NOT = PI HB_PCK_FIXED 1 True"
  "hb_pcInfo ! HB_P_NOTEQUAL = PI HB_PCK_FIXED 1 True"
  "hb_pcInfo ! HB_P_OR = PI HB_PCK_FIXED 1 True"
  "hb_pcInfo ! HB_P_PARAMETER = PI HB_PCK_FIXED 4 False"
  "hb_pcInfo ! HB_P_PLUS = PI HB_PCK_FIXED 1 True"
  "hb_pcInfo ! HB_P_POP = PI HB_PCK_FIXED 1 True"
  "hb_pcInfo ! HB_P_POPALIAS = PI HB_PCK_FIXED 1 True"
  "hb_pcInfo ! HB_P_POPALIASEDFIELD = PI HB_PCK_FIXED 3 True"
  "hb_pcInfo ! HB_P_POPALIASEDFIELDNEAR = PI HB_PCK_FIXED 2 True"
  "hb_pcInfo ! HB_P_POPALIASEDVAR = PI HB_PCK_FIXED 3 True"
  "hb_pcInfo ! HB_P_POPFIELD = PI HB_PCK_FIXED 3 True"
  "hb_pcInfo ! HB_P_POPLOCAL = PI HB_PCK_FIXED 3 True"
  "hb_pcInfo ! HB_P_POPLOCALNEAR = PI HB_PCK_FIXED 2 True"
  "hb_pcInfo ! HB_P_POPMEMVAR = PI HB_PCK_FIXED 3 True"
  "hb_pcInfo ! HB_P_POPSTATIC = PI HB_PCK_FIXED 3 True"
  "hb_pcInfo ! HB_P_POPVARIABLE = PI HB_PCK_FIXED 3 True"
  "hb_pcInfo ! HB_P_POWER = PI HB_PCK_FIXED 1 True"
  "hb_pcInfo ! HB_P_PUSHALIAS = PI HB_PCK_FIXED 1 True"
  "hb_pcInfo ! HB_P_PUSHALIASEDFIELD = PI HB_PCK_FIXED 3 True"
  "hb_pcInfo ! HB_P_PUSHALIASEDFIELDNEAR = PI HB_PCK_FIXED 2 True"
  "hb_pcInfo ! HB_P_PUSHALIASEDVAR = PI HB_PCK_FIXED 3 True"
  "hb_pcInfo ! HB_P_PUSHBLOCK = PI HB_PCK_VARBLOCK 0 True"
  "hb_pcInfo ! HB_P_PUSHBLOCKSHORT = PI HB_PCK_VARBLOCK 0 True"
  "hb_pcInfo ! HB_P_PUSHFIELD = PI HB_PCK_FIXED 3 True"
  "hb_pcInfo ! HB_P_PUSHBYTE = PI HB_PCK_FIXED 2 True"
  "hb_pcInfo ! HB_P_PUSHINT = PI HB_PCK_FIXED 3 True"
  "hb_pcInfo ! HB_P_PUSHLOCAL = PI HB_PCK_FIXED 3 True"
  "hb_pcInfo ! HB_P_PUSHLOCALNEAR = PI HB_PCK_FIXED 2 True"
  "hb_pcInfo ! HB_P_PUSHLOCALREF = PI HB_PCK_FIXED 3 True"
  "hb_pcInfo ! HB_P_PUSHLONG = PI HB_PCK_FIXED 5 True"
  "hb_pcInfo ! HB_P_PUSHMEMVAR = PI HB_PCK_FIXED 3 True"
  "hb_pcInfo ! HB_P_PUSHMEMVARREF = PI HB_PCK_FIXED 3 True"
  "hb_pcInfo ! HB_P_PUSHNIL = PI HB_PCK_FIXED 1 True"
  "hb_pcInfo ! HB_P_PUSHDOUBLE = PI HB_PCK_FIXED 11 True"
  "hb_pcInfo ! HB_P_PUSHSELF = PI HB_PCK_FIXED 1 True"
  "hb_pcInfo ! HB_P_PUSHSTATIC = PI HB_PCK_FIXED 3 True"
  "hb_pcInfo ! HB_P_PUSHSTATICREF = PI HB_PCK_FIXED 3 True"
  "hb_pcInfo ! HB_P_PUSHSTR = PI HB_PCK_STR2 0 True"
  "hb_pcInfo ! HB_P_PUSHSTRSHORT = PI HB_PCK_STR1 0 True"
  "hb_pcInfo ! HB_P_PUSHSYM = PI HB_PCK_FIXED 3 True"
  "hb_pcInfo ! HB_P_PUSHSYMNEAR = PI HB_PCK_FIXED 2 True"
  "hb_pcInfo ! HB_P_PUSHVARIABLE = PI HB_PCK_FIXED 3 True"
  "hb_pcInfo ! HB_P_RETVALUE = PI HB_PCK_FIXED 1 True"
  "hb_pcInfo ! HB_P_SEND = PI HB_PCK_FIXED 3 True"
  "hb_pcInfo ! HB_P_SENDSHORT = PI HB_PCK_FIXED 2 True"
  "hb_pcInfo ! HB_P_SEQBEGIN = PI HB_PCK_FIXED 4 True"
  "hb_pcInfo ! HB_P_SEQEND = PI HB_PCK_FIXED 4 True"
  "hb_pcInfo ! HB_P_SEQRECOVER = PI HB_PCK_FIXED 1 True"
  "hb_pcInfo ! HB_P_SFRAME = PI HB_PCK_FIXED 3 False"
  "hb_pcInfo ! HB_P_STATICS = PI HB_PCK_FIXED 5 False"
  "hb_pcInfo ! HB_P_STATICNAME = PI HB_PCK_UNKNOWN 0 False"
  "hb_pcInfo ! HB_P_SWAPALIAS = PI HB_PCK_FIXED 1 True"
  "hb_pcInfo ! HB_P_TRUE = PI HB_PCK_FIXED 1 True"
  "hb_pcInfo ! HB_P_ZERO = PI HB_PCK_FIXED 1 True"
  "hb_pcInfo ! HB_P_ONE = PI HB_PCK_FIXED 1 True"
  "hb_pcInfo ! HB_P_MACROFUNC = PI HB_PCK_FIXED 3 True"
  "hb_pcInfo ! HB_P_MACRODO = PI HB_PCK_FIXED 3 True"
  "hb_pcInfo ! HB_P_MPUSHSTR = PI HB_PCK_STR2 0 False"
  "hb_pcInfo ! HB_P_LOCALNEARADDINT = PI HB_PCK_FIXED 4 True"
  "hb_pcInfo ! HB_P_MACROPUSHREF = PI HB_PCK_FIXED 1 True"
  "hb_pcInfo ! HB_P_PUSHLONGLONG = PI HB_PCK_FIXED 9 True"
  "hb_pcInfo ! HB_P_ENUMSTART = PI HB_PCK_FIXED 3 True"
  "hb_pcInfo ! HB_P_ENUMNEXT = PI HB_PCK_FIXED 1 True"
  "hb_pcInfo ! HB_P_ENUMPREV = PI HB_PCK_FIXED 1 True"
  "hb_pcInfo ! HB_P_ENUMEND = PI HB_PCK_FIXED 1 True"
  "hb_pcInfo ! HB_P_SWITCH = PI HB_PCK_SWITCH 0 True"
  "hb_pcInfo ! HB_P_PUSHDATE = PI HB_PCK_FIXED 5 False"
  "hb_pcInfo ! HB_P_PLUSEQPOP = PI HB_PCK_FIXED 1 True"
  "hb_pcInfo ! HB_P_MINUSEQPOP = PI HB_PCK_FIXED 1 True"
  "hb_pcInfo ! HB_P_MULTEQPOP = PI HB_PCK_FIXED 1 True"
  "hb_pcInfo ! HB_P_DIVEQPOP = PI HB_PCK_FIXED 1 True"
  "hb_pcInfo ! HB_P_PLUSEQ = PI HB_PCK_FIXED 1 True"
  "hb_pcInfo ! HB_P_MINUSEQ = PI HB_PCK_FIXED 1 True"
  "hb_pcInfo ! HB_P_MULTEQ = PI HB_PCK_FIXED 1 True"
  "hb_pcInfo ! HB_P_DIVEQ = PI HB_PCK_FIXED 1 True"
  "hb_pcInfo ! HB_P_WITHOBJECTSTART = PI HB_PCK_FIXED 1 True"
  "hb_pcInfo ! HB_P_WITHOBJECTMESSAGE = PI HB_PCK_FIXED 3 True"
  "hb_pcInfo ! HB_P_WITHOBJECTEND = PI HB_PCK_FIXED 1 True"
  "hb_pcInfo ! HB_P_MACROSEND = PI HB_PCK_FIXED 3 True"
  "hb_pcInfo ! HB_P_PUSHOVARREF = PI HB_PCK_FIXED 1 True"
  "hb_pcInfo ! HB_P_ARRAYPUSHREF = PI HB_PCK_FIXED 1 True"
  "hb_pcInfo ! HB_P_VFRAME = PI HB_PCK_FIXED 3 False"
  "hb_pcInfo ! HB_P_LARGEFRAME = PI HB_PCK_FIXED 4 False"
  "hb_pcInfo ! HB_P_LARGEVFRAME = PI HB_PCK_FIXED 4 False"
  "hb_pcInfo ! HB_P_PUSHSTRHIDDEN = PI HB_PCK_UNKNOWN 0 False"
  "hb_pcInfo ! HB_P_LOCALADDINT = PI HB_PCK_FIXED 5 True"
  "hb_pcInfo ! HB_P_MODEQPOP = PI HB_PCK_FIXED 1 True"
  "hb_pcInfo ! HB_P_EXPEQPOP = PI HB_PCK_FIXED 1 True"
  "hb_pcInfo ! HB_P_MODEQ = PI HB_PCK_FIXED 1 True"
  "hb_pcInfo ! HB_P_EXPEQ = PI HB_PCK_FIXED 1 True"
  "hb_pcInfo ! HB_P_DUPLUNREF = PI HB_PCK_FIXED 1 True"
  "hb_pcInfo ! HB_P_MPUSHBLOCKLARGE = PI HB_PCK_VARBLOCK 0 False"
  "hb_pcInfo ! HB_P_MPUSHSTRLARGE = PI HB_PCK_STR3 0 False"
  "hb_pcInfo ! HB_P_PUSHBLOCKLARGE = PI HB_PCK_VARBLOCK 0 True"
  "hb_pcInfo ! HB_P_PUSHSTRLARGE = PI HB_PCK_STR3 0 True"
  "hb_pcInfo ! HB_P_SWAP = PI HB_PCK_FIXED 2 False"
  "hb_pcInfo ! HB_P_PUSHVPARAMS = PI HB_PCK_FIXED 1 False"
  "hb_pcInfo ! HB_P_PUSHUNREF = PI HB_PCK_FIXED 1 True"
  "hb_pcInfo ! HB_P_SEQALWAYS = PI HB_PCK_FIXED 4 True"
  "hb_pcInfo ! HB_P_ALWAYSBEGIN = PI HB_PCK_FIXED 4 True"
  "hb_pcInfo ! HB_P_ALWAYSEND = PI HB_PCK_FIXED 1 True"
  "hb_pcInfo ! HB_P_DECEQPOP = PI HB_PCK_FIXED 1 True"
  "hb_pcInfo ! HB_P_INCEQPOP = PI HB_PCK_FIXED 1 True"
  "hb_pcInfo ! HB_P_DECEQ = PI HB_PCK_FIXED 1 True"
  "hb_pcInfo ! HB_P_INCEQ = PI HB_PCK_FIXED 1 True"
  "hb_pcInfo ! HB_P_LOCALDEC = PI HB_PCK_FIXED 3 True"
  "hb_pcInfo ! HB_P_LOCALINC = PI HB_PCK_FIXED 3 True"
  "hb_pcInfo ! HB_P_LOCALINCPUSH = PI HB_PCK_FIXED 3 True"
  "hb_pcInfo ! HB_P_PUSHFUNCSYM = PI HB_PCK_FIXED 3 True"
  "hb_pcInfo ! HB_P_HASHGEN = PI HB_PCK_FIXED 3 True"
  "hb_pcInfo ! HB_P_SEQBLOCK = PI HB_PCK_FIXED 1 True"
  "hb_pcInfo ! HB_P_THREADSTATICS = PI HB_PCK_UNKNOWN 0 False"
  "hb_pcInfo ! HB_P_PUSHAPARAMS = PI HB_PCK_FIXED 1 True"
  by (simp_all add: hb_pcInfo_def)

lemmas pc_eval_decode = hb_pcodeInstrLen_def opc_def pc_of_list_def pcInfo_at_def pc_simps
  hb_pcodeIsJump_def mark_jump_def hb_pcodeJumpOffset_def schar_def

lemma InstrLen_opc: "hb_pcodeInstrLen p = Some l \<Longrightarrow> opc p < 181"
  by (auto simp: hb_pcodeInstrLen_def pcInfo_at_def split: if_splits)

lemma pcode_walk_Nil: "n \<le> pos \<Longrightarrow> pcode_walk p n pos = Some []"
  by (subst pcode_walk.simps) simp

lemma pcode_walk_Cons:
  "pos < n \<Longrightarrow> pcode_walk p n pos = Some ps \<longleftrightarrow>
     (\<exists>l qs. hb_pcodeInstrLen (pc_at p pos) = Some l \<and> 0 < l \<and>
        pcode_walk p n (pos + l) = Some qs \<and> ps = pos # qs)"
  by (subst pcode_walk.simps) (auto split: option.splits)

lemma pcode_walk_ge: "pcode_walk p n pos = Some ps \<Longrightarrow> q \<in> set ps \<Longrightarrow> pos \<le> q \<and> q < n"
proof (induction p n pos arbitrary: ps rule: pcode_walk.induct)
  case (1 p n pos)
  show ?case
  proof (cases "pos < n")
    case True
    then obtain l qs where l: "hb_pcodeInstrLen (pc_at p pos) = Some l" "0 < l"
      "pcode_walk p n (pos + l) = Some qs" "ps = pos # qs"
      using 1(2) by (auto simp: pcode_walk_Cons)
    show ?thesis
      using 1(1)[OF True l(1) _ l(3)] 1(3) l True by force
  next
    case False
    then show ?thesis using 1 by (simp add: pcode_walk_Nil)
  qed
qed

lemma pcode_walk_sorted: "pcode_walk p n pos = Some ps \<Longrightarrow> sorted_wrt (<) ps"
proof (induction p n pos arbitrary: ps rule: pcode_walk.induct)
  case (1 p n pos)
  show ?case
  proof (cases "pos < n")
    case True
    then obtain l qs where l: "hb_pcodeInstrLen (pc_at p pos) = Some l" "0 < l"
      "pcode_walk p n (pos + l) = Some qs" "ps = pos # qs"
      using 1(2) by (auto simp: pcode_walk_Cons)
    have "sorted_wrt (<) qs" using 1(1)[OF True l(1) _ l(3)] l by simp
    moreover have "\<forall>q\<in>set qs. pos < q" using pcode_walk_ge[OF l(3)] l(2) by force
    ultimately show ?thesis using l(4) by simp
  next
    case False
    then show ?thesis using 1 by (simp add: pcode_walk_Nil)
  qed
qed

lemma ilen_Some: "hb_pcodeInstrLen (pc_at p q) = Some l \<Longrightarrow> ilen p q = l"
  by (simp add: ilen_def)

lemma pcode_walk_ilen:
  "pcode_walk p n pos = Some ps \<Longrightarrow> q \<in> set ps \<Longrightarrow>
   hb_pcodeInstrLen (pc_at p q) = Some (ilen p q) \<and> 0 < ilen p q"
proof (induction p n pos arbitrary: ps rule: pcode_walk.induct)
  case (1 p n pos)
  have pos: "pos < n" using pcode_walk_ge[OF 1(2,3)] by simp
  then obtain l qs where l: "hb_pcodeInstrLen (pc_at p pos) = Some l" "0 < l"
    "pcode_walk p n (pos + l) = Some qs" "ps = pos # qs"
    using 1(2) by (auto simp: pcode_walk_Cons)
  show ?case
  proof (cases "q = pos")
    case True
    then show ?thesis using l(1,2) by (simp add: ilen_Some)
  next
    case False
    then show ?thesis using 1(1)[OF pos l(1) _ l(3)] 1(3) l by simp
  qed
qed

text \<open>The walk lists the instruction starts, in order and without repetition.\<close>

lemma instr_at_trans:
  assumes "instr_at p n pos" "pcode_walk p n pos = Some ps" "q \<in> set ps"
  shows "instr_at p n q"
  using assms
proof (induction p n pos arbitrary: ps rule: pcode_walk.induct)
  case (1 p n pos)
  then have pos: "pos < n" using pcode_walk_ge by fastforce
  then obtain l qs where l: "hb_pcodeInstrLen (pc_at p pos) = Some l" "0 < l"
    "pcode_walk p n (pos + l) = Some qs" "ps = pos # qs"
    using 1(3) by (auto simp: pcode_walk_Cons)
  show ?case
  proof (cases "q = pos")
    case False
    then show ?thesis
      using 1(1)[OF pos l(1) _ _ l(3)] instr_at.more[OF 1(2) pos l(1,2)] 1(4) l by simp
  qed (use 1(2) in simp)
qed

lemma instr_at_walk:
  assumes "instr_at p n q" "pcode_walk p n 0 = Some ps"
  shows "q \<in> set ps \<and> (\<exists>as bs. ps = as @ bs \<and> pcode_walk p n q = Some bs) \<or> n \<le> q"
  using assms(1)
proof induction
  case start
  show ?case
  proof (cases "0 < n")
    case True
    then show ?thesis using assms(2) by (auto simp: pcode_walk_Cons)
  qed auto
next
  case (more pos len)
  then obtain as bs where a: "ps = as @ bs" "pcode_walk p n pos = Some bs" by auto
  then obtain qs where b: "bs = pos # qs" "pcode_walk p n (pos + len) = Some qs"
    using more by (auto simp: pcode_walk_Cons)
  show ?case
  proof (cases "pos + len < n")
    case True
    then have "pos + len \<in> set qs" using b(2) by (auto simp: pcode_walk_Cons)
    moreover have "ps = (as @ [pos]) @ qs" using a b by simp
    ultimately show ?thesis using b(2) by auto
  qed auto
qed

lemma pcode_walk_set:
  assumes "pcode_walk p n 0 = Some ps"
  shows "set ps = {q. instr_at p n q \<and> q < n}"
  using instr_at_trans[OF instr_at.start assms] instr_at_walk[OF _ assms] pcode_walk_ge[OF assms]
  by fastforce

section \<open>What the scan establishes\<close>

definition mark :: "pcptr \<Rightarrow> nat \<Rightarrow> nat \<Rightarrow> bool list \<Rightarrow> bool list" where
  "mark p n pos lead =
     (if is_jump_at p pos
      then (case mark_jump p n pos (ilen p pos) lead of None \<Rightarrow> lead | Some lead1 \<Rightarrow> lead1)
      else lead)"

lemma mark_jump_eq:
  "is_jump_at p pos \<Longrightarrow> mark_jump p n pos (ilen p pos) lead =
     (if 0 \<le> jump_target p pos \<and> jump_target p pos \<le> int n
      then Some (mark p n pos lead) else None)"
  by (auto simp: mark_def mark_jump_def jump_target_def Let_def)

text \<open>The scan in terms of the checks, one instruction at a time.\<close>

lemma analyze_loop_step:
  assumes "pos < n"
  shows "analyze_loop p n pos lead supp =
     (case hb_pcodeInstrLen (pc_at p pos) of
        None \<Rightarrow> Analyze_UB
      | Some len \<Rightarrow>
          if len = 0 \<or> \<not> scan_ok p n pos then Analyze_FALSE
          else analyze_loop p n (pos + len) (mark p n pos lead) (supp \<and> supported_at p pos))"
proof (cases "hb_pcodeInstrLen (pc_at p pos)")
  case None
  then show ?thesis using assms by (subst analyze_loop.simps) simp
next
  case (Some len)
  have il: "ilen p pos = len" by (rule ilen_Some[OF Some])
  have sp: "(if \<not> supported_at p pos then False else supp) = (supp \<and> supported_at p pos)"
    by auto
  show ?thesis
  proof (cases "is_jump_at p pos")
    case True
    note mj = mark_jump_eq[OF True, of n lead, unfolded il]
    show ?thesis using assms Some il True
      by (subst analyze_loop.simps)
         (simp add: is_jump_at_def[symmetric] supported_at_def[symmetric] mj sp scan_ok_def)
  next
    case False
    then show ?thesis using assms Some il
      by (subst analyze_loop.simps)
         (simp add: is_jump_at_def[symmetric] supported_at_def[symmetric] sp scan_ok_def mark_def)
  qed
qed

lemma analyze_loop_end:
  "n \<le> pos \<Longrightarrow> analyze_loop p n pos lead supp =
     Analyze_TRUE \<lparr>abLeader = lead, nSize = n, fAllSupported = supp\<rparr>"
  by (subst analyze_loop.simps) simp

lemma analyze_loop_TRUE:
  "analyze_loop p n pos lead supp = Analyze_TRUE mp \<longleftrightarrow>
     (\<exists>ps. pcode_walk p n pos = Some ps \<and> (\<forall>q\<in>set ps. scan_ok p n q) \<and>
        mp = \<lparr>abLeader = fold (mark p n) ps lead, nSize = n,
              fAllSupported = (supp \<and> (\<forall>q\<in>set ps. supported_at p q))\<rparr>)"
proof (induction p n pos arbitrary: lead supp rule: pcode_walk.induct)
  case (1 p n pos)
  show ?case
  proof (cases "pos < n \<and> (\<exists>l. hb_pcodeInstrLen (pc_at p pos) = Some l \<and> 0 < l)")
    case True
    then obtain l where l: "pos < n" "hb_pcodeInstrLen (pc_at p pos) = Some l" "l \<noteq> 0" by auto
    have walk: "pcode_walk p n pos = Some ps \<longleftrightarrow>
        (\<exists>qs. pcode_walk p n (pos + l) = Some qs \<and> ps = pos # qs)" for ps
      using l by (simp add: pcode_walk_Cons)
    show ?thesis
    proof (cases "scan_ok p n pos")
      case True
      show ?thesis
        unfolding walk analyze_loop_step[OF l(1)] l(2)
        using l(3) True
        by (simp add: 1[OF l, of "mark p n pos lead" "supp \<and> supported_at p pos"] conj_assoc
            ex_simps[symmetric] del: ex_simps)
    next
      case False
      then show ?thesis
        unfolding walk analyze_loop_step[OF l(1)] l(2) by auto
    qed
  next
    case False
    then show ?thesis
      by (cases "pos < n")
         (auto simp: analyze_loop_step analyze_loop_end pcode_walk_Cons pcode_walk_Nil
            split: option.splits)
  qed
qed

lemma length_mark [simp]: "length (mark p n pos lead) = length lead"
  by (auto simp: mark_def mark_jump_def Let_def)

lemma mark_nth:
  assumes "length lead = n + 1" "i < n" "scan_ok p n pos"
  shows "mark p n pos lead ! i \<longleftrightarrow> lead ! i \<or>
     is_jump_at p pos \<and> (int i = jump_target p pos \<or> i = pos + ilen p pos)"
  using assms
  by (auto simp: mark_def mark_jump_def Let_def scan_ok_def jump_target_def nth_list_update)

lemma fold_mark_nth:
  assumes "length lead = n + 1" "i < n" "\<forall>q\<in>set ps. scan_ok p n q"
  shows "fold (mark p n) ps lead ! i \<longleftrightarrow> lead ! i \<or>
     (\<exists>pos\<in>set ps. is_jump_at p pos \<and>
        (int i = jump_target p pos \<or> i = pos + ilen p pos))"
  using assms
proof (induction ps arbitrary: lead)
  case (Cons q ps)
  then show ?case
    using mark_nth[of lead n i p q] by auto
qed simp

lemma length_fold_mark [simp]: "length (fold (mark p n) ps lead) = length lead"
  by (induction ps arbitrary: lead) auto

lemma mark_nth_end: "length lead = n + 1 \<Longrightarrow> mark p n pos lead ! n = lead ! n"
  by (auto simp: mark_def mark_jump_def Let_def)

lemma fold_mark_nth_end: "length lead = n + 1 \<Longrightarrow> fold (mark p n) ps lead ! n = lead ! n"
  by (induction ps arbitrary: lead) (auto simp: mark_nth_end)

lemma Analyze_TRUE_iff:
  "hb_pcodeAnalyze p n = Analyze_TRUE mp \<longleftrightarrow>
     (\<exists>ps. pcode_walk p n 0 = Some ps \<and> (\<forall>q\<in>set ps. scan_ok p n q) \<and>
        nSize mp = n \<and>
        abLeader mp = map (leader_spec p n ps) [0..<n + 1] \<and>
        fAllSupported mp = (\<forall>q\<in>set ps. supported_at p q))"
proof -
  define lead0 where "lead0 = (if n > 0 then (replicate (n + 1) False)[0 := True] else replicate (n + 1) False)"
  have len: "length lead0 = n + 1" by (simp add: lead0_def)
  have l0: "lead0 ! i \<longleftrightarrow> i = 0 \<and> 0 < n" if "i < n + 1" for i
    using that by (cases i) (auto simp: lead0_def)
  have eq: "fold (mark p n) ps lead0 = map (leader_spec p n ps) [0..<n + 1]"
    if ok: "\<forall>q\<in>set ps. scan_ok p n q" for ps
  proof (rule nth_equalityI)
    fix i assume "i < length (fold (mark p n) ps lead0)"
    then have i: "i < n + 1" by (simp add: len)
    show "fold (mark p n) ps lead0 ! i = map (leader_spec p n ps) [0..<n + 1] ! i"
    proof (cases "i < n")
      case True
      then show ?thesis using fold_mark_nth[OF len True ok] l0[OF i] i
        by (auto simp: leader_spec_def simp del: upt_Suc)
    next
      case False
      then have "i = n" using i by simp
      then show ?thesis using fold_mark_nth_end[OF len, of p ps] l0[OF i] i
        by (auto simp: leader_spec_def simp del: upt_Suc)
    qed
  qed (simp add: len)
  have mp: "mp = \<lparr>abLeader = a, nSize = b, fAllSupported = c\<rparr> \<longleftrightarrow>
    nSize mp = b \<and> abLeader mp = a \<and> fAllSupported mp = c" for a b c
    by (cases mp) auto
  show ?thesis
    unfolding hb_pcodeAnalyze_def Let_def lead0_def[symmetric] analyze_loop_TRUE mp
    using eq by auto
qed

lemma walk_total:
  assumes "\<forall>q. instr_at p n q \<longrightarrow> q < n \<longrightarrow> (\<exists>l>0. hb_pcodeInstrLen (pc_at p q) = Some l)"
    and "instr_at p n pos"
  shows "\<exists>ps. pcode_walk p n pos = Some ps"
  using assms
proof (induction p n pos rule: pcode_walk.induct)
  case (1 p n pos)
  show ?case
  proof (cases "pos < n")
    case True
    then obtain l where l: "hb_pcodeInstrLen (pc_at p pos) = Some l" "0 < l" using 1 by blast
    obtain ps where "pcode_walk p n (pos + l) = Some ps"
      using 1(1)[OF True l(1) _ 1(2) instr_at.more[OF 1(3) True l]] l(2) by auto
    then show ?thesis using True l by (auto simp: pcode_walk_Cons)
  qed (simp add: pcode_walk_Nil)
qed

lemma pcode_walk_instr_at:
  assumes "pcode_walk p n 0 = Some ps" "instr_at p n pos" "pos < n"
  shows "hb_pcodeInstrLen (pc_at p pos) = Some (ilen p pos) \<and> 0 < ilen p pos"
  using pcode_walk_ilen[OF assms(1)] pcode_walk_set[OF assms(1)] assms(2,3) by simp

subsection \<open>Locality\<close>

lemma opc_pc_at: "opc (pc_at p k) = unat (p k)"
  by (simp add: opc_def pc_at_app)

lemma switch_scan_le: "switch_scan p k off = Some r \<Longrightarrow> off \<le> r"
  by (induction p k off rule: switch_scan.induct) (fastforce split: option.splits)+

lemma switch_literal_len_pos: "switch_literal_len p = Some l \<Longrightarrow> 1 \<le> l"
  by (auto simp: switch_literal_len_def split: if_splits)

lemma switch_jump_len_pos: "switch_jump_len p = Some l \<Longrightarrow> 2 \<le> l"
  by (auto simp: switch_jump_len_def split: if_splits)

lemma switch_literal_len_cong:
  assumes "switch_literal_len (pc_at p k) = Some l" "pc_agree r p q" "k + l \<le> r"
  shows "switch_literal_len (pc_at q k) = Some l"
proof -
  have "p k = q k" using assms switch_literal_len_pos[OF assms(1)] by (simp add: pc_agreeD)
  moreover have "p (k + 1) = q (k + 1)" if "opc (pc_at p k) = HB_P_PUSHSTRSHORT"
    using assms that pc_agreeD[OF assms(2), of "k + 1"]
    by (auto simp: switch_literal_len_def split: if_splits)
  ultimately show ?thesis using assms(1)
    by (auto simp: switch_literal_len_def opc_pc_at pc_at_app split: if_splits)
qed

lemma switch_jump_len_cong:
  assumes "switch_jump_len (pc_at p k) = Some l" "pc_agree r p q" "k + l \<le> r"
  shows "switch_jump_len (pc_at q k) = Some l"
proof -
  have "p k = q k" using assms switch_jump_len_pos[OF assms(1)] by (simp add: pc_agreeD)
  then show ?thesis using assms(1) by (auto simp: switch_jump_len_def opc_pc_at split: if_splits)
qed

lemma switch_scan_cong:
  "switch_scan p k off = Some r \<Longrightarrow> pc_agree r p q \<Longrightarrow> switch_scan q k off = Some r"
proof (induction p k off rule: switch_scan.induct)
  case (2 p k off)
  then obtain l j where lj: "switch_literal_len (pc_at p off) = Some l"
    "switch_jump_len (pc_at p (off + l)) = Some j"
    "switch_scan p k (off + l + j) = Some r"
    by (auto split: option.splits)
  have "off + l + j \<le> r" using switch_scan_le[OF lj(3)] .
  then have "switch_literal_len (pc_at q off) = Some l" "switch_jump_len (pc_at q (off + l)) = Some j"
    using switch_literal_len_cong[OF lj(1) 2(3)] switch_jump_len_cong[OF lj(2) 2(3)] by simp_all
  then show ?case using 2(1)[OF lj 2(3)] by simp
qed simp

lemma InstrLen_cong:
  assumes "hb_pcodeInstrLen p = Some l" "0 < l" "pc_agree (l + 3) p q"
  shows "hb_pcodeInstrLen q = Some l"
proof -
  have b: "p 0 = q 0" "p 1 = q 1" "p 2 = q 2" "p 3 = q 3"
    using assms(2) pc_agreeD[OF assms(3)] by simp_all
  have u: "HB_PCODE_MKUSHORT (pc_at p 1) = HB_PCODE_MKUSHORT (pc_at q 1)"
    using b by (intro MKUSHORT_cong) (simp_all add: pc_at_app numeral_2_eq_2)
  have v: "HB_PCODE_MKUINT24 (pc_at p 1) = HB_PCODE_MKUINT24 (pc_at q 1)"
    using b by (intro MKUINT24_cong) (simp_all add: pc_at_app numeral_2_eq_2 numeral_3_eq_3)
  have sc: "switch_scan p k 3 = Some l \<Longrightarrow> switch_scan q k 3 = Some l" for k
    using switch_scan_cong[of p k 3 l q] pc_agree_mono[OF assms(3), of l] by simp
  obtain info where i: "pcInfo_at (opc p) = Some info"
    using assms(1) by (auto simp: hb_pcodeInstrLen_def split: option.splits)
  have o: "opc q = opc p" using opc_cong[of p q, OF b(1)] by simp
  show ?thesis
  proof (cases "kind info")
    case HB_PCK_SWITCH
    then obtain r where "switch_scan p (HB_PCODE_MKUSHORT (pc_at p 1)) 3 = Some l"
      using assms(1,2) i by (auto simp: hb_pcodeInstrLen_def split: option.splits)
    then show ?thesis using sc HB_PCK_SWITCH i
      by (simp add: hb_pcodeInstrLen_def o u)
  qed (use assms(1) i in \<open>auto simp: hb_pcodeInstrLen_def o u v b split: if_splits\<close>)
qed

lemma InstrLen_pc_at_cong:
  assumes "hb_pcodeInstrLen (pc_at p pos) = Some l" "0 < l" "pc_agree (n + 3) p q" "pos + l \<le> n"
  shows "hb_pcodeInstrLen (pc_at q pos) = Some l"
  by (rule InstrLen_cong[OF assms(1,2) pc_agree_at[OF assms(3)]]) (use assms(4) in simp)

lemma jump_len:
  assumes "hb_pcodeIsJump (opc p)"
  shows "hb_pcodeInstrLen p =
    Some (if opc p \<in> {HB_P_JUMPNEAR, HB_P_JUMPFALSENEAR, HB_P_JUMPTRUENEAR} then 2
          else if opc p \<in> {HB_P_JUMP, HB_P_JUMPFALSE, HB_P_JUMPTRUE} then 3 else 4)"
  using assms
  by (auto simp: hb_pcodeIsJump_def hb_pcodeInstrLen_def pcInfo_at_def pc_simps)

lemma jump_offset_cong:
  assumes "hb_pcodeIsJump (opc p)" "hb_pcodeInstrLen p = Some l" "pc_agree l p q"
  shows "hb_pcodeJumpOffset q = hb_pcodeJumpOffset p"
proof -
  have l: "2 \<le> l" using assms(1,2) by (auto simp: jump_len split: if_splits)
  have b: "p 0 = q 0" "p 1 = q 1" using l pc_agreeD[OF assms(3)] by simp_all
  have u: "HB_PCODE_MKSHORT (pc_at q 1) = HB_PCODE_MKSHORT (pc_at p 1)"
    if "opc p \<in> {HB_P_JUMP, HB_P_JUMPFALSE, HB_P_JUMPTRUE}"
    using b that assms(1,2) pc_agreeD[OF assms(3), of 2]
    by (intro MKSHORT_cong) (auto simp: pc_at_app jump_len numeral_2_eq_2)
  have v: "HB_PCODE_MKINT24 (pc_at q 1) = HB_PCODE_MKINT24 (pc_at p 1)"
    if "opc p \<in> {HB_P_JUMPFAR, HB_P_JUMPFALSEFAR, HB_P_JUMPTRUEFAR}"
    using b that assms(1,2) pc_agreeD[OF assms(3), of 2] pc_agreeD[OF assms(3), of 3]
    by (intro MKINT24_cong) (auto simp: pc_at_app jump_len numeral_2_eq_2 numeral_3_eq_3)
  show ?thesis
    using u v b opc_cong[of p q, OF b(1)] by (auto simp: hb_pcodeJumpOffset_def)
qed

section \<open>Properties\<close>

lemma walk_instr_at_end:
  assumes "pcode_walk p n pos = Some ps" "instr_at p n pos" "pos \<le> n"
    "\<forall>q\<in>set ps. q + ilen p q \<le> n"
  shows "instr_at p n n"
  using assms
proof (induction p n pos arbitrary: ps rule: pcode_walk.induct)
  case (1 p n pos)
  show ?case
  proof (cases "pos < n")
    case True
    then obtain l qs where l: "hb_pcodeInstrLen (pc_at p pos) = Some l" "0 < l"
      "pcode_walk p n (pos + l) = Some qs" "ps = pos # qs"
      using 1(2) by (auto simp: pcode_walk_Cons)
    have "pos + l \<le> n" using 1(5) l(4) ilen_Some[OF l(1)] by simp
    then show ?thesis
      using 1(1)[OF True l(1) _ l(3) instr_at.more[OF 1(3) True l(1,2)]] l 1(5) by simp
  next
    case False
    then show ?thesis using 1(3,4) by simp
  qed
qed

lemma fits_iff:
  "(\<exists>len>0. hb_pcodeInstrLen (pc_at p q) = Some len \<and> q + len \<le> n) \<longleftrightarrow>
   hb_pcodeInstrLen (pc_at p q) = Some (ilen p q) \<and> 0 < ilen p q \<and> q + ilen p q \<le> n"
  by (auto simp: ilen_Some)

text \<open>C4.
  The scan succeeds exactly on the well formed streams: the instruction starts
  reach the end of the function body, each instruction fits and has a length,
  each jump stays within \<open>[0, nSize]\<close>; and then the map it fills marks as
  block leaders the entry, the targets below nSize and the instructions after
  a jump, nothing else, and fAllSupported says whether every opcode is in the
  straight-line subset.\<close>

theorem hb_pcodeAnalyze_spec:
  "hb_pcodeAnalyze p n = Analyze_TRUE mp \<longleftrightarrow>
     instr_at p n n \<and>
     (\<forall>pos<n. instr_at p n pos \<longrightarrow>
        (\<exists>len>0. hb_pcodeInstrLen (pc_at p pos) = Some len \<and> pos + len \<le> n) \<and>
        (is_jump_at p pos \<longrightarrow> 0 \<le> jump_target p pos \<and> jump_target p pos \<le> int n)) \<and>
     nSize mp = n \<and> length (abLeader mp) = n + 1 \<and>
     (\<forall>i\<le>n. abLeader mp ! i \<longleftrightarrow>
        i < n \<and> (i = 0 \<or> (\<exists>pos<n. instr_at p n pos \<and> is_jump_at p pos \<and>
          (int i = jump_target p pos \<or> i = pos + ilen p pos)))) \<and>
     (fAllSupported mp \<longleftrightarrow> (\<forall>pos<n. instr_at p n pos \<longrightarrow> supported_at p pos))"
    (is "?L \<longleftrightarrow> ?E \<and> ?W \<and> ?M")
proof -
  have W: "pcode_walk p n 0 = Some ps \<Longrightarrow> q \<in> set ps \<longleftrightarrow> instr_at p n q \<and> q < n" for ps q
    using pcode_walk_set by blast
  have M: "(nSize mp = n \<and> abLeader mp = map (leader_spec p n ps) [0..<n + 1] \<and>
      fAllSupported mp = (\<forall>q\<in>set ps. supported_at p q)) \<longleftrightarrow> ?M"
    if ps: "pcode_walk p n 0 = Some ps" for ps
  proof -
    have A: "abLeader mp = map (leader_spec p n ps) [0..<n + 1] \<longleftrightarrow>
      length (abLeader mp) = n + 1 \<and> (\<forall>i\<le>n. abLeader mp ! i = leader_spec p n ps i)"
      by (auto simp: list_eq_iff_nth_eq less_Suc_eq_le simp del: upt_Suc)
    have L: "leader_spec p n ps i \<longleftrightarrow> i < n \<and> (i = 0 \<or> (\<exists>pos<n. instr_at p n pos \<and>
        is_jump_at p pos \<and> (int i = jump_target p pos \<or> i = pos + ilen p pos)))" for i
      unfolding leader_spec_def Bex_def W[OF ps] by blast
    have B: "(\<forall>q\<in>set ps. supported_at p q) \<longleftrightarrow>
        (\<forall>pos<n. instr_at p n pos \<longrightarrow> supported_at p pos)"
      unfolding Ball_def W[OF ps] by blast
    show ?thesis unfolding A L B by (simp only: conj_assoc)
  qed
  show "?L \<longleftrightarrow> ?E \<and> ?W \<and> ?M"
  proof (rule iffI)
    assume ?L
    then obtain ps where ps: "pcode_walk p n 0 = Some ps" "\<forall>q\<in>set ps. scan_ok p n q"
      and N: "nSize mp = n \<and> abLeader mp = map (leader_spec p n ps) [0..<n + 1] \<and>
        fAllSupported mp = (\<forall>q\<in>set ps. supported_at p q)"
      unfolding Analyze_TRUE_iff by (elim exE conjE) simp
    have ?E using walk_instr_at_end[OF ps(1) instr_at.start] ps(2) by (simp add: scan_ok_def)
    moreover have ?W
      using ps(2) pcode_walk_instr_at[OF ps(1)] W[OF ps(1)] by (simp add: fits_iff scan_ok_def)
    ultimately show "?E \<and> ?W \<and> ?M" using iffD1[OF M[OF ps(1)] N] by (rule conjI[OF _ conjI])
  next
    assume R: "?E \<and> ?W \<and> ?M"
    then have wf: ?E ?W and m: ?M by blast+
    from wf(2) obtain ps where ps: "pcode_walk p n 0 = Some ps"
      using walk_total[OF _ instr_at.start] by blast
    have "\<forall>q\<in>set ps. scan_ok p n q"
      using wf(2) W[OF ps] unfolding fits_iff by (auto simp: scan_ok_def)
    then show ?L using ps iffD2[OF M[OF ps] m] unfolding Analyze_TRUE_iff by (intro exI conjI) auto
  qed
qed

text \<open>A jump over one byte instruction, then the end of the procedure.\<close>

lemma hb_pcodeAnalyze_spec_witness:
  "hb_pcodeAnalyze (pc_of_list [25, 3, 100, 7]) 4 =
     Analyze_TRUE \<lparr>abLeader = [True, False, True, True, False], nSize = 4, fAllSupported = True\<rparr> \<and>
   instr_at (pc_of_list [25, 3, 100, 7]) 4 4"
proof -
  have "hb_pcodeAnalyze (pc_of_list [25, 3, 100, 7]) 4 =
     Analyze_TRUE \<lparr>abLeader = [True, False, True, True, False], nSize = 4, fAllSupported = True\<rparr>"
    by (simp add: hb_pcodeAnalyze_def analyze_loop.simps pc_eval_decode,
        simp add: numeral_eq_Suc)
  then show ?thesis using hb_pcodeAnalyze_spec by blast
qed

text \<open>C5.
  The scan reads past the end of the body (operands are decoded before the
  length is checked), but a positive answer depends on at most three bytes past
  it: with the same body and the same three bytes the scan succeeds with the
  same map.\<close>

theorem hb_pcodeAnalyze_local:
  assumes "hb_pcodeAnalyze p n = Analyze_TRUE mp" "pc_agree (n + 3) p q"
  shows "hb_pcodeAnalyze q n = Analyze_TRUE mp"
proof -
  obtain ps where ps: "pcode_walk p n 0 = Some ps" and ok: "\<forall>q\<in>set ps. scan_ok p n q"
    and mp: "nSize mp = n" "abLeader mp = map (leader_spec p n ps) [0..<n + 1]"
      "fAllSupported mp = (\<forall>q\<in>set ps. supported_at p q)"
    using assms(1) unfolding Analyze_TRUE_iff by blast
  have il: "hb_pcodeInstrLen (pc_at q pos) = Some (ilen p pos) \<and> ilen q pos = ilen p pos"
    if "pos \<in> set ps" for pos
  proof -
    have "pos + ilen p pos \<le> n" using ok that by (simp add: scan_ok_def)
    from InstrLen_pc_at_cong[OF conjunct1 conjunct2 assms(2) this, OF pcode_walk_ilen[OF ps that]
        pcode_walk_ilen[OF ps that]]
    show ?thesis using ilen_Some by simp
  qed
  have op: "opc (pc_at q pos) = opc (pc_at p pos)" if "pos \<in> set ps" for pos
    using pcode_walk_ge[OF ps that] pc_agreeD[OF assms(2), of pos] by (simp add: opc_pc_at)
  have jt: "jump_target q pos = jump_target p pos" if "pos \<in> set ps" "is_jump_at p pos" for pos
  proof -
    have "pos + ilen p pos \<le> n + 3" using ok that by (auto simp: scan_ok_def)
    then have "pc_agree (ilen p pos) (pc_at p pos) (pc_at q pos)" by (rule pc_agree_at[OF assms(2)])
    from jump_offset_cong[OF _ _ this] show ?thesis
      using that pcode_walk_ilen[OF ps that(1)] by (simp add: jump_target_def is_jump_at_def)
  qed
  have eqs: "\<forall>pos\<in>set ps. scan_ok q n pos" "is_jump_at q pos = is_jump_at p pos"
    "supported_at q pos = supported_at p pos" if "pos \<in> set ps" for pos
    using ok il op jt that by (auto simp: scan_ok_def is_jump_at_def supported_at_def)
  have walk: "pcode_walk p n pos = Some bs \<Longrightarrow> set bs \<subseteq> set ps \<Longrightarrow> pcode_walk q n pos = Some bs" for pos bs
  proof (induction bs arbitrary: pos)
    case Nil
    then show ?case by (cases "pos < n") (auto simp: pcode_walk_Cons pcode_walk_Nil)
  next
    case (Cons b bs)
    then have "pos < n" using pcode_walk_Nil[of n pos p] by (cases "pos < n") auto
    then show ?case using Cons il by (auto simp: pcode_walk_Cons ilen_Some)
  qed
  have "leader_spec q n ps = leader_spec p n ps"
    using eqs jt il by (auto simp: leader_spec_def fun_eq_iff)
  moreover have "pcode_walk q n 0 = Some ps" by (rule walk[OF ps]) simp
  ultimately show ?thesis
    unfolding Analyze_TRUE_iff using mp eqs by (intro exI[of _ ps]) auto
qed

lemma hb_pcodeAnalyze_local_witness:
  "hb_pcodeAnalyze (pc_of_list [92, 5, 7, 1, 2, 3, 9]) 3 =
   Analyze_TRUE \<lparr>abLeader = [True, False, False, False], nSize = 3, fAllSupported = True\<rparr>"
proof (rule hb_pcodeAnalyze_local[of "pc_of_list [92, 5, 7, 1, 2, 3]"])
  show "hb_pcodeAnalyze (pc_of_list [92, 5, 7, 1, 2, 3]) 3 =
    Analyze_TRUE \<lparr>abLeader = [True, False, False, False], nSize = 3, fAllSupported = True\<rparr>"
    by (simp add: hb_pcodeAnalyze_def analyze_loop.simps pc_eval_decode,
        simp add: numeral_eq_Suc)
  show "pc_agree (3 + 3) (pc_of_list [92, 5, 7, 1, 2, 3]) (pc_of_list [92, 5, 7, 1, 2, 3, 9])"
    by (simp add: pc_agree_def pc_of_list_def nth_append[of "[92, 5, 7, 1, 2, 3]" "[9]", simplified])
qed

end
