(* ===== verification/Interp.thy ===== *)
theory Interp
  imports VmOps Pcdec
begin

text \<open>
  hb_vmExecute of vm/hvm.c: the main loop of the pcode interpreter.

  \<open>pCode\<close> is an offset into the pcode of the running function; it and the local
  bCanRecover are the interpreter's own state.  The cases of the C switch that do
  some work and advance by a constant are rows of the tables \<open>cases_...\<close> (opcode,
  work, advance), in the order of the source; the others are defined one by one.
  The profiler, the polling of the keyboard and the requests of other threads
  at the head of the loop are not modelled.
\<close>

section \<open>Context\<close>

record 'w ctx =
  code :: pcptr
  bDynCode :: bool
  fDebugging :: bool
  hlp :: "'w helpers"

record 'w istate =
  pc :: int
  vmst :: "'w vm"
  bCanRecover :: bool

type_synonym 'w icase = "pcptr \<Rightarrow> 'w vm \<Rightarrow> 'w vm option"

definition MKU16 :: "pcptr \<Rightarrow> nat \<Rightarrow> nat" where
  "MKU16 p k = HB_PCODE_MKUSHORT (pc_at p k)"

definition MKS16 :: "pcptr \<Rightarrow> nat \<Rightarrow> int" where
  "MKS16 p k = HB_PCODE_MKSHORT (pc_at p k)"

definition U8 :: "pcptr \<Rightarrow> nat \<Rightarrow> nat" where
  "U8 p k = unat (p k)"

section \<open>Operators\<close>

definition vm_call0 :: "'w helpers \<Rightarrow> string \<Rightarrow> 'w icase" where
  "vm_call0 H f = (\<lambda>p s. hcall H f [] s)"

text \<open>PLUS and its siblings.\<close>

definition vm_binop :: "'w helpers \<Rightarrow> string \<Rightarrow> 'w icase" where
  "vm_binop H f = (\<lambda>p s. do {
     a \<leftarrow> hb_stackItemFromTop (- 2) s; b \<leftarrow> hb_stackItemFromTop (- 1) s;
     s \<leftarrow> hcall H f [L a, L a, L b] s;
     hb_stackPop H s })"

text \<open>PLUSEQ and its siblings.\<close>

definition vm_opeq :: "'w helpers \<Rightarrow> string \<Rightarrow> 'w icase" where
  "vm_opeq H f = (\<lambda>p s. do {
     a \<leftarrow> hb_stackItemFromTop (- 2) s;
     (pResult, s) \<leftarrow> hunref H a s;
     pValue \<leftarrow> hb_stackItemFromTop (- 1) s;
     s \<leftarrow> hcall H f [L pResult, L pResult, L pValue] s;
     s \<leftarrow> hb_itemCopy H pValue pResult s;
     d \<leftarrow> hb_stackItemFromTop (- 2) s;
     s \<leftarrow> hb_itemMove H d pValue s;
     hb_stackDec s })"

text \<open>PLUSEQPOP and its siblings.\<close>

definition vm_opeqpop :: "'w helpers \<Rightarrow> string \<Rightarrow> 'w icase" where
  "vm_opeqpop H f = (\<lambda>p s. do {
     a \<leftarrow> hb_stackItemFromTop (- 2) s;
     (pResult, s) \<leftarrow> hunref H a s;
     b \<leftarrow> hb_stackItemFromTop (- 1) s;
     s \<leftarrow> hcall H f [L pResult, L pResult, L b] s;
     s \<leftarrow> hb_stackPop H s;
     hb_stackPop H s })"

text \<open>INC and DEC, INCEQ and DECEQ, INCEQPOP and DECEQPOP.\<close>

definition vm_incdec :: "'w helpers \<Rightarrow> string \<Rightarrow> 'w icase" where
  "vm_incdec H f = (\<lambda>p s. do { a \<leftarrow> hb_stackItemFromTop (- 1) s; hcall H f [L a] s })"

definition vm_incdeceq :: "'w helpers \<Rightarrow> string \<Rightarrow> 'w icase" where
  "vm_incdeceq H f = (\<lambda>p s. do {
     pResult \<leftarrow> hb_stackItemFromTop (- 1) s;
     (pValue, s) \<leftarrow> hunref H pResult s;
     s \<leftarrow> hcall H f [L pValue] s;
     let (pTemp, s) = hb_stackAllocItem s;
     s \<leftarrow> hb_itemCopy H pTemp pValue s;
     s \<leftarrow> hb_itemMove H pResult pTemp s;
     hb_stackDec s })"

definition vm_incdeceqpop :: "'w helpers \<Rightarrow> string \<Rightarrow> 'w icase" where
  "vm_incdeceqpop H f = (\<lambda>p s. do {
     a \<leftarrow> hb_stackItemFromTop (- 1) s;
     (q, s) \<leftarrow> hunref H a s;
     s \<leftarrow> hcall H f [L q] s;
     hb_stackPop H s })"

text \<open>hvm.c, \<open>case HB_P_NEGATE\<close> to \<open>case HB_P_FUNCPTR\<close>.\<close>

definition cases_arith :: "'w helpers \<Rightarrow> (nat \<times> 'w icase \<times> nat) list" where
  "cases_arith H = [
    (HB_P_NEGATE, vm_call0 H ''hb_vmNegate'', 1),
    (HB_P_PLUS, vm_binop H ''hb_vmPlus'', 1),
    (HB_P_PLUSEQ, vm_opeq H ''hb_vmPlus'', 1),
    (HB_P_PLUSEQPOP, vm_opeqpop H ''hb_vmPlus'', 1),
    (HB_P_MINUS, vm_binop H ''hb_vmMinus'', 1),
    (HB_P_MINUSEQ, vm_opeq H ''hb_vmMinus'', 1),
    (HB_P_MINUSEQPOP, vm_opeqpop H ''hb_vmMinus'', 1),
    (HB_P_MULT, vm_binop H ''hb_vmMult'', 1),
    (HB_P_MULTEQ, vm_opeq H ''hb_vmMult'', 1),
    (HB_P_MULTEQPOP, vm_opeqpop H ''hb_vmMult'', 1),
    (HB_P_DIVIDE, vm_binop H ''hb_vmDivide'', 1),
    (HB_P_DIVEQ, vm_opeq H ''hb_vmDivide'', 1),
    (HB_P_DIVEQPOP, vm_opeqpop H ''hb_vmDivide'', 1)]"

definition cases_math :: "'w helpers \<Rightarrow> (nat \<times> 'w icase \<times> nat) list" where
  "cases_math H = [
    (HB_P_MODULUS, vm_binop H ''hb_vmModulus'', 1),
    (HB_P_MODEQ, vm_opeq H ''hb_vmModulus'', 1),
    (HB_P_MODEQPOP, vm_opeqpop H ''hb_vmModulus'', 1),
    (HB_P_POWER, vm_binop H ''hb_vmPower'', 1),
    (HB_P_EXPEQ, vm_opeq H ''hb_vmPower'', 1),
    (HB_P_EXPEQPOP, vm_opeqpop H ''hb_vmPower'', 1),
    (HB_P_INC, vm_incdec H ''hb_vmInc'', 1),
    (HB_P_INCEQ, vm_incdeceq H ''hb_vmInc'', 1),
    (HB_P_INCEQPOP, vm_incdeceqpop H ''hb_vmInc'', 1),
    (HB_P_DEC, vm_incdec H ''hb_vmDec'', 1),
    (HB_P_DECEQ, vm_incdeceq H ''hb_vmDec'', 1),
    (HB_P_DECEQPOP, vm_incdeceqpop H ''hb_vmDec'', 1),
    (HB_P_FUNCPTR, vm_call0 H ''hb_vmFuncPtr'', 1)]"

text \<open>hvm.c, \<open>case HB_P_EQUAL\<close> to \<open>case HB_P_SWAPALIAS\<close>, without SWITCH.\<close>

definition cases_rel :: "'w helpers \<Rightarrow> (nat \<times> 'w icase \<times> nat) list" where
  "cases_rel H = [
    (HB_P_EQUAL, vm_call0 H ''hb_vmEqual'', 1),
    (HB_P_EXACTLYEQUAL, vm_call0 H ''hb_vmExactlyEqual'', 1),
    (HB_P_NOTEQUAL, vm_call0 H ''hb_vmNotEqual'', 1),
    (HB_P_LESS, vm_call0 H ''hb_vmLess'', 1),
    (HB_P_LESSEQUAL, vm_call0 H ''hb_vmLessEqual'', 1),
    (HB_P_GREATER, vm_call0 H ''hb_vmGreater'', 1),
    (HB_P_GREATEREQUAL, vm_call0 H ''hb_vmGreaterEqual'', 1),
    (HB_P_INSTRING, vm_call0 H ''hb_vmInstring'', 1),
    (HB_P_FORTEST, vm_call0 H ''hb_vmForTest'', 1),
    (HB_P_ENUMSTART, \<lambda>p s. hcall H ''hb_vmEnumStart'' [N (U8 p 1), N (U8 p 2)] s, 3),
    (HB_P_ENUMNEXT, vm_call0 H ''hb_vmEnumNext'', 1),
    (HB_P_ENUMPREV, vm_call0 H ''hb_vmEnumPrev'', 1),
    (HB_P_ENUMEND, \<lambda>p s. hb_vmEnumEnd H s, 1),
    (HB_P_NOT, \<lambda>p s. hb_vmNot H s, 1),
    (HB_P_AND, \<lambda>p s. hb_vmAnd H s, 1),
    (HB_P_OR, \<lambda>p s. hb_vmOr H s, 1),
    (HB_P_ARRAYPUSH, vm_call0 H ''hb_vmArrayPush'', 1),
    (HB_P_ARRAYPUSHREF, vm_call0 H ''hb_vmArrayPushRef'', 1),
    (HB_P_ARRAYPOP, vm_call0 H ''hb_vmArrayPop'', 1),
    (HB_P_ARRAYDIM, \<lambda>p s. hcall H ''hb_vmArrayDim'' [N (MKU16 p 1)] s, 3),
    (HB_P_ARRAYGEN, \<lambda>p s. hcall H ''hb_vmArrayGen'' [N (MKU16 p 1)] s, 3),
    (HB_P_HASHGEN, \<lambda>p s. hcall H ''hb_vmHashGen'' [N (MKU16 p 1)] s, 3),
    (HB_P_MESSAGE, \<lambda>p s. Some (hb_vmPushSymbol (MKU16 p 1) s), 3),
    (HB_P_SWAPALIAS, vm_call0 H ''hb_vmSwapAlias'', 1)]"

section \<open>Calls, frames, return value\<close>

definition vm_function :: "'w helpers \<Rightarrow> nat \<Rightarrow> 'w vm \<Rightarrow> 'w vm option" where
  "vm_function H n s = do {
     s \<leftarrow> hb_itemSetNil H AtReturn s;
     s \<leftarrow> hcall H ''hb_vmProc'' [N n] s;
     Some (hb_stackPushReturn s) }"

definition vm_retvalue :: "'w helpers \<Rightarrow> 'w vm \<Rightarrow> 'w vm option" where
  "vm_retvalue H s = do {
     s \<leftarrow> hb_stackPopReturn H s;
     Some (s\<lparr>retItem := clear_memoflag (retItem s)\<rparr>) }"

text \<open>hvm.c, \<open>case HB_P_DO\<close> to \<open>case HB_P_SEQBLOCK\<close>, those with a constant length.\<close>

definition cases_exec :: "'w helpers \<Rightarrow> (nat \<times> 'w icase \<times> nat) list" where
  "cases_exec H = [
    (HB_P_DO, \<lambda>p s. hcall H ''hb_vmProc'' [N (MKU16 p 1)] s, 3),
    (HB_P_DOSHORT, \<lambda>p s. hcall H ''hb_vmProc'' [N (U8 p 1)] s, 2),
    (HB_P_FUNCTION, \<lambda>p s. vm_function H (MKU16 p 1) s, 3),
    (HB_P_FUNCTIONSHORT, \<lambda>p s. vm_function H (U8 p 1) s, 2),
    (HB_P_PUSHOVARREF, vm_call0 H ''hb_vmPushObjectVarRef'', 1),
    (HB_P_PARAMETER, \<lambda>p s.
       hcall H ''hb_memvarNewParameter'' [N (MKU16 p 1), L (AtStack (baseIdx s + U8 p 3 + 1))] s, 4),
    (HB_P_FRAME, \<lambda>p s. hcall H ''hb_vmFrame'' [N (U8 p 1), N (U8 p 2)] s, 3),
    (HB_P_VFRAME, \<lambda>p s. hcall H ''hb_vmVFrame'' [N (U8 p 1), N (U8 p 2)] s, 3),
    (HB_P_LARGEFRAME, \<lambda>p s. hcall H ''hb_vmFrame'' [N (MKU16 p 1), N (U8 p 3)] s, 4),
    (HB_P_LARGEVFRAME, \<lambda>p s. hcall H ''hb_vmVFrame'' [N (MKU16 p 1), N (U8 p 3)] s, 4),
    (HB_P_SFRAME, \<lambda>p s. hcall H ''hb_vmSFrame'' [N (MKU16 p 1)] s, 3),
    (HB_P_STATICS, \<lambda>p s. hcall H ''hb_vmStatics'' [N (MKU16 p 1), N (MKU16 p 3)] s, 5),
    (HB_P_RETVALUE, \<lambda>p s. vm_retvalue H s, 1),
    (HB_P_SEQBLOCK, vm_call0 H ''hb_vmSeqBlock'', 1)]"

section \<open>Push\<close>

text \<open>\<open>hb_stackAllocItem()\<close> handed to a function that fills it.\<close>

definition vm_fill :: "'w helpers \<Rightarrow> string \<Rightarrow> nat \<Rightarrow> 'w vm \<Rightarrow> 'w vm option" where
  "vm_fill H f symb s = (let (q, s1) = hb_stackAllocItem s in hcall H f [L q, N symb] s1)"

definition vm_pushfuncsym :: "nat \<Rightarrow> 'w vm \<Rightarrow> 'w vm option" where
  "vm_pushfuncsym symb s = Some (stack_push I_Nil (hb_vmPushSymbol symb s))"

text \<open>hvm.c, \<open>case HB_P_TRUE\<close> to \<open>case HB_P_SWAP\<close>, those with a constant length.\<close>

definition cases_literal :: "'w helpers \<Rightarrow> (nat \<times> 'w icase \<times> nat) list" where
  "cases_literal H = [
    (HB_P_TRUE, \<lambda>p s. Some (stack_push (I_Logical True) s), 1),
    (HB_P_FALSE, \<lambda>p s. Some (stack_push (I_Logical False) s), 1),
    (HB_P_ONE, \<lambda>p s. Some (stack_push (I_Integer 1 10) s), 1),
    (HB_P_ZERO, \<lambda>p s. Some (stack_push (I_Integer 0 10) s), 1),
    (HB_P_PUSHNIL, \<lambda>p s. Some (stack_push I_Nil s), 1),
    (HB_P_PUSHBYTE, \<lambda>p s. Some (stack_push (I_Integer (schar (p 1)) 10) s), 2),
    (HB_P_PUSHINT, \<lambda>p s. Some (stack_push (I_Integer (MKS16 p 1) 10) s), 3),
    (HB_P_PUSHLONG, \<lambda>p s. Some (hb_vmPushIntegerConst (HB_PCODE_MKLONG (pc_at p 1)) s), 5),
    (HB_P_PUSHLONGLONG, \<lambda>p s.
       Some (hb_vmPushLongLongConst (HB_PCODE_MKLONGLONG (pc_at p 1)) s), 9),
    (HB_P_PUSHDOUBLE, \<lambda>p s.
       Some (hb_vmPushDoubleConst H (HB_GET_LE_UINT64 (pc_at p 1)) (int (U8 p 9)) (int (U8 p 10)) s), 11),
    (HB_P_PUSHDATE, \<lambda>p s. Some (stack_push (I_Date (HB_PCODE_MKLONG (pc_at p 1))) s), 5),
    (HB_P_PUSHTIMESTAMP, \<lambda>p s. Some (stack_push
       (I_TimeStamp (HB_PCODE_MKLONG (pc_at p 1)) (HB_PCODE_MKLONG (pc_at p 5))) s), 9)]"

definition cases_push :: "'w helpers \<Rightarrow> (nat \<times> 'w icase \<times> nat) list" where
  "cases_push H = [
    (HB_P_PUSHSELF, \<lambda>p s. hb_vmPush H (hb_stackSelfItem s) s, 1),
    (HB_P_PUSHSYM, \<lambda>p s. Some (hb_vmPushSymbol (MKU16 p 1) s), 3),
    (HB_P_PUSHSYMNEAR, \<lambda>p s. Some (hb_vmPushSymbol (U8 p 1) s), 2),
    (HB_P_PUSHFUNCSYM, \<lambda>p s. vm_pushfuncsym (MKU16 p 1) s, 3),
    (HB_P_PUSHALIAS, vm_call0 H ''hb_vmPushAlias'', 1),
    (HB_P_PUSHALIASEDFIELD, \<lambda>p s. hcall H ''hb_vmPushAliasedField'' [N (MKU16 p 1)] s, 3),
    (HB_P_PUSHALIASEDFIELDNEAR, \<lambda>p s. hcall H ''hb_vmPushAliasedField'' [N (U8 p 1)] s, 2),
    (HB_P_PUSHALIASEDVAR, \<lambda>p s. hcall H ''hb_vmPushAliasedVar'' [N (MKU16 p 1)] s, 3),
    (HB_P_PUSHFIELD, \<lambda>p s. vm_fill H ''hb_rddGetFieldValue'' (MKU16 p 1) s, 3),
    (HB_P_PUSHLOCAL, \<lambda>p s. hb_vmPushLocal H (MKS16 p 1) s, 3),
    (HB_P_PUSHLOCALNEAR, \<lambda>p s. hb_vmPushLocal H (schar (p 1)) s, 2),
    (HB_P_PUSHLOCALREF, \<lambda>p s. hb_vmPushLocalByRef H (MKS16 p 1) s, 3),
    (HB_P_PUSHSTATIC, \<lambda>p s. hb_vmPushStatic H (MKU16 p 1) s, 3),
    (HB_P_PUSHSTATICREF, \<lambda>p s. hb_vmPushStaticByRef H (MKU16 p 1) s, 3),
    (HB_P_PUSHMEMVAR, \<lambda>p s. vm_fill H ''hb_memvarGetValue'' (MKU16 p 1) s, 3),
    (HB_P_PUSHMEMVARREF, \<lambda>p s. vm_fill H ''hb_memvarGetRefer'' (MKU16 p 1) s, 3),
    (HB_P_PUSHVARIABLE, \<lambda>p s. hcall H ''hb_vmPushVariable'' [N (MKU16 p 1)] s, 3)]"

definition cases_dup :: "'w helpers \<Rightarrow> (nat \<times> 'w icase \<times> nat) list" where
  "cases_dup H = [
    (HB_P_DUPLICATE, \<lambda>p s. hb_vmDuplicate H s, 1),
    (HB_P_DUPLUNREF, \<lambda>p s. hb_vmDuplUnRef H s, 1),
    (HB_P_PUSHUNREF, \<lambda>p s. hb_vmPushUnRef H s, 1),
    (HB_P_PUSHVPARAMS, vm_call0 H ''hb_vmPushVParams'', 1),
    (HB_P_PUSHAPARAMS, vm_call0 H ''hb_vmPushAParams'', 1),
    (HB_P_SWAP, \<lambda>p s. hb_vmSwap (U8 p 1) s, 2)]"

section \<open>Pop, macros, database and object opcodes\<close>

definition vm_popfield :: "'w helpers \<Rightarrow> nat \<Rightarrow> 'w vm \<Rightarrow> 'w vm option" where
  "vm_popfield H symb s = do {
     a \<leftarrow> hb_stackItemFromTop (- 1) s;
     s \<leftarrow> hcall H ''hb_rddPutFieldValue'' [L a, N symb] s;
     hb_stackPop H s }"

definition vm_popmemvar :: "'w helpers \<Rightarrow> nat \<Rightarrow> 'w vm \<Rightarrow> 'w vm option" where
  "vm_popmemvar H symb s = do {
     a \<leftarrow> hb_stackItemFromTop (- 1) s;
     s \<leftarrow> hcall H ''hb_memvarSetValue'' [N symb, L a] s;
     hb_stackPop H s }"

text \<open>hvm.c, \<open>case HB_P_POP\<close> to \<open>case HB_P_POPVARIABLE\<close>.\<close>

definition cases_pop :: "'w helpers \<Rightarrow> (nat \<times> 'w icase \<times> nat) list" where
  "cases_pop H = [
    (HB_P_POP, \<lambda>p s. hb_stackPop H s, 1),
    (HB_P_POPALIAS, vm_call0 H ''hb_vmPopAlias'', 1),
    (HB_P_POPALIASEDFIELD, \<lambda>p s. hcall H ''hb_vmPopAliasedField'' [N (MKU16 p 1)] s, 3),
    (HB_P_POPALIASEDFIELDNEAR, \<lambda>p s. hcall H ''hb_vmPopAliasedField'' [N (U8 p 1)] s, 2),
    (HB_P_POPALIASEDVAR, \<lambda>p s. hcall H ''hb_vmPopAliasedVar'' [N (MKU16 p 1)] s, 3),
    (HB_P_POPFIELD, \<lambda>p s. vm_popfield H (MKU16 p 1) s, 3),
    (HB_P_POPLOCAL, \<lambda>p s. hb_vmPopLocal H (MKS16 p 1) s, 3),
    (HB_P_POPLOCALNEAR, \<lambda>p s. hb_vmPopLocal H (schar (p 1)) s, 2),
    (HB_P_POPSTATIC, \<lambda>p s. hb_vmPopStatic H (MKU16 p 1) s, 3),
    (HB_P_POPMEMVAR, \<lambda>p s. vm_popmemvar H (MKU16 p 1) s, 3),
    (HB_P_POPVARIABLE, \<lambda>p s. vm_popmemvar H (MKU16 p 1) s, 3)]"

definition vm_macro1 :: "'w helpers \<Rightarrow> string \<Rightarrow> harg list \<Rightarrow> 'w vm \<Rightarrow> 'w vm option" where
  "vm_macro1 H f as s = do {
     a \<leftarrow> hb_stackItemFromTop (- 1) s; hcall H f (L a # as) s }"

definition vm_macro2 :: "'w helpers \<Rightarrow> string \<Rightarrow> harg list \<Rightarrow> 'w vm \<Rightarrow> 'w vm option" where
  "vm_macro2 H f as s = do {
     a \<leftarrow> hb_stackItemFromTop (- 2) s; b \<leftarrow> hb_stackItemFromTop (- 1) s;
     hcall H f (L a # L b # as) s }"

text \<open>hvm.c, \<open>case HB_P_MACROPOP\<close> to \<open>case HB_P_MACROTEXT\<close>.\<close>

definition cases_macro :: "'w helpers \<Rightarrow> (nat \<times> 'w icase \<times> nat) list" where
  "cases_macro H = [
    (HB_P_MACROPOP, \<lambda>p s. vm_macro1 H ''hb_macroSetValue'' [N (U8 p 1)] s, 2),
    (HB_P_MACROPOPALIASED, \<lambda>p s. vm_macro2 H ''hb_macroPopAliasedValue'' [N (U8 p 1)] s, 2),
    (HB_P_MACROPUSH, \<lambda>p s. vm_macro1 H ''hb_macroGetValue'' [N 0, N (U8 p 1)] s, 2),
    (HB_P_MACROPUSHLIST, \<lambda>p s.
       vm_macro1 H ''hb_macroGetValue'' [N HB_P_MACROPUSHLIST, N (U8 p 1)] s, 2),
    (HB_P_MACROPUSHINDEX, vm_call0 H ''hb_vmMacroPushIndex'', 1),
    (HB_P_MACROARRAYGEN, \<lambda>p s. hcall H ''hb_vmMacroArrayGen'' [N (MKU16 p 1)] s, 3),
    (HB_P_MACRODO, \<lambda>p s. hcall H ''hb_vmMacroDo'' [N (MKU16 p 1)] s, 3),
    (HB_P_MACROFUNC, \<lambda>p s. hcall H ''hb_vmMacroFunc'' [N (MKU16 p 1)] s, 3),
    (HB_P_MACROSEND, \<lambda>p s. hcall H ''hb_vmMacroSend'' [N (MKU16 p 1)] s, 3),
    (HB_P_MACROPUSHPARE, \<lambda>p s.
       vm_macro1 H ''hb_macroGetValue'' [N HB_P_MACROPUSHPARE, N (U8 p 1)] s, 2),
    (HB_P_MACROPUSHALIASED, \<lambda>p s. vm_macro2 H ''hb_macroPushAliasedValue'' [N (U8 p 1)] s, 2),
    (HB_P_MACROPUSHREF, \<lambda>p s. vm_macro1 H ''hb_macroPushReference'' [] s, 1),
    (HB_P_MACROSYMBOL, \<lambda>p s. vm_macro1 H ''hb_macroPushSymbol'' [] s, 1),
    (HB_P_MACROTEXT, \<lambda>p s. vm_macro1 H ''hb_macroTextValue'' [] s, 1)]"

text \<open>
  The opcodes of the macro compiler carry the address of a dynamic symbol in
  eight bytes; \<open>hdynsym\<close> gives the symbol it points to.
\<close>

definition dynsym_at :: "'w helpers \<Rightarrow> pcptr \<Rightarrow> nat" where
  "dynsym_at H p = hdynsym H (HB_GET_LE_UINT64 (pc_at p 1))"

text \<open>hvm.c, \<open>case HB_P_MMESSAGE\<close> to \<open>case HB_P_MPUSHVARIABLE\<close>.\<close>

definition cases_mcomp :: "'w helpers \<Rightarrow> (nat \<times> 'w icase \<times> nat) list" where
  "cases_mcomp H = [
    (HB_P_MMESSAGE, \<lambda>p s. Some (hb_vmPushSymbol (dynsym_at H p) s), 9),
    (HB_P_MPOPALIASEDFIELD, \<lambda>p s. hcall H ''hb_vmPopAliasedField'' [N (dynsym_at H p)] s, 9),
    (HB_P_MPOPALIASEDVAR, \<lambda>p s. hcall H ''hb_vmPopAliasedVar'' [N (dynsym_at H p)] s, 9),
    (HB_P_MPOPFIELD, \<lambda>p s. vm_popfield H (dynsym_at H p) s, 9),
    (HB_P_MPOPMEMVAR, \<lambda>p s. vm_popmemvar H (dynsym_at H p) s, 9),
    (HB_P_MPUSHALIASEDFIELD, \<lambda>p s. hcall H ''hb_vmPushAliasedField'' [N (dynsym_at H p)] s, 9),
    (HB_P_MPUSHALIASEDVAR, \<lambda>p s. hcall H ''hb_vmPushAliasedVar'' [N (dynsym_at H p)] s, 9),
    (HB_P_MPUSHFIELD, \<lambda>p s. vm_fill H ''hb_rddGetFieldValue'' (dynsym_at H p) s, 9),
    (HB_P_MPUSHMEMVAR, \<lambda>p s. vm_fill H ''hb_memvarGetValue'' (dynsym_at H p) s, 9),
    (HB_P_MPUSHMEMVARREF, \<lambda>p s. vm_fill H ''hb_memvarGetRefer'' (dynsym_at H p) s, 9),
    (HB_P_MPUSHSYM, \<lambda>p s. Some (hb_vmPushSymbol (dynsym_at H p) s), 9),
    (HB_P_MPUSHVARIABLE, \<lambda>p s. hcall H ''hb_vmPushVariable'' [N (dynsym_at H p)] s, 9)]"

definition vm_addint :: "'w helpers \<Rightarrow> int \<Rightarrow> int \<Rightarrow> 'w vm \<Rightarrow> 'w vm option" where
  "vm_addint H iLocal add s = hcall H ''hb_vmAddInt'' [L (hb_stackLocalVariable iLocal s), Z add] s"

definition vm_localincdec :: "'w helpers \<Rightarrow> string \<Rightarrow> int \<Rightarrow> 'w vm \<Rightarrow> 'w vm option" where
  "vm_localincdec H f iLocal s = do {
     (q, s) \<leftarrow> unref_if H (hb_stackLocalVariable iLocal s) s;
     hcall H f [L q] s }"

definition vm_localincpush :: "'w helpers \<Rightarrow> int \<Rightarrow> 'w vm \<Rightarrow> 'w vm option" where
  "vm_localincpush H iLocal s = do {
     (q, s) \<leftarrow> unref_if H (hb_stackLocalVariable iLocal s) s;
     s \<leftarrow> hcall H ''hb_vmInc'' [L q] s;
     let (p, s) = hb_stackAllocItem s;
     hb_itemCopy H p q s }"

definition vm_withobjectmessage :: "'w helpers \<Rightarrow> nat \<Rightarrow> 'w vm \<Rightarrow> 'w vm option" where
  "vm_withobjectmessage H wSymPos s =
     (let s = (if wSymPos \<noteq> 0xFFFF then hb_vmPushSymbol wSymPos s else s) in
      case hb_stackWithObjectItem s of
        Some pWith \<Rightarrow> hb_vmPush H pWith s
      | None \<Rightarrow> Some (stack_push I_Nil s))"

definition vm_withobjectend :: "'w helpers \<Rightarrow> 'w vm \<Rightarrow> 'w vm option" where
  "vm_withobjectend H s = do { s \<leftarrow> hb_stackPop H s; hb_stackPop H s }"

text \<open>hvm.c, \<open>case HB_P_LOCALNEARADDINT\<close> to \<open>case HB_P_NOOP\<close>.\<close>

definition cases_local :: "'w helpers \<Rightarrow> (nat \<times> 'w icase \<times> nat) list" where
  "cases_local H = [
    (HB_P_LOCALNEARADDINT, \<lambda>p s. vm_addint H (int (U8 p 1)) (MKS16 p 2) s, 4),
    (HB_P_LOCALADDINT, \<lambda>p s. vm_addint H (int (MKU16 p 1)) (MKS16 p 3) s, 5),
    (HB_P_LOCALINC, \<lambda>p s. vm_localincdec H ''hb_vmInc'' (int (MKU16 p 1)) s, 3),
    (HB_P_LOCALDEC, \<lambda>p s. vm_localincdec H ''hb_vmDec'' (int (MKU16 p 1)) s, 3),
    (HB_P_LOCALINCPUSH, \<lambda>p s. vm_localincpush H (int (MKU16 p 1)) s, 3),
    (HB_P_WITHOBJECTMESSAGE, \<lambda>p s. vm_withobjectmessage H (MKU16 p 1) s, 3),
    (HB_P_WITHOBJECTSTART, vm_call0 H ''hb_vmWithObjectStart'', 1),
    (HB_P_WITHOBJECTEND, \<lambda>p s. vm_withobjectend H s, 1),
    (HB_P_NOOP, \<lambda>p s. Some s, 1)]"

definition cases_plain :: "'w helpers \<Rightarrow> (nat \<times> 'w icase \<times> nat) list" where
  "cases_plain H = cases_arith H @ cases_math H @ cases_rel H @ cases_exec H @ cases_literal H @
     cases_push H @ cases_dup H @ cases_pop H @
     cases_macro H @ cases_mcomp H @ cases_local H"

section \<open>Opcodes that set the program counter or the recovery state\<close>

text \<open>The recover envelope below the stack top: its place and its fields.\<close>

definition seq_env :: "'w vm \<Rightarrow> (loc \<times> int \<times> nat \<times> 16 word \<times> 16 word) option" where
  "seq_env s = do {
     p \<leftarrow> hb_stackItemFromTop HB_RECOVER_STATE s;
     x \<leftarrow> item_rd p s;
     case x of I_Recover r b f q \<Rightarrow> Some (p, r, b, f, q) | _ \<Rightarrow> None }"

definition vm_seqenter :: "int \<Rightarrow> 16 word \<Rightarrow> 'w vm \<Rightarrow> 'w vm" where
  "vm_seqenter addr fl s =
     (let s1 = stack_push I_Nil s;
          s2 = stack_push (I_Recover addr (recoverBase s1) fl 0) s1
      in s2\<lparr>recoverBase := length (stack s2)\<rparr>)"

definition vm_alwaysbegin :: "'w helpers \<Rightarrow> int \<Rightarrow> 'w vm \<Rightarrow> 'w vm option" where
  "vm_alwaysbegin H addr s = do {
     (p, r, b, f, q) \<leftarrow> seq_env s;
     s \<leftarrow> item_wr p (I_Recover addr b (f OR q) 0) s;
     if (f OR q) AND HB_ENDPROC_REQUESTED \<noteq> 0
     then do { v \<leftarrow> hb_stackItemFromTop HB_RECOVER_VALUE s; hb_itemMove H v AtReturn s }
     else Some s }"

definition vm_alwaysend :: "'w helpers \<Rightarrow> 'w vm \<Rightarrow> (bool \<times> 'w vm) option" where
  "vm_alwaysend H s = do {
     (p, r, b, uiPrevAction, uiCurrAction) \<leftarrow> seq_env s;
     let can = (uiPrevAction AND HB_SEQ_CANRECOVER \<noteq> 0);
     let s = s\<lparr>recoverBase := b\<rparr>;
     let a = uiCurrAction OR uiPrevAction;
     let s = setAction (if a AND HB_QUIT_REQUESTED \<noteq> 0 then HB_QUIT_REQUESTED
                        else if a AND HB_BREAK_REQUESTED \<noteq> 0 then HB_BREAK_REQUESTED
                        else if a AND HB_ENDPROC_REQUESTED \<noteq> 0 then HB_ENDPROC_REQUESTED
                        else 0) s;
     s \<leftarrow> hb_stackDec s;
     s \<leftarrow> (if uiCurrAction AND HB_ENDPROC_REQUESTED = 0 \<and>
               uiPrevAction AND HB_ENDPROC_REQUESTED \<noteq> 0
            then hb_stackPopReturn H s else hb_stackPop H s);
     Some (can, s) }"

definition vm_seqend :: "'w helpers \<Rightarrow> 'w vm \<Rightarrow> (bool \<times> 'w vm) option" where
  "vm_seqend H s = do {
     (p, r, b, f, q) \<leftarrow> seq_env s;
     s \<leftarrow> hb_stackDec (s\<lparr>recoverBase := b\<rparr>);
     s \<leftarrow> hb_stackPop H s;
     Some (f AND HB_SEQ_CANRECOVER \<noteq> 0, s) }"

definition vm_seqrecover :: "'w vm \<Rightarrow> (bool \<times> 'w vm) option" where
  "vm_seqrecover s = do {
     (p, r, b, f, q) \<leftarrow> seq_env s;
     s \<leftarrow> hb_stackDec (s\<lparr>recoverBase := b\<rparr>);
     Some (f AND HB_SEQ_CANRECOVER \<noteq> 0, s) }"

text \<open>
  SEND looks at the next opcode: in front of a POP the result is neither pushed
  nor popped.
\<close>

definition vm_send ::
  "'w helpers \<Rightarrow> nat \<Rightarrow> pcptr \<Rightarrow> 'w vm \<Rightarrow> (nat \<times> 'w vm) option" where
  "vm_send H n nxt s = do {
     s \<leftarrow> hb_itemSetNil H AtReturn s;
     s \<leftarrow> hcall H ''hb_vmSend'' [N n] s;
     if opc nxt = HB_P_POP then Some (1, s) else Some (0, hb_stackPushReturn s) }"

definition jump_disp :: "pcptr \<Rightarrow> int" where
  "jump_disp p =
     (if opc p \<in> {HB_P_JUMPNEAR, HB_P_JUMPFALSENEAR, HB_P_JUMPTRUENEAR} then schar (p 1)
      else if opc p \<in> {HB_P_JUMP, HB_P_JUMPFALSE, HB_P_JUMPTRUE} then HB_PCODE_MKSHORT (pc_at p 1)
      else HB_PCODE_MKINT24 (pc_at p 1))"

definition jump_size :: "pcptr \<Rightarrow> int" where
  "jump_size p =
     (if opc p \<in> {HB_P_JUMPNEAR, HB_P_JUMPFALSENEAR, HB_P_JUMPTRUENEAR} then 2
      else if opc p \<in> {HB_P_JUMP, HB_P_JUMPFALSE, HB_P_JUMPTRUE} then 3
      else 4)"

text \<open>\<open>while( *p++ );\<close> from offset \<open>k\<close>: the offset after the terminator.\<close>

partial_function (option) skip_nul :: "pcptr \<Rightarrow> nat \<Rightarrow> nat option" where
  "skip_nul p k = (if p k = 0 then Some (k + 1) else skip_nul p (k + 1))"

text \<open>The string of length \<open>size - 1\<close>; a size of 0 makes the length wrap around.\<close>

definition vm_pushstr :: "bool \<Rightarrow> pcptr \<Rightarrow> nat \<Rightarrow> 'w vm \<Rightarrow> 'w vm option" where
  "vm_pushstr dyn txt nSz s =
     (if nSz = 0 then None
      else Some (if dyn then hb_vmPushString txt (nSz - 1) s
                 else hb_vmPushStringPcode txt (nSz - 1) s))"

text \<open>
  The cases outside the tables, as a function of the state: the new program
  counter, bCanRecover and machine state.
\<close>

definition case_jumps :: "'w ctx \<Rightarrow> 'w istate \<Rightarrow> 'w istate option" where
  "case_jumps C t =
     (let p = pc_at (code C) (nat (pc t)); op = opc p in
      if op \<in> {HB_P_JUMPNEAR, HB_P_JUMP, HB_P_JUMPFAR}
      then Some (t\<lparr>pc := pc t + jump_disp p\<rparr>)
      else if op \<in> {HB_P_JUMPFALSENEAR, HB_P_JUMPFALSE, HB_P_JUMPFALSEFAR}
      then do {
        (b, s) \<leftarrow> hb_vmPopLogical (hlp C) (vmst t);
        Some (t\<lparr>pc := pc t + (if \<not> b then jump_disp p else jump_size p), vmst := s\<rparr>) }
      else do {
        (b, s) \<leftarrow> hb_vmPopLogical (hlp C) (vmst t);
        Some (t\<lparr>pc := pc t + (if b then jump_disp p else jump_size p), vmst := s\<rparr>) })"

definition case_seq :: "'w ctx \<Rightarrow> 'w istate \<Rightarrow> 'w istate option" where
  "case_seq C t =
     (let p = pc_at (code C) (nat (pc t)); op = opc p; s = vmst t;
          target = pc t + HB_PCODE_MKINT24 (pc_at p 1)
      in
      if op = HB_P_SEQALWAYS then
        Some (t\<lparr>pc := pc t + 4, bCanRecover := True,
          vmst := vm_seqenter target
            (HB_SEQ_DOALWAYS OR (if bCanRecover t then HB_SEQ_CANRECOVER else 0)) s\<rparr>)
      else if op = HB_P_ALWAYSBEGIN then do {
        s \<leftarrow> vm_alwaysbegin (hlp C) target s;
        Some (t\<lparr>pc := pc t + 4, vmst := s\<rparr>) }
      else if op = HB_P_ALWAYSEND then do {
        (can, s) \<leftarrow> vm_alwaysend (hlp C) s;
        Some (t\<lparr>pc := pc t + 1, bCanRecover := can, vmst := s\<rparr>) }
      else if op = HB_P_SEQBEGIN then
        Some (t\<lparr>pc := pc t + 4, bCanRecover := True,
          vmst := vm_seqenter target (if bCanRecover t then HB_SEQ_CANRECOVER else 0) s\<rparr>)
      else if op = HB_P_SEQEND then do {
        (can, s) \<leftarrow> vm_seqend (hlp C) s;
        Some (t\<lparr>pc := target, bCanRecover := can, vmst := s\<rparr>) }
      else do {
        (can, s) \<leftarrow> vm_seqrecover s;
        Some (t\<lparr>pc := pc t + 1, bCanRecover := can, vmst := s\<rparr>) })"

definition case_strings :: "'w ctx \<Rightarrow> 'w istate \<Rightarrow> 'w istate option" where
  "case_strings C t =
     (let p = pc_at (code C) (nat (pc t)); op = opc p; s = vmst t; H = hlp C in
      if op = HB_P_PUSHSTRSHORT then do {
        s \<leftarrow> vm_pushstr (bDynCode C) (pc_at p 2) (U8 p 1) s;
        Some (t\<lparr>pc := pc t + 2 + int (U8 p 1), vmst := s\<rparr>) }
      else if op = HB_P_PUSHSTR then do {
        s \<leftarrow> vm_pushstr (bDynCode C) (pc_at p 3) (MKU16 p 1) s;
        Some (t\<lparr>pc := pc t + 3 + int (MKU16 p 1), vmst := s\<rparr>) }
      else if op = HB_P_PUSHSTRLARGE then do {
        let n = HB_PCODE_MKUINT24 (pc_at p 1);
        s \<leftarrow> vm_pushstr (bDynCode C) (pc_at p 4) n s;
        Some (t\<lparr>pc := pc t + 4 + int n, vmst := s\<rparr>) }
      else if op = HB_P_PUSHSTRHIDDEN then
        (let (txt, n) = hdecode H (U8 p 1) (pc_at p 4) (MKU16 p 2) in
         Some (t\<lparr>pc := pc t + 4 + int n, vmst := stack_push (I_String False txt) s\<rparr>))
      else if op = HB_P_MPUSHSTR then do {
        s \<leftarrow> vm_pushstr True (pc_at p 3) (MKU16 p 1) s;
        Some (t\<lparr>pc := pc t + 3 + int (MKU16 p 1), vmst := s\<rparr>) }
      else do {
        let n = HB_PCODE_MKUINT24 (pc_at p 1);
        s \<leftarrow> vm_pushstr True (pc_at p 3) n s;
        Some (t\<lparr>pc := pc t + 4 + int n, vmst := s\<rparr>) })"

definition case_blocks :: "'w ctx \<Rightarrow> 'w istate \<Rightarrow> 'w istate option" where
  "case_blocks C t =
     (let i = nat (pc t); p = pc_at (code C) i; op = opc p; s = vmst t; H = hlp C in
      if op = HB_P_PUSHBLOCK then do {
        let n = MKU16 p 1;
        s \<leftarrow> hcall H ''hb_vmPushBlock'' [N (i + 3), Z (if bDynCode C then int n - 7 else 0)] s;
        Some (t\<lparr>pc := pc t + int n, vmst := s\<rparr>) }
      else if op = HB_P_PUSHBLOCKLARGE then do {
        let n = HB_PCODE_MKUINT24 (pc_at p 1);
        s \<leftarrow> hcall H ''hb_vmPushBlock'' [N (i + 4), Z (if bDynCode C then int n - 8 else 0)] s;
        Some (t\<lparr>pc := pc t + int n, vmst := s\<rparr>) }
      else if op = HB_P_PUSHBLOCKSHORT then do {
        let n = U8 p 1;
        s \<leftarrow> hcall H ''hb_vmPushBlockShort'' [N (i + 2), Z (if bDynCode C then int n - 2 else 0)] s;
        Some (t\<lparr>pc := pc t + int n, vmst := s\<rparr>) }
      else if op = HB_P_MPUSHBLOCK then do {
        let n = MKU16 p 1;
        s \<leftarrow> hcall H ''hb_vmPushMacroBlock'' [N (i + 5), Z (int n - 5), N (MKU16 p 3)] s;
        Some (t\<lparr>pc := pc t + int n, vmst := s\<rparr>) }
      else do {
        let n = HB_PCODE_MKUINT24 (pc_at p 1);
        s \<leftarrow> hcall H ''hb_vmPushMacroBlock'' [N (i + 6), Z (int n - 6), N (MKU16 p 4)] s;
        Some (t\<lparr>pc := pc t + int n, vmst := s\<rparr>) })"

text \<open>SEND, LINE, SWITCH, the debugger's name records and the end of the code.\<close>

definition case_misc :: "'w ctx \<Rightarrow> 'w istate \<Rightarrow> 'w istate option" where
  "case_misc C t =
     (let i = nat (pc t); p = pc_at (code C) i; op = opc p; s = vmst t; H = hlp C in
      if op = HB_P_SEND then do {
        (k, s) \<leftarrow> vm_send H (MKU16 p 1) (pc_at p 3) s;
        Some (t\<lparr>pc := pc t + 3 + int k, vmst := s\<rparr>) }
      else if op = HB_P_SENDSHORT then do {
        (k, s) \<leftarrow> vm_send H (U8 p 1) (pc_at p 2) s;
        Some (t\<lparr>pc := pc t + 2 + int k, vmst := s\<rparr>) }
      else if op = HB_P_LINE then do {
        let s = s\<lparr>uiLineNo := MKU16 p 1\<rparr>;
        s \<leftarrow> (if fDebugging C then hcall H ''hb_vmDebuggerShowLine'' [N (uiLineNo s)] s else Some s);
        Some (t\<lparr>pc := pc t + 3, vmst := s\<rparr>) }
      else if op = HB_P_SWITCH then do {
        (r, s) \<leftarrow> hb_vmSwitch H (code C) (i + 3) (MKU16 p 1) s;
        Some (t\<lparr>pc := r, vmst := s\<rparr>) }
      else if op = HB_P_THREADSTATICS then do {
        s \<leftarrow> hcall H ''hb_vmInitThreadStatics'' [N (MKU16 p 1), N (i + 3)] s;
        Some (t\<lparr>pc := pc t + 3 + 2 * int (MKU16 p 1), vmst := s\<rparr>) }
      else if op = HB_P_LOCALNAME then do {
        s \<leftarrow> hcall H ''hb_vmLocalName'' [N (MKU16 p 1), N (i + 3)] s;
        e \<leftarrow> skip_nul (code C) (i + 3);
        Some (t\<lparr>pc := int e, vmst := s\<rparr>) }
      else if op = HB_P_STATICNAME then do {
        s \<leftarrow> hcall H ''hb_vmStaticName'' [N (U8 p 1), N (MKU16 p 2), N (i + 4)] s;
        e \<leftarrow> skip_nul (code C) (i + 4);
        Some (t\<lparr>pc := int e, vmst := s\<rparr>) }
      else if op = HB_P_MODULENAME then do {
        s \<leftarrow> hcall H ''hb_vmModuleName'' [N (i + 1)] s;
        e \<leftarrow> skip_nul (code C) (i + 1);
        Some (t\<lparr>pc := int e, vmst := s\<rparr>) }
      else if op = HB_P_ENDBLOCK then do {
        s \<leftarrow> hb_stackPopReturn H s;
        Some (t\<lparr>vmst := setAction HB_ENDPROC_REQUESTED s\<rparr>) }
      else if op = HB_P_ENDPROC then
        Some (t\<lparr>vmst := setAction HB_ENDPROC_REQUESTED s\<rparr>)
      else None)"

section \<open>The main loop\<close>

definition case_plain ::
  "'w ctx \<Rightarrow> ('w icase \<times> nat) \<Rightarrow> 'w istate \<Rightarrow> 'w istate option" where
  "case_plain C fl t =
     (case fl of (f, adv) \<Rightarrow> do {
        s \<leftarrow> f (pc_at (code C) (nat (pc t))) (vmst t);
        Some (t\<lparr>pc := pc t + int adv, vmst := s\<rparr>) })"

text \<open>The switch on the opcode.\<close>

definition exec_case :: "'w ctx \<Rightarrow> 'w istate \<Rightarrow> 'w istate option" where
  "exec_case C t =
     (if pc t < 0 then None
      else
        (let op = opc (pc_at (code C) (nat (pc t))) in
         case map_of (cases_plain (hlp C)) op of
           Some fl \<Rightarrow> case_plain C fl t
         | None \<Rightarrow>
             if hb_pcodeIsJump op then case_jumps C t
             else if op \<in> {HB_P_SEQALWAYS, HB_P_ALWAYSBEGIN, HB_P_ALWAYSEND, HB_P_SEQBEGIN,
                           HB_P_SEQEND, HB_P_SEQRECOVER} then case_seq C t
             else if op \<in> {HB_P_PUSHSTRSHORT, HB_P_PUSHSTR, HB_P_PUSHSTRLARGE,
                           HB_P_PUSHSTRHIDDEN, HB_P_MPUSHSTR, HB_P_MPUSHSTRLARGE} then case_strings C t
             else if op \<in> {HB_P_PUSHBLOCK, HB_P_PUSHBLOCKLARGE, HB_P_PUSHBLOCKSHORT,
                           HB_P_MPUSHBLOCK, HB_P_MPUSHBLOCKLARGE} then case_blocks C t
             else case_misc C t))"

datatype 'w after = Loop "'w istate" | Leave "'w istate"

text \<open>
  The \<open>do ... while( bCanRecover )\<close> loops of the ENDPROC and QUIT requests:
  drop envelopes until one with an ALWAYS section is found.  The result is the
  value of bCanRecover after the loop.
\<close>

partial_function (option) unwind_always :: "'w helpers \<Rightarrow> 'w vm \<Rightarrow> (bool \<times> 'w vm) option" where
  "unwind_always H s = do {
     s \<leftarrow> hb_stackRemove H (recoverBase s) s;
     (p, r, b, f, q) \<leftarrow> seq_env s;
     if f AND HB_SEQ_DOALWAYS \<noteq> 0 then Some (True, s)
     else if f AND HB_SEQ_CANRECOVER \<noteq> 0 then unwind_always H (s\<lparr>recoverBase := b\<rparr>)
     else Some (False, s\<lparr>recoverBase := b\<rparr>) }"

text \<open>Continue at the recover address; the request moves into the envelope.\<close>

definition goto_recover :: "'w istate \<Rightarrow> 'w vm \<Rightarrow> 'w istate option" where
  "goto_recover t s = do {
     (p, r, b, f, q) \<leftarrow> seq_env s;
     s \<leftarrow> item_wr p (I_Recover r b f (actionRequest s)) s;
     Some (t\<lparr>pc := r, vmst := setAction 0 s\<rparr>) }"

definition after_case :: "'w ctx \<Rightarrow> 'w istate \<Rightarrow> 'w after option" where
  "after_case C t =
     (let s = vmst t; a = actionRequest s; H = hlp C in
      if a = 0 then Some (Loop t)
      else if a AND HB_ENDPROC_REQUESTED \<noteq> 0 then
        (if bCanRecover t then do {
           (found, s) \<leftarrow> unwind_always H s;
           if found then do { t \<leftarrow> goto_recover t s; Some (Loop t) }
           else Some (Leave (t\<lparr>bCanRecover := False, vmst := setAction 0 s\<rparr>)) }
         else Some (Leave (t\<lparr>vmst := setAction 0 s\<rparr>)))
      else if a AND HB_BREAK_REQUESTED \<noteq> 0 then
        (if bCanRecover t then do {
           s \<leftarrow> hb_stackRemove H (recoverBase s) s;
           t \<leftarrow> goto_recover t s;
           Some (Loop t) }
         else Some (Leave t))
      else if a AND HB_QUIT_REQUESTED \<noteq> 0 then
        (if bCanRecover t then do {
           (found, s) \<leftarrow> unwind_always H s;
           if found then do { t \<leftarrow> goto_recover t s; Some (Loop t) }
           else Some (Leave (t\<lparr>bCanRecover := False, vmst := s\<rparr>)) }
         else Some (Leave t))
      else Some (Loop t))"

definition vm_step :: "'w ctx \<Rightarrow> 'w istate \<Rightarrow> 'w after option" where
  "vm_step C t = do { t \<leftarrow> exec_case C t; after_case C t }"

text \<open>\<open>Malformed\<close> is used by the other machine, for code that is not well formed.\<close>

datatype 'a outcome = Finished 'a | Aborted | OutOfFuel | Malformed

text \<open>At most \<open>fuel\<close> turns of the loop.\<close>

fun vm_run :: "nat \<Rightarrow> 'w ctx \<Rightarrow> 'w istate \<Rightarrow> 'w istate outcome" where
  "vm_run 0 C t = OutOfFuel"
| "vm_run (Suc fuel) C t =
     (case vm_step C t of
        None \<Rightarrow> Aborted
      | Some (Leave t) \<Rightarrow> Finished t
      | Some (Loop t) \<Rightarrow> vm_run fuel C t)"

text \<open>hb_vmExecute from the first opcode.\<close>

definition hb_vmExecute :: "nat \<Rightarrow> 'w ctx \<Rightarrow> 'w vm \<Rightarrow> 'w istate outcome" where
  "hb_vmExecute fuel C s =
     vm_run fuel C \<lparr>pc = 0, vmst = s, bCanRecover = False\<rparr>"

end
