(* ===== verification/ShimNames.thy ===== *)
theory ShimNames
  imports HbPrelude
begin

text \<open>
  The functions declared at the head of every module that hb_compGenLLVMCode
  (compiler/genllvm.c) writes, in the order of the declarations: the name
  after hb_vmsh_ stands for its place in that order.
\<close>

abbreviation (input) vmsh_pushnil :: nat where "vmsh_pushnil \<equiv> 0"
abbreviation (input) vmsh_pushlogical :: nat where "vmsh_pushlogical \<equiv> 1"
abbreviation (input) vmsh_pushint :: nat where "vmsh_pushint \<equiv> 2"
abbreviation (input) vmsh_pushlong :: nat where "vmsh_pushlong \<equiv> 3"
abbreviation (input) vmsh_pushlonglong :: nat where "vmsh_pushlonglong \<equiv> 4"
abbreviation (input) vmsh_pushdouble :: nat where "vmsh_pushdouble \<equiv> 5"
abbreviation (input) vmsh_pushstring :: nat where "vmsh_pushstring \<equiv> 6"
abbreviation (input) vmsh_pushlocal :: nat where "vmsh_pushlocal \<equiv> 7"
abbreviation (input) vmsh_poplocal :: nat where "vmsh_poplocal \<equiv> 8"
abbreviation (input) vmsh_pushstatic :: nat where "vmsh_pushstatic \<equiv> 9"
abbreviation (input) vmsh_popstatic :: nat where "vmsh_popstatic \<equiv> 10"
abbreviation (input) vmsh_pushsymbol :: nat where "vmsh_pushsymbol \<equiv> 11"
abbreviation (input) vmsh_plus :: nat where "vmsh_plus \<equiv> 12"
abbreviation (input) vmsh_minus :: nat where "vmsh_minus \<equiv> 13"
abbreviation (input) vmsh_mult :: nat where "vmsh_mult \<equiv> 14"
abbreviation (input) vmsh_divide :: nat where "vmsh_divide \<equiv> 15"
abbreviation (input) vmsh_modulus :: nat where "vmsh_modulus \<equiv> 16"
abbreviation (input) vmsh_power :: nat where "vmsh_power \<equiv> 17"
abbreviation (input) vmsh_negate :: nat where "vmsh_negate \<equiv> 18"
abbreviation (input) vmsh_equal :: nat where "vmsh_equal \<equiv> 19"
abbreviation (input) vmsh_exactlyequal :: nat where "vmsh_exactlyequal \<equiv> 20"
abbreviation (input) vmsh_notequal :: nat where "vmsh_notequal \<equiv> 21"
abbreviation (input) vmsh_less :: nat where "vmsh_less \<equiv> 22"
abbreviation (input) vmsh_lessequal :: nat where "vmsh_lessequal \<equiv> 23"
abbreviation (input) vmsh_greater :: nat where "vmsh_greater \<equiv> 24"
abbreviation (input) vmsh_greaterequal :: nat where "vmsh_greaterequal \<equiv> 25"
abbreviation (input) vmsh_and :: nat where "vmsh_and \<equiv> 26"
abbreviation (input) vmsh_or :: nat where "vmsh_or \<equiv> 27"
abbreviation (input) vmsh_not :: nat where "vmsh_not \<equiv> 28"
abbreviation (input) vmsh_pop :: nat where "vmsh_pop \<equiv> 29"
abbreviation (input) vmsh_duplicate :: nat where "vmsh_duplicate \<equiv> 30"
abbreviation (input) vmsh_frame :: nat where "vmsh_frame \<equiv> 31"
abbreviation (input) vmsh_function :: nat where "vmsh_function \<equiv> 32"
abbreviation (input) vmsh_do :: nat where "vmsh_do \<equiv> 33"
abbreviation (input) vmsh_retvalue :: nat where "vmsh_retvalue \<equiv> 34"
abbreviation (input) vmsh_poplogical :: nat where "vmsh_poplogical \<equiv> 35"
abbreviation (input) vmsh_fortest :: nat where "vmsh_fortest \<equiv> 36"
abbreviation (input) vmsh_inc :: nat where "vmsh_inc \<equiv> 37"
abbreviation (input) vmsh_dec :: nat where "vmsh_dec \<equiv> 38"
abbreviation (input) vmsh_duplunref :: nat where "vmsh_duplunref \<equiv> 39"
abbreviation (input) vmsh_pushunref :: nat where "vmsh_pushunref \<equiv> 40"
abbreviation (input) vmsh_pluseqpop :: nat where "vmsh_pluseqpop \<equiv> 41"
abbreviation (input) vmsh_minuseqpop :: nat where "vmsh_minuseqpop \<equiv> 42"
abbreviation (input) vmsh_multeqpop :: nat where "vmsh_multeqpop \<equiv> 43"
abbreviation (input) vmsh_diveqpop :: nat where "vmsh_diveqpop \<equiv> 44"
abbreviation (input) vmsh_modeqpop :: nat where "vmsh_modeqpop \<equiv> 45"
abbreviation (input) vmsh_expeqpop :: nat where "vmsh_expeqpop \<equiv> 46"
abbreviation (input) vmsh_deceqpop :: nat where "vmsh_deceqpop \<equiv> 47"
abbreviation (input) vmsh_inceqpop :: nat where "vmsh_inceqpop \<equiv> 48"
abbreviation (input) vmsh_pluseq :: nat where "vmsh_pluseq \<equiv> 49"
abbreviation (input) vmsh_minuseq :: nat where "vmsh_minuseq \<equiv> 50"
abbreviation (input) vmsh_multeq :: nat where "vmsh_multeq \<equiv> 51"
abbreviation (input) vmsh_diveq :: nat where "vmsh_diveq \<equiv> 52"
abbreviation (input) vmsh_modeq :: nat where "vmsh_modeq \<equiv> 53"
abbreviation (input) vmsh_expeq :: nat where "vmsh_expeq \<equiv> 54"
abbreviation (input) vmsh_deceq :: nat where "vmsh_deceq \<equiv> 55"
abbreviation (input) vmsh_inceq :: nat where "vmsh_inceq \<equiv> 56"
abbreviation (input) vmsh_pushlocalref :: nat where "vmsh_pushlocalref \<equiv> 57"
abbreviation (input) vmsh_pushstaticref :: nat where "vmsh_pushstaticref \<equiv> 58"
abbreviation (input) vmsh_localinc :: nat where "vmsh_localinc \<equiv> 59"
abbreviation (input) vmsh_localdec :: nat where "vmsh_localdec \<equiv> 60"
abbreviation (input) vmsh_localincpush :: nat where "vmsh_localincpush \<equiv> 61"
abbreviation (input) vmsh_localaddint :: nat where "vmsh_localaddint \<equiv> 62"
abbreviation (input) vmsh_localnearaddint :: nat where "vmsh_localnearaddint \<equiv> 63"
abbreviation (input) vmsh_arraypush :: nat where "vmsh_arraypush \<equiv> 64"
abbreviation (input) vmsh_arraypushref :: nat where "vmsh_arraypushref \<equiv> 65"
abbreviation (input) vmsh_arraypop :: nat where "vmsh_arraypop \<equiv> 66"
abbreviation (input) vmsh_pushaparams :: nat where "vmsh_pushaparams \<equiv> 67"
abbreviation (input) vmsh_arraydim :: nat where "vmsh_arraydim \<equiv> 68"
abbreviation (input) vmsh_arraygen :: nat where "vmsh_arraygen \<equiv> 69"
abbreviation (input) vmsh_hashgen :: nat where "vmsh_hashgen \<equiv> 70"
abbreviation (input) vmsh_pushalias :: nat where "vmsh_pushalias \<equiv> 71"
abbreviation (input) vmsh_popalias :: nat where "vmsh_popalias \<equiv> 72"
abbreviation (input) vmsh_swapalias :: nat where "vmsh_swapalias \<equiv> 73"
abbreviation (input) vmsh_pushfield :: nat where "vmsh_pushfield \<equiv> 74"
abbreviation (input) vmsh_popfield :: nat where "vmsh_popfield \<equiv> 75"
abbreviation (input) vmsh_pushmemvar :: nat where "vmsh_pushmemvar \<equiv> 76"
abbreviation (input) vmsh_pushmemvarref :: nat where "vmsh_pushmemvarref \<equiv> 77"
abbreviation (input) vmsh_popmemvar :: nat where "vmsh_popmemvar \<equiv> 78"
abbreviation (input) vmsh_pushvariable :: nat where "vmsh_pushvariable \<equiv> 79"
abbreviation (input) vmsh_popvariable :: nat where "vmsh_popvariable \<equiv> 80"
abbreviation (input) vmsh_pushaliasedfield :: nat where "vmsh_pushaliasedfield \<equiv> 81"
abbreviation (input) vmsh_popaliasedfield :: nat where "vmsh_popaliasedfield \<equiv> 82"
abbreviation (input) vmsh_pushaliasedvar :: nat where "vmsh_pushaliasedvar \<equiv> 83"
abbreviation (input) vmsh_popaliasedvar :: nat where "vmsh_popaliasedvar \<equiv> 84"
abbreviation (input) vmsh_pushself :: nat where "vmsh_pushself \<equiv> 85"
abbreviation (input) vmsh_pushovarref :: nat where "vmsh_pushovarref \<equiv> 86"
abbreviation (input) vmsh_withobjectstart :: nat where "vmsh_withobjectstart \<equiv> 87"
abbreviation (input) vmsh_withobjectend :: nat where "vmsh_withobjectend \<equiv> 88"
abbreviation (input) vmsh_funcptr :: nat where "vmsh_funcptr \<equiv> 89"
abbreviation (input) vmsh_message :: nat where "vmsh_message \<equiv> 90"
abbreviation (input) vmsh_withobjectmessage :: nat where "vmsh_withobjectmessage \<equiv> 91"
abbreviation (input) vmsh_send :: nat where "vmsh_send \<equiv> 92"
abbreviation (input) vmsh_enumstart :: nat where "vmsh_enumstart \<equiv> 93"
abbreviation (input) vmsh_enumnext :: nat where "vmsh_enumnext \<equiv> 94"
abbreviation (input) vmsh_enumprev :: nat where "vmsh_enumprev \<equiv> 95"
abbreviation (input) vmsh_enumend :: nat where "vmsh_enumend \<equiv> 96"
abbreviation (input) vmsh_switchidx :: nat where "vmsh_switchidx \<equiv> 97"
abbreviation (input) vmsh_pushblock :: nat where "vmsh_pushblock \<equiv> 98"
abbreviation (input) vmsh_macropushindex :: nat where "vmsh_macropushindex \<equiv> 99"
abbreviation (input) vmsh_macropushref :: nat where "vmsh_macropushref \<equiv> 100"
abbreviation (input) vmsh_macrosymbol :: nat where "vmsh_macrosymbol \<equiv> 101"
abbreviation (input) vmsh_macrotext :: nat where "vmsh_macrotext \<equiv> 102"
abbreviation (input) vmsh_macropop :: nat where "vmsh_macropop \<equiv> 103"
abbreviation (input) vmsh_macropopaliased :: nat where "vmsh_macropopaliased \<equiv> 104"
abbreviation (input) vmsh_macropush :: nat where "vmsh_macropush \<equiv> 105"
abbreviation (input) vmsh_macropushlist :: nat where "vmsh_macropushlist \<equiv> 106"
abbreviation (input) vmsh_macropushpare :: nat where "vmsh_macropushpare \<equiv> 107"
abbreviation (input) vmsh_macropushaliased :: nat where "vmsh_macropushaliased \<equiv> 108"
abbreviation (input) vmsh_macroarraygen :: nat where "vmsh_macroarraygen \<equiv> 109"
abbreviation (input) vmsh_macrodo :: nat where "vmsh_macrodo \<equiv> 110"
abbreviation (input) vmsh_macrofunc :: nat where "vmsh_macrofunc \<equiv> 111"
abbreviation (input) vmsh_macrosend :: nat where "vmsh_macrosend \<equiv> 112"
abbreviation (input) vmsh_seqbegin :: nat where "vmsh_seqbegin \<equiv> 113"
abbreviation (input) vmsh_seqend :: nat where "vmsh_seqend \<equiv> 114"
abbreviation (input) vmsh_seqrecover :: nat where "vmsh_seqrecover \<equiv> 115"
abbreviation (input) vmsh_seqalways :: nat where "vmsh_seqalways \<equiv> 116"
abbreviation (input) vmsh_alwaysbegin :: nat where "vmsh_alwaysbegin \<equiv> 117"
abbreviation (input) vmsh_alwaysend :: nat where "vmsh_alwaysend \<equiv> 118"
abbreviation (input) vmsh_seqblock :: nat where "vmsh_seqblock \<equiv> 119"

text \<open>The types of the arguments, all results being i32.\<close>

datatype llty = T_i32 | T_i64 | T_double | T_i8p | T_symbp | T_i32p

definition shim_decls :: "(string \<times> llty list) list" where
  "shim_decls = [
    (''hb_vmsh_pushnil'', []),
    (''hb_vmsh_pushlogical'', [T_i32]),
    (''hb_vmsh_pushint'', [T_i32]),
    (''hb_vmsh_pushlong'', [T_i64]),
    (''hb_vmsh_pushlonglong'', [T_i64]),
    (''hb_vmsh_pushdouble'', [T_double, T_i32, T_i32]),
    (''hb_vmsh_pushstring'', [T_i8p, T_i64]),
    (''hb_vmsh_pushlocal'', [T_i32]),
    (''hb_vmsh_poplocal'', [T_i32]),
    (''hb_vmsh_pushstatic'', [T_i32]),
    (''hb_vmsh_popstatic'', [T_i32]),
    (''hb_vmsh_pushsymbol'', [T_symbp]),
    (''hb_vmsh_plus'', []),
    (''hb_vmsh_minus'', []),
    (''hb_vmsh_mult'', []),
    (''hb_vmsh_divide'', []),
    (''hb_vmsh_modulus'', []),
    (''hb_vmsh_power'', []),
    (''hb_vmsh_negate'', []),
    (''hb_vmsh_equal'', []),
    (''hb_vmsh_exactlyequal'', []),
    (''hb_vmsh_notequal'', []),
    (''hb_vmsh_less'', []),
    (''hb_vmsh_lessequal'', []),
    (''hb_vmsh_greater'', []),
    (''hb_vmsh_greaterequal'', []),
    (''hb_vmsh_and'', []),
    (''hb_vmsh_or'', []),
    (''hb_vmsh_not'', []),
    (''hb_vmsh_pop'', []),
    (''hb_vmsh_duplicate'', []),
    (''hb_vmsh_frame'', [T_i32, T_i32]),
    (''hb_vmsh_function'', [T_i32]),
    (''hb_vmsh_do'', [T_i32]),
    (''hb_vmsh_retvalue'', []),
    (''hb_vmsh_poplogical'', [T_i32p]),
    (''hb_vmsh_fortest'', []),
    (''hb_vmsh_inc'', []),
    (''hb_vmsh_dec'', []),
    (''hb_vmsh_duplunref'', []),
    (''hb_vmsh_pushunref'', []),
    (''hb_vmsh_pluseqpop'', []),
    (''hb_vmsh_minuseqpop'', []),
    (''hb_vmsh_multeqpop'', []),
    (''hb_vmsh_diveqpop'', []),
    (''hb_vmsh_modeqpop'', []),
    (''hb_vmsh_expeqpop'', []),
    (''hb_vmsh_deceqpop'', []),
    (''hb_vmsh_inceqpop'', []),
    (''hb_vmsh_pluseq'', []),
    (''hb_vmsh_minuseq'', []),
    (''hb_vmsh_multeq'', []),
    (''hb_vmsh_diveq'', []),
    (''hb_vmsh_modeq'', []),
    (''hb_vmsh_expeq'', []),
    (''hb_vmsh_deceq'', []),
    (''hb_vmsh_inceq'', []),
    (''hb_vmsh_pushlocalref'', [T_i32]),
    (''hb_vmsh_pushstaticref'', [T_i32]),
    (''hb_vmsh_localinc'', [T_i32]),
    (''hb_vmsh_localdec'', [T_i32]),
    (''hb_vmsh_localincpush'', [T_i32]),
    (''hb_vmsh_localaddint'', [T_i32, T_i32]),
    (''hb_vmsh_localnearaddint'', [T_i32, T_i32]),
    (''hb_vmsh_arraypush'', []),
    (''hb_vmsh_arraypushref'', []),
    (''hb_vmsh_arraypop'', []),
    (''hb_vmsh_pushaparams'', []),
    (''hb_vmsh_arraydim'', [T_i32]),
    (''hb_vmsh_arraygen'', [T_i32]),
    (''hb_vmsh_hashgen'', [T_i32]),
    (''hb_vmsh_pushalias'', []),
    (''hb_vmsh_popalias'', []),
    (''hb_vmsh_swapalias'', []),
    (''hb_vmsh_pushfield'', [T_symbp]),
    (''hb_vmsh_popfield'', [T_symbp]),
    (''hb_vmsh_pushmemvar'', [T_symbp]),
    (''hb_vmsh_pushmemvarref'', [T_symbp]),
    (''hb_vmsh_popmemvar'', [T_symbp]),
    (''hb_vmsh_pushvariable'', [T_symbp]),
    (''hb_vmsh_popvariable'', [T_symbp]),
    (''hb_vmsh_pushaliasedfield'', [T_symbp]),
    (''hb_vmsh_popaliasedfield'', [T_symbp]),
    (''hb_vmsh_pushaliasedvar'', [T_symbp]),
    (''hb_vmsh_popaliasedvar'', [T_symbp]),
    (''hb_vmsh_pushself'', []),
    (''hb_vmsh_pushovarref'', []),
    (''hb_vmsh_withobjectstart'', []),
    (''hb_vmsh_withobjectend'', []),
    (''hb_vmsh_funcptr'', []),
    (''hb_vmsh_message'', [T_symbp]),
    (''hb_vmsh_withobjectmessage'', [T_symbp]),
    (''hb_vmsh_send'', [T_i32]),
    (''hb_vmsh_enumstart'', [T_i32, T_i32]),
    (''hb_vmsh_enumnext'', []),
    (''hb_vmsh_enumprev'', []),
    (''hb_vmsh_enumend'', []),
    (''hb_vmsh_switchidx'', [T_i8p, T_i32]),
    (''hb_vmsh_pushblock'', [T_i8p, T_symbp]),
    (''hb_vmsh_macropushindex'', []),
    (''hb_vmsh_macropushref'', []),
    (''hb_vmsh_macrosymbol'', []),
    (''hb_vmsh_macrotext'', []),
    (''hb_vmsh_macropop'', [T_i32]),
    (''hb_vmsh_macropopaliased'', [T_i32]),
    (''hb_vmsh_macropush'', [T_i32]),
    (''hb_vmsh_macropushlist'', [T_i32]),
    (''hb_vmsh_macropushpare'', [T_i32]),
    (''hb_vmsh_macropushaliased'', [T_i32]),
    (''hb_vmsh_macroarraygen'', [T_i32]),
    (''hb_vmsh_macrodo'', [T_i32]),
    (''hb_vmsh_macrofunc'', [T_i32]),
    (''hb_vmsh_macrosend'', [T_i32]),
    (''hb_vmsh_seqbegin'', [T_i8p]),
    (''hb_vmsh_seqend'', []),
    (''hb_vmsh_seqrecover'', []),
    (''hb_vmsh_seqalways'', [T_i8p]),
    (''hb_vmsh_alwaysbegin'', [T_i8p]),
    (''hb_vmsh_alwaysend'', []),
    (''hb_vmsh_seqblock'', [])]"

end
