(* ===== verification/LlvmIR.thy ===== *)
theory LlvmIR
  imports Interp ShimNames
begin

text \<open>
  The subset of LLVM IR that compiler/genllvm.c emits for a function body: its
  lines as a datatype, and their meaning.  A function is the list of its
  lines; a block runs from a label to the first terminator.  An undefined
  register, a missing label or a block without terminator is \<open>Malformed\<close>.
\<close>

section \<open>Lines\<close>

text \<open>
  A call names its function by the place in shim_decls.
  Labels: entry, epilogue, i<pos>, jpdone<pos>, ipfs<pos>a, seqd<stem><pos>,
  seqq<stem><pos>.  Registers: %<prefix><pos><suffix>.
\<close>

datatype lab =
    L_entry | L_epilogue | L_i int | L_jpdone nat | L_ipfsa nat
  | L_seqd string nat | L_seqq string nat

datatype reg = Reg string nat string

text \<open>
  Arguments of a call: i32, i64 and double constants, the address of an entry
  of @symbols_table (with the table's size), a null symbol pointer, the string
  constant @.sl.str.<n> (with its size), an address in @.pcode.<func> (with its
  size) and a stack slot.
\<close>

datatype arg =
    A_i32 int | A_i64 int | A_double "64 word"
  | A_symb nat nat | A_null | A_str nat nat | A_pcode nat int | A_slot reg

datatype line =
    Ln_label lab
  | Ln_alloca reg
  | Ln_call reg nat "arg list"
  | Ln_icmp_ne reg reg int
  | Ln_icmp_eq reg reg int
  | Ln_load reg reg
  | Ln_br lab
  | Ln_cbr reg lab lab
  | Ln_switch reg lab "(int \<times> lab) list"
  | Ln_ret

section \<open>Meaning\<close>

datatype val = V_int int | V_double "64 word" | V_symb nat | V_null | V_mem pcptr | V_pcode int
  | V_slot reg

text \<open>A called function: its i32 result and the i32 it stores through a slot.\<close>

type_synonym 'w callee = "nat \<Rightarrow> val list \<Rightarrow> 'w vm \<Rightarrow> (int \<times> int option \<times> 'w vm) option"

record frame =
  regs :: "reg \<Rightarrow> int option"
  slots :: "reg \<Rightarrow> int option"

definition frame0 :: frame where
  "frame0 = \<lparr>regs = (\<lambda>r. None), slots = (\<lambda>r. None)\<rparr>"

text \<open>\<open>strs\<close> are the module's string constants.\<close>

fun eval_arg :: "(nat \<Rightarrow> HB_BYTE list) \<Rightarrow> arg \<Rightarrow> val" where
  "eval_arg strs (A_i32 i) = V_int i"
| "eval_arg strs (A_i64 i) = V_int i"
| "eval_arg strs (A_double w) = V_double w"
| "eval_arg strs (A_symb n k) = V_symb k"
| "eval_arg strs A_null = V_null"
| "eval_arg strs (A_str n k) = V_mem (pc_of_list (strs k))"
| "eval_arg strs (A_pcode n k) = V_pcode k"
| "eval_arg strs (A_slot r) = V_slot r"

fun slot_of :: "val list \<Rightarrow> reg option" where
  "slot_of [] = None"
| "slot_of (V_slot r # vs) = Some r"
| "slot_of (v # vs) = slot_of vs"

definition store_out :: "val list \<Rightarrow> int option \<Rightarrow> frame \<Rightarrow> frame" where
  "store_out vs out fr =
     (case (slot_of vs, out) of
        (Some r, Some v) \<Rightarrow> fr\<lparr>slots := (slots fr)(r := Some v)\<rparr>
      | _ \<Rightarrow> fr)"

datatype 'w bres = B_goto lab frame "'w vm" | B_ret "'w vm" | B_abort | B_bad

definition set_reg :: "reg \<Rightarrow> int \<Rightarrow> frame \<Rightarrow> frame" where
  "set_reg r v fr = fr\<lparr>regs := (regs fr)(r := Some v)\<rparr>"

fun run_block ::
  "'w callee \<Rightarrow> (nat \<Rightarrow> HB_BYTE list) \<Rightarrow> line list \<Rightarrow> frame \<Rightarrow> 'w vm \<Rightarrow> 'w bres" where
  "run_block F strs [] fr s = B_bad"
| "run_block F strs (Ln_label l # ls) fr s = B_bad"
| "run_block F strs (Ln_alloca r # ls) fr s = run_block F strs ls fr s"
| "run_block F strs (Ln_call r f as # ls) fr s =
     (let vs = map (eval_arg strs) as in
      case F f vs s of
        None \<Rightarrow> B_abort
      | Some (v, out, s1) \<Rightarrow> run_block F strs ls (store_out vs out (set_reg r v fr)) s1)"
| "run_block F strs (Ln_icmp_ne d r k # ls) fr s =
     (case regs fr r of
        None \<Rightarrow> B_bad
      | Some v \<Rightarrow> run_block F strs ls (set_reg d (if v \<noteq> k then 1 else 0) fr) s)"
| "run_block F strs (Ln_icmp_eq d r k # ls) fr s =
     (case regs fr r of
        None \<Rightarrow> B_bad
      | Some v \<Rightarrow> run_block F strs ls (set_reg d (if v = k then 1 else 0) fr) s)"
| "run_block F strs (Ln_load d r # ls) fr s =
     (case slots fr r of
        None \<Rightarrow> B_bad
      | Some v \<Rightarrow> run_block F strs ls (set_reg d v fr) s)"
| "run_block F strs (Ln_br l # ls) fr s = B_goto l fr s"
| "run_block F strs (Ln_cbr r a b # ls) fr s =
     (case regs fr r of
        None \<Rightarrow> B_bad
      | Some v \<Rightarrow> B_goto (if v \<noteq> 0 then a else b) fr s)"
| "run_block F strs (Ln_switch r d cases # ls) fr s =
     (case regs fr r of
        None \<Rightarrow> B_bad
      | Some v \<Rightarrow> B_goto (case map_of cases v of None \<Rightarrow> d | Some l \<Rightarrow> l) fr s)"
| "run_block F strs (Ln_ret # ls) fr s = B_ret s"

fun find_block :: "lab \<Rightarrow> line list \<Rightarrow> line list option" where
  "find_block l [] = None"
| "find_block l (x # xs) = (if x = Ln_label l then Some xs else find_block l xs)"

text \<open>At most \<open>fuel\<close> blocks.\<close>

fun run_ir ::
  "nat \<Rightarrow> 'w callee \<Rightarrow> (nat \<Rightarrow> HB_BYTE list) \<Rightarrow> line list \<Rightarrow> lab \<Rightarrow> frame \<Rightarrow> 'w vm \<Rightarrow>
   'w vm outcome" where
  "run_ir 0 F strs prog l fr s = OutOfFuel"
| "run_ir (Suc fuel) F strs prog l fr s =
     (case find_block l prog of
        None \<Rightarrow> Malformed
      | Some ls \<Rightarrow>
          (case run_block F strs ls fr s of
             B_goto l1 fr1 s1 \<Rightarrow> run_ir fuel F strs prog l1 fr1 s1
           | B_ret s1 \<Rightarrow> Finished s1
           | B_abort \<Rightarrow> Aborted
           | B_bad \<Rightarrow> Malformed))"

definition run_function ::
  "nat \<Rightarrow> 'w callee \<Rightarrow> (nat \<Rightarrow> HB_BYTE list) \<Rightarrow> line list \<Rightarrow> 'w vm \<Rightarrow> 'w vm outcome" where
  "run_function fuel F strs prog s = run_ir fuel F strs prog L_entry frame0 s"

section \<open>Labels\<close>

definition labels :: "line list \<Rightarrow> lab list" where
  "labels ls = concat (map (\<lambda>x. case x of Ln_label l \<Rightarrow> [l] | _ \<Rightarrow> []) ls)"

lemma labels_append [simp]: "labels (xs @ ys) = labels xs @ labels ys"
  by (simp add: labels_def)

lemma labels_Nil [simp]: "labels [] = []"
  by (simp add: labels_def)

lemma labels_Cons [simp]:
  "labels (x # xs) = (case x of Ln_label l \<Rightarrow> [l] | _ \<Rightarrow> []) @ labels xs"
  by (simp add: labels_def)

lemma find_block_append:
  "find_block l (xs @ ys) =
     (case find_block l xs of Some zs \<Rightarrow> Some (zs @ ys) | None \<Rightarrow> find_block l ys)"
  by (induction xs) auto

lemma find_block_None_iff: "find_block l xs = None \<longleftrightarrow> l \<notin> set (labels xs)"
  by (induction xs) (auto split: line.splits)

lemma find_block_skip: "l \<notin> set (labels xs) \<Longrightarrow> find_block l (xs @ ys) = find_block l ys"
  by (simp add: find_block_append find_block_None_iff[THEN iffD2])

definition terminator :: "line \<Rightarrow> bool" where
  "terminator x \<longleftrightarrow> (case x of Ln_br l \<Rightarrow> True | Ln_cbr r a b \<Rightarrow> True
     | Ln_switch r d cs \<Rightarrow> True | Ln_ret \<Rightarrow> True | _ \<Rightarrow> False)"

text \<open>More fuel does not change the result of a run that ended.\<close>

lemma run_ir_more:
  "run_ir k F strs prog l fr s = r \<Longrightarrow> r \<noteq> OutOfFuel \<Longrightarrow> k \<le> k' \<Longrightarrow>
   run_ir k' F strs prog l fr s = r"
proof (induction k arbitrary: l fr s k')
  case (Suc k)
  then obtain j where "k' = Suc j" "k \<le> j" by (cases k') auto
  with Suc show ?case by (auto split: option.splits bres.splits)
qed auto

lemma vm_run_more:
  "vm_run k C t = r \<Longrightarrow> r \<noteq> OutOfFuel \<Longrightarrow> k \<le> k' \<Longrightarrow> vm_run k' C t = r"
proof (induction k arbitrary: t k')
  case (Suc k)
  then obtain j where "k' = Suc j" "k \<le> j" by (cases k') auto
  with Suc show ?case by (auto split: option.splits after.splits)
qed auto

end
