(* ===== verification/Shims.thy ===== *)
theory Shims
  imports LlvmIR
begin

text \<open>
  The functions hb_vmsh_<name> at the end of vm/hvm.c, called by the
  straight-line code.  A row of a table is a shim that ends with
  \<open>return hb_stackGetActionRequest()\<close>, with what it does before; the others
  have definitions of their own.  The C source repeats the text of the
  interpreter's cases in the shims, and so do these definitions.
\<close>

section \<open>Arguments\<close>

definition ush :: "int \<Rightarrow> nat" where "ush i = nat (i mod 65536)"
definition uch :: "int \<Rightarrow> nat" where "uch i = nat (i mod 256)"

definition hsz :: "int \<Rightarrow> nat" where "hsz i = nat (i mod 2 ^ 64)"

text \<open>\<open>( int ) n\<close> of a 64-bit value.\<close>

definition int32 :: "int \<Rightarrow> int" where "int32 n = sint (word_of_int n :: 32 word)"

definition sh0 :: "('w vm \<Rightarrow> 'w vm option) \<Rightarrow> val list \<Rightarrow> 'w vm \<Rightarrow> 'w vm option" where
  "sh0 f vs s = (case vs of [] \<Rightarrow> f s | _ \<Rightarrow> None)"

definition sh1 :: "(int \<Rightarrow> 'w vm \<Rightarrow> 'w vm option) \<Rightarrow> val list \<Rightarrow> 'w vm \<Rightarrow> 'w vm option" where
  "sh1 f vs s = (case vs of [V_int i] \<Rightarrow> f i s | _ \<Rightarrow> None)"

definition sh2 :: "(int \<Rightarrow> int \<Rightarrow> 'w vm \<Rightarrow> 'w vm option) \<Rightarrow> val list \<Rightarrow> 'w vm \<Rightarrow> 'w vm option" where
  "sh2 f vs s = (case vs of [V_int i, V_int j] \<Rightarrow> f i j s | _ \<Rightarrow> None)"

definition shS :: "(nat \<Rightarrow> 'w vm \<Rightarrow> 'w vm option) \<Rightarrow> val list \<Rightarrow> 'w vm \<Rightarrow> 'w vm option" where
  "shS f vs s = (case vs of [V_symb k] \<Rightarrow> f k s | _ \<Rightarrow> None)"

type_synonym 'w shim_row = "nat \<times> (val list \<Rightarrow> 'w vm \<Rightarrow> 'w vm option)"

section \<open>Literals, variables, symbols\<close>

definition hb_vmsh_pushlogical :: "int \<Rightarrow> 'w vm \<Rightarrow> 'w vm option" where
  "hb_vmsh_pushlogical fValue s = Some (stack_push (I_Logical (fValue \<noteq> 0)) s)"

definition hb_vmsh_pushdouble :: "'w helpers \<Rightarrow> val list \<Rightarrow> 'w vm \<Rightarrow> 'w vm option" where
  "hb_vmsh_pushdouble H vs s =
     (case vs of
        [V_double d, V_int iWidth, V_int iDec] \<Rightarrow> Some (hb_vmPushDoubleConst H d iWidth iDec s)
      | _ \<Rightarrow> None)"

definition hb_vmsh_pushstring :: "val list \<Rightarrow> 'w vm \<Rightarrow> 'w vm option" where
  "hb_vmsh_pushstring vs s =
     (case vs of
        [V_mem szText, V_int nLength] \<Rightarrow>
          (if nLength < 0 then None else Some (hb_vmPushString szText (nat nLength) s))
      | _ \<Rightarrow> None)"

definition shims_push :: "'w helpers \<Rightarrow> 'w shim_row list" where
  "shims_push H = [
    (vmsh_pushnil, sh0 (\<lambda>s. Some (stack_push I_Nil s))),
    (vmsh_pushlogical, sh1 hb_vmsh_pushlogical),
    (vmsh_pushint, sh1 (\<lambda>iValue s. Some (hb_vmPushInteger iValue s))),
    (vmsh_pushlong, sh1 (\<lambda>nValue s. Some (hb_vmPushIntegerConst (int32 nValue) s))),
    (vmsh_pushlonglong, sh1 (\<lambda>llValue s. Some (hb_vmPushLongLongConst llValue s))),
    (vmsh_pushdouble, hb_vmsh_pushdouble H),
    (vmsh_pushstring, hb_vmsh_pushstring),
    (vmsh_pushlocal, sh1 (hb_vmPushLocal H)),
    (vmsh_poplocal, sh1 (hb_vmPopLocal H)),
    (vmsh_pushstatic, sh1 (\<lambda>iStatic. hb_vmPushStatic H (ush iStatic))),
    (vmsh_popstatic, sh1 (\<lambda>iStatic. hb_vmPopStatic H (ush iStatic))),
    (vmsh_pushsymbol, shS (\<lambda>pSym s. Some (hb_vmPushSymbol pSym s)))]"

section \<open>Operators\<close>

definition sh_call0 :: "'w helpers \<Rightarrow> string \<Rightarrow> 'w vm \<Rightarrow> 'w vm option" where
  "sh_call0 H f s = hcall H f [] s"

text \<open>hb_vmsh_plus and its siblings.\<close>

definition hb_vmsh_binop :: "'w helpers \<Rightarrow> string \<Rightarrow> 'w vm \<Rightarrow> 'w vm option" where
  "hb_vmsh_binop H f s = do {
     r \<leftarrow> hb_stackItemFromTop (- 2) s;
     a \<leftarrow> hb_stackItemFromTop (- 2) s;
     b \<leftarrow> hb_stackItemFromTop (- 1) s;
     s \<leftarrow> hcall H f [L r, L a, L b] s;
     hb_stackPop H s }"

text \<open>hb_vmsh_pluseqpop and its siblings.\<close>

definition hb_vmsh_opeqpop :: "'w helpers \<Rightarrow> string \<Rightarrow> 'w vm \<Rightarrow> 'w vm option" where
  "hb_vmsh_opeqpop H f s = do {
     a \<leftarrow> hb_stackItemFromTop (- 2) s;
     (pResult, s) \<leftarrow> hunref H a s;
     b \<leftarrow> hb_stackItemFromTop (- 1) s;
     s \<leftarrow> hcall H f [L pResult, L pResult, L b] s;
     s \<leftarrow> hb_stackPop H s;
     hb_stackPop H s }"

definition hb_vmsh_incdeceqpop :: "'w helpers \<Rightarrow> string \<Rightarrow> 'w vm \<Rightarrow> 'w vm option" where
  "hb_vmsh_incdeceqpop H f s = do {
     a \<leftarrow> hb_stackItemFromTop (- 1) s;
     (q, s) \<leftarrow> hunref H a s;
     s \<leftarrow> hcall H f [L q] s;
     hb_stackPop H s }"

text \<open>hb_vmsh_pluseq and its siblings.\<close>

definition hb_vmsh_opeq :: "'w helpers \<Rightarrow> string \<Rightarrow> 'w vm \<Rightarrow> 'w vm option" where
  "hb_vmsh_opeq H f s = do {
     a \<leftarrow> hb_stackItemFromTop (- 2) s;
     (pResult, s) \<leftarrow> hunref H a s;
     pValue \<leftarrow> hb_stackItemFromTop (- 1) s;
     s \<leftarrow> hcall H f [L pResult, L pResult, L pValue] s;
     s \<leftarrow> hb_itemCopy H pValue pResult s;
     d \<leftarrow> hb_stackItemFromTop (- 2) s;
     s \<leftarrow> hb_itemMove H d pValue s;
     hb_stackDec s }"

definition hb_vmsh_incdeceq :: "'w helpers \<Rightarrow> string \<Rightarrow> 'w vm \<Rightarrow> 'w vm option" where
  "hb_vmsh_incdeceq H f s = do {
     pResult \<leftarrow> hb_stackItemFromTop (- 1) s;
     (pValue, s) \<leftarrow> hunref H pResult s;
     s \<leftarrow> hcall H f [L pValue] s;
     let (pTemp, s) = hb_stackAllocItem s;
     s \<leftarrow> hb_itemCopy H pTemp pValue s;
     s \<leftarrow> hb_itemMove H pResult pTemp s;
     hb_stackDec s }"

definition hb_vmsh_incdec :: "'w helpers \<Rightarrow> string \<Rightarrow> 'w vm \<Rightarrow> 'w vm option" where
  "hb_vmsh_incdec H f s = do { a \<leftarrow> hb_stackItemFromTop (- 1) s; hcall H f [L a] s }"

definition shims_arith :: "'w helpers \<Rightarrow> 'w shim_row list" where
  "shims_arith H = [
    (vmsh_plus, sh0 (hb_vmsh_binop H ''hb_vmPlus'')),
    (vmsh_minus, sh0 (hb_vmsh_binop H ''hb_vmMinus'')),
    (vmsh_mult, sh0 (hb_vmsh_binop H ''hb_vmMult'')),
    (vmsh_divide, sh0 (hb_vmsh_binop H ''hb_vmDivide'')),
    (vmsh_modulus, sh0 (hb_vmsh_binop H ''hb_vmModulus'')),
    (vmsh_power, sh0 (hb_vmsh_binop H ''hb_vmPower'')),
    (vmsh_negate, sh0 (sh_call0 H ''hb_vmNegate'')),
    (vmsh_equal, sh0 (sh_call0 H ''hb_vmEqual'')),
    (vmsh_exactlyequal, sh0 (sh_call0 H ''hb_vmExactlyEqual'')),
    (vmsh_notequal, sh0 (sh_call0 H ''hb_vmNotEqual'')),
    (vmsh_less, sh0 (sh_call0 H ''hb_vmLess'')),
    (vmsh_lessequal, sh0 (sh_call0 H ''hb_vmLessEqual'')),
    (vmsh_greater, sh0 (sh_call0 H ''hb_vmGreater'')),
    (vmsh_greaterequal, sh0 (sh_call0 H ''hb_vmGreaterEqual''))]"

definition shims_logic :: "'w helpers \<Rightarrow> 'w shim_row list" where
  "shims_logic H = [
    (vmsh_and, sh0 (hb_vmAnd H)),
    (vmsh_or, sh0 (hb_vmOr H)),
    (vmsh_not, sh0 (hb_vmNot H)),
    (vmsh_pop, sh0 (hb_stackPop H)),
    (vmsh_duplicate, sh0 (hb_vmDuplicate H))]"

section \<open>Frames, calls, return value\<close>

definition hb_vmsh_function :: "'w helpers \<Rightarrow> int \<Rightarrow> 'w vm \<Rightarrow> 'w vm option" where
  "hb_vmsh_function H iParams s = do {
     s \<leftarrow> hb_itemSetNil H AtReturn s;
     s \<leftarrow> hcall H ''hb_vmProc'' [N (ush iParams)] s;
     Some (hb_stackPushReturn s) }"

definition hb_vmsh_retvalue :: "'w helpers \<Rightarrow> 'w vm \<Rightarrow> 'w vm option" where
  "hb_vmsh_retvalue H s = do {
     s \<leftarrow> hb_stackPopReturn H s;
     Some (s\<lparr>retItem := clear_memoflag (retItem s)\<rparr>) }"

definition shims_call :: "'w helpers \<Rightarrow> 'w shim_row list" where
  "shims_call H = [
    (vmsh_frame, sh2 (\<lambda>iLocals iParams. hcall H ''hb_vmFrame'' [N (ush iLocals), N (uch iParams)])),
    (vmsh_function, sh1 (hb_vmsh_function H)),
    (vmsh_do, sh1 (\<lambda>iParams. hcall H ''hb_vmProc'' [N (ush iParams)])),
    (vmsh_retvalue, sh0 (hb_vmsh_retvalue H))]"

definition hb_vmsh_localincdec :: "'w helpers \<Rightarrow> string \<Rightarrow> int \<Rightarrow> 'w vm \<Rightarrow> 'w vm option" where
  "hb_vmsh_localincdec H f iLocal s = do {
     (q, s) \<leftarrow> unref_if H (hb_stackLocalVariable iLocal s) s;
     hcall H f [L q] s }"

definition hb_vmsh_localincpush :: "'w helpers \<Rightarrow> int \<Rightarrow> 'w vm \<Rightarrow> 'w vm option" where
  "hb_vmsh_localincpush H iLocal s = do {
     (q, s) \<leftarrow> unref_if H (hb_stackLocalVariable iLocal s) s;
     s \<leftarrow> hcall H ''hb_vmInc'' [L q] s;
     let (p, s) = hb_stackAllocItem s;
     hb_itemCopy H p q s }"

definition hb_vmsh_addint :: "'w helpers \<Rightarrow> int \<Rightarrow> int \<Rightarrow> 'w vm \<Rightarrow> 'w vm option" where
  "hb_vmsh_addint H iLocal iAdd s =
     hcall H ''hb_vmAddInt'' [L (hb_stackLocalVariable iLocal s), Z iAdd] s"

text \<open>Group A.\<close>

definition shims_A :: "'w helpers \<Rightarrow> 'w shim_row list" where
  "shims_A H = [
    (vmsh_fortest, sh0 (sh_call0 H ''hb_vmForTest'')),
    (vmsh_inc, sh0 (hb_vmsh_incdec H ''hb_vmInc'')),
    (vmsh_dec, sh0 (hb_vmsh_incdec H ''hb_vmDec'')),
    (vmsh_duplunref, sh0 (hb_vmDuplUnRef H)),
    (vmsh_pushunref, sh0 (hb_vmPushUnRef H)),
    (vmsh_pluseqpop, sh0 (hb_vmsh_opeqpop H ''hb_vmPlus'')),
    (vmsh_minuseqpop, sh0 (hb_vmsh_opeqpop H ''hb_vmMinus'')),
    (vmsh_multeqpop, sh0 (hb_vmsh_opeqpop H ''hb_vmMult'')),
    (vmsh_diveqpop, sh0 (hb_vmsh_opeqpop H ''hb_vmDivide'')),
    (vmsh_modeqpop, sh0 (hb_vmsh_opeqpop H ''hb_vmModulus'')),
    (vmsh_expeqpop, sh0 (hb_vmsh_opeqpop H ''hb_vmPower'')),
    (vmsh_deceqpop, sh0 (hb_vmsh_incdeceqpop H ''hb_vmDec'')),
    (vmsh_inceqpop, sh0 (hb_vmsh_incdeceqpop H ''hb_vmInc''))]"

definition shims_assign :: "'w helpers \<Rightarrow> 'w shim_row list" where
  "shims_assign H = [
    (vmsh_pluseq, sh0 (hb_vmsh_opeq H ''hb_vmPlus'')),
    (vmsh_minuseq, sh0 (hb_vmsh_opeq H ''hb_vmMinus'')),
    (vmsh_multeq, sh0 (hb_vmsh_opeq H ''hb_vmMult'')),
    (vmsh_diveq, sh0 (hb_vmsh_opeq H ''hb_vmDivide'')),
    (vmsh_modeq, sh0 (hb_vmsh_opeq H ''hb_vmModulus'')),
    (vmsh_expeq, sh0 (hb_vmsh_opeq H ''hb_vmPower'')),
    (vmsh_deceq, sh0 (hb_vmsh_incdeceq H ''hb_vmDec'')),
    (vmsh_inceq, sh0 (hb_vmsh_incdeceq H ''hb_vmInc''))]"

definition shims_locals :: "'w helpers \<Rightarrow> 'w shim_row list" where
  "shims_locals H = [
    (vmsh_pushlocalref, sh1 (hb_vmPushLocalByRef H)),
    (vmsh_pushstaticref, sh1 (\<lambda>iStatic. hb_vmPushStaticByRef H (ush iStatic))),
    (vmsh_localinc, sh1 (hb_vmsh_localincdec H ''hb_vmInc'')),
    (vmsh_localdec, sh1 (hb_vmsh_localincdec H ''hb_vmDec'')),
    (vmsh_localincpush, sh1 (hb_vmsh_localincpush H)),
    (vmsh_localaddint, sh2 (hb_vmsh_addint H)),
    (vmsh_localnearaddint, sh2 (hb_vmsh_addint H))]"

text \<open>Group B.\<close>

definition shims_B :: "'w helpers \<Rightarrow> 'w shim_row list" where
  "shims_B H = [
    (vmsh_arraypush, sh0 (sh_call0 H ''hb_vmArrayPush'')),
    (vmsh_arraypushref, sh0 (sh_call0 H ''hb_vmArrayPushRef'')),
    (vmsh_arraypop, sh0 (sh_call0 H ''hb_vmArrayPop'')),
    (vmsh_pushaparams, sh0 (sh_call0 H ''hb_vmPushAParams'')),
    (vmsh_arraydim, sh1 (\<lambda>iCount. hcall H ''hb_vmArrayDim'' [N (ush iCount)])),
    (vmsh_arraygen, sh1 (\<lambda>iCount. hcall H ''hb_vmArrayGen'' [N (hsz iCount)])),
    (vmsh_hashgen, sh1 (\<lambda>iCount. hcall H ''hb_vmHashGen'' [N (hsz iCount)]))]"

section \<open>Fields, memory variables, objects, macros\<close>

text \<open>Group C.\<close>

definition hb_vmsh_fill :: "'w helpers \<Rightarrow> string \<Rightarrow> nat \<Rightarrow> 'w vm \<Rightarrow> 'w vm option" where
  "hb_vmsh_fill H f pSym s = (let (q, s1) = hb_stackAllocItem s in hcall H f [L q, N pSym] s1)"

definition hb_vmsh_popfield :: "'w helpers \<Rightarrow> nat \<Rightarrow> 'w vm \<Rightarrow> 'w vm option" where
  "hb_vmsh_popfield H pSym s = do {
     a \<leftarrow> hb_stackItemFromTop (- 1) s;
     s \<leftarrow> hcall H ''hb_rddPutFieldValue'' [L a, N pSym] s;
     hb_stackPop H s }"

definition hb_vmsh_popmemvar :: "'w helpers \<Rightarrow> nat \<Rightarrow> 'w vm \<Rightarrow> 'w vm option" where
  "hb_vmsh_popmemvar H pSym s = do {
     a \<leftarrow> hb_stackItemFromTop (- 1) s;
     s \<leftarrow> hcall H ''hb_memvarSetValue'' [N pSym, L a] s;
     hb_stackPop H s }"

definition shims_C :: "'w helpers \<Rightarrow> 'w shim_row list" where
  "shims_C H = [
    (vmsh_pushalias, sh0 (sh_call0 H ''hb_vmPushAlias'')),
    (vmsh_popalias, sh0 (sh_call0 H ''hb_vmPopAlias'')),
    (vmsh_swapalias, sh0 (sh_call0 H ''hb_vmSwapAlias'')),
    (vmsh_pushfield, shS (hb_vmsh_fill H ''hb_rddGetFieldValue'')),
    (vmsh_popfield, shS (hb_vmsh_popfield H)),
    (vmsh_pushmemvar, shS (hb_vmsh_fill H ''hb_memvarGetValue'')),
    (vmsh_pushmemvarref, shS (hb_vmsh_fill H ''hb_memvarGetRefer'')),
    (vmsh_popmemvar, shS (hb_vmsh_popmemvar H)),
    (vmsh_pushvariable, shS (\<lambda>pSym. hcall H ''hb_vmPushVariable'' [N pSym])),
    (vmsh_popvariable, shS (hb_vmsh_popmemvar H)),
    (vmsh_pushaliasedfield, shS (\<lambda>pSym. hcall H ''hb_vmPushAliasedField'' [N pSym])),
    (vmsh_popaliasedfield, shS (\<lambda>pSym. hcall H ''hb_vmPopAliasedField'' [N pSym])),
    (vmsh_pushaliasedvar, shS (\<lambda>pSym. hcall H ''hb_vmPushAliasedVar'' [N pSym])),
    (vmsh_popaliasedvar, shS (\<lambda>pSym. hcall H ''hb_vmPopAliasedVar'' [N pSym]))]"

text \<open>Groups D and E.\<close>

definition hb_vmsh_withobjectend :: "'w helpers \<Rightarrow> 'w vm \<Rightarrow> 'w vm option" where
  "hb_vmsh_withobjectend H s = do { s \<leftarrow> hb_stackPop H s; hb_stackPop H s }"

definition hb_vmsh_withobjectmessage :: "'w helpers \<Rightarrow> val list \<Rightarrow> 'w vm \<Rightarrow> 'w vm option" where
  "hb_vmsh_withobjectmessage H vs s = do {
     s \<leftarrow> (case vs of
             [V_symb pSym] \<Rightarrow> Some (hb_vmPushSymbol pSym s)
           | [V_null] \<Rightarrow> Some s
           | _ \<Rightarrow> None);
     case hb_stackWithObjectItem s of
       Some pWith \<Rightarrow> hb_vmPush H pWith s
     | None \<Rightarrow> Some (stack_push I_Nil s) }"

definition hb_vmsh_send :: "'w helpers \<Rightarrow> int \<Rightarrow> 'w vm \<Rightarrow> 'w vm option" where
  "hb_vmsh_send H uiParams s = do {
     s \<leftarrow> hb_itemSetNil H AtReturn s;
     s \<leftarrow> hcall H ''hb_vmSend'' [N (ush uiParams)] s;
     Some (hb_stackPushReturn s) }"

definition shims_DE :: "'w helpers \<Rightarrow> 'w shim_row list" where
  "shims_DE H = [
    (vmsh_pushself, sh0 (\<lambda>s. hb_vmPush H (hb_stackSelfItem s) s)),
    (vmsh_pushovarref, sh0 (sh_call0 H ''hb_vmPushObjectVarRef'')),
    (vmsh_withobjectstart, sh0 (sh_call0 H ''hb_vmWithObjectStart'')),
    (vmsh_withobjectend, sh0 (hb_vmsh_withobjectend H)),
    (vmsh_funcptr, sh0 (sh_call0 H ''hb_vmFuncPtr'')),
    (vmsh_message, shS (\<lambda>pSym s. Some (hb_vmPushSymbol pSym s))),
    (vmsh_withobjectmessage, hb_vmsh_withobjectmessage H),
    (vmsh_send, sh1 (hb_vmsh_send H)),
    (vmsh_enumstart, sh2 (\<lambda>nVars nDescend. hcall H ''hb_vmEnumStart'' [N (uch nVars), N (uch nDescend)])),
    (vmsh_enumnext, sh0 (sh_call0 H ''hb_vmEnumNext'')),
    (vmsh_enumprev, sh0 (sh_call0 H ''hb_vmEnumPrev'')),
    (vmsh_enumend, sh0 (hb_vmEnumEnd H))]"

text \<open>Group H, and the last shim of group I.\<close>

definition sh_macro1 :: "'w helpers \<Rightarrow> string \<Rightarrow> harg list \<Rightarrow> 'w vm \<Rightarrow> 'w vm option" where
  "sh_macro1 H f as s = do {
     a \<leftarrow> hb_stackItemFromTop (- 1) s; hcall H f (L a # as) s }"

definition sh_macro2 :: "'w helpers \<Rightarrow> string \<Rightarrow> harg list \<Rightarrow> 'w vm \<Rightarrow> 'w vm option" where
  "sh_macro2 H f as s = do {
     a \<leftarrow> hb_stackItemFromTop (- 2) s; b \<leftarrow> hb_stackItemFromTop (- 1) s;
     hcall H f (L a # L b # as) s }"

definition shims_H :: "'w helpers \<Rightarrow> 'w shim_row list" where
  "shims_H H = [
    (vmsh_macropushindex, sh0 (sh_call0 H ''hb_vmMacroPushIndex'')),
    (vmsh_macropushref, sh0 (sh_macro1 H ''hb_macroPushReference'' [])),
    (vmsh_macrosymbol, sh0 (sh_macro1 H ''hb_macroPushSymbol'' [])),
    (vmsh_macrotext, sh0 (sh_macro1 H ''hb_macroTextValue'' [])),
    (vmsh_macropop, sh1 (\<lambda>flag. sh_macro1 H ''hb_macroSetValue'' [N (uch flag)])),
    (vmsh_macropopaliased, sh1 (\<lambda>flag. sh_macro2 H ''hb_macroPopAliasedValue'' [N (uch flag)])),
    (vmsh_macropush, sh1 (\<lambda>flag. sh_macro1 H ''hb_macroGetValue'' [N 0, N (uch flag)])),
    (vmsh_macropushlist, sh1 (\<lambda>flag.
       sh_macro1 H ''hb_macroGetValue'' [N HB_P_MACROPUSHLIST, N (uch flag)])),
    (vmsh_macropushpare, sh1 (\<lambda>flag.
       sh_macro1 H ''hb_macroGetValue'' [N HB_P_MACROPUSHPARE, N (uch flag)])),
    (vmsh_macropushaliased, sh1 (\<lambda>flag. sh_macro2 H ''hb_macroPushAliasedValue'' [N (uch flag)])),
    (vmsh_macroarraygen, sh1 (\<lambda>usFlags. hcall H ''hb_vmMacroArrayGen'' [N (ush usFlags)])),
    (vmsh_macrodo, sh1 (\<lambda>usParams. hcall H ''hb_vmMacroDo'' [N (ush usParams)])),
    (vmsh_macrofunc, sh1 (\<lambda>usParams. hcall H ''hb_vmMacroFunc'' [N (ush usParams)])),
    (vmsh_macrosend, sh1 (\<lambda>usParams. hcall H ''hb_vmMacroSend'' [N (ush usParams)])),
    (vmsh_seqblock, sh0 (sh_call0 H ''hb_vmSeqBlock''))]"

definition shims_plain :: "'w helpers \<Rightarrow> 'w shim_row list" where
  "shims_plain H = shims_push H @ shims_arith H @ shims_logic H @ shims_call H @ shims_A H @
     shims_assign H @ shims_locals H @ shims_B H @ shims_C H @ shims_DE H @ shims_H H"

section \<open>The other shims\<close>

text \<open>The results: the i32 value, what is stored through a pointer, the state.\<close>

type_synonym 'w shim_result = "(int \<times> int option \<times> 'w vm) option"

text \<open>\<open>return ( int ) hb_stackGetActionRequest();\<close>\<close>

definition ret_action :: "'w vm option \<Rightarrow> 'w shim_result" where
  "ret_action r = map_option (\<lambda>s. (uint (actionRequest s), None, s)) r"

definition hb_vmsh_poplogical :: "'w helpers \<Rightarrow> 'w vm \<Rightarrow> 'w shim_result" where
  "hb_vmsh_poplogical H s = do {
     (b, s) \<leftarrow> hb_vmPopLogical H s;
     Some (uint (actionRequest s), Some (if b then 1 else 0), s) }"

text \<open>The loop of hb_vmsh_switchidx: the index of the first match from entry \<open>i\<close> on.\<close>

fun switchidx_loop :: "pcptr \<Rightarrow> item \<Rightarrow> nat \<Rightarrow> nat \<Rightarrow> nat \<Rightarrow> nat" where
  "switchidx_loop m x i 0 off = i"
| "switchidx_loop m x i (Suc k) off =
     (let (fFound, l) = case_literal (pc_at m off) x;
          off1 = off + l;
          off2 = off1 + case_jump_skip (pc_at m off1)
      in if fFound then i else switchidx_loop m x (i + 1) k off2)"

definition hb_vmsh_switchidx ::
  "'w helpers \<Rightarrow> pcptr \<Rightarrow> nat \<Rightarrow> nat \<Rightarrow> 'w vm \<Rightarrow> 'w shim_result" where
  "hb_vmsh_switchidx H m pTable caseCount s = do {
     (pSwitch, s) \<leftarrow> hb_vmSwitchGet H s;
     iIdx \<leftarrow> (case pSwitch of
               None \<Rightarrow> Some caseCount
             | Some p \<Rightarrow> do { x \<leftarrow> item_rd p s; Some (switchidx_loop m x 0 caseCount pTable) });
     s \<leftarrow> hb_stackPop H s;
     Some (int iIdx, None, s) }"

definition hb_vmsh_pushblock :: "'w helpers \<Rightarrow> pcptr \<Rightarrow> nat \<Rightarrow> 'w vm \<Rightarrow> 'w shim_result" where
  "hb_vmsh_pushblock H m pos s =
     (let op = opc (pc_at m pos) in
      map_option (\<lambda>s. (0, None, s))
        (if op = HB_P_PUSHBLOCK then hcall H ''hb_vmPushBlock'' [N (pos + 3), Z 0] s
         else if op = HB_P_PUSHBLOCKLARGE then hcall H ''hb_vmPushBlock'' [N (pos + 4), Z 0] s
         else if op = HB_P_PUSHBLOCKSHORT then hcall H ''hb_vmPushBlockShort'' [N (pos + 2), Z 0] s
         else Some s))"

definition hb_vmsh_seqenter :: "int \<Rightarrow> 16 word \<Rightarrow> 'w vm \<Rightarrow> 'w shim_result" where
  "hb_vmsh_seqenter addr fl s =
     (let s1 = stack_push I_Nil s;
          s2 = stack_push (I_Recover addr (recoverBase s1) fl 0) s1
      in Some (0, None, s2\<lparr>recoverBase := length (stack s2)\<rparr>))"

definition hb_vmsh_seqbegin :: "int \<Rightarrow> 'w vm \<Rightarrow> 'w shim_result" where
  "hb_vmsh_seqbegin addr = hb_vmsh_seqenter addr HB_SEQ_CANRECOVER"

definition hb_vmsh_seqalways :: "int \<Rightarrow> 'w vm \<Rightarrow> 'w shim_result" where
  "hb_vmsh_seqalways addr = hb_vmsh_seqenter addr (HB_SEQ_DOALWAYS OR HB_SEQ_CANRECOVER)"

definition hb_vmsh_seqend :: "'w helpers \<Rightarrow> 'w vm \<Rightarrow> 'w shim_result" where
  "hb_vmsh_seqend H s = do {
     (p, r, b, f, q) \<leftarrow> seq_env s;
     s \<leftarrow> hb_stackDec (s\<lparr>recoverBase := b\<rparr>);
     s \<leftarrow> hb_stackPop H s;
     Some (0, None, s) }"

definition hb_vmsh_seqrecover :: "'w vm \<Rightarrow> 'w shim_result" where
  "hb_vmsh_seqrecover s = do {
     (p, r, b, f, q) \<leftarrow> seq_env s;
     s \<leftarrow> item_wr p (I_Recover r b f (actionRequest s)) s;
     let s = setAction 0 s;
     s \<leftarrow> hb_stackDec (s\<lparr>recoverBase := b\<rparr>);
     Some (0, None, s) }"

definition hb_vmsh_alwaysbegin :: "'w helpers \<Rightarrow> int \<Rightarrow> 'w vm \<Rightarrow> 'w shim_result" where
  "hb_vmsh_alwaysbegin H addr s = do {
     (p, r, b, f, q) \<leftarrow> seq_env s;
     let uiRequest = actionRequest s;
     let f1 = f OR uiRequest;
     s \<leftarrow> item_wr p (I_Recover addr b f1 0) s;
     let s = setAction 0 s;
     s \<leftarrow> (if f1 AND HB_ENDPROC_REQUESTED \<noteq> 0
          then do { v \<leftarrow> hb_stackItemFromTop HB_RECOVER_VALUE s; hb_itemMove H v AtReturn s }
          else Some s);
     Some (0, None, s) }"

definition hb_vmsh_alwaysend :: "'w helpers \<Rightarrow> 'w vm \<Rightarrow> 'w shim_result" where
  "hb_vmsh_alwaysend H s = do {
     (p, r, b, uiPrevAction, uiCurrAction) \<leftarrow> seq_env s;
     let s = s\<lparr>recoverBase := b\<rparr>;
     let a = uiCurrAction OR uiPrevAction;
     let iAction = (if a AND HB_QUIT_REQUESTED \<noteq> 0 then HB_QUIT_REQUESTED
                    else if a AND HB_BREAK_REQUESTED \<noteq> 0 then HB_BREAK_REQUESTED
                    else if a AND HB_ENDPROC_REQUESTED \<noteq> 0 then HB_ENDPROC_REQUESTED
                    else 0);
     let s = setAction iAction s;
     s \<leftarrow> hb_stackDec s;
     s \<leftarrow> (if uiCurrAction AND HB_ENDPROC_REQUESTED = 0 \<and>
               uiPrevAction AND HB_ENDPROC_REQUESTED \<noteq> 0
          then hb_stackPopReturn H s else hb_stackPop H s);
     Some (uint iAction, None, s) }"

text \<open>
  The calls of a straight-line function whose pcode is \<open>m\<close>: the address
  @.pcode.<func> + k is \<open>V_pcode k\<close>.
\<close>

definition shim_special ::
  "'w helpers \<Rightarrow> pcptr \<Rightarrow> nat \<Rightarrow> val list \<Rightarrow> 'w vm \<Rightarrow> 'w shim_result" where
  "shim_special H m f vs s =
     (case vs of
        [] \<Rightarrow>
          (if f = vmsh_seqend then hb_vmsh_seqend H s
           else if f = vmsh_seqrecover then hb_vmsh_seqrecover s
           else if f = vmsh_alwaysend then hb_vmsh_alwaysend H s
           else None)
      | [V_slot r] \<Rightarrow> (if f = vmsh_poplogical then hb_vmsh_poplogical H s else None)
      | [V_pcode k] \<Rightarrow>
          (if f = vmsh_seqbegin then hb_vmsh_seqbegin k s
           else if f = vmsh_seqalways then hb_vmsh_seqalways k s
           else if f = vmsh_alwaysbegin then hb_vmsh_alwaysbegin H k s
           else None)
      | [V_pcode k, V_int n] \<Rightarrow>
          (if f = vmsh_switchidx then hb_vmsh_switchidx H m (nat k) (nat n) s else None)
      | [V_pcode k, V_symb j] \<Rightarrow>
          (if f = vmsh_pushblock then hb_vmsh_pushblock H m (nat k) s else None)
      | _ \<Rightarrow> None)"

definition shims :: "'w helpers \<Rightarrow> pcptr \<Rightarrow> 'w callee" where
  "shims H m f vs s =
     (case map_of (shims_plain H) f of
        Some g \<Rightarrow> ret_action (g vs s)
      | None \<Rightarrow> shim_special H m f vs s)"

end
