(* ===== verification/GenLLVM.thy ===== *)
theory GenLLVM
  imports LlvmIR
begin

text \<open>
  The straight-line emitter of compiler/genllvm.c: the check that a function
  is in its scope (hb_llvmSLPrecheck), the string constants
  (hb_llvmSLEmitStrings) and the body (hb_llvmSLEmitBody).  The C functions
  loop over the instructions with \<open>pos += hb_pcodeInstrLen( &pCode[ pos ] )\<close>;
  here they recurse over the list of offsets \<open>pcode_walk\<close> computes.  What is
  written to the file is a list of \<open>line\<close>s.
\<close>

section \<open>SEQUENCE regions and the check of the action request\<close>

record hb_seq_region =
  recover_pos :: nat
  always_pos :: nat
  fIsAlways :: bool

text \<open>The array seq_stack with its depth is a list, the innermost region first.\<close>

abbreviation (input) NO_TARGET :: nat where "NO_TARGET \<equiv> 18446744073709551615"

fun seq_targets :: "hb_seq_region list \<Rightarrow> nat \<Rightarrow> nat \<Rightarrow> nat \<times> nat" where
  "seq_targets [] r a = (r, a)"
| "seq_targets (x # xs) r a =
     (let r1 = (if r = NO_TARGET then recover_pos x else r);
          a1 = (if a = NO_TARGET \<and> fIsAlways x then always_pos x else a)
      in if r1 \<noteq> NO_TARGET \<and> a1 \<noteq> NO_TARGET then (r1, a1) else seq_targets xs r1 a1)"

definition hb_llvmSLEmitActionCheck :: "nat \<Rightarrow> lab \<Rightarrow> hb_seq_region list \<Rightarrow> line list" where
  "hb_llvmSLEmitActionCheck pos szNextLabel seq_stack =
     (let c = Reg ''c'' pos ''''; r = Reg ''r'' pos '''' in
      if seq_stack = [] then
        [Ln_icmp_ne c r 0, Ln_cbr c L_epilogue szNextLabel]
      else
        (let (recover_target, always_target) = seq_targets seq_stack NO_TARGET NO_TARGET;
             brk = Reg ''brk'' pos ''''; qit = Reg ''qit'' pos ''''
         in
         [Ln_icmp_ne c r 0,
          Ln_cbr c (L_seqd '''' pos) szNextLabel,
          Ln_label (L_seqd '''' pos),
          Ln_icmp_eq brk r 2,
          Ln_cbr brk (L_i (int recover_target)) (L_seqq '''' pos),
          Ln_label (L_seqq '''' pos)] @
         (if always_target \<noteq> NO_TARGET
          then [Ln_icmp_eq qit r 1, Ln_cbr qit (L_i (int always_target)) L_epilogue]
          else [Ln_br L_epilogue])))"

definition hb_llvmSLEmitActionCheckNamed ::
  "nat \<Rightarrow> string \<Rightarrow> string \<Rightarrow> lab \<Rightarrow> hb_seq_region list \<Rightarrow> line list" where
  "hb_llvmSLEmitActionCheckNamed pos szResultReg szIcmpReg szOkLabel seq_stack =
     (let c = Reg szIcmpReg pos ''''; r = Reg szResultReg pos '''' in
      if seq_stack = [] then
        [Ln_icmp_ne c r 0, Ln_cbr c L_epilogue szOkLabel]
      else
        (let (recover_target, always_target) = seq_targets seq_stack NO_TARGET NO_TARGET;
             brk = Reg (''brk'' @ szIcmpReg) pos ''''; qit = Reg (''qit'' @ szIcmpReg) pos ''''
         in
         [Ln_icmp_ne c r 0,
          Ln_cbr c (L_seqd szIcmpReg pos) szOkLabel,
          Ln_label (L_seqd szIcmpReg pos),
          Ln_icmp_eq brk r 2,
          Ln_cbr brk (L_i (int recover_target)) (L_seqq szIcmpReg pos),
          Ln_label (L_seqq szIcmpReg pos)] @
         (if always_target \<noteq> NO_TARGET
          then [Ln_icmp_eq qit r 1, Ln_cbr qit (L_i (int always_target)) L_epilogue]
          else [Ln_br L_epilogue])))"

section \<open>Pass A\<close>

text \<open>The loop over the nesting depth; \<open>False\<close> is \<open>return HB_FALSE\<close>.\<close>

fun seq_nesting_ok :: "pcptr \<Rightarrow> nat list \<Rightarrow> int \<Rightarrow> bool" where
  "seq_nesting_ok pCode [] depth = True"
| "seq_nesting_ok pCode (off # offs) depth =
     (let op = opc (pc_at pCode off) in
      if op = HB_P_SEQBEGIN \<or> op = HB_P_SEQALWAYS
      then (if depth + 1 > 16 then False else seq_nesting_ok pCode offs (depth + 1))
      else if op = HB_P_SEQEND \<or> op = HB_P_ALWAYSEND
      then seq_nesting_ok pCode offs (depth - 1)
      else seq_nesting_ok pCode offs depth)"

definition hb_llvmSLPrecheck :: "pcptr \<Rightarrow> nat \<Rightarrow> bool" where
  "hb_llvmSLPrecheck pCode nPCSize =
     (case hb_pcodeAnalyze pCode nPCSize of
        Analyze_TRUE pMap \<Rightarrow>
          fAllSupported pMap \<and>
          (case pcode_walk pCode nPCSize 0 of
             Some offs \<Rightarrow> seq_nesting_ok pCode offs 0
           | None \<Rightarrow> False)
      | _ \<Rightarrow> False)"

section \<open>Pass B\<close>

text \<open>
  A constant: its declared size and the bytes written, the last one the
  terminator.  The loop \<open>for( k = 0; k < nStr - 1; ++k )\<close> over unsigned numbers
  does not end for \<open>nStr = 0\<close>: \<open>None\<close>.
\<close>

definition str_const :: "nat \<Rightarrow> pcptr \<Rightarrow> (nat \<times> HB_BYTE list) option" where
  "str_const nStr txt = (if nStr = 0 then None else Some (nStr, bytes_at txt (nStr - 1) @ [0]))"

fun hb_llvmSLEmitStrings :: "pcptr \<Rightarrow> nat list \<Rightarrow> (nat \<times> HB_BYTE list) list option" where
  "hb_llvmSLEmitStrings pCode [] = Some []"
| "hb_llvmSLEmitStrings pCode (pos # ps) =
     (let p = pc_at pCode pos in
      if opc p = HB_P_PUSHSTRSHORT then do {
        c \<leftarrow> str_const (U8 p 1) (pc_at p 2);
        cs \<leftarrow> hb_llvmSLEmitStrings pCode ps; Some (c # cs) }
      else if opc p = HB_P_PUSHSTR then do {
        c \<leftarrow> str_const (MKU16 p 1) (pc_at p 3);
        cs \<leftarrow> hb_llvmSLEmitStrings pCode ps; Some (c # cs) }
      else if opc p = HB_P_PUSHSTRLARGE then do {
        c \<leftarrow> str_const (HB_PCODE_MKUINT24 (pc_at p 1)) (pc_at p 4);
        cs \<leftarrow> hb_llvmSLEmitStrings pCode ps; Some (c # cs) }
      else hb_llvmSLEmitStrings pCode ps)"

section \<open>Pass C\<close>

text \<open>What the loop keeps: the next string index and the region stack.\<close>

record emit_state =
  iLocalStr :: nat
  seq_stack :: "hb_seq_region list"

text \<open>
  The opcodes that become one shim call and the action check, with the name of
  the shim (after hb_vmsh_) and its arguments; \<open>n\<close> is iSymCount, \<open>p\<close> the
  address of the instruction.
\<close>

type_synonym emit_row = "nat \<times> nat \<times> (nat \<Rightarrow> pcptr \<Rightarrow> arg list)"

definition emit_const :: "emit_row list" where
  "emit_const = [
    (HB_P_PUSHNIL, vmsh_pushnil, \<lambda>n p. []),
    (HB_P_TRUE, vmsh_pushlogical, \<lambda>n p. [A_i32 1]),
    (HB_P_FALSE, vmsh_pushlogical, \<lambda>n p. [A_i32 0]),
    (HB_P_ZERO, vmsh_pushint, \<lambda>n p. [A_i32 0]),
    (HB_P_ONE, vmsh_pushint, \<lambda>n p. [A_i32 1]),
    (HB_P_PUSHBYTE, vmsh_pushint, \<lambda>n p. [A_i32 (schar (p 1))]),
    (HB_P_PUSHINT, vmsh_pushint, \<lambda>n p. [A_i32 (MKS16 p 1)]),
    (HB_P_PUSHLONG, vmsh_pushlong, \<lambda>n p. [A_i64 (HB_PCODE_MKLONG (pc_at p 1))]),
    (HB_P_PUSHLONGLONG, vmsh_pushlonglong, \<lambda>n p. [A_i64 (HB_PCODE_MKLONGLONG (pc_at p 1))]),
    (HB_P_PUSHDOUBLE, vmsh_pushdouble, \<lambda>n p.
       [A_double (HB_GET_LE_UINT64 (pc_at p 1)), A_i32 (int (U8 p 9)), A_i32 (int (U8 p 10))])]"

definition emit_vars :: "emit_row list" where
  "emit_vars = [
    (HB_P_PUSHLOCAL, vmsh_pushlocal, \<lambda>n p. [A_i32 (MKS16 p 1)]),
    (HB_P_PUSHLOCALNEAR, vmsh_pushlocal, \<lambda>n p. [A_i32 (schar (p 1))]),
    (HB_P_POPLOCAL, vmsh_poplocal, \<lambda>n p. [A_i32 (MKS16 p 1)]),
    (HB_P_POPLOCALNEAR, vmsh_poplocal, \<lambda>n p. [A_i32 (schar (p 1))]),
    (HB_P_PUSHSTATIC, vmsh_pushstatic, \<lambda>n p. [A_i32 (int (MKU16 p 1))]),
    (HB_P_POPSTATIC, vmsh_popstatic, \<lambda>n p. [A_i32 (int (MKU16 p 1))]),
    (HB_P_PUSHSYM, vmsh_pushsymbol, \<lambda>n p. [A_symb n (MKU16 p 1)]),
    (HB_P_PUSHSYMNEAR, vmsh_pushsymbol, \<lambda>n p. [A_symb n (U8 p 1)])]"

definition emit_noarg :: "emit_row list" where
  "emit_noarg = [
    (HB_P_PLUS, vmsh_plus, \<lambda>n p. []),
    (HB_P_MINUS, vmsh_minus, \<lambda>n p. []),
    (HB_P_MULT, vmsh_mult, \<lambda>n p. []),
    (HB_P_DIVIDE, vmsh_divide, \<lambda>n p. []),
    (HB_P_MODULUS, vmsh_modulus, \<lambda>n p. []),
    (HB_P_POWER, vmsh_power, \<lambda>n p. []),
    (HB_P_NEGATE, vmsh_negate, \<lambda>n p. []),
    (HB_P_EQUAL, vmsh_equal, \<lambda>n p. []),
    (HB_P_EXACTLYEQUAL, vmsh_exactlyequal, \<lambda>n p. []),
    (HB_P_NOTEQUAL, vmsh_notequal, \<lambda>n p. []),
    (HB_P_LESS, vmsh_less, \<lambda>n p. []),
    (HB_P_LESSEQUAL, vmsh_lessequal, \<lambda>n p. []),
    (HB_P_GREATER, vmsh_greater, \<lambda>n p. []),
    (HB_P_GREATEREQUAL, vmsh_greaterequal, \<lambda>n p. []),
    (HB_P_AND, vmsh_and, \<lambda>n p. []),
    (HB_P_OR, vmsh_or, \<lambda>n p. []),
    (HB_P_NOT, vmsh_not, \<lambda>n p. []),
    (HB_P_POP, vmsh_pop, \<lambda>n p. []),
    (HB_P_DUPLICATE, vmsh_duplicate, \<lambda>n p. []),
    (HB_P_RETVALUE, vmsh_retvalue, \<lambda>n p. []),
    (HB_P_FORTEST, vmsh_fortest, \<lambda>n p. []),
    (HB_P_INC, vmsh_inc, \<lambda>n p. []),
    (HB_P_DEC, vmsh_dec, \<lambda>n p. []),
    (HB_P_DUPLUNREF, vmsh_duplunref, \<lambda>n p. []),
    (HB_P_PUSHUNREF, vmsh_pushunref, \<lambda>n p. []),
    (HB_P_PLUSEQPOP, vmsh_pluseqpop, \<lambda>n p. []),
    (HB_P_MINUSEQPOP, vmsh_minuseqpop, \<lambda>n p. []),
    (HB_P_MULTEQPOP, vmsh_multeqpop, \<lambda>n p. []),
    (HB_P_DIVEQPOP, vmsh_diveqpop, \<lambda>n p. []),
    (HB_P_MODEQPOP, vmsh_modeqpop, \<lambda>n p. []),
    (HB_P_EXPEQPOP, vmsh_expeqpop, \<lambda>n p. []),
    (HB_P_DECEQPOP, vmsh_deceqpop, \<lambda>n p. []),
    (HB_P_INCEQPOP, vmsh_inceqpop, \<lambda>n p. []),
    (HB_P_PLUSEQ, vmsh_pluseq, \<lambda>n p. []),
    (HB_P_MINUSEQ, vmsh_minuseq, \<lambda>n p. []),
    (HB_P_MULTEQ, vmsh_multeq, \<lambda>n p. []),
    (HB_P_DIVEQ, vmsh_diveq, \<lambda>n p. []),
    (HB_P_MODEQ, vmsh_modeq, \<lambda>n p. []),
    (HB_P_EXPEQ, vmsh_expeq, \<lambda>n p. []),
    (HB_P_DECEQ, vmsh_deceq, \<lambda>n p. []),
    (HB_P_INCEQ, vmsh_inceq, \<lambda>n p. []),
    (HB_P_ARRAYPUSH, vmsh_arraypush, \<lambda>n p. []),
    (HB_P_ARRAYPUSHREF, vmsh_arraypushref, \<lambda>n p. []),
    (HB_P_ARRAYPOP, vmsh_arraypop, \<lambda>n p. []),
    (HB_P_PUSHAPARAMS, vmsh_pushaparams, \<lambda>n p. []),
    (HB_P_PUSHALIAS, vmsh_pushalias, \<lambda>n p. []),
    (HB_P_POPALIAS, vmsh_popalias, \<lambda>n p. []),
    (HB_P_SWAPALIAS, vmsh_swapalias, \<lambda>n p. []),
    (HB_P_PUSHSELF, vmsh_pushself, \<lambda>n p. []),
    (HB_P_PUSHOVARREF, vmsh_pushovarref, \<lambda>n p. []),
    (HB_P_WITHOBJECTSTART, vmsh_withobjectstart, \<lambda>n p. []),
    (HB_P_WITHOBJECTEND, vmsh_withobjectend, \<lambda>n p. []),
    (HB_P_FUNCPTR, vmsh_funcptr, \<lambda>n p. []),
    (HB_P_ENUMNEXT, vmsh_enumnext, \<lambda>n p. []),
    (HB_P_ENUMPREV, vmsh_enumprev, \<lambda>n p. []),
    (HB_P_ENUMEND, vmsh_enumend, \<lambda>n p. []),
    (HB_P_MACROPUSHINDEX, vmsh_macropushindex, \<lambda>n p. []),
    (HB_P_MACROPUSHREF, vmsh_macropushref, \<lambda>n p. []),
    (HB_P_MACROSYMBOL, vmsh_macrosymbol, \<lambda>n p. []),
    (HB_P_MACROTEXT, vmsh_macrotext, \<lambda>n p. [])]"

definition emit_counts :: "emit_row list" where
  "emit_counts = [
    (HB_P_PUSHLOCALREF, vmsh_pushlocalref, \<lambda>n p. [A_i32 (MKS16 p 1)]),
    (HB_P_PUSHSTATICREF, vmsh_pushstaticref, \<lambda>n p. [A_i32 (int (MKU16 p 1))]),
    (HB_P_LOCALINC, vmsh_localinc, \<lambda>n p. [A_i32 (int (MKU16 p 1))]),
    (HB_P_LOCALDEC, vmsh_localdec, \<lambda>n p. [A_i32 (int (MKU16 p 1))]),
    (HB_P_LOCALINCPUSH, vmsh_localincpush, \<lambda>n p. [A_i32 (int (MKU16 p 1))]),
    (HB_P_LOCALADDINT, vmsh_localaddint, \<lambda>n p. [A_i32 (int (MKU16 p 1)), A_i32 (MKS16 p 3)]),
    (HB_P_LOCALNEARADDINT, vmsh_localnearaddint, \<lambda>n p. [A_i32 (int (U8 p 1)), A_i32 (MKS16 p 2)]),
    (HB_P_FRAME, vmsh_frame, \<lambda>n p. [A_i32 (int (U8 p 1)), A_i32 (int (U8 p 2))]),
    (HB_P_FUNCTION, vmsh_function, \<lambda>n p. [A_i32 (int (MKU16 p 1))]),
    (HB_P_FUNCTIONSHORT, vmsh_function, \<lambda>n p. [A_i32 (int (U8 p 1))]),
    (HB_P_DO, vmsh_do, \<lambda>n p. [A_i32 (int (MKU16 p 1))]),
    (HB_P_DOSHORT, vmsh_do, \<lambda>n p. [A_i32 (int (U8 p 1))]),
    (HB_P_ARRAYDIM, vmsh_arraydim, \<lambda>n p. [A_i32 (int (MKU16 p 1))]),
    (HB_P_ARRAYGEN, vmsh_arraygen, \<lambda>n p. [A_i32 (int (MKU16 p 1))]),
    (HB_P_HASHGEN, vmsh_hashgen, \<lambda>n p. [A_i32 (int (MKU16 p 1))])]"

definition emit_memvars :: "emit_row list" where
  "emit_memvars = [
    (HB_P_PUSHFIELD, vmsh_pushfield, \<lambda>n p. [A_symb n (MKU16 p 1)]),
    (HB_P_POPFIELD, vmsh_popfield, \<lambda>n p. [A_symb n (MKU16 p 1)]),
    (HB_P_PUSHMEMVAR, vmsh_pushmemvar, \<lambda>n p. [A_symb n (MKU16 p 1)]),
    (HB_P_PUSHMEMVARREF, vmsh_pushmemvarref, \<lambda>n p. [A_symb n (MKU16 p 1)]),
    (HB_P_POPMEMVAR, vmsh_popmemvar, \<lambda>n p. [A_symb n (MKU16 p 1)]),
    (HB_P_PUSHVARIABLE, vmsh_pushvariable, \<lambda>n p. [A_symb n (MKU16 p 1)]),
    (HB_P_POPVARIABLE, vmsh_popvariable, \<lambda>n p. [A_symb n (MKU16 p 1)])]"

definition emit_symbols :: "emit_row list" where
  "emit_symbols = [
    (HB_P_PUSHALIASEDFIELD, vmsh_pushaliasedfield, \<lambda>n p. [A_symb n (MKU16 p 1)]),
    (HB_P_PUSHALIASEDFIELDNEAR, vmsh_pushaliasedfield, \<lambda>n p. [A_symb n (U8 p 1)]),
    (HB_P_POPALIASEDFIELD, vmsh_popaliasedfield, \<lambda>n p. [A_symb n (MKU16 p 1)]),
    (HB_P_POPALIASEDFIELDNEAR, vmsh_popaliasedfield, \<lambda>n p. [A_symb n (U8 p 1)]),
    (HB_P_PUSHALIASEDVAR, vmsh_pushaliasedvar, \<lambda>n p. [A_symb n (MKU16 p 1)]),
    (HB_P_POPALIASEDVAR, vmsh_popaliasedvar, \<lambda>n p. [A_symb n (MKU16 p 1)]),
    (HB_P_MESSAGE, vmsh_message, \<lambda>n p. [A_symb n (MKU16 p 1)]),
    (HB_P_WITHOBJECTMESSAGE, vmsh_withobjectmessage, \<lambda>n p.
       [if MKU16 p 1 = 0xFFFF then A_null else A_symb n (MKU16 p 1)])]"

definition emit_calls :: "emit_row list" where
  "emit_calls = [
    (HB_P_SEND, vmsh_send, \<lambda>n p. [A_i32 (int (MKU16 p 1))]),
    (HB_P_SENDSHORT, vmsh_send, \<lambda>n p. [A_i32 (int (U8 p 1))]),
    (HB_P_ENUMSTART, vmsh_enumstart, \<lambda>n p. [A_i32 (int (U8 p 1)), A_i32 (int (U8 p 2))])]"

definition emit_macros :: "emit_row list" where
  "emit_macros = [
    (HB_P_MACROPOP, vmsh_macropop, \<lambda>n p. [A_i32 (int (U8 p 1))]),
    (HB_P_MACROPOPALIASED, vmsh_macropopaliased, \<lambda>n p. [A_i32 (int (U8 p 1))]),
    (HB_P_MACROPUSH, vmsh_macropush, \<lambda>n p. [A_i32 (int (U8 p 1))]),
    (HB_P_MACROPUSHLIST, vmsh_macropushlist, \<lambda>n p. [A_i32 (int (U8 p 1))]),
    (HB_P_MACROPUSHPARE, vmsh_macropushpare, \<lambda>n p. [A_i32 (int (U8 p 1))]),
    (HB_P_MACROPUSHALIASED, vmsh_macropushaliased, \<lambda>n p. [A_i32 (int (U8 p 1))]),
    (HB_P_MACROARRAYGEN, vmsh_macroarraygen, \<lambda>n p. [A_i32 (int (MKU16 p 1))]),
    (HB_P_MACROFUNC, vmsh_macrofunc, \<lambda>n p. [A_i32 (int (MKU16 p 1))]),
    (HB_P_MACRODO, vmsh_macrodo, \<lambda>n p. [A_i32 (int (MKU16 p 1))]),
    (HB_P_MACROSEND, vmsh_macrosend, \<lambda>n p. [A_i32 (int (MKU16 p 1))])]"

definition emit_seqblock :: "emit_row list" where
  "emit_seqblock = [
    (HB_P_SEQBLOCK, vmsh_seqblock, \<lambda>n p. [])]"

definition emit_rows :: "emit_row list" where
  "emit_rows = emit_const @ emit_vars @ emit_noarg @ emit_counts @ emit_memvars @ emit_symbols @
     emit_calls @ emit_macros @ emit_seqblock"

section \<open>Instructions with code of their own\<close>

text \<open>The label of the fall-through: i<nextOff>, or the epilogue at the end.\<close>

definition next_label :: "nat \<Rightarrow> nat \<Rightarrow> lab" where
  "next_label nPCSize nextOff = (if nextOff \<ge> nPCSize then L_epilogue else L_i (int nextOff))"

text \<open>\<open>( HB_SIZE )( ( HB_ISIZ ) pos + disp )\<close>\<close>

definition hb_size :: "int \<Rightarrow> nat" where
  "hb_size i = nat (i mod 2 ^ 64)"

definition seq_target :: "pcptr \<Rightarrow> nat \<Rightarrow> nat" where
  "seq_target pCode pos = hb_size (int pos + HB_PCODE_MKINT24 (pc_at pCode (pos + 1)))"

text \<open>A conditional jump: \<open>onTrue\<close> and \<open>onFalse\<close> are the labels for the popped value.\<close>

definition emit_condjump :: "nat \<Rightarrow> lab \<Rightarrow> lab \<Rightarrow> hb_seq_region list \<Rightarrow> line list" where
  "emit_condjump pos onTrue onFalse stk =
     [Ln_call (Reg ''rjp'' pos '''') vmsh_poplogical [A_slot (Reg ''jp'' pos '''')]] @
     hb_llvmSLEmitActionCheckNamed pos ''rjp'' ''cjp'' (L_jpdone pos) stk @
     [Ln_label (L_jpdone pos),
      Ln_load (Reg ''vjp'' pos '''') (Reg ''jp'' pos ''''),
      Ln_icmp_ne (Reg ''bjp'' pos '''') (Reg ''vjp'' pos '''') 0,
      Ln_cbr (Reg ''bjp'' pos '''') onTrue onFalse]"

definition emit_pushstr ::
  "nat \<Rightarrow> lab \<Rightarrow> nat \<Rightarrow> emit_state \<Rightarrow> line list \<times> emit_state" where
  "emit_pushstr pos nxt nStr st =
     ([Ln_call (Reg ''r'' pos '''') vmsh_pushstring
         [A_str nStr (iLocalStr st), A_i64 (int (if nStr > 0 then nStr - 1 else 0))]] @
      hb_llvmSLEmitActionCheck pos nxt (seq_stack st),
      st\<lparr>iLocalStr := iLocalStr st + 1\<rparr>)"

text \<open>PUSHFUNCSYM: two calls; the check of the second one is written in line.\<close>

definition emit_pushfuncsym :: "nat \<Rightarrow> nat \<Rightarrow> lab \<Rightarrow> nat \<Rightarrow> hb_seq_region list \<Rightarrow> line list" where
  "emit_pushfuncsym iSymCount pos nxt uiSym stk =
     (let rb = Reg ''r'' pos ''b''; cb = Reg ''c'' pos ''b'' in
      [Ln_call (Reg ''r'' pos '''') vmsh_pushsymbol [A_symb iSymCount uiSym]] @
      hb_llvmSLEmitActionCheckNamed pos ''r'' ''c'' (L_ipfsa pos) stk @
      [Ln_label (L_ipfsa pos), Ln_call rb vmsh_pushnil []] @
      (if stk = [] then [Ln_icmp_ne cb rb 0, Ln_cbr cb L_epilogue nxt]
       else
         (let (recover_target, always_target) = seq_targets stk NO_TARGET NO_TARGET in
          [Ln_icmp_ne cb rb 0,
           Ln_cbr cb (L_seqd ''b'' pos) nxt,
           Ln_label (L_seqd ''b'' pos),
           Ln_icmp_eq (Reg ''brkb'' pos '''') rb 2,
           Ln_cbr (Reg ''brkb'' pos '''') (L_i (int recover_target)) (L_seqq ''b'' pos),
           Ln_label (L_seqq ''b'' pos)] @
          (if always_target \<noteq> NO_TARGET
           then [Ln_icmp_eq (Reg ''qitb'' pos '''') rb 1,
                 Ln_cbr (Reg ''qitb'' pos '''') (L_i (int always_target)) L_epilogue]
           else [Ln_br L_epilogue]))))"

text \<open>The entries of the LLVM switch, from entry \<open>k\<close> at offset \<open>t\<close> on.\<close>

fun emit_cases :: "pcptr \<Rightarrow> nat \<Rightarrow> nat \<Rightarrow> nat \<Rightarrow> nat \<Rightarrow> (int \<times> lab) list" where
  "emit_cases pCode nPCSize k 0 t = []"
| "emit_cases pCode nPCSize k (Suc m) t =
     (let lit = pc_at pCode t;
          litLen = (if opc lit = HB_P_PUSHLONG then 5
                    else if opc lit = HB_P_PUSHSTRSHORT then 2 + U8 lit 1
                    else 1);
          jmpOff = t + litLen;
          jmp = pc_at pCode jmpOff;
          target = int jmpOff + hb_pcodeJumpOffset jmp;
          t1 = (if opc jmp = HB_P_JUMPNEAR then jmpOff + 2
                else if opc jmp = HB_P_JUMPFAR then jmpOff + 4
                else jmpOff + 3)
      in (int k, if target < 0 \<or> target \<ge> int nPCSize then L_epilogue else L_i target)
         # emit_cases pCode nPCSize (k + 1) m t1)"

definition emit_switch :: "pcptr \<Rightarrow> nat \<Rightarrow> nat \<Rightarrow> lab \<Rightarrow> line list" where
  "emit_switch pCode nPCSize pos nxt =
     (let caseCount = MKU16 (pc_at pCode pos) 1 in
      [Ln_call (Reg ''r'' pos '''') vmsh_switchidx
         [A_pcode nPCSize (int (pos + 3)), A_i32 (int caseCount)],
       Ln_switch (Reg ''r'' pos '''') nxt (emit_cases pCode nPCSize 0 caseCount (pos + 3))])"

definition emit_pushblock :: "nat \<Rightarrow> nat \<Rightarrow> nat \<Rightarrow> lab \<Rightarrow> line list" where
  "emit_pushblock iSymCount nPCSize pos nxt =
     [Ln_call (Reg ''r'' pos '''') vmsh_pushblock
        [A_pcode nPCSize (int pos), A_symb iSymCount 0],
      Ln_br nxt]"

text \<open>Group I.\<close>

definition emit_enter ::
  "nat \<Rightarrow> bool \<Rightarrow> pcptr \<Rightarrow> nat \<Rightarrow> nat \<Rightarrow> lab \<Rightarrow> emit_state \<Rightarrow> line list \<times> emit_state" where
  "emit_enter f always pCode nPCSize pos nxt st =
     (let target = seq_target pCode pos in
      if length (seq_stack st) \<ge> 16 then ([Ln_br L_epilogue], st)
      else
        ([Ln_call (Reg ''r'' pos '''') f [A_pcode nPCSize (int target)]] @
         hb_llvmSLEmitActionCheck pos nxt (seq_stack st),
         st\<lparr>seq_stack := \<lparr>recover_pos = target, always_pos = (if always then target else 0),
                          fIsAlways = always\<rparr> # seq_stack st\<rparr>))"

definition pop_region :: "emit_state \<Rightarrow> emit_state" where
  "pop_region st = st\<lparr>seq_stack := tl (seq_stack st)\<rparr>"

definition emit_seq ::
  "pcptr \<Rightarrow> nat \<Rightarrow> nat \<Rightarrow> lab \<Rightarrow> emit_state \<Rightarrow> line list \<times> emit_state" where
  "emit_seq pCode nPCSize pos nxt st =
     (let op = opc (pc_at pCode pos); r = Reg ''r'' pos ''''; target = seq_target pCode pos in
      if op = HB_P_SEQBEGIN then emit_enter vmsh_seqbegin False pCode nPCSize pos nxt st
      else if op = HB_P_SEQEND then
        ([Ln_call r vmsh_seqend [],
          Ln_br (if target \<ge> nPCSize then L_epilogue else L_i (int target))], pop_region st)
      else if op = HB_P_SEQRECOVER then ([Ln_call r vmsh_seqrecover [], Ln_br nxt], st)
      else if op = HB_P_SEQALWAYS then emit_enter vmsh_seqalways True pCode nPCSize pos nxt st
      else if op = HB_P_ALWAYSBEGIN then
        ([Ln_call r vmsh_alwaysbegin [A_pcode nPCSize (int target)], Ln_br nxt], st)
      else
        ([Ln_call r vmsh_alwaysend []] @
         hb_llvmSLEmitActionCheck pos nxt (tl (seq_stack st)), pop_region st))"

section \<open>The body\<close>

text \<open>The lines of the instruction at \<open>pos\<close>, after its label.\<close>

definition emit_instr ::
  "nat \<Rightarrow> pcptr \<Rightarrow> nat \<Rightarrow> nat \<Rightarrow> emit_state \<Rightarrow> line list \<times> emit_state" where
  "emit_instr iSymCount pCode nPCSize pos st =
     (let p = pc_at pCode pos; op = opc p;
          nxt = next_label nPCSize (pos + ilen pCode pos);
          target = L_i (int pos + hb_pcodeJumpOffset p);
          stk = seq_stack st
      in
      case map_of emit_rows op of
        Some (f, args) \<Rightarrow>
          ([Ln_call (Reg ''r'' pos '''') f (args iSymCount p)] @
           hb_llvmSLEmitActionCheck pos nxt stk, st)
      | None \<Rightarrow>
        (if op = HB_P_LINE \<or> op = HB_P_NOOP then ([Ln_br nxt], st)
         else if op = HB_P_ENDPROC then ([Ln_br L_epilogue], st)
         else if op \<in> {HB_P_JUMP, HB_P_JUMPNEAR, HB_P_JUMPFAR} then ([Ln_br target], st)
         else if op \<in> {HB_P_JUMPFALSENEAR, HB_P_JUMPFALSE, HB_P_JUMPFALSEFAR}
         then (emit_condjump pos nxt target stk, st)
         else if op \<in> {HB_P_JUMPTRUENEAR, HB_P_JUMPTRUE, HB_P_JUMPTRUEFAR}
         then (emit_condjump pos target nxt stk, st)
         else if op = HB_P_PUSHSTRSHORT then emit_pushstr pos nxt (U8 p 1) st
         else if op = HB_P_PUSHSTR then emit_pushstr pos nxt (MKU16 p 1) st
         else if op = HB_P_PUSHSTRLARGE then emit_pushstr pos nxt (HB_PCODE_MKUINT24 (pc_at p 1)) st
         else if op = HB_P_PUSHFUNCSYM then (emit_pushfuncsym iSymCount pos nxt (MKU16 p 1) stk, st)
         else if op = HB_P_SWITCH then (emit_switch pCode nPCSize pos nxt, st)
         else if op \<in> {HB_P_PUSHBLOCK, HB_P_PUSHBLOCKSHORT, HB_P_PUSHBLOCKLARGE}
         then (emit_pushblock iSymCount nPCSize pos nxt, st)
         else if op \<in> {HB_P_SEQBEGIN, HB_P_SEQEND, HB_P_SEQRECOVER, HB_P_SEQALWAYS,
                       HB_P_ALWAYSBEGIN, HB_P_ALWAYSEND}
         then emit_seq pCode nPCSize pos nxt st
         else ([], st)))"

fun emit_blocks :: "nat \<Rightarrow> pcptr \<Rightarrow> nat \<Rightarrow> nat list \<Rightarrow> emit_state \<Rightarrow> line list" where
  "emit_blocks iSymCount pCode nPCSize [] st = []"
| "emit_blocks iSymCount pCode nPCSize (pos # ps) st =
     (let (ls, st1) = emit_instr iSymCount pCode nPCSize pos st in
      Ln_label (L_i (int pos)) # ls @ emit_blocks iSymCount pCode nPCSize ps st1)"

definition is_condjump :: "nat \<Rightarrow> bool" where
  "is_condjump op \<longleftrightarrow>
     op \<in> {HB_P_JUMPFALSENEAR, HB_P_JUMPFALSE, HB_P_JUMPFALSEFAR,
           HB_P_JUMPTRUENEAR, HB_P_JUMPTRUE, HB_P_JUMPTRUEFAR}"

text \<open>The entry block: a slot for each conditional jump.\<close>

definition emit_entry :: "pcptr \<Rightarrow> nat list \<Rightarrow> line list" where
  "emit_entry pCode ps =
     [Ln_label L_entry] @
     map (\<lambda>pos. Ln_alloca (Reg ''jp'' pos '''')) (filter (\<lambda>pos. is_condjump (opc (pc_at pCode pos))) ps) @
     [Ln_br (L_i 0)]"

definition hb_llvmSLEmitBody :: "pcptr \<Rightarrow> nat \<Rightarrow> nat \<Rightarrow> nat \<Rightarrow> line list option" where
  "hb_llvmSLEmitBody pCode nPCSize iSymCount iStrBase =
     map_option (\<lambda>ps.
       emit_entry pCode ps @
       emit_blocks iSymCount pCode nPCSize ps \<lparr>iLocalStr = iStrBase, seq_stack = []\<rparr> @
       [Ln_label L_epilogue, Ln_ret])
     (pcode_walk pCode nPCSize 0)"

end
