(* ===== verification/SLRows.thy ===== *)
theory SLRows
  imports Shims GenLLVM
begin

text \<open>
  Each opcode that the emitter turns into a single shim call: the shim, on the
  operands the emitter decodes, does what the interpreter's case does on the
  operands it decodes itself, and the length the decoder table gives is the
  interpreter's advance.
\<close>

section \<open>Looking up rows\<close>

lemma map_of_hit: "map_of ((k, v) # xs) k = Some v"
  by simp

lemma map_of_miss: "k \<noteq> j \<Longrightarrow> map_of ((j, v) # xs) k = map_of xs k"
  by simp

lemmas numeral_neq = numeral_eq_iff num.distinct num.inject zero_neq_numeral numeral_neq_zero
  one_eq_numeral_iff numeral_eq_one_iff zero_neq_one one_neq_zero not_False_eq_True

lemmas lookup_simps = map_of_hit map_of_miss numeral_neq append.simps option.case simp_thms

lemmas case_tables = cases_plain_def cases_arith_def cases_math_def cases_rel_def cases_exec_def
  cases_literal_def cases_push_def cases_dup_def cases_pop_def cases_macro_def cases_mcomp_def cases_local_def

lemmas shim_tables = shims_plain_def shims_push_def shims_arith_def shims_logic_def shims_call_def
  shims_A_def shims_assign_def shims_locals_def
  shims_B_def shims_C_def shims_DE_def shims_H_def

lemmas emit_tables = emit_rows_def emit_const_def emit_vars_def emit_noarg_def emit_counts_def
  emit_memvars_def emit_symbols_def emit_calls_def emit_macros_def emit_seqblock_def

section \<open>Operands\<close>

lemma ush_MKU16 [simp]: "ush (int (MKU16 p k)) = MKU16 p k"
  using MKUSHORT_bound[of "pc_at p k"] by (simp add: ush_def MKU16_def)

lemma U8_bound [le_bounds]: "U8 p k < 256"
  by (simp add: U8_def unat_byte)

lemma ush_U8 [simp]: "ush (int (U8 p k)) = U8 p k"
  using U8_bound[of p k] by (simp add: ush_def)

lemma uch_U8 [simp]: "uch (int (U8 p k)) = U8 p k"
  using U8_bound[of p k] by (simp add: uch_def)

lemma hsz_MKU16 [simp]: "hsz (int (MKU16 p k)) = MKU16 p k"
  using MKUSHORT_bound[of "pc_at p k"] by (simp add: hsz_def MKU16_def)

lemma int32_MKLONG [simp]: "int32 (HB_PCODE_MKLONG p) = HB_PCODE_MKLONG p"
  by (simp add: int32_def HB_PCODE_MKLONG_def)

lemma HB_INT_LENGTH_short:
  "HB_INT_LENGTH (schar b) = 10" "HB_INT_LENGTH (MKS16 p k) = 10"
  "HB_INT_LENGTH 0 = 10" "HB_INT_LENGTH 1 = 10"
  using schar_bounds[of b] MKSHORT_bounds[of "pc_at p k"]
  by (auto simp: HB_INT_LENGTH_def MKS16_def)

section \<open>The rows agree\<close>

definition row_agrees ::
  "'w helpers \<Rightarrow> nat \<Rightarrow> pcptr \<Rightarrow> (nat \<Rightarrow> HB_BYTE list) \<Rightarrow> 'w vm \<Rightarrow> emit_row \<Rightarrow> bool" where
  "row_agrees H n p strs s row = (case row of (op, f, args) \<Rightarrow>
     (case map_of (cases_plain H) op of
        Some (g, adv) \<Rightarrow>
          (case map_of (shims_plain H) f of
             None \<Rightarrow> False
           | Some sh \<Rightarrow> sh (map (eval_arg strs) (args n p)) s = g p s) \<and>
          hb_pcInfo ! op = PI HB_PCK_FIXED adv True
      | None \<Rightarrow> op = HB_P_SEND \<or> op = HB_P_SENDSHORT))"

lemmas shim_sem = sh0_def sh1_def sh2_def shS_def pc_simps Let_def sh_call0_def vm_call0_def
  hb_vmsh_pushlogical_def hb_vmsh_pushdouble_def hb_vmPushInteger_def HB_INT_LENGTH_short
  hb_vmsh_localincdec_def vm_localincdec_def hb_vmsh_localincpush_def vm_localincpush_def
  hb_vmsh_addint_def vm_addint_def hb_vmsh_function_def vm_function_def
  hb_vmsh_fill_def vm_fill_def hb_vmsh_popfield_def vm_popfield_def
  hb_vmsh_popmemvar_def vm_popmemvar_def hb_vmsh_withobjectmessage_def vm_withobjectmessage_def
  sh_macro1_def sh_macro2_def vm_macro1_def vm_macro2_def

lemma rows_push:
  "list_all (row_agrees H n p strs s) emit_const"
  "list_all (row_agrees H n p strs s) emit_vars"
  subgoal
    by (simp only: emit_const_def list.pred_inject row_agrees_def prod.case,
      simp only: case_tables shim_tables lookup_simps prod.case, simp add: shim_sem)
  subgoal
    by (simp only: emit_vars_def list.pred_inject row_agrees_def prod.case,
      simp only: case_tables shim_tables lookup_simps prod.case, simp add: shim_sem)
  done

lemma rows_counts:
  "list_all (row_agrees H n p strs s) emit_counts"
  subgoal
    by (simp only: emit_counts_def list.pred_inject row_agrees_def prod.case,
      simp only: case_tables shim_tables lookup_simps prod.case, simp add: shim_sem)
  done

lemma rows_symbols:
  "list_all (row_agrees H n p strs s) emit_memvars"
  "list_all (row_agrees H n p strs s) emit_symbols"
  subgoal
    by (simp only: emit_memvars_def list.pred_inject row_agrees_def prod.case,
      simp only: case_tables shim_tables lookup_simps prod.case, simp add: shim_sem)
  subgoal
    by (simp only: emit_symbols_def list.pred_inject row_agrees_def prod.case,
      simp only: case_tables shim_tables lookup_simps prod.case, simp add: shim_sem)
  done

lemma rows_misc:
  "list_all (row_agrees H n p strs s) emit_calls"
  "list_all (row_agrees H n p strs s) emit_macros"
  "list_all (row_agrees H n p strs s) emit_seqblock"
  subgoal
    by (simp only: emit_calls_def list.pred_inject row_agrees_def prod.case,
      simp only: case_tables shim_tables lookup_simps prod.case, simp add: shim_sem)
  subgoal
    by (simp only: emit_macros_def list.pred_inject row_agrees_def prod.case,
      simp only: case_tables shim_tables lookup_simps prod.case, simp add: shim_sem)
  subgoal
    by (simp only: emit_seqblock_def list.pred_inject row_agrees_def prod.case,
      simp only: case_tables shim_tables lookup_simps prod.case, simp add: shim_sem)
  done

lemma binop_eq: "hb_vmsh_binop H f s = vm_binop H f p s"
proof -
  have "hb_stackItemFromTop n s \<bind> (\<lambda>r. hb_stackItemFromTop n s \<bind> (\<lambda>a. g r a)) =
    hb_stackItemFromTop n s \<bind> (\<lambda>a. g a a)" for n :: int and g :: "loc \<Rightarrow> loc \<Rightarrow> 'a vm option"
    by (cases "hb_stackItemFromTop n s") auto
  then show ?thesis by (simp add: hb_vmsh_binop_def vm_binop_def)
qed

lemma rows_noarg: "list_all (row_agrees H n p strs s) emit_noarg"
  by (simp only: emit_noarg_def list.pred_inject row_agrees_def prod.case,
      simp only: case_tables shim_tables lookup_simps prod.case,
      simp add: shim_sem binop_eq[of H _ s p] hb_vmsh_opeq_def vm_opeq_def hb_vmsh_opeqpop_def
        vm_opeqpop_def hb_vmsh_incdec_def vm_incdec_def hb_vmsh_incdeceq_def vm_incdeceq_def
        hb_vmsh_incdeceqpop_def vm_incdeceqpop_def hb_vmsh_retvalue_def vm_retvalue_def
        hb_vmsh_withobjectend_def vm_withobjectend_def)

lemma rows_agree:
  assumes "map_of emit_rows op = Some (f, args)"
  shows "row_agrees H n p strs s (op, f, args)"
proof -
  have "list_all (row_agrees H n p strs s) emit_rows"
    by (simp add: emit_rows_def rows_push rows_counts rows_symbols rows_misc rows_noarg)
  then show ?thesis using map_of_SomeD[OF assms] by (auto simp: list_all_iff)
qed

end
