(* ===== verification/HelperLaws.thy ===== *)
theory HelperLaws
  imports SLRows
begin

text \<open>
  What the refinement needs of the functions that are not translated, as a
  locale over the record of helpers, and the consequence that matters: the
  cases of the interpreter that become shim calls leave no other request than
  BREAK or QUIT.  ENDPROC is the request of the executing function itself.
\<close>


section \<open>Requests a call may leave\<close>

definition okA :: "'w vm \<Rightarrow> bool" where
  "okA s \<longleftrightarrow> actionRequest s \<in> {0, HB_BREAK_REQUESTED, HB_QUIT_REQUESTED}"

definition okR :: "'w vm option \<Rightarrow> bool" where
  "okR r \<longleftrightarrow> (\<forall>s. r = Some s \<longrightarrow> okA s)"

definition okP :: "('a \<times> 'w vm) option \<Rightarrow> bool" where
  "okP r \<longleftrightarrow> (\<forall>x s. r = Some (x, s) \<longrightarrow> okA s)"

named_theorems okI \<open>rules that show that the request stays among those\<close>

lemma okA_upd [simp]:
  "okA (s\<lparr>stack := x\<rparr>) = okA s" "okA (s\<lparr>retItem := i\<rparr>) = okA s"
  "okA (s\<lparr>statics := x\<rparr>) = okA s" "okA (s\<lparr>heap := h\<rparr>) = okA s"
  "okA (stack_push i s) = okA s" "okA (hb_vmPushSymbol k s) = okA s"
  "okA (hb_stackPushReturn s) = okA s"
  "okA (hb_vmPushInteger n s) = okA s" "okA (hb_vmPushIntegerConst n s) = okA s"
  "okA (hb_vmPushLongLongConst n s) = okA s" "okA (hb_vmPushDoubleConst H d n m s) = okA s"
  "okA (hb_vmPushString p k s) = okA s"
  by (simp_all add: okA_def stack_push_def hb_vmPushSymbol_def hb_stackPushReturn_def
    hb_vmPushInteger_def hb_vmPushIntegerConst_def hb_vmPushLongLongConst_def
    hb_vmPushDoubleConst_def hb_vmPushString_def)

lemma okR_logical: "okA s \<Longrightarrow> okR (hb_vmsh_pushlogical i s)"
  by (simp add: hb_vmsh_pushlogical_def okR_def)

lemma okR_Some [okI]: "okA s \<Longrightarrow> okR (Some s)"
  by (simp add: okR_def)

lemma okR_None [okI]: "okR None"
  by (simp add: okR_def)

lemma okP_Some [okI]: "okA s \<Longrightarrow> okP (Some (x, s))"
  by (simp add: okP_def)

lemma okP_None [okI]: "okP None"
  by (simp add: okP_def)

lemma okR_bind [okI]: "okR e \<Longrightarrow> (\<And>s. okA s \<Longrightarrow> okR (g s)) \<Longrightarrow> okR (e \<bind> g)"
  by (cases e) (auto simp: okR_def)

lemma okR_bindP [okI]:
  "okP e \<Longrightarrow> (\<And>x s. okA s \<Longrightarrow> okR (g x s)) \<Longrightarrow> okR (e \<bind> case_prod g)"
  by (cases e) (auto simp: okR_def okP_def)

lemma okR_bind_loc [okI]: "(\<And>x. okR (g x)) \<Longrightarrow> okR ((e :: loc option) \<bind> g)"
  by (cases e) (auto simp: okR_def)

lemma okR_bind_item [okI]: "(\<And>x. okR (g x)) \<Longrightarrow> okR ((e :: item option) \<bind> g)"
  by (cases e) (auto simp: okR_def)

lemma okP_bind [okI]: "okR e \<Longrightarrow> (\<And>s. okA s \<Longrightarrow> okP (g s)) \<Longrightarrow> okP (e \<bind> g)"
  by (cases e) (auto simp: okR_def okP_def)

lemma okP_bindP [okI]:
  "okP e \<Longrightarrow> (\<And>x s. okA s \<Longrightarrow> okP (g x s)) \<Longrightarrow> okP (e \<bind> case_prod g)"
  by (cases e) (auto simp: okP_def)

lemma okP_bind_loc [okI]: "(\<And>x. okP (g x)) \<Longrightarrow> okP ((e :: loc option) \<bind> g)"
  by (cases e) (auto simp: okP_def)

lemma okP_bind_item [okI]: "(\<And>x. okP (g x)) \<Longrightarrow> okP ((e :: item option) \<bind> g)"
  by (cases e) (auto simp: okP_def)

lemma ok_if [okI]:
  "okR a \<Longrightarrow> okR b \<Longrightarrow> okR (if c then a else b)"
  "okP a' \<Longrightarrow> okP b' \<Longrightarrow> okP (if c then a' else b')"
  by simp_all

lemma ok_let [okI]:
  "okR (g x) \<Longrightarrow> okR (Let x g)" "okP (g' x) \<Longrightarrow> okP (Let x g')"
  by simp_all

lemma ok_alloc [okI]:
  "(\<And>p s. okA s \<Longrightarrow> okR (g p s)) \<Longrightarrow> okA s \<Longrightarrow> okR (case hb_stackAllocItem s of (p, s) \<Rightarrow> g p s)"
  by (simp add: hb_stackAllocItem_def)

lemma ok_item_case [okI]:
  "okR a \<Longrightarrow> (\<And>b. okR (f b)) \<Longrightarrow> okR (case x of I_Logical b \<Rightarrow> f b | _ \<Rightarrow> a)"
  "okR a \<Longrightarrow> (\<And>b. okR (h b)) \<Longrightarrow> okR (case x of I_Block b \<Rightarrow> h b | _ \<Rightarrow> a)"
  "okR a \<Longrightarrow> (\<And>v l. okR (i v l)) \<Longrightarrow> okR (case x of I_Integer v l \<Rightarrow> i v l | _ \<Rightarrow> a)"
  "okP a' \<Longrightarrow> (\<And>b. okP (f' b)) \<Longrightarrow> okP (case x of I_Logical b \<Rightarrow> f' b | _ \<Rightarrow> a')"
  by (cases x; simp)+

lemma ok_logical2 [okI]:
  "(\<And>a b. okR (f a b)) \<Longrightarrow> okR e \<Longrightarrow>
   okR (case (x, y) of (I_Logical a, I_Logical b) \<Rightarrow> f a b | _ \<Rightarrow> e)"
  by (cases x; cases y) auto

lemma ok_option_case [okI]:
  "okR a \<Longrightarrow> (\<And>y. okR (f y)) \<Longrightarrow> okR (case r of None \<Rightarrow> a | Some y \<Rightarrow> f y)"
  "okP a' \<Longrightarrow> (\<And>y. okP (f' y)) \<Longrightarrow> okP (case r of None \<Rightarrow> a' | Some y \<Rightarrow> f' y)"
  by (cases r; simp)+

lemma ok_prod_case [okI]:
  "okR (if b then g1 else g2) \<Longrightarrow> okR (case b of True \<Rightarrow> g1 | False \<Rightarrow> g2)"
  by (cases b) auto

lemma okR_wr [okI]: "okA s \<Longrightarrow> okR (item_wr p x s)"
  by (cases p) (auto simp: okR_def)

lemma okR_dec [okI]: "okA s \<Longrightarrow> okR (hb_stackDec s)"
  by (auto simp: okR_def hb_stackDec_def)

text \<open>
  A SWITCH on a value that is neither an integer nor a string raises an error
  (hb_errRT_BASE_Subst, 3104), and the compiled code does not look at the request
  after it.  This says that the error block supplies a value, and that no request
  is pending when the value has been dropped.
\<close>

definition switch_quiet :: "'w helpers \<Rightarrow> bool" where
  "switch_quiet H \<longleftrightarrow> (\<forall>s p x r s1. actionRequest s = 0 \<longrightarrow>
     hb_stackItemFromTop (- 1) s = Some p \<longrightarrow> item_rd p s = Some x \<longrightarrow>
     \<not> HB_IS_NUMINT x \<longrightarrow> \<not> HB_IS_STRING x \<longrightarrow> hb_vmSwitchGet H s = Some (r, s1) \<longrightarrow>
     r \<noteq> None \<and> (\<forall>s2. hb_stackPop H s1 = Some s2 \<longrightarrow> actionRequest s2 = 0))"

section \<open>The laws\<close>

text \<open>
  A called function leaves BREAK or QUIT as its request, or none, when it was
  called with one of these; clearing a string and making a code block run no code
  of the program and leave the request alone (there is no automatic garbage
  collection: HB_GC_AUTO is not defined).
\<close>

locale run_time =
  fixes H :: "'w helpers"
  assumes call_ok: "hcall H f as s = Some s1 \<Longrightarrow> okA s \<Longrightarrow> okA s1"
    and unref_ok: "hunref H p s = Some (q, s1) \<Longrightarrow> okA s \<Longrightarrow> okA s1"
    and unrefw_ok: "hunrefw H p q s = Some (r, s1) \<Longrightarrow> okA s \<Longrightarrow> okA s1"
    and subst_ok: "herrsubst H e ps s = Some (x, s1) \<Longrightarrow> okA s \<Longrightarrow> okA s1"
    and objop_ok: "hobjop H n p q po s = Some (b, s1) \<Longrightarrow> okA s \<Longrightarrow> okA s1"
    and clear_string: "hcall H ''hb_itemClear'' [X (I_String b cs)] s = Some s1 \<Longrightarrow>
      actionRequest s1 = actionRequest s"
    and block_quiet: "f \<in> {''hb_vmPushBlock'', ''hb_vmPushBlockShort''} \<Longrightarrow>
      hcall H f as s = Some s1 \<Longrightarrow> actionRequest s1 = actionRequest s"
begin

lemma okR_call [okI]: "okA s \<Longrightarrow> okR (hcall H f as s)"
  by (auto simp: okR_def dest: call_ok)

lemma okP_unref [okI]: "okA s \<Longrightarrow> okP (hunref H p s)"
  by (auto simp: okP_def dest: unref_ok)

lemma okP_unrefw [okI]: "okA s \<Longrightarrow> okP (hunrefw H p q s)"
  by (auto simp: okP_def dest: unrefw_ok)

lemma okP_subst [okI]: "okA s \<Longrightarrow> okP (herrsubst H e ps s)"
  by (auto simp: okP_def dest: subst_ok)

lemma okP_objop [okI]: "okA s \<Longrightarrow> okP (hobjop H n p q po s)"
  by (auto simp: okP_def dest: objop_ok)

lemma okR_clear [okI]: "okA s \<Longrightarrow> okR (hb_itemClear H p s)"
  unfolding hb_itemClear_def by (intro okI) 

lemma okR_pop [okI]: "okA s \<Longrightarrow> okR (hb_stackPop H s)"
  unfolding hb_stackPop_def by (intro okI) auto

lemma okR_copy [okI]: "okA s \<Longrightarrow> okR (hb_itemCopy H p q s)"
  unfolding hb_itemCopy_def by (intro okI)

lemma okR_move [okI]: "okA s \<Longrightarrow> okR (hb_itemMove H p q s)"
  unfolding hb_itemMove_def by (intro okI)

lemma okP_unref_if [okI]: "okA s \<Longrightarrow> okP (unref_if H p s)"
  unfolding unref_if_def by (intro okI)

lemma okR_result [okI]: "okA s \<Longrightarrow> okR (move_result H p x s)"
  unfolding move_result_def by (intro okI)

lemma okR_popreturn [okI]: "okA s \<Longrightarrow> okR (hb_stackPopReturn H s)"
  unfolding hb_stackPopReturn_def by (intro okI) simp_all

lemma okR_ops [okI]:
  assumes "okA s"
  shows "okR (vm_binop H f p s)" "okR (vm_opeq H f p s)" "okR (vm_opeqpop H f p s)"
    "okR (vm_incdec H f p s)" "okR (vm_incdeceq H f p s)" "okR (vm_incdeceqpop H f p s)"
  unfolding vm_binop_def vm_opeq_def vm_opeqpop_def vm_incdec_def vm_incdeceq_def vm_incdeceqpop_def
  by (insert assms, (intro okI; assumption?)+)

lemma okR_push [okI]:
  assumes "okA s"
  shows "okR (hb_vmPush H q s)" "okR (hb_vmDuplicate H s)" "okR (hb_vmDuplUnRef H s)"
    "okR (hb_vmPushUnRef H s)" "okR (hb_vmPushLocal H i s)" "okR (hb_vmPushLocalByRef H i s)"
    "okR (hb_vmPushStatic H k s)" "okR (hb_vmPushStaticByRef H k s)" "okR (hb_vmPopLocal H i s)"
    "okR (hb_vmPopStatic H k s)"
  unfolding hb_vmPush_def hb_vmDuplicate_def hb_vmDuplUnRef_def hb_vmPushUnRef_def hb_vmPushLocal_def
    hb_vmPushLocalByRef_def hb_vmPushStatic_def hb_vmPushStaticByRef_def hb_vmPopLocal_def hb_vmPopStatic_def
  by (insert assms, (intro okI; assumption?)+)

lemma okR_logic [okI]:
  assumes "okA s"
  shows "okR (hb_vmNot H s)" "okR (hb_vmAnd H s)" "okR (hb_vmOr H s)"
  unfolding hb_vmNot_def hb_vmAnd_def hb_vmOr_def logical_binop_def
  by (insert assms, (intro okI; assumption?)+)

lemma okR_pairs [okI]: "okA s \<Longrightarrow> okR (pop_pairs H k s)"
  by (induction k arbitrary: s) (auto intro!: okI)

lemma okR_enumend [okI]: "okA s \<Longrightarrow> okR (hb_vmEnumEnd H s)"
  unfolding hb_vmEnumEnd_def by (intro okI; assumption?)

lemma okP_poplogical [okI]: "okA s \<Longrightarrow> okP (hb_vmPopLogical H s)"
  unfolding hb_vmPopLogical_def by (intro okI; assumption?)

lemma okR_shims [okI]:
  assumes "okA s"
  shows "okR (sh_call0 H f s)" "okR (hb_vmsh_binop H f s)" "okR (hb_vmsh_opeqpop H f s)"
    "okR (hb_vmsh_incdeceqpop H f s)" "okR (hb_vmsh_opeq H f s)" "okR (hb_vmsh_incdeceq H f s)"
    "okR (hb_vmsh_incdec H f s)" "okR (hb_vmsh_function H i s)" "okR (hb_vmsh_retvalue H s)"
    "okR (hb_vmsh_localincdec H f i s)" "okR (hb_vmsh_localincpush H i s)"
    "okR (hb_vmsh_addint H i j s)" "okR (hb_vmsh_fill H f k s)" "okR (hb_vmsh_popfield H k s)"
    "okR (hb_vmsh_popmemvar H k s)" "okR (hb_vmsh_withobjectend H s)" "okR (hb_vmsh_send H i s)"
    "okR (sh_macro1 H f as s)" "okR (sh_macro2 H f as s)"
  unfolding sh_call0_def hb_vmsh_binop_def hb_vmsh_opeqpop_def hb_vmsh_incdeceqpop_def hb_vmsh_opeq_def
    hb_vmsh_incdeceq_def hb_vmsh_incdec_def hb_vmsh_function_def hb_vmsh_retvalue_def
    hb_vmsh_localincdec_def hb_vmsh_localincpush_def hb_vmsh_addint_def hb_vmsh_fill_def
    hb_vmsh_popfield_def hb_vmsh_popmemvar_def hb_vmsh_withobjectend_def hb_vmsh_send_def
    sh_macro1_def sh_macro2_def hb_itemSetNil_def
  by (insert assms, (intro okI; (simp; fail | assumption)?)+)

lemma okR_sh:
  "okA s \<Longrightarrow> (\<And>s. okA s \<Longrightarrow> okR (f0 s)) \<Longrightarrow> okR (sh0 f0 vs s)"
  "okA s \<Longrightarrow> (\<And>i s. okA s \<Longrightarrow> okR (f1 i s)) \<Longrightarrow> okR (sh1 f1 vs s)"
  "okA s \<Longrightarrow> (\<And>i j s. okA s \<Longrightarrow> okR (f2 i j s)) \<Longrightarrow> okR (sh2 f2 vs s)"
  "okA s \<Longrightarrow> (\<And>k s. okA s \<Longrightarrow> okR (fS k s)) \<Longrightarrow> okR (shS fS vs s)"
  by (auto simp: sh0_def sh1_def sh2_def shS_def okR_def split: list.splits val.splits)

lemma okR_sh_rest:
  "okA s \<Longrightarrow> okR (hb_vmsh_pushdouble H vs s)"
  "okA s \<Longrightarrow> okR (hb_vmsh_pushstring vs s)"
  by (auto simp: hb_vmsh_pushdouble_def hb_vmsh_pushstring_def okR_Some okR_None split: list.splits val.splits)

lemma okR_message: "okA s \<Longrightarrow> okR (hb_vmsh_withobjectmessage H vs s)"
  unfolding hb_vmsh_withobjectmessage_def
  apply (intro okI)
  apply (auto simp: okR_None okR_Some intro: okI  split: list.splits val.splits)
  done

definition okRow :: "'w shim_row \<Rightarrow> bool" where
  "okRow r = (\<forall>vs s. okA s \<longrightarrow> okR (snd r vs s))"

lemma okRows:
  "list_all okRow (shims_push H)" "list_all okRow (shims_arith H)" "list_all okRow (shims_call H)"
  "list_all okRow (shims_A H)" "list_all okRow (shims_logic H)"
  "list_all okRow (shims_assign H)" "list_all okRow (shims_locals H)" "list_all okRow (shims_B H)" "list_all okRow (shims_C H)"
  "list_all okRow (shims_DE H)" "list_all okRow (shims_H H)"
  by ((simp only: shims_push_def shims_arith_def shims_call_def shims_A_def shims_logic_def
    shims_assign_def shims_locals_def shims_B_def shims_C_def shims_DE_def shims_H_def list.pred_inject okRow_def snd_conv simp_thms,
    intro conjI allI impI;
    (intro okR_message okR_sh_rest okR_sh okR_logical okI; (assumption | simp)?))+)

lemma okRow_plain: "map_of (shims_plain H) f = Some g \<Longrightarrow> okA s \<Longrightarrow> okR (g vs s)"
  using okRows by (auto simp: shims_plain_def okRow_def list_all_iff dest!: map_of_SomeD)

end

end
