(* ===== verification/VmArith.thy ===== *)
theory VmArith
  imports HelperLaws VmNum VmCmp
begin

text \<open>
  The operators of vm/hvm.c as the calls of \<open>helpers\<close>, with frames, stores
  through references and references themselves; they keep the laws of
  \<open>run_time\<close>.
\<close>

section \<open>Frames and stores\<close>

definition hb_vmFrame :: "nat \<Rightarrow> nat \<Rightarrow> 'w vm \<Rightarrow> 'w vm" where
  "hb_vmFrame usLocals ucParams s =
     (let iTotal = (if ucParams < paramcnt s then 0 else ucParams - paramcnt s) + usLocals
      in s\<lparr>paramdeclcnt := ucParams, stack := stack s @ replicate iTotal I_Nil\<rparr>)"

definition hb_vmVFrame :: "nat \<Rightarrow> nat \<Rightarrow> 'w vm \<Rightarrow> 'w vm" where
  "hb_vmVFrame usLocals ucParams s =
     (let iTotal = (if ucParams < paramcnt s then 0 else ucParams - paramcnt s) + usLocals
      in s\<lparr>paramdeclcnt := ucParams, stack := stack s @ replicate iTotal I_Nil\<rparr>)"

text \<open>
  hb_itemMoveToRef.  \<open>hunrefw\<close> is hb_itemUnRefWrite (no location when an
  extended reference took the value); \<open>hisobject\<close> tells an object from an
  array.
\<close>

definition hb_itemMoveToRef :: "'w helpers \<Rightarrow> loc \<Rightarrow> loc \<Rightarrow> 'w vm \<Rightarrow> 'w vm option" where
  "hb_itemMoveToRef R pDest pSource s = do {
     d \<leftarrow> item_rd pDest s;
     (pDest, s) \<leftarrow> (if HB_IS_BYREF d then hunrefw R pDest pSource s else Some (Some pDest, s));
     case pDest of
       None \<Rightarrow> hb_itemSetNil R pSource s
     | Some pDest \<Rightarrow>
       (if HB_IS_BYREF d \<and> pDest = pSource then hb_itemSetNil R pSource s
        else do {
          x \<leftarrow> item_rd pSource s;
          (q, s) \<leftarrow> (if HB_IS_BYREF x then do { (q, s) \<leftarrow> hunref R pSource s; Some (Some q, s) }
                      else Some (None, s));
          if q = Some pDest then hb_itemSetNil R pSource s
          else do {
            d \<leftarrow> item_rd pDest s;
            (done, s) \<leftarrow> (if HB_IS_ARRAY d \<and> hisobject R d s
                           then hobjop R op_ASSIGN pDest pDest (Some pSource) s
                           else Some (False, s));
            if done then hb_itemSetNil R pSource s
            else do {
              s \<leftarrow> clear_if_complex R pDest s;
              x \<leftarrow> item_rd pSource s;
              s \<leftarrow> item_wr pDest x s;
              item_wr pSource I_Nil s } } }) }"

text \<open>
  hb_itemUnRef for references to variables: hb_itemUnRefOnce gives the local or
  static variable, and the loop goes on while that is a reference.  The other
  kinds of reference are left to \<open>R\<close>.
\<close>

partial_function (option) hb_itemUnRef :: "'w helpers \<Rightarrow> loc \<Rightarrow> 'w vm \<Rightarrow> (loc \<times> 'w vm) option" where
  "hb_itemUnRef R p s = do {
     x \<leftarrow> item_rd p s;
     case x of
       I_LocalRef v off blk \<Rightarrow>
         (if v \<ge> 0 \<and> off \<noteq> 0 then hb_itemUnRef R (AtStack (nat (off + v))) s
          else if v \<ge> 0 \<and> nat v < length (statics s) then hb_itemUnRef R (AtStatic (nat v)) s
          else hunref R p s)
     | _ \<Rightarrow> (if HB_IS_BYREF x then hunref R p s else Some (p, s)) }"

section \<open>The helpers with these functions\<close>

definition vm_calls :: "'w helpers \<Rightarrow> string \<Rightarrow> harg list \<Rightarrow> 'w vm \<Rightarrow> 'w vm option" where
  "vm_calls R f as s =
     (case as of
        [L a, L b, L c] \<Rightarrow>
          (if f = ''hb_vmPlus'' then hb_vmPlus R a b c s
           else if f = ''hb_vmMinus'' then hb_vmMinus R a b c s
           else if f = ''hb_vmMult'' then hb_vmMult R a b c s
           else if f = ''hb_vmDivide'' then hb_vmDivide R a b c s
           else if f = ''hb_vmModulus'' then hb_vmModulus R a b c s
           else if f = ''hb_vmPower'' then hb_vmPower R a b c s
           else hcall R f as s)
      | [L a, Z i] \<Rightarrow> (if f = ''hb_vmAddInt'' then hb_vmAddInt R a i s else hcall R f as s)
      | [L a, L b] \<Rightarrow> (if f = ''hb_itemMoveToRef'' then hb_itemMoveToRef R a b s else hcall R f as s)
      | [L a] \<Rightarrow>
          (if f = ''hb_vmInc'' then hb_vmInc R a s
           else if f = ''hb_vmDec'' then hb_vmDec R a s
           else hcall R f as s)
      | [N i, N j] \<Rightarrow>
          (if f = ''hb_vmFrame'' then Some (hb_vmFrame i j s)
           else if f = ''hb_vmVFrame'' then Some (hb_vmVFrame i j s)
           else hcall R f as s)
      | [] \<Rightarrow>
          (if f = ''hb_vmNegate'' then hb_vmNegate R s
           else if f = ''hb_vmEqual'' then hb_vmEqual R s
           else if f = ''hb_vmExactlyEqual'' then hb_vmExactlyEqual R s
           else if f = ''hb_vmNotEqual'' then hb_vmNotEqual R s
           else if f = ''hb_vmLess'' then hb_vmLess R s
           else if f = ''hb_vmLessEqual'' then hb_vmLessEqual R s
           else if f = ''hb_vmGreater'' then hb_vmGreater R s
           else if f = ''hb_vmGreaterEqual'' then hb_vmGreaterEqual R s
           else if f = ''hb_vmInstring'' then hb_vmInstring R s
           else if f = ''hb_vmForTest'' then hb_vmForTest R s
           else hcall R f as s)
      | _ \<Rightarrow> hcall R f as s)"

definition vm_helpers :: "'w helpers \<Rightarrow> 'w helpers" where
  "vm_helpers R = (let R = R\<lparr>hunref := hb_itemUnRef R\<rparr> in R\<lparr>hcall := vm_calls R\<rparr>)"

section \<open>Requests\<close>

lemma ok_arith_cases [okI]:
  "okR a \<Longrightarrow> (\<And>m cs. okR (h m cs)) \<Longrightarrow> okR (case x of I_String m cs \<Rightarrow> h m cs | _ \<Rightarrow> a)"
  "okR a \<Longrightarrow> (\<And>v l. okR (f v l)) \<Longrightarrow> (\<And>v l. okR (g v l)) \<Longrightarrow> (\<And>d l n. okR (h2 d l n)) \<Longrightarrow>
   okR (case x of I_Integer v l \<Rightarrow> f v l | I_Long v l \<Rightarrow> g v l | I_Double d l n \<Rightarrow> h2 d l n | _ \<Rightarrow> a)"
  "okR a \<Longrightarrow> (\<And>v l. okR (f v l)) \<Longrightarrow> (\<And>v l. okR (g v l)) \<Longrightarrow> (\<And>d l n. okR (h2 d l n)) \<Longrightarrow>
   (\<And>j. okR (h3 j)) \<Longrightarrow> (\<And>j t. okR (h4 j t)) \<Longrightarrow>
   okR (case x of I_Integer v l \<Rightarrow> f v l | I_Long v l \<Rightarrow> g v l | I_Double d l n \<Rightarrow> h2 d l n
     | I_Date j \<Rightarrow> h3 j | I_TimeStamp j t \<Rightarrow> h4 j t | _ \<Rightarrow> a)"
  "okR a \<Longrightarrow> (\<And>d l n. okR (h2 d l n)) \<Longrightarrow> (\<And>j. okR (h3 j)) \<Longrightarrow> (\<And>j t. okR (h4 j t)) \<Longrightarrow>
   okR (case x of I_Double d l n \<Rightarrow> h2 d l n | I_Date j \<Rightarrow> h3 j | I_TimeStamp j t \<Rightarrow> h4 j t | _ \<Rightarrow> a)"
  by (cases x; simp)+

lemma ok_pairs [okI]:
  "(\<And>a b. okR (f a b)) \<Longrightarrow> okR (case z of (a, b) \<Rightarrow> f a b)"
  by (cases z) simp

lemma ok_item2 [okI]:
  "okR e \<Longrightarrow> (\<And>m1 cs1 m2 cs2. okR (f m1 cs1 m2 cs2)) \<Longrightarrow>
   okR (case (x, y) of (I_String m1 cs1, I_String m2 cs2) \<Rightarrow> f m1 cs1 m2 cs2 | _ \<Rightarrow> e)"
  "okR e \<Longrightarrow> (\<And>m1 cs1 m2 cs2. okR (f m1 cs1 m2 cs2)) \<Longrightarrow> (\<And>a b. okR (g a b)) \<Longrightarrow>
   okR (case (x, y) of (I_String m1 cs1, I_String m2 cs2) \<Rightarrow> f m1 cs1 m2 cs2
     | (I_Logical a, I_Logical b) \<Rightarrow> g a b | _ \<Rightarrow> e)"
  "okR e \<Longrightarrow> (\<And>m1 cs1 m2 cs2. okR (f m1 cs1 m2 cs2)) \<Longrightarrow> (\<And>a b. okR (g a b)) \<Longrightarrow> (\<And>a b. okR (h a b)) \<Longrightarrow>
   okR (case (x, y) of (I_String m1 cs1, I_String m2 cs2) \<Rightarrow> f m1 cs1 m2 cs2
     | (I_Logical a, I_Logical b) \<Rightarrow> g a b | (I_Pointer a, I_Pointer b) \<Rightarrow> h a b | _ \<Rightarrow> e)"
  by (cases x; cases y; simp)+


lemma ok_exact_case [okI]:
  "okR e \<Longrightarrow> (\<And>m1 cs1 m2 cs2. okR (f m1 cs1 m2 cs2)) \<Longrightarrow> (\<And>a b. okR (g1 a b)) \<Longrightarrow> (\<And>a b. okR (g2 a b)) \<Longrightarrow>
   (\<And>a b. okR (g3 a b)) \<Longrightarrow> (\<And>a b. okR (g4 a b)) \<Longrightarrow> (\<And>a b. okR (g5 a b)) \<Longrightarrow>
   okR (case (x, y) of (I_String m1 cs1, I_String m2 cs2) \<Rightarrow> f m1 cs1 m2 cs2
     | (I_Logical a, I_Logical b) \<Rightarrow> g1 a b | (I_Pointer a, I_Pointer b) \<Rightarrow> g2 a b
     | (I_Hash a, I_Hash b) \<Rightarrow> g3 a b | (I_Block a, I_Block b) \<Rightarrow> g4 a b
     | (I_Symbol a, I_Symbol b) \<Rightarrow> g5 a b | _ \<Rightarrow> e)"
  by (cases x; cases y; simp)

lemma itemUnRef_okA:
  assumes "\<And>p s q s1. hunref R p s = Some (q, s1) \<Longrightarrow> okA s \<Longrightarrow> okA s1"
    and "hb_itemUnRef R p s = Some y" "okA s"
  shows "okA (snd y)"
proof -
  have "(\<forall>p s q s1. hunref R p s = Some (q, s1) \<longrightarrow> okA s \<longrightarrow> okA s1) \<longrightarrow> okA s \<longrightarrow> okA (snd y)"
    using assms(2)
  proof (rule hb_itemUnRef.raw_induct[rotated])
    fix f R p s y
    assume IH: "\<And>R p s y. f R p s = Some y \<Longrightarrow>
        (\<forall>p s q s1. hunref R p s = Some (q, s1) \<longrightarrow> okA s \<longrightarrow> okA s1) \<longrightarrow> okA s \<longrightarrow> okA (snd y)"
      and body: "item_rd p s \<bind> (\<lambda>x. case x of
          I_LocalRef v off blk \<Rightarrow>
            (if v \<ge> 0 \<and> off \<noteq> 0 then f R (AtStack (nat (off + v))) s
             else if v \<ge> 0 \<and> nat v < length (statics s) then f R (AtStatic (nat v)) s
             else hunref R p s)
        | _ \<Rightarrow> (if HB_IS_BYREF x then hunref R p s else Some (p, s))) = Some y"
    show "(\<forall>p s q s1. hunref R p s = Some (q, s1) \<longrightarrow> okA s \<longrightarrow> okA s1) \<longrightarrow> okA s \<longrightarrow> okA (snd y)"
      using body IH by (cases y) (fastforce split: Option.bind_splits item.splits if_splits)
  qed
  then show ?thesis using assms(1,3) by blast
qed

section \<open>The laws of the helpers hold\<close>

context run_time
begin

lemma okR_item_put [okI]: "okA s \<Longrightarrow> okR (clear_if_complex H p s)" "okA s \<Longrightarrow> okR (item_put H p x s)"
  unfolding item_put_def clear_if_complex_def by (intro okI; assumption?)+

lemma okR_puts [okI]:
  assumes "okA s"
  shows "okR (hb_itemPutND H p d s)" "okR (hb_itemPutNDDec H p d n s)"
    "okR (hb_itemPutNumType H p d n b c s)" "okR (hb_itemPutDL H p j s)" "okR (hb_itemPutTDT H p j t s)"
    "okR (hb_vmTimeStampPut H p j t s)" "okR (hb_vmTimeStampAdd H p x d s)"
    "okR (put_logical_dec p b s)" "okR (put_logical_pop H p b s)"
  using assms
  by (simp_all add: hb_itemPutND_def hb_itemPutNDDec_def hb_itemPutNumType_def hb_itemPutNI_def
    hb_itemPutNLL_def hb_itemPutDL_def hb_itemPutTDT_def hb_vmTimeStampPut_def hb_vmTimeStampAdd_def
    put_logical_dec_def put_logical_pop_def Let_def okI split: prod.split)

lemma okR_ends [okI]:
  assumes "okA s"
  shows "okR (err_subst H e ps p s)" "okR (err_subst_pop H e ps p s)"
    "okR (arith_object H n e p q r s)" "okR (rel_object H n e p q s)"
  unfolding err_subst_def err_subst_pop_def arith_object_def rel_object_def
  by (insert assms, (intro okI; assumption?)+)

lemma okR_strings [okI]:
  assumes "okA s"
  shows "okR (plus_strings H p q r as bs b s)" "okR (minus_strings H p q r as bs b s)"
  unfolding plus_strings_def minus_strings_def
  by (insert assms, (intro okI; assumption?)+)

lemma okR_arith [okI]:
  assumes "okA s"
  shows "okR (hb_vmPlus H p q r s)" "okR (hb_vmMinus H p q r s)" "okR (hb_vmMult H p q r s)"
    "okR (hb_vmDivide H p q r s)" "okR (hb_vmModulus H p q r s)" "okR (hb_vmPower H p q r s)"
    "okR (incdec k n e H p s)" "okR (hb_vmNegate H s)"
  unfolding hb_vmPlus_def hb_vmMinus_def hb_vmMult_def hb_vmDivide_def hb_vmModulus_def hb_vmPower_def
    incdec_def hb_vmNegate_def
  by (insert assms, (intro okI; assumption?)+)

lemma okR_addint [okI]: "okA s \<Longrightarrow> okR (hb_vmAddInt H p i s)"
  unfolding hb_vmAddInt_def hb_vmPushLong_def
  by (intro okI; (assumption | simp)?)

lemma okR_rel [okI]:
  assumes "okA s"
  shows "okR (vm_equality eq n e H s p q x y)" "okR (exact_rest H s p q x y)"
    "okR (vm_order lt st dl bl n e H s)" "okR (hb_vmInstring H s)"
  unfolding vm_equality_def exact_rest_def vm_order_def hb_vmInstring_def
  by (insert assms, (intro okI; assumption?)+)

lemma okR_nil_equality [okI]:
  "okA s \<Longrightarrow> (\<And>s p q x y. okA s \<Longrightarrow> okR (rest s p q x y)) \<Longrightarrow> okR (nil_equality eq H rest s)"
  unfolding nil_equality_def by (intro okI; assumption?)

lemma okR_fortest [okI]: "okA s \<Longrightarrow> okR (hb_vmForTest H s)"
  unfolding hb_vmForTest_def hb_vmLess_def hb_vmGreater_def
  by (intro okI; (assumption | simp)?)

lemma okA_frame [simp]: "okA (s\<lparr>paramdeclcnt := j\<rparr>) = okA s"
  by (simp add: okA_def)

lemma okR_more [okI]:
  assumes "okA s"
  shows "okR (hb_vmInc H p s)" "okR (hb_vmDec H p s)" "okR (hb_vmEqual H s)"
    "okR (hb_vmExactlyEqual H s)" "okR (hb_vmNotEqual H s)"
    "okR (hb_vmLess H s)" "okR (hb_vmLessEqual H s)" "okR (hb_vmGreater H s)" "okR (hb_vmGreaterEqual H s)"
    "okR (Some (hb_vmFrame i j s))" "okR (Some (hb_vmVFrame i j s))"
  unfolding hb_vmInc_def hb_vmDec_def hb_vmEqual_def hb_vmExactlyEqual_def hb_vmNotEqual_def hb_vmLess_def
    hb_vmLessEqual_def hb_vmGreater_def hb_vmGreaterEqual_def hb_vmFrame_def hb_vmVFrame_def Let_def
  by (insert assms, (intro okI; (assumption | simp)?)+)

lemma okP_options [okI]:
  "okR r \<Longrightarrow> okP (r \<bind> (\<lambda>s. Some (f s, s)))"
  by (cases r) (auto simp: okR_def okP_def)

lemma okR_movetoref [okI]: "okA s \<Longrightarrow> okR (hb_itemMoveToRef H p q s)"
  unfolding hb_itemMoveToRef_def hb_itemSetNil_def
  by (intro okI; assumption?)

lemma okR_calls: "okA s \<Longrightarrow> okR (vm_calls H f as s)"
  unfolding vm_calls_def
  by (auto intro!: okR_more okR_rel okR_arith okR_addint okR_movetoref okR_fortest okR_call
      split: list.split harg.split)

lemma vm_calls_other:
  "f \<in> {''hb_itemClear'', ''hb_vmPushBlock'', ''hb_vmPushBlockShort''} \<Longrightarrow> vm_calls H f as s = hcall H f as s"
  by (auto simp: vm_calls_def split: list.split harg.split)

lemma run_time_calls: "run_time (H\<lparr>hcall := vm_calls H\<rparr>)"
proof
  show "hcall (H\<lparr>hcall := vm_calls H\<rparr>) f as s = Some s1 \<Longrightarrow> okA s \<Longrightarrow> okA s1" for f as s s1
    using okR_calls[of s f as] by (simp add: okR_def)
qed (auto simp: vm_calls_other intro: unref_ok unrefw_ok subst_ok objop_ok clear_string block_quiet)

lemma run_time_unref: "run_time (H\<lparr>hunref := hb_itemUnRef H\<rparr>)"
proof
  show "hunref (H\<lparr>hunref := hb_itemUnRef H\<rparr>) p s = Some (q, s1) \<Longrightarrow> okA s \<Longrightarrow> okA s1" for p s q s1
    using itemUnRef_okA[of H p s "(q, s1)"] unref_ok by simp
qed (auto intro: call_ok unrefw_ok subst_ok objop_ok clear_string block_quiet)

end

lemma run_time_vm_helpers: "run_time R \<Longrightarrow> run_time (vm_helpers R)"
  unfolding vm_helpers_def Let_def
  by (intro run_time.run_time_calls run_time.run_time_unref)

lemma run_time_base: "run_time base_helpers"
  by unfold_locales (auto simp: base_helpers_def split: if_splits)

interpretation vmh: run_time "vm_helpers (base_helpers :: unit helpers)"
  by (rule run_time_vm_helpers[OF run_time_base])

end
