(* ===== verification/VmEval.thy ===== *)
theory VmEval
  imports VmArith VmFacts
begin

text \<open>
  Rewriting rules that run the interpreter and the shims on concrete code: the
  table rows of the opcodes used in examples, and the definitions on the way.
\<close>

declare hb_itemUnRef.simps [code] unwind_always.simps [code] skip_nul.simps [code]

lemma vm_run_numeral:
  "vm_run 1 C t = (case vm_step C t of None \<Rightarrow> Aborted
     | Some (Leave t) \<Rightarrow> Finished t | Some (Loop t) \<Rightarrow> OutOfFuel)"
  "vm_run (numeral k) C t = (case vm_step C t of None \<Rightarrow> Aborted
     | Some (Leave t) \<Rightarrow> Finished t | Some (Loop t) \<Rightarrow> vm_run (pred_numeral k) C t)"
  by (simp_all add: numeral_eq_Suc One_nat_def split: option.splits after.splits)

lemma run_ir_numeral:
  "run_ir 1 F strs prog l fr s = (case find_block l prog of None \<Rightarrow> Malformed
     | Some ls \<Rightarrow> (case run_block F strs ls fr s of
         B_goto l1 fr1 s1 \<Rightarrow> OutOfFuel | B_ret s1 \<Rightarrow> Finished s1
       | B_abort \<Rightarrow> Aborted | B_bad \<Rightarrow> Malformed))"
  "run_ir (numeral k) F strs prog l fr s = (case find_block l prog of None \<Rightarrow> Malformed
     | Some ls \<Rightarrow> (case run_block F strs ls fr s of
         B_goto l1 fr1 s1 \<Rightarrow> run_ir (pred_numeral k) F strs prog l1 fr1 s1
       | B_ret s1 \<Rightarrow> Finished s1 | B_abort \<Rightarrow> Aborted | B_bad \<Rightarrow> Malformed))"
  by (simp_all add: numeral_eq_Suc One_nat_def split: option.splits bres.splits)

lemma maxint_numeral: "HB_LIM_LONG (numeral k) \<Longrightarrow> maxint (numeral k) = numeral k"
  by (rule maxint_id)

lemma case_rows:
  "map_of (cases_plain H) HB_P_PUSHBYTE = Some (\<lambda>p s. Some (stack_push (I_Integer (schar (p 1)) 10) s), 2)"
  "map_of (cases_plain H) HB_P_ZERO = Some (\<lambda>p s. Some (stack_push (I_Integer 0 10) s), 1)"
  "map_of (cases_plain H) HB_P_ONE = Some (\<lambda>p s. Some (stack_push (I_Integer 1 10) s), 1)"
  "map_of (cases_plain H) HB_P_PUSHNIL = Some (\<lambda>p s. Some (stack_push I_Nil s), 1)"
  "map_of (cases_plain H) HB_P_TRUE = Some (\<lambda>p s. Some (stack_push (I_Logical True) s), 1)"
  "map_of (cases_plain H) HB_P_FALSE = Some (\<lambda>p s. Some (stack_push (I_Logical False) s), 1)"
  "map_of (cases_plain H) HB_P_PLUS = Some (vm_binop H ''hb_vmPlus'', 1)"
  "map_of (cases_plain H) HB_P_RETVALUE = Some (\<lambda>p. vm_retvalue H, 1)"
  "map_of (cases_plain H) HB_P_POP = Some (\<lambda>p. hb_stackPop H, 1)"
  "map_of (cases_plain H) HB_P_DO = Some (\<lambda>p s. hcall H ''hb_vmProc'' [N (MKU16 p 1)] s, 3)"
  "map_of (cases_plain H) HB_P_DOSHORT = Some (\<lambda>p s. hcall H ''hb_vmProc'' [N (U8 p 1)] s, 2)"
  "map_of (cases_plain H) HB_P_PUSHSYMNEAR = Some (\<lambda>p s. Some (hb_vmPushSymbol (U8 p 1) s), 2)"
  "map_of (cases_plain H) HB_P_NOOP = Some (\<lambda>p s. Some s, 1)"
  by (simp_all only: case_tables lookup_simps map_of.simps(1))

lemma case_no_rows:
  "map_of (cases_plain H) HB_P_ENDPROC = None" "map_of (cases_plain H) HB_P_JUMP = None"
  "map_of (cases_plain H) HB_P_JUMPNEAR = None" "map_of (cases_plain H) HB_P_JUMPFALSENEAR = None"
  "map_of (cases_plain H) HB_P_SWITCH = None" "map_of (cases_plain H) HB_P_SEND = None"
  "map_of (cases_plain H) HB_P_SENDSHORT = None" "map_of (cases_plain H) HB_P_SEQBEGIN = None"
  "map_of (cases_plain H) HB_P_SEQEND = None" "map_of (cases_plain H) HB_P_SEQRECOVER = None"
  "map_of (cases_plain H) HB_P_SEQALWAYS = None" "map_of (cases_plain H) HB_P_ALWAYSBEGIN = None"
  "map_of (cases_plain H) HB_P_ALWAYSEND = None" "map_of (cases_plain H) HB_P_LINE = None"
  by (simp_all only: case_tables lookup_simps map_of.simps(1))

lemma shim_rows:
  "map_of (shims_plain H) vmsh_pushint = Some (sh1 (\<lambda>iValue s. Some (hb_vmPushInteger iValue s)))"
  "map_of (shims_plain H) vmsh_pushnil = Some (sh0 (\<lambda>s. Some (stack_push I_Nil s)))"
  "map_of (shims_plain H) vmsh_pushlogical = Some (sh1 hb_vmsh_pushlogical)"
  "map_of (shims_plain H) vmsh_pushsymbol = Some (shS (\<lambda>pSym s. Some (hb_vmPushSymbol pSym s)))"
  "map_of (shims_plain H) vmsh_plus = Some (sh0 (hb_vmsh_binop H ''hb_vmPlus''))"
  "map_of (shims_plain H) vmsh_pop = Some (sh0 (hb_stackPop H))"
  "map_of (shims_plain H) vmsh_retvalue = Some (sh0 (hb_vmsh_retvalue H))"
  "map_of (shims_plain H) vmsh_do = Some (sh1 (\<lambda>iParams. hcall H ''hb_vmProc'' [N (ush iParams)]))"
  "map_of (shims_plain H) vmsh_send = Some (sh1 (hb_vmsh_send H))"
  "map_of (shims_plain H) vmsh_seqbegin = None" "map_of (shims_plain H) vmsh_seqend = None"
  "map_of (shims_plain H) vmsh_seqrecover = None" "map_of (shims_plain H) vmsh_seqalways = None"
  "map_of (shims_plain H) vmsh_alwaysbegin = None" "map_of (shims_plain H) vmsh_alwaysend = None"
  "map_of (shims_plain H) vmsh_switchidx = None"
  by (simp_all only: shim_tables lookup_simps map_of.simps(1))

lemmas byte_eval = opc_def pc_of_list_def pc_simps schar_def U8_def MKU16_def

lemmas stack_eval = stack_push_def hb_stackItemFromTop_def hb_stackPop_def hb_stackDec_def
  hb_stackPopReturn_def hb_stackPushReturn_def hb_itemClear_def hb_itemSetNil_def hb_itemMove_def
  hb_stackRemove_def setAction_def hb_vmPushInteger_def HB_INT_LENGTH_def hb_vmPushSymbol_def

lemmas vm_eval = hb_vmExecute_def vm_run_numeral vm_step_def exec_case_def case_rows case_no_rows
  case_plain_def Let_def after_case_def vm_binop_def vm_retvalue_def case_misc_def case_jumps_def
  case_seq_def hb_pcodeIsJump_def vm_seqenter_def seq_env_def goto_recover_def vm_seqend_def
  vm_seqrecover_def vm_alwaysbegin_def vm_alwaysend_def vm_send_def jump_disp_def jump_size_def

lemmas shim_eval = shims_def shim_rows shim_special_def ret_action_def sh0_def sh1_def shS_def ush_def
  hb_vmsh_binop_def hb_vmsh_retvalue_def hb_vmsh_send_def hb_vmsh_pushlogical_def
  hb_vmsh_seqbegin_def hb_vmsh_seqenter_def hb_vmsh_seqend_def hb_vmsh_seqrecover_def
  hb_vmsh_seqalways_def hb_vmsh_alwaysbegin_def hb_vmsh_alwaysend_def hb_vmsh_switchidx_def
  seq_env_def

lemmas arith_eval = vm_helpers_def vm_calls_def base_helpers_def hb_vmPlus_def clear_if_complex_def
  maxint_numeral HB_LIM_LONG_def HB_LIM_INT_def HB_ITEM_PUT_NUMINTRAW_def HB_INT_EXPLENGTH_def
  HB_LONG_EXPLENGTH_def HB_LONG_LENGTH_def vm_with_def

end
