(* ===== verification/ExprFold.thy ===== *)
theory ExprFold
  imports ExprRed SLRows VmEval
begin

text \<open>
  An operator of literals computed by the compiler has the value the machine
  computes for it.
\<close>

section \<open>Literals as items\<close>

text \<open>
  The item the pcode of a literal pushes, ExprGen shows it; \<open>D\<close> is SET DECIMALS.
\<close>

definition long_item :: "int \<Rightarrow> item" where
  "long_item l =
     (if - (2 ^ 15) \<le> l \<and> l \<le> 2 ^ 15 - 1 then I_Integer l 10
      else if HB_LIM_INT l then I_Integer l (hb_vmCalcIntWidth l)
      else I_Long l (hb_vmCalcIntWidth l))"

definition lit_item :: "nat \<Rightarrow> expr \<Rightarrow> item option" where
  "lit_item D e =
     (case e of
        E_NIL \<Rightarrow> Some I_Nil
      | E_NUMERIC n w d \<Rightarrow>
          Some (case n of
              NUM_LONG l \<Rightarrow> long_item l
            | NUM_DOUBLE x \<Rightarrow>
                I_Double x (if w = 255 then HB_DBL_LENGTH x else w) (if d = 255 then D else d))
      | E_DATE j \<Rightarrow> Some (I_Date j)
      | E_TIMESTAMP j t \<Rightarrow> Some (I_TimeStamp j t)
      | E_STRING cs \<Rightarrow> Some (I_String False cs)
      | E_LOGICAL b \<Rightarrow> Some (I_Logical b)
      | _ \<Rightarrow> None)"

lemma lit_item_simps [simp]:
  "lit_item D (E_BIN oper l r) = None" "lit_item D (E_LOGICAL b) = Some (I_Logical b)"
  "lit_item D E_NIL = Some I_Nil" "lit_item D (E_DATE j) = Some (I_Date j)"
  "lit_item D (E_TIMESTAMP j t) = Some (I_TimeStamp j t)" "lit_item D (E_STRING cs) = Some (I_String False cs)"
  "lit_item D (E_NUMERIC (NUM_LONG v) w d) = Some (long_item v)"
  "lit_item D (E_NUMERIC (NUM_DOUBLE x) w d) =
     Some (I_Double x (if w = 255 then HB_DBL_LENGTH x else w) (if d = 255 then D else d))"
  "lit_item D (E_NOT e) = None" "lit_item D (E_NEGATE e) = None"
  by (simp_all add: lit_item_def)

lemma long_item_numint [simp]:
  "HB_IS_NUMINT (long_item l)" "HB_ITEM_GET_NUMINTRAW (long_item l) = l"
  "HB_ITEM_GET_NUMDBLRAW (long_item l) = d_of_int l"
  by (simp_all add: long_item_def)

lemma litE [consumes 1, case_names nil int long double date stamp string logical]:
  assumes "lit_item D e = Some x"
  obtains "e = E_NIL" "x = I_Nil"
  | v w d k where "e = E_NUMERIC (NUM_LONG v) w d" "x = I_Integer v k" "HB_LIM_INT v"
  | v w d k where "e = E_NUMERIC (NUM_LONG v) w d" "x = I_Long v k" "\<not> HB_LIM_INT v"
  | y w d k where "e = E_NUMERIC (NUM_DOUBLE y) w d" "x = I_Double y k (if d = 255 then D else d)"
  | j where "e = E_DATE j" "x = I_Date j"
  | j t where "e = E_TIMESTAMP j t" "x = I_TimeStamp j t"
  | cs where "e = E_STRING cs" "x = I_String False cs"
  | b where "e = E_LOGICAL b" "x = I_Logical b"
  using assms unfolding lit_item_def
  by (force simp: long_item_def HB_LIM_INT_def split: expr.splits numval.splits if_splits)

text \<open>The same value: the number, its decimals if it is a double, the text; not the width for printing.\<close>

definition same_value :: "item \<Rightarrow> item \<Rightarrow> bool" where
  "same_value x y =
     (if HB_IS_NUMINT x then HB_IS_NUMINT y \<and> HB_ITEM_GET_NUMINTRAW x = HB_ITEM_GET_NUMINTRAW y
      else case (x, y) of
        (I_Double a k m, I_Double b l n) \<Rightarrow> a = b \<and> m = n
      | (I_String f cs, I_String g ds) \<Rightarrow> cs = ds
      | _ \<Rightarrow> x = y)"

text \<open>The same number, perhaps once as an integer and once as a double.\<close>

definition same_number :: "item \<Rightarrow> item \<Rightarrow> bool" where
  "same_number x y \<longleftrightarrow> HB_IS_NUMERIC x \<and> HB_IS_NUMERIC y \<and>
     (HB_ITEM_GET_NUMDBLRAW x = HB_ITEM_GET_NUMDBLRAW y \<or>
      d_eq (HB_ITEM_GET_NUMDBLRAW x) (HB_ITEM_GET_NUMDBLRAW y))"

section \<open>The operators of the machine\<close>

text \<open>The instruction of an operator, HB_EA_PUSH_PCODE of include/hbexprb.c.\<close>

definition op_code :: "binop \<Rightarrow> nat" where
  "op_code oper =
     (case oper of EO_OR \<Rightarrow> HB_P_OR | EO_AND \<Rightarrow> HB_P_AND | EO_EQUAL \<Rightarrow> HB_P_EQUAL | EO_EQ \<Rightarrow> HB_P_EXACTLYEQUAL
      | EO_NE \<Rightarrow> HB_P_NOTEQUAL | EO_IN \<Rightarrow> HB_P_INSTRING | EO_LT \<Rightarrow> HB_P_LESS | EO_GT \<Rightarrow> HB_P_GREATER
      | EO_LE \<Rightarrow> HB_P_LESSEQUAL | EO_GE \<Rightarrow> HB_P_GREATEREQUAL | EO_PLUS \<Rightarrow> HB_P_PLUS | EO_MINUS \<Rightarrow> HB_P_MINUS
      | EO_MULT \<Rightarrow> HB_P_MULT | EO_DIV \<Rightarrow> HB_P_DIVIDE | EO_MOD \<Rightarrow> HB_P_MODULUS | EO_POWER \<Rightarrow> HB_P_POWER)"

text \<open>The case of the interpreter for it.\<close>

definition vm_operator :: "'w helpers \<Rightarrow> binop \<Rightarrow> 'w vm \<Rightarrow> 'w vm option" where
  "vm_operator H oper s =
     (case map_of (cases_plain H) (op_code oper) of Some (f, len) \<Rightarrow> f (\<lambda>i. 0) s | None \<Rightarrow> None)"

lemma operator_rows:
  "vm_operator H EO_OR = hb_vmOr H" "vm_operator H EO_AND = hb_vmAnd H"
  "vm_operator H EO_EQUAL = hcall H ''hb_vmEqual'' []" "vm_operator H EO_EQ = hcall H ''hb_vmExactlyEqual'' []"
  "vm_operator H EO_NE = hcall H ''hb_vmNotEqual'' []" "vm_operator H EO_IN = hcall H ''hb_vmInstring'' []"
  "vm_operator H EO_LT = hcall H ''hb_vmLess'' []" "vm_operator H EO_GT = hcall H ''hb_vmGreater'' []"
  "vm_operator H EO_LE = hcall H ''hb_vmLessEqual'' []" "vm_operator H EO_GE = hcall H ''hb_vmGreaterEqual'' []"
  "vm_operator H EO_PLUS = vm_binop H ''hb_vmPlus'' (\<lambda>i. 0)" "vm_operator H EO_MINUS = vm_binop H ''hb_vmMinus'' (\<lambda>i. 0)"
  "vm_operator H EO_MULT = vm_binop H ''hb_vmMult'' (\<lambda>i. 0)" "vm_operator H EO_DIV = vm_binop H ''hb_vmDivide'' (\<lambda>i. 0)"
  "vm_operator H EO_MOD = vm_binop H ''hb_vmModulus'' (\<lambda>i. 0)" "vm_operator H EO_POWER = vm_binop H ''hb_vmPower'' (\<lambda>i. 0)"
  unfolding vm_operator_def op_code_def binop.case
  by (simp_all only: case_tables lookup_simps map_of.simps(1) option.case prod.case vm_call0_def fun_eq_iff simp_thms)

end
