(* ===== verification/HbNum.thy ===== *)
theory HbNum
  imports HbStr VmItem "HOL-Library.Signed_Division"
begin

text \<open>
  Numbers as text, common/hbstr.c: the reader that Val(), the compiler and the
  preprocessor share, and the writer of integers.  A text is the list of its
  bytes, shorter than 2 to the 31.  \<open>pow\<close> is the function of the C library,
  called for sixteen decimals and more.
\<close>

section \<open>Powers of ten, rounding\<close>

definition hb_numPow10 :: "(64 word \<Rightarrow> 64 word \<Rightarrow> 64 word) \<Rightarrow> int \<Rightarrow> 64 word" where
  "hb_numPow10 pow nPrecision =
     (if 0 \<le> nPrecision \<and> nPrecision < 16 then d_of_int (10 ^ nat nPrecision)
      else if - 16 < nPrecision \<and> nPrecision < 16
      then d_div (d_of_int 1) (d_of_int (10 ^ nat (- nPrecision)))
      else pow (d_of_int 10) (d_of_int nPrecision))"

text \<open>The integral part that modf stores.\<close>

definition modf_int :: "64 word \<Rightarrow> 64 word" where
  "modf_int w =
     (case d_val w of FFin s m e \<Rightarrow> d_round s (fp_trunc m e) 0 | _ \<Rightarrow> w)"

text \<open>
  The factor 1.0000000000000002 is the double after 1.  HB_NUM_PRECISION and
  HB_CLP_STRICT are not set.
\<close>

definition HB_DBLFL_PREC_FACTOR :: "64 word" where
  "HB_DBLFL_PREC_FACTOR = d_bits False 1023 1"

definition hb_numRound :: "(64 word \<Rightarrow> 64 word \<Rightarrow> 64 word) \<Rightarrow> 64 word \<Rightarrow> int \<Rightarrow> 64 word" where
  "hb_numRound pow dNum iDec =
     (if d_eq dNum (d_of_int 0) then d_of_int 0
      else
        let doBase = d_of_int 10;
            dPow = hb_numPow10 pow (if iDec < 0 then - iDec else iDec);
            doComplete5 = d_mul (if iDec < 0 then d_div dNum dPow else d_mul dNum dPow) doBase;
            doComplete5 = (if d_lt dNum (d_of_int 0) then d_sub doComplete5 (d_of_int 5)
                           else d_add doComplete5 (d_of_int 5));
            doComplete5i = modf_int (d_mul (d_div doComplete5 doBase) HB_DBLFL_PREC_FACTOR)
        in if iDec < 0 then d_mul doComplete5i dPow else d_div doComplete5i dPow)"

definition hb_numInt :: "64 word \<Rightarrow> 64 word" where
  "hb_numInt dNum = modf_int (d_mul dNum HB_DBLFL_PREC_FACTOR)"

definition hb_numDecConv :: "(64 word \<Rightarrow> 64 word \<Rightarrow> 64 word) \<Rightarrow> 64 word \<Rightarrow> int \<Rightarrow> 64 word" where
  "hb_numDecConv pow dNum iDec =
     (if iDec > 0 then hb_numRound pow (d_div dNum (hb_numPow10 pow iDec)) iDec
      else if iDec < 0 then hb_numRound pow (d_mul dNum (hb_numPow10 pow (- iDec))) 0
      else hb_numRound pow dNum 0)"

definition hb_numExpConv :: "(64 word \<Rightarrow> 64 word \<Rightarrow> 64 word) \<Rightarrow> 64 word \<Rightarrow> int \<Rightarrow> 64 word" where
  "hb_numExpConv pow dNum iExp =
     (if iExp > 0 then d_div dNum (hb_numPow10 pow iExp)
      else if iExp < 0 then d_mul dNum (hb_numPow10 pow (- iExp))
      else dNum)"

section \<open>Reading a number\<close>

text \<open>The variables of hb_str2number.\<close>

record num =
  lVal :: int
  dVal :: "64 word"
  fDbl :: bool
  fDec :: bool
  iDec :: int
  iDecR :: int
  iWidth :: int

definition is_digit :: "HB_BYTE \<Rightarrow> bool" where
  "is_digit c \<longleftrightarrow> c \<ge> 48 \<and> c \<le> 57"

definition digit_int :: "HB_BYTE \<Rightarrow> int" where
  "digit_int c = uint c - 48"

definition add_digit :: "HB_BYTE \<Rightarrow> num \<Rightarrow> num" where
  "add_digit c n =
     (let d = digit_int c;
          lLimV = (2 ^ 63 - 1) div 10; iLimC = (2 ^ 63 - 1) mod 10;
          n = (if fDbl n then n\<lparr>dVal := d_add (d_mul (dVal n) (d_of_int 10)) (d_of_int d)\<rparr>
               else if lVal n < lLimV \<or> (lVal n \<le> lLimV \<and> d \<le> iLimC)
               then n\<lparr>lVal := lVal n * 10 + d\<rparr>
               else n\<lparr>dVal := d_add (d_mul (d_of_int (lVal n)) (d_of_int 10)) (d_of_int d), fDbl := True\<rparr>)
      in if fDec n then n\<lparr>iDec := iDec n + 1\<rparr> else n\<lparr>iWidth := iWidth n + 1\<rparr>)"

text \<open>At the first byte that is no part of the number: look for the decimal point.\<close>

fun skip_rest :: "HB_BYTE list \<Rightarrow> num \<Rightarrow> num" where
  "skip_rest [] n = (if fDec n then n\<lparr>iDecR := 0\<rparr> else n)"
| "skip_rest (c # cs) n =
     (if fDec n then n\<lparr>iDecR := int (length (c # cs))\<rparr>
      else if c = 46 then skip_rest cs (n\<lparr>fDec := True\<rparr>)
      else skip_rest cs (n\<lparr>iWidth := iWidth n + 1\<rparr>))"

fun dec_loop :: "HB_BYTE list \<Rightarrow> num \<Rightarrow> num" where
  "dec_loop [] n = n"
| "dec_loop (c # cs) n =
     (if is_digit c then dec_loop cs (add_digit c n)
      else if c = 46 \<and> \<not> fDec n then dec_loop cs (n\<lparr>fDec := True\<rparr>)
      else skip_rest (c # cs) n)"

text \<open>The hexadecimal digits shift into the 64 bits.\<close>

fun hex_num :: "HB_BYTE list \<Rightarrow> int \<Rightarrow> int" where
  "hex_num [] l = l"
| "hex_num (c # cs) l =
     (case hex_value c of
        Some d \<Rightarrow> hex_num cs (maxint (l * 16 + uint d))
      | None \<Rightarrow> l)"

definition num_sign :: "bool \<Rightarrow> num \<Rightarrow> num" where
  "num_sign fNeg n =
     (if fNeg then (if fDbl n then n\<lparr>dVal := d_neg (dVal n)\<rparr> else n\<lparr>lVal := maxint (- lVal n)\<rparr>) else n)"

definition num_dec :: "(64 word \<Rightarrow> 64 word \<Rightarrow> 64 word) \<Rightarrow> num \<Rightarrow> num" where
  "num_dec pow n =
     (let n = (if \<not> fDbl n \<and> fDec n then n\<lparr>dVal := d_of_int (lVal n), fDbl := True\<rparr> else n)
      in if iDec n \<noteq> 0 then n\<lparr>dVal := d_div (dVal n) (hb_numPow10 pow (iDec n))\<rparr> else n)"

definition num_width :: "bool \<Rightarrow> bool \<Rightarrow> bool \<Rightarrow> int \<Rightarrow> num \<Rightarrow> int" where
  "num_width fPCode fHex fNeg iLen n =
     (let len = (if fDbl n then int (HB_DBL_LENGTH (dVal n)) else int (HB_LONG_LENGTH (lVal n)))
      in if fHex then iWidth n
         else if fPCode then
           (if iWidth n < 10 \<or> fNeg then len else iWidth n + (if iDec n = 0 then 1 else 0))
         else if iWidth n > 10 then len
         else if iDec n + iDecR n = 0 then iLen
         else if iWidth n = 0 then 1
         else if fNeg \<and> iWidth n = 1 \<and> d_ne (dVal n) (d_of_int 0) then 2
         else iWidth n)"

fun skip_sp :: "HB_BYTE list \<Rightarrow> HB_BYTE list" where
  "skip_sp [] = []"
| "skip_sp (c # cs) = (if is_space c then skip_sp cs else c # cs)"

definition get_sign :: "HB_BYTE list \<Rightarrow> bool \<times> HB_BYTE list" where
  "get_sign cs =
     (case cs of
        [] \<Rightarrow> (False, [])
      | c # r \<Rightarrow> (if c = 45 then (True, r) else if c = 43 then (False, r) else (False, cs)))"

definition is_hex :: "HB_BYTE list \<Rightarrow> bool" where
  "is_hex cs \<longleftrightarrow> (case cs of c # d # _ \<Rightarrow> c = 48 \<and> (d = 88 \<or> d = 120) | _ \<Rightarrow> False)"

text \<open>The final values of the variables, the decimals and the width.\<close>

definition hb_str2number ::
  "(64 word \<Rightarrow> 64 word \<Rightarrow> 64 word) \<Rightarrow> bool \<Rightarrow> HB_BYTE list \<Rightarrow> num \<times> int \<times> int" where
  "hb_str2number pow fPCode szNum =
     (let (fNeg, cs) = get_sign (skip_sp szNum);
          fHex = (fPCode \<and> is_hex cs);
          n0 = \<lparr>lVal = 0, dVal = d_of_int 0, fDbl = False, fDec = False, iDec = 0, iDecR = 0,
                iWidth = (if fHex then 255 else int (length szNum) - int (length cs))\<rparr>;
          n = (if fHex then n0\<lparr>lVal := hex_num (drop 2 cs) 0\<rparr> else dec_loop cs n0);
          n = num_dec pow (num_sign fNeg n)
      in (n, iDec n + iDecR n, num_width fPCode fHex fNeg (int (length szNum)) n))"

definition hb_compStrToNum ::
  "(64 word \<Rightarrow> 64 word \<Rightarrow> 64 word) \<Rightarrow> HB_BYTE list \<Rightarrow> num \<times> int \<times> int" where
  "hb_compStrToNum pow = hb_str2number pow True"

definition hb_valStrnToNum ::
  "(64 word \<Rightarrow> 64 word \<Rightarrow> 64 word) \<Rightarrow> HB_BYTE list \<Rightarrow> num \<times> int \<times> int" where
  "hb_valStrnToNum pow = hb_str2number pow False"

definition hb_strToNum :: "(64 word \<Rightarrow> 64 word \<Rightarrow> 64 word) \<Rightarrow> HB_BYTE list \<Rightarrow> num" where
  "hb_strToNum pow szNum = fst (hb_str2number pow False szNum)"

definition hb_strnToNum :: "(64 word \<Rightarrow> 64 word \<Rightarrow> 64 word) \<Rightarrow> HB_BYTE list \<Rightarrow> num" where
  "hb_strnToNum pow szNum = fst (hb_str2number pow False szNum)"

definition hb_strVal :: "(64 word \<Rightarrow> 64 word \<Rightarrow> 64 word) \<Rightarrow> HB_BYTE list \<Rightarrow> 64 word" where
  "hb_strVal pow szText =
     (let n = fst (hb_str2number pow False szText)
      in if \<not> fDbl n then d_of_int (lVal n) else dVal n)"

text \<open>The value and whether it overflows.\<close>

definition hb_strValInt :: "(64 word \<Rightarrow> 64 word \<Rightarrow> 64 word) \<Rightarrow> HB_BYTE list \<Rightarrow> int \<times> bool" where
  "hb_strValInt pow szText =
     (let n = fst (hb_str2number pow True szText) in if fDbl n then (0, True) else (lVal n, False))"

section \<open>Writing an integer\<close>

text \<open>
  The digits are stored from the right: \<open>iPos\<close> bytes are free before \<open>buf\<close>;
  the result position is -1 when the buffer is too short.
\<close>

definition digit_char :: "int \<Rightarrow> HB_BYTE" where
  "digit_char d = 48 + word_of_int d"

fun put_digits :: "nat \<Rightarrow> int \<Rightarrow> HB_BYTE list \<Rightarrow> int \<times> HB_BYTE list" where
  "put_digits 0 lNumber buf = (- 1, buf)"
| "put_digits (Suc iPos) lNumber buf =
     (let buf = digit_char (lNumber smod 10) # buf; lNumber = lNumber sdiv 10
      in if lNumber = 0 then (int iPos, buf) else put_digits iPos lNumber buf)"

text \<open>The bytes of the buffer before its zero byte, and the offset of the result in them.\<close>

definition hb_numToStr :: "nat \<Rightarrow> int \<Rightarrow> HB_BYTE list \<times> nat" where
  "hb_numToStr nSize lNumber =
     (let fNeg = (lNumber < 0);
          (iPos, buf) = put_digits (nSize - 1) (if fNeg then maxint (- lNumber) else lNumber) [];
          iPos1 = (if fNeg then iPos - 1 else iPos);
          buf = (if fNeg \<and> iPos1 \<ge> 0 then 45 # buf else buf)
      in if iPos1 < 0 then (replicate (nSize - 1) 42, 0)
         else (replicate (nat iPos1) 32 @ buf, nat iPos1))"

definition num_text :: "HB_BYTE list \<times> nat \<Rightarrow> HB_BYTE list" where
  "num_text r = drop (snd r) (fst r)"

end
