(* ===== verification/HbNumFacts.thy ===== *)
theory HbNumFacts
  imports HbNum VmFacts HbDate
begin

text \<open>
  Reading and writing integers, common/hbstr.c: what hb_str2number makes of
  digits, and that hb_numToStr and hb_strValInt are inverse.
\<close>

declare One_nat_def [simp del]

section \<open>Reading\<close>

definition text_value :: "int \<Rightarrow> HB_BYTE list \<Rightarrow> int" where
  "text_value = foldl (\<lambda>v c. v * 10 + digit_int c)"

lemma text_value_simps [simp]:
  "text_value v [] = v" "text_value v (c # cs) = text_value (v * 10 + digit_int c) cs"
  "text_value v (cs @ ds) = text_value (text_value v cs) ds"
  by (simp_all add: text_value_def)

lemma digit_int_range: "is_digit c \<Longrightarrow> 0 \<le> digit_int c \<and> digit_int c \<le> 9"
  by (simp add: is_digit_def digit_int_def word_le_def)

lemma text_value_mono: "list_all is_digit cs \<Longrightarrow> 0 \<le> v \<Longrightarrow> v \<le> text_value v cs"
proof (induction cs arbitrary: v)
  case (Cons c cs)
  have d: "0 \<le> digit_int c" using Cons.prems digit_int_range by auto
  have "v * 10 + digit_int c \<le> text_value (v * 10 + digit_int c) cs"
    using Cons.prems d by (intro Cons.IH) auto
  moreover have "v \<le> v * 10 + digit_int c" using d Cons.prems(2) by linarith
  ultimately show ?case by simp
qed simp

lemma dec_loop_dbl: "list_all is_digit cs \<Longrightarrow> fDbl n \<Longrightarrow> \<not> fDec n \<Longrightarrow>
   fDbl (dec_loop cs n) \<and> \<not> fDec (dec_loop cs n) \<and> iDec (dec_loop cs n) = iDec n"
  by (induction cs arbitrary: n) (simp_all add: add_digit_def Let_def)

lemma dec_loop_long:
  assumes "list_all is_digit cs" "\<not> fDbl n" "\<not> fDec n" "0 \<le> lVal n" "lVal n \<le> 2 ^ 63 - 1"
  shows "(fDbl (dec_loop cs n) \<longleftrightarrow> text_value (lVal n) cs > 2 ^ 63 - 1) \<and>
    (\<not> fDbl (dec_loop cs n) \<longrightarrow> lVal (dec_loop cs n) = text_value (lVal n) cs) \<and>
    \<not> fDec (dec_loop cs n) \<and> iDec (dec_loop cs n) = iDec n"
  using assms
proof (induction cs arbitrary: n)
  case (Cons c cs)
  have c: "is_digit c" "list_all is_digit cs" and d: "0 \<le> digit_int c" "digit_int c \<le> 9"
    using Cons.prems digit_int_range by auto
  let ?v = "lVal n * 10 + digit_int c"
  have lim: "lVal n < (2 ^ 63 - 1) div 10 \<or> (lVal n \<le> (2 ^ 63 - 1) div 10 \<and> digit_int c \<le> (2 ^ 63 - 1) mod 10)
      \<longleftrightarrow> ?v \<le> 2 ^ 63 - 1"
    using d by auto
  show ?case
  proof (cases "?v \<le> 2 ^ 63 - 1")
    case True
    then have a: "add_digit c n = n\<lparr>lVal := ?v, iWidth := iWidth n + 1\<rparr>"
      using Cons.prems lim unfolding add_digit_def Let_def by simp
    show ?thesis using Cons.IH[of "add_digit c n"] Cons.prems c d True by (simp add: a)
  next
    case False
    then have a: "fDbl (add_digit c n)" "\<not> fDec (add_digit c n)" "iDec (add_digit c n) = iDec n"
      using Cons.prems lim unfolding add_digit_def Let_def by simp_all
    have "?v \<le> text_value ?v cs" using c(2) d Cons.prems by (intro text_value_mono) auto
    then show ?thesis using dec_loop_dbl[OF c(2) a(1,2)] a(3) c False by simp
  qed
qed auto

lemma digit_char: "0 \<le> d \<Longrightarrow> d \<le> 9 \<Longrightarrow> is_digit (digit_char d) \<and> digit_int (digit_char d) = d"
proof -
  assume d: "0 \<le> d" "d \<le> 9"
  then have "uint (digit_char d) = 48 + d"
    by (simp add: digit_char_def uint_word_ariths uint_word_of_int)
  with d show ?thesis by (simp add: is_digit_def digit_int_def word_le_def)
qed

lemma put_digits_fit:
  "0 \<le> l \<Longrightarrow> l < 10 ^ k \<Longrightarrow> 0 < k \<Longrightarrow>
   \<exists>ds. put_digits k l buf = (int (k - length ds), ds @ buf) \<and> list_all is_digit ds \<and> ds \<noteq> [] \<and>
     text_value 0 ds = l \<and> length ds \<le> k \<and> (l = 0 \<or> 10 ^ (length ds - 1) \<le> l)"
proof (induction k arbitrary: l buf)
  case (Suc k)
  have d: "l smod 10 = l mod 10" "l sdiv 10 = l div 10" using Suc.prems by (simp_all add: smod_nonneg sdiv_nonneg)
  let ?c = "digit_char (l mod 10)"
  have c: "is_digit ?c" "digit_int ?c = l mod 10" using digit_char[of "l mod 10"] by simp_all
  show ?case
  proof (cases "l div 10 = 0")
    case True
    then have "l mod 10 = l" using Suc.prems by (simp add: mod_eq_self_iff_div_eq_0)
    then show ?thesis using True c Suc.prems by (intro exI[of _ "[?c]"]) (auto simp: d)
  next
    case False
    have "l div 10 < 10 ^ k" using Suc.prems int_le_div[of 10 "10 ^ k" l] by (simp add: not_le[symmetric] mult.commute)
    moreover have "0 < k" using False Suc.prems \<open>l div 10 < 10 ^ k\<close> by (cases k) auto
    moreover have "0 \<le> l div 10" using Suc.prems by simp
    ultimately obtain ds where "put_digits k (l div 10) (?c # buf) = (int (k - length ds), ds @ ?c # buf)"
        "list_all is_digit ds" "text_value 0 ds = l div 10" "length ds \<le> k" "ds \<noteq> []" "10 ^ (length ds - 1) \<le> l div 10"
      using Suc.IH[of "l div 10" "?c # buf"] False by auto
    moreover from this have "10 ^ length ds \<le> l" by (cases ds) (simp_all add: int_le_div)
    ultimately show ?thesis using False c by (intro exI[of _ "ds @ [?c]"]) (simp add: d)
  qed
qed simp

lemma text_value_less: "list_all is_digit ds \<Longrightarrow> text_value v ds < (v + 1) * 10 ^ length ds"
proof (induction ds arbitrary: v)
  case (Cons c ds)
  have "text_value (v * 10 + digit_int c) ds < (v * 10 + digit_int c + 1) * 10 ^ length ds"
    using Cons by simp
  also have "\<dots> \<le> ((v + 1) * 10) * 10 ^ length ds"
    using Cons.prems digit_int_range[of c] by (intro mult_right_mono) auto
  finally show ?case by (simp add: algebra_simps)
qed simp

lemma put_digits_no_fit: "0 \<le> l \<Longrightarrow> 10 ^ k \<le> l \<Longrightarrow> fst (put_digits k l buf) = - 1"
proof (induction k arbitrary: l buf)
  case (Suc k)
  have d: "l sdiv 10 = l div 10" using Suc.prems by (simp add: sdiv_nonneg)
  have "10 ^ k \<le> l div 10" using Suc.prems by (simp add: int_le_div)
  moreover from this have "l div 10 \<noteq> 0" using zero_less_power[of "10 :: int" k] by linarith
  ultimately show ?case using Suc.IH[of "l div 10"] Suc.prems by (simp add: d Let_def)
qed simp

lemma get_sign_digits:
  "list_all is_digit ds \<Longrightarrow> get_sign ds = (False, ds) \<and> skip_sp ds = ds \<and> \<not> is_hex ds"
  by (cases ds; cases "tl ds") (auto simp: get_sign_def is_hex_def is_digit_def is_space_def word_le_def)

lemma skip_sp_app: "list_all is_space bl \<Longrightarrow> skip_sp (bl @ cs) = skip_sp cs"
  by (induction bl) auto

text \<open>What the reader makes of blanks, a sign and digits.\<close>

lemma str2number_digits:
  assumes "list_all is_space bl" "sg \<in> {[], [43], [45]}" "list_all is_digit ds"
  shows "let n = fst (hb_str2number pow fPCode (bl @ sg @ ds)); v = text_value 0 ds in
    (fDbl n \<longleftrightarrow> v > 2 ^ 63 - 1) \<and> (\<not> fDbl n \<longrightarrow> lVal n = (if sg = [45] then - v else v))"
proof -
  have sp: "skip_sp (bl @ sg @ ds) = sg @ ds" using assms get_sign_digits[OF assms(3)]
    by (auto simp: skip_sp_app is_space_def)
  have gs: "get_sign (sg @ ds) = (sg = [45], ds)"
  proof (cases "sg = []")
    case True
    then show ?thesis using get_sign_digits[OF assms(3)] by simp
  next
    case False
    then show ?thesis using assms(2) by (auto simp: get_sign_def)
  qed
  have hx: "\<not> is_hex ds" using get_sign_digits[OF assms(3)] by simp
  define n0 where "n0 = \<lparr>lVal = 0, dVal = d_of_int 0, fDbl = False, fDec = False, iDec = 0, iDecR = 0,
      iWidth = int (length (bl @ sg @ ds)) - int (length ds)\<rparr>"
  have n: "fst (hb_str2number pow fPCode (bl @ sg @ ds)) = num_dec pow (num_sign (sg = [45]) (dec_loop ds n0))"
    unfolding hb_str2number_def sp gs Let_def prod.case by (simp add: hx n0_def)
  have n0: "\<not> fDbl n0" "\<not> fDec n0" "lVal n0 = 0" "iDec n0 = 0" by (simp_all add: n0_def)
  have v: "0 \<le> text_value 0 ds" using text_value_mono[OF assms(3), of 0] by simp
  have L: "fDbl (dec_loop ds n0) \<longleftrightarrow> text_value 0 ds > 2 ^ 63 - 1"
      "\<not> fDbl (dec_loop ds n0) \<Longrightarrow> lVal (dec_loop ds n0) = text_value 0 ds"
      "\<not> fDec (dec_loop ds n0)" "iDec (dec_loop ds n0) = 0"
    using dec_loop_long[OF assms(3) n0(1,2)] n0 by auto
  have neg: "maxint (- text_value 0 ds) = - text_value 0 ds" if "text_value 0 ds \<le> 2 ^ 63 - 1"
    using that v by (intro maxint_id) (simp add: HB_LIM_LONG_def)
  show ?thesis unfolding n Let_def num_dec_def num_sign_def using L neg by auto
qed

text \<open>C27.
  Blanks, an optional sign and digits, of any length, are read exactly: the
  result is a double if and only if the digits exceed 9223372036854775807 (so
  the text of the least integer is one), and otherwise the integer they denote.
\<close>

theorem hb_str2number_integer:
  assumes "list_all is_space bl" "sg = [] \<or> sg = [43] \<or> sg = [45]" "list_all is_digit ds"
  shows "let n = hb_strToNum pow (bl @ sg @ ds); v = foldl (\<lambda>v c. v * 10 + digit_int c) 0 ds in
    (fDbl n \<longleftrightarrow> v > 2 ^ 63 - 1) \<and>
    (\<not> fDbl n \<longrightarrow> lVal n = (if sg = [45] then - v else v))"
proof -
  have "sg \<in> {[], [43], [45]}" using assms(2) by auto
  from str2number_digits[OF assms(1) this assms(3), of pow False] show ?thesis
    by (simp only: hb_strToNum_def text_value_def)
qed

lemma hb_str2number_integer_witness:
  "lVal (hb_strToNum (\<lambda>_ _. 0) [32, 45, 49, 50]) = - 12 \<and>
   fDbl (hb_strToNum (\<lambda>_ _. 0) ([] @ [] @ [57, 57, 57, 57, 57, 57, 57, 57, 57, 57, 57, 57, 57, 57, 57, 57, 57, 57, 57, 57]))"
proof -
  have 1: "lVal (hb_strToNum (\<lambda>_ _. 0) ([32] @ [45] @ [49, 50])) = - 12"
    using hb_str2number_integer[of "[32]" "[45]" "[49, 50]" "\<lambda>_ _. 0"]
    by (simp add: is_space_def is_digit_def digit_int_def Let_def)
  have 2: "fDbl (hb_strToNum (\<lambda>_ _. 0) ([] @ [] @ [57, 57, 57, 57, 57, 57, 57, 57, 57, 57, 57, 57, 57, 57, 57, 57, 57, 57, 57, 57]))"
    using hb_str2number_integer[of "[]" "[]" "[57, 57, 57, 57, 57, 57, 57, 57, 57, 57, 57, 57, 57, 57, 57, 57, 57, 57, 57, 57]" "\<lambda>_ _. 0"]
    by (simp add: is_digit_def digit_int_def Let_def)
  show ?thesis using 1 2 by simp
qed

section \<open>Writing\<close>

text \<open>C28.
  hb_numToStr fills its buffer exactly; when the digits and the sign fit, the
  text it returns is read back by hb_strValInt as the same number, and
  otherwise the buffer is all asterisks.
\<close>

theorem hb_numToStr_roundtrip:
  assumes "1 < nSize" "\<bar>n\<bar> < 2 ^ 63"
  shows "length (fst (hb_numToStr nSize n)) = nSize - 1 \<and>
    (if \<bar>n\<bar> < 10 ^ (if n < 0 then nSize - 2 else nSize - 1)
     then hb_strValInt pow (num_text (hb_numToStr nSize n)) = (n, False)
     else hb_numToStr nSize n = (replicate (nSize - 1) 42, 0))"
proof -
  have a: "(if n < 0 then maxint (- n) else n) = \<bar>n\<bar>"
    using assms(2) maxint_id[of "- n"] by (auto simp: HB_LIM_LONG_def)
  show ?thesis
  proof (cases "\<bar>n\<bar> < 10 ^ (nSize - 1)")
    case False
    then have "fst (put_digits (nSize - 1) \<bar>n\<bar> []) = - 1" by (intro put_digits_no_fit) auto
    then obtain b where p: "put_digits (nSize - 1) \<bar>n\<bar> [] = (- 1, b)" by (cases "put_digits (nSize - 1) \<bar>n\<bar> []") auto
    have "(10 :: int) ^ (nSize - 2) \<le> 10 ^ (nSize - 1)" by (intro power_increasing) auto
    then have "\<not> \<bar>n\<bar> < 10 ^ (nSize - 2)" using False by linarith
    then have "\<not> \<bar>n\<bar> < 10 ^ (if n < 0 then nSize - 2 else nSize - 1)" using False by (cases "n < 0") simp_all
    moreover have "hb_numToStr nSize n = (replicate (nSize - 1) 42, 0)"
      unfolding hb_numToStr_def Let_def a p prod.case by simp
    ultimately show ?thesis by simp
  next
    case True
    then obtain ds where p: "put_digits (nSize - 1) \<bar>n\<bar> [] = (int (nSize - 1 - length ds), ds)"
      and ds: "list_all is_digit ds" "ds \<noteq> []" "text_value 0 ds = \<bar>n\<bar>" "length ds \<le> nSize - 1"
        "n = 0 \<or> 10 ^ (length ds - 1) \<le> \<bar>n\<bar>"
      using put_digits_fit[of "\<bar>n\<bar>" "nSize - 1" "[]"] assms(1) by auto
    have rd: "hb_strValInt pow ((if n < 0 then [45] else []) @ ds) = (n, False)"
      using str2number_digits[of "[]" "if n < 0 then [45] else []" ds pow True] ds(1,3) assms(2)
      by (auto simp: hb_strValInt_def Let_def)
    have lt: "\<bar>n\<bar> < 10 ^ length ds" using text_value_less[OF ds(1), of 0] ds(3) by simp
    have fit: "length ds < nSize - 1 \<longleftrightarrow> \<bar>n\<bar> < 10 ^ (nSize - 2)" if "n < 0"
    proof
      assume "length ds < nSize - 1"
      then have "(10 :: int) ^ length ds \<le> 10 ^ (nSize - 2)" by (intro power_increasing) auto
      with lt show "\<bar>n\<bar> < 10 ^ (nSize - 2)" by linarith
    next
      assume "\<bar>n\<bar> < 10 ^ (nSize - 2)"
      with ds(5) that have "(10 :: int) ^ (length ds - 1) < 10 ^ (nSize - 2)" by linarith
      then have "length ds - 1 < nSize - 2" using power_less_imp_less_exp[of "10 :: int"] by simp
      then show "length ds < nSize - 1" using ds(2) by linarith
    qed
    have nt: "num_text (replicate k 32 @ t, k) = t" for k t by (simp add: num_text_def)
    consider "n \<ge> 0" | "n < 0" "length ds < nSize - 1" | "n < 0" "length ds = nSize - 1" using ds(4) by linarith
    then show ?thesis
    proof cases
      case 1
      then have "hb_numToStr nSize n = (replicate (nSize - 1 - length ds) 32 @ ds, nSize - 1 - length ds)"
        unfolding hb_numToStr_def Let_def a p prod.case by simp
      then show ?thesis using 1 rd nt ds(4) True by simp
    next
      case 2
      then have "hb_numToStr nSize n = (replicate (nSize - 2 - length ds) 32 @ 45 # ds, nSize - 2 - length ds)"
        unfolding hb_numToStr_def Let_def a p prod.case by (simp add: nat_diff_distrib of_nat_diff)
      then show ?thesis using 2 rd nt fit by simp
    next
      case 3
      then have "hb_numToStr nSize n = (replicate (nSize - 1) 42, 0)"
        unfolding hb_numToStr_def Let_def a p prod.case by simp
      then show ?thesis using 3 fit by simp
    qed
  qed
qed

lemma hb_numToStr_roundtrip_witness:
  "hb_strValInt (\<lambda>_ _. 0) (num_text (hb_numToStr 5 (- 123))) = (- 123, False) \<and>
   hb_numToStr 4 (- 123) = ([42, 42, 42], 0)"
  using hb_numToStr_roundtrip[of 5 "- 123" "\<lambda>_ _. 0"] hb_numToStr_roundtrip[of 4 "- 123" "\<lambda>_ _. 0"]
  by (simp add: numeral_eq_Suc)

text \<open>
  The least 64 bit integer has no positive counterpart.  Its negation in C is
  undefined; when it wraps around, hb_numToStr removes the sign in vain, the
  remainders of the digits stay negative, and the text after the minus sign is no
  number.
\<close>

lemma hb_numToStr_least:
  "num_text (hb_numToStr 21 (- (2 ^ 63))) =
    [45, 39, 46, 46, 45, 45, 41, 46, 48, 45, 42, 40, 43, 44, 41, 41, 43, 40, 48, 40]"
  by code_simp

end
