(* ===== verification/DblInt.thy ===== *)
theory DblInt
  imports VmFacts HbNumFacts
begin

text \<open>
  Doubles that hold integers: rounding does not depend on the form of a value,
  and products and quotients that are integers of at most 53 bits are exact.
\<close>

lemma nbits_shift: "0 < m \<Longrightarrow> nbits (m * 2 ^ j) = nbits m + j"
proof (induction j)
  case (Suc j)
  have "nbits (m * 2 ^ Suc j) = Suc (nbits (m * 2 ^ Suc j div 2))"
    using Suc.prems by (subst nbits.simps) (simp add: not_le)
  also have "m * 2 ^ Suc j div 2 = m * 2 ^ j" by simp
  finally show ?case using Suc by simp
qed simp

lemma rne_shift: "rne (m * 2 ^ j) (a + j) = rne m a"
proof -
  have d: "m * 2 ^ j div 2 ^ (a + j) = m div 2 ^ a" by (simp add: power_add)
  have r: "m * 2 ^ j mod 2 ^ (a + j) = m mod 2 ^ a * 2 ^ j" by (simp add: power_add mod_mult_mult2)
  have c: "2 ^ (a + j) < 2 * (m mod 2 ^ a * 2 ^ j) \<longleftrightarrow> 2 ^ a < 2 * (m mod 2 ^ a)"
    "2 * (m mod 2 ^ a * 2 ^ j) = 2 ^ (a + j) \<longleftrightarrow> 2 * (m mod 2 ^ a) = 2 ^ a"
    using mult_less_cancel_right[of "2 ^ a" "2 ^ j" "2 * (m mod 2 ^ a)"]
      mult_cancel_right[of "2 * (m mod 2 ^ a)" "2 ^ j" "2 ^ a"]
    by (simp_all add: power_add mult.assoc)
  show ?thesis unfolding rne_def Let_def d r c ..
qed

lemma rne_exact: "rne (m * 2 ^ k) k = m"
  by (simp add: rne_def)

lemma round_mant_shift:
  assumes "0 < m"
  shows "round_mant (m * 2 ^ j) (e - int j) = round_mant m e"
proof -
  define q where "q = max (- 1074) (e + int (nbits m) - 53)"
  have q: "max (- 1074) (e - int j + int (nbits (m * 2 ^ j)) - 53) = q"
    using assms by (simp add: nbits_shift q_def)
  consider (small) "q \<le> e - int j" | (middle) "e - int j < q" "q \<le> e" | (big) "e < q" by linarith
  then show ?thesis
  proof cases
    case small
    then have "nat (e - q) = nat (e - int j - q) + j" by simp
    then have "m * 2 ^ j * 2 ^ nat (e - int j - q) = m * 2 ^ nat (e - q)" by (simp add: power_add)
    then show ?thesis using small unfolding round_mant_def q q_def[symmetric] Let_def by simp
  next
    case middle
    define t where "t = nat (q - (e - int j))"
    have t: "j = nat (e - q) + t" using middle by (simp add: t_def)
    have "m * 2 ^ j = m * 2 ^ nat (e - q) * 2 ^ t" by (simp add: t power_add)
    then have r: "rne (m * 2 ^ j) t = m * 2 ^ nat (e - q)" by (simp only: rne_exact)
    have "m * 2 ^ nat (e - q) < 2 ^ nbits m * 2 ^ nat (e - q)" using nbits_bounds[OF assms] by simp
    also have "\<dots> \<le> 2 ^ 53" unfolding power_add[symmetric] using middle(2)
      by (intro power_increasing) (auto simp: q_def)
    finally show ?thesis using middle r unfolding round_mant_def q q_def[symmetric] Let_def t_def[symmetric] by simp
  next
    case big
    then have "nat (q - (e - int j)) = nat (q - e) + j" by simp
    then show ?thesis using big unfolding round_mant_def q q_def[symmetric] Let_def by (simp add: rne_shift)
  qed
qed

lemma d_round_shift: "0 < m \<Longrightarrow> d_round s (m * 2 ^ j) (e - int j) = d_round s m e"
  by (simp add: d_round_def round_mant_shift)

text \<open>The same value in two forms.\<close>

lemma d_round_same:
  assumes "0 < m" "0 < n" "- int a \<le> e" "- int a \<le> f" "m * 2 ^ nat (e + int a) = n * 2 ^ nat (f + int a)"
  shows "d_round s m e = d_round s n f"
proof -
  have "d_round s m e = d_round s (m * 2 ^ nat (e + int a)) (e - int (nat (e + int a)))"
    by (rule d_round_shift[OF assms(1), symmetric])
  also have "e - int (nat (e + int a)) = f - int (nat (f + int a))" using assms(3,4) by simp
  also have "d_round s (m * 2 ^ nat (e + int a)) \<dots> = d_round s n f"
    unfolding assms(5) by (rule d_round_shift[OF assms(2)])
  finally show ?thesis .
qed

lemma pow_split: "a = b + c \<Longrightarrow> (2::int) ^ a = 2 ^ b * 2 ^ c"
  by (simp add: power_add)

text \<open>A double of an integer of at most 53 bits: the value, in units of \<open>2 ^ - 53\<close>.\<close>

lemma int_form:
  assumes "n \<noteq> 0" "\<bar>n\<bar> \<le> 2 ^ 53"
  obtains m q where "d_val (d_of_int n) = FFin (n < 0) m q" "0 < m" "- 53 \<le> q" "q \<le> 1"
    "m * 2 ^ nat (q + 53) = \<bar>n\<bar> * 2 ^ 53"
proof -
  have "\<bar>n\<bar> \<le> 2 ^ 64" using assms by simp
  then obtain m q where m: "d_val (d_of_int n) = FFin (n < 0) m q" "2 ^ 52 \<le> m" "- 53 \<le> q"
    "q \<le> 1" "m * 2 ^ nat q = \<bar>n\<bar> * 2 ^ nat (- q)"
    using d_val_of_int[OF assms(1)] assms(2) by metis
  have "m * 2 ^ nat (q + 53) = m * 2 ^ nat q * 2 ^ (53 - nat (- q))"
    using m(3) by (simp add: mult.assoc pow_split[of "nat (q + 53)" "nat q" "53 - nat (- q)"])
  also have "\<dots> = \<bar>n\<bar> * 2 ^ 53"
    using m(3) by (simp add: m(5) mult.assoc pow_split[of 53 "nat (- q)" "53 - nat (- q)", symmetric])
  finally show ?thesis using that[OF m(1)] m(2-4) by simp
qed

lemma d_mul_int:
  assumes "a \<noteq> 0" "b \<noteq> 0" "\<bar>a\<bar> \<le> 2 ^ 53" "\<bar>b\<bar> \<le> 2 ^ 53"
  shows "d_mul (d_of_int a) (d_of_int b) = d_of_int (a * b)"
proof -
  obtain m e where m: "d_val (d_of_int a) = FFin (a < 0) m e" "0 < m" "- 53 \<le> e" "m * 2 ^ nat (e + 53) = \<bar>a\<bar> * 2 ^ 53"
    using int_form[OF assms(1,3)] by metis
  obtain n f where n: "d_val (d_of_int b) = FFin (b < 0) n f" "0 < n" "- 53 \<le> f" "n * 2 ^ nat (f + 53) = \<bar>b\<bar> * 2 ^ 53"
    using int_form[OF assms(2,4)] by metis
  have "nat (e + f + 106) = nat (e + 53) + nat (f + 53)" using m(3) n(3) by simp
  then have "m * n * 2 ^ nat (e + f + int 106) = (m * 2 ^ nat (e + 53)) * (n * 2 ^ nat (f + 53))"
    by (simp add: power_add)
  also have "\<dots> = \<bar>a * b\<bar> * 2 ^ nat (0 + int 106)" unfolding m(4) n(4) by (simp add: abs_mult)
  finally have "d_round s (m * n) (e + f) = d_round s \<bar>a * b\<bar> 0" for s
    using m(2,3) n(2,3) assms(1,2) by (intro d_round_same[where a = 106]) simp_all
  moreover have "(a < 0) \<noteq> (b < 0) \<longleftrightarrow> a * b < 0" using assms(1,2) by (auto simp: mult_less_0_iff)
  ultimately show ?thesis by (simp add: d_mul_def m(1) n(1)) (simp add: d_of_int_def)
qed

lemma d_div_int:
  assumes "c \<noteq> 0" "b \<noteq> 0" "\<bar>c * b\<bar> \<le> 2 ^ 53" "\<bar>b\<bar> \<le> 2 ^ 53"
  shows "d_div (d_of_int (c * b)) (d_of_int b) = d_of_int c"
proof -
  obtain m e where m: "d_val (d_of_int (c * b)) = FFin (c * b < 0) m e" "0 < m" "- 53 \<le> e" "e \<le> 1"
    "m * 2 ^ nat (e + 53) = \<bar>c * b\<bar> * 2 ^ 53"
    using int_form[of "c * b"] assms(1-3) by (metis mult_eq_0_iff)
  obtain n f where n: "d_val (d_of_int b) = FFin (b < 0) n f" "0 < n" "- 53 \<le> f" "n * 2 ^ nat (f + 53) = \<bar>b\<bar> * 2 ^ 53"
    using int_form[OF assms(2,4)] by metis
  define k where "k = 55 + nbits n"
  define j where "j = nat (f - e + int k)"
  have j: "int j = f - e + int k" using m(4) n(3) by (simp add: j_def k_def)
  have "m * 2 ^ nat (e + 53) = \<bar>c\<bar> * n * 2 ^ nat (f + 53)"
    using m(5) n(4) by (simp add: abs_mult mult.assoc)
  then have "m * 2 ^ nat (e + 53) * 2 ^ k = \<bar>c\<bar> * n * (2 ^ nat (f + 53) * 2 ^ k)" by simp
  also have "(2::int) ^ nat (f + 53) * 2 ^ k = 2 ^ j * 2 ^ nat (e + 53)"
    unfolding power_add[symmetric] using j m(3) n(3) by (intro arg_cong2[where f = "(^)"]) simp_all
  finally have "m * 2 ^ k * 2 ^ nat (e + 53) = \<bar>c\<bar> * 2 ^ j * n * 2 ^ nat (e + 53)" by (simp add: mult_ac)
  then have q: "m * 2 ^ k = \<bar>c\<bar> * 2 ^ j * n" by simp
  have "d_round s (2 * (m * 2 ^ k div n)) (e - f - int k - 1) = d_round s (\<bar>c\<bar> * 2 ^ Suc j) (0 - int (Suc j))" for s
    using n(2) j by (simp add: q mult.left_commute)
  also have "\<dots> s = d_round s \<bar>c\<bar> 0" for s using assms(1) by (intro d_round_shift) simp
  finally have "d_round s (2 * (m * 2 ^ k div n)) (e - f - int k - 1) = d_round s \<bar>c\<bar> 0" for s .
  moreover have "m * 2 ^ k mod n = 0" by (simp add: q)
  moreover have "(c * b < 0) \<noteq> (b < 0) \<longleftrightarrow> c < 0" using assms(1,2) by (auto simp: mult_less_0_iff)
  ultimately show ?thesis using n(2) by (simp add: d_div_def m(1) n(1) Let_def k_def[symmetric]) (simp add: d_of_int_def)
qed

end
