(* ===== verification/ExprNum.thy ===== *)
theory ExprNum
  imports ExprFold DblInt
begin

text \<open>
  Sums, differences, products and quotients of literals: the value the compiler
  computes and the one the machine computes.
\<close>

lemma ld_lim: "HB_LIM_LONG (ld_of_int v) \<longleftrightarrow> HB_LIM_LONG v"
proof (cases "nbits \<bar>v\<bar> \<le> 64")
  case True
  then show ?thesis by (simp add: ld_of_int_def)
next
  case False
  define k where "k = nbits \<bar>v\<bar> - 64"
  have n: "nbits \<bar>v\<bar> = k + 64" using False by (simp add: k_def)
  have v: "v \<noteq> 0" using False by auto
  then have "(2::int) ^ (k + 64) \<le> 2 * \<bar>v\<bar>" using nbits_bounds[of "\<bar>v\<bar>"] unfolding n by simp
  then have b: "2 ^ 63 * 2 ^ k \<le> \<bar>v\<bar>" by (simp add: power_add)
  have k: "1 \<le> (2::int) ^ k" "k \<noteq> 0" using False by (simp_all add: k_def)
  then have k2: "2 \<le> (2::int) ^ k" by (cases k) simp_all
  have "2 ^ 63 \<le> \<bar>v\<bar> div 2 ^ k" using b int_le_div[of "2 ^ k" "2 ^ 63" "\<bar>v\<bar>"] by simp
  then have "2 ^ 63 \<le> rne \<bar>v\<bar> k" using rne_bounds[of "\<bar>v\<bar>" k] by linarith
  then have "2 ^ 63 * 2 \<le> rne \<bar>v\<bar> k * 2 ^ k" using k2 by (intro mult_mono) auto
  then have "\<not> HB_LIM_LONG (ld_of_int v)" using n v k(2) by (auto simp: ld_of_int_def Let_def HB_LIM_LONG_def)
  moreover have "2 ^ 63 * 2 \<le> \<bar>v\<bar>" using b k2 by simp
  then have "\<not> HB_LIM_LONG v" by (auto simp: HB_LIM_LONG_def)
  ultimately show ?thesis by simp
qed

lemma long_result_simps:
  "HB_LIM_LONG v \<Longrightarrow> long_result v = NUM_LONG v"
  "\<not> HB_LIM_LONG v \<Longrightarrow> long_result v = NUM_DOUBLE (d_of_int (ld_of_int v))"
  by (simp_all add: long_result_def ld_lim maxint_id Let_def)

section \<open>Running an operator\<close>

lemma vm_helpers_sel:
  "hcall (vm_helpers R) = vm_calls (R\<lparr>hunref := hb_itemUnRef R\<rparr>)" "hdecimals (vm_helpers R) = hdecimals R"
  by (simp_all add: vm_helpers_def Let_def)

lemma lit_plain: "lit_item D e = Some x \<Longrightarrow> plain_item x"
  by (cases rule: litE) auto

lemma clears_vm: "clears R \<Longrightarrow> clears (vm_helpers R)" "clears R \<Longrightarrow> clears (R\<lparr>hunref := f\<rparr>)"
  by (auto simp: clears_def vm_helpers_sel vm_calls_def split: list.split harg.split)

definition result :: "'w vm \<Rightarrow> item list \<Rightarrow> item \<Rightarrow> 'w vm" where
  "result s xs y = s\<lparr>stack := xs @ [y]\<rparr>"

lemma run_binop:
  assumes "stack s = xs @ [x1, x2]" "clears R" "plain_item x2"
    and "hcall (vm_helpers R) f [L (AtStack (length xs)), L (AtStack (length xs)), L (AtStack (length xs + 1))] s =
      item_wr (AtStack (length xs)) y s"
  shows "vm_binop (vm_helpers R) f p s = Some (result s xs y)"
  using assms(1,4) clear_plain[OF clears_vm(1)[OF assms(2)] assms(3)]
  by (simp add: vm_binop_def top_two[OF assms(1)] result_def hb_stackPop_def Let_def
      list_update_append butlast_append nth_append)

lemma put_simple:
  assumes "item_rd p s = Some x" "\<not> HB_IS_COMPLEX x"
  shows "item_put R p y s = item_wr p y s"
  using assms by (simp add: item_put_def clear_if_complex_def)

text \<open>Sums and differences of numbers.\<close>

lemma lim_int_long: "HB_LIM_INT v \<Longrightarrow> HB_LIM_LONG v"
  by (simp add: HB_LIM_INT_def HB_LIM_LONG_def)

text \<open>
  Where both sides are exact: integers of 64 bits whose result fits, and doubles
  with their own number of decimals.
\<close>

definition plain_num :: "expr \<Rightarrow> bool" where
  "plain_num e = (case asNum e of NUM_LONG v \<Rightarrow> HB_LIM_LONG v | NUM_DOUBLE x \<Rightarrow> bDec e < 255)"

definition fits :: "(int \<Rightarrow> bool) \<Rightarrow> (int \<Rightarrow> int \<Rightarrow> int) \<Rightarrow> expr \<Rightarrow> expr \<Rightarrow> bool" where
  "fits lim f l r = (case (asNum l, asNum r) of (NUM_LONG a, NUM_LONG b) \<Rightarrow> lim (f a b) | _ \<Rightarrow> True)"

lemma same_value_int: "same_value (HB_ITEM_PUT_NUMINTRAW v) (long_item v)"
  by (simp add: same_value_def put_num)

lemma same_value_dbl: "same_value (put_double d n) (I_Double d k n)"
  by (simp add: same_value_def put_double_def)

lemma num_litE [consumes 2, case_names int double]:
  assumes "lit_item D e = Some x" "is_num e"
  obtains v w d where "e = E_NUMERIC (NUM_LONG v) w d" "HB_IS_NUMINT x" "HB_ITEM_GET_NUMINTRAW x = v"
      "\<not> HB_IS_COMPLEX x" "HB_LIM_LONG v \<Longrightarrow> num_wf x" "hb_itemGetNDDec x = (d_of_int v, 0)" "\<not> HB_IS_DOUBLE x"
    | y w d k where "e = E_NUMERIC (NUM_DOUBLE y) w d" "x = I_Double y k (if d = 255 then D else d)"
  using assms(1) by (cases rule: litE) (use assms(2) in auto)

lemma vm_sums:
  assumes x: "lit_item D l = Some x1" "is_num l" "lit_item D r = Some x2" "is_num r"
    and p: "item_rd p s = Some x1" "item_rd q s = Some x2"
    and pl: "plain_num l" "plain_num r"
  shows "fits HB_LIM_LONG (+) l r \<Longrightarrow>
      \<exists>y z. hb_vmPlus R p p q s = item_wr p y s \<and> lit_item D (sum_nums 1 d_add l r) = Some z \<and> same_value y z"
    "fits HB_LIM_LONG (-) l r \<Longrightarrow>
      \<exists>y z. hb_vmMinus R p p q s = item_wr p y s \<and> lit_item D (sum_nums (- 1) d_sub l r) = Some z \<and> same_value y z"
proof -
  have "(fits HB_LIM_LONG (+) l r \<longrightarrow>
      (\<exists>y z. hb_vmPlus R p p q s = item_wr p y s \<and> lit_item D (sum_nums 1 d_add l r) = Some z \<and> same_value y z)) \<and>
    (fits HB_LIM_LONG (-) l r \<longrightarrow>
      (\<exists>y z. hb_vmMinus R p p q s = item_wr p y s \<and> lit_item D (sum_nums (- 1) d_sub l r) = Some z \<and> same_value y z))"
    using x(1,2)
  proof (cases rule: num_litE)
    case (int v w d)
    note l = int
    show ?thesis using x(3,4)
    proof (cases rule: num_litE)
      case (int v2 w2 d2)
      have "HB_LIM_LONG v" "HB_LIM_LONG v2" using pl by (simp_all add: plain_num_def l int)
      then show ?thesis
        using sum_exact[OF p l(2) int(2) _ _ p(1) l(4) refl refl, of R] l int
        by (auto simp: sum_nums_def fits_def long_result_simps same_value_int)
    next
      case (double y2 w2 d2 k2)
      then show ?thesis using p l pl(2) clear_simple[OF p(1) l(4)]
        by (simp add: hb_vmPlus_def hb_vmMinus_def HB_IS_NUMERIC_def hb_itemPutNDDec_def put_simple sum_nums_def
            plain_num_def, blast intro: same_value_dbl)
    qed
  next
    case (double y w d k)
    note l = double
    show ?thesis using x(3,4)
    proof (cases rule: num_litE)
      case (int v2 w2 d2)
      then show ?thesis using p l pl(1)
        by (simp add: hb_vmPlus_def hb_vmMinus_def HB_IS_NUMERIC_def hb_itemPutNDDec_def put_simple sum_nums_def
            plain_num_def, blast intro: same_value_dbl)
    next
      case (double y2 w2 d2 k2)
      then show ?thesis using p l pl
        by (simp add: hb_vmPlus_def hb_vmMinus_def HB_IS_NUMERIC_def hb_itemPutNDDec_def put_simple sum_nums_def
            plain_num_def max_def, blast intro: same_value_dbl)
    qed
  qed
  then show "fits HB_LIM_LONG (+) l r \<Longrightarrow>
      \<exists>y z. hb_vmPlus R p p q s = item_wr p y s \<and> lit_item D (sum_nums 1 d_add l r) = Some z \<and> same_value y z"
    "fits HB_LIM_LONG (-) l r \<Longrightarrow>
      \<exists>y z. hb_vmMinus R p p q s = item_wr p y s \<and> lit_item D (sum_nums (- 1) d_sub l r) = Some z \<and> same_value y z"
    by blast+
qed

section \<open>Products and quotients\<close>

lemma d_eq_same: "\<bar>v\<bar> \<le> 2 ^ 64 \<Longrightarrow> d_eq (d_of_int v) (d_of_int v)"
proof (cases "v = 0")
  case True
  then show ?thesis by (simp add: d_eq_def d_of_int_0 fp_cmp_def)
next
  case False
  assume "\<bar>v\<bar> \<le> 2 ^ 64"
  then obtain m q where "d_val (d_of_int v) = FFin (v < 0) m q" using d_val_of_int False by metis
  then show ?thesis by (simp add: d_eq_def fp_cmp_def)
qed

text \<open>A zero of either sign.\<close>

definition zero_dbl :: "64 word \<Rightarrow> bool" where
  "zero_dbl x \<longleftrightarrow> (\<exists>s. x = d_bits s 0 0)"

lemma zero_dbl_facts:
  assumes "zero_dbl x"
  shows "d_to_long x = 0" "HB_DBL_LIM_INT x" "d_eq x (d_of_int 0)"
proof -
  obtain s where x: "d_val x = FFin s 0 (- 1074)" using assms by (auto simp: zero_dbl_def d_val_0)
  show "d_to_long x = 0" by (simp add: d_to_long_def x fp_trunc_def)
  have z: "fp_cmp R (d_val x) f = fp_cmp R (FFin False 0 (- 1074)) f"
    "fp_cmp R f (d_val x) = fp_cmp R f (FFin False 0 (- 1074))" for R f
    unfolding x by (simp_all add: fp_cmp_def signed_def split: fp.split)
  show "HB_DBL_LIM_INT x" "d_eq x (d_of_int 0)"
    using d_cmp_of_int[of "- (2 ^ 31)" 0] d_cmp_of_int[of 0 "2 ^ 31 - 1"] d_cmp_of_int[of 0 0]
    by (simp_all add: HB_DBL_LIM_INT_def d_le_def d_eq_def z d_of_int_0)
qed

lemma d_mul_zero: "\<bar>b\<bar> \<le> 2 ^ 64 \<Longrightarrow> zero_dbl (d_mul (d_of_int 0) (d_of_int b)) \<and> zero_dbl (d_mul (d_of_int b) (d_of_int 0))"
proof (cases "b = 0")
  case True
  then show ?thesis by (auto simp: d_mul_def d_of_int_0 d_round_0 zero_dbl_def)
next
  case False
  assume "\<bar>b\<bar> \<le> 2 ^ 64"
  then obtain m q where "d_val (d_of_int b) = FFin (b < 0) m q" using d_val_of_int False by metis
  then show ?thesis by (auto simp: d_mul_def d_of_int_0 d_round_0 zero_dbl_def)
qed

lemma d_div_zero: "b \<noteq> 0 \<Longrightarrow> \<bar>b\<bar> \<le> 2 ^ 53 \<Longrightarrow> zero_dbl (d_div (d_of_int 0) (d_of_int b))"
proof -
  assume "b \<noteq> 0" "\<bar>b\<bar> \<le> 2 ^ 53"
  then obtain m q where "d_val (d_of_int b) = FFin (b < 0) m q" "0 < m" using int_form by metis
  then show ?thesis by (auto simp: d_div_def d_of_int_0 d_round_0 zero_dbl_def Let_def)
qed

lemma limits_as_doubles:
  "d_val (d_of_int (2 ^ 63)) = FFin False (2 ^ 52) 11" "d_val (d_of_int (- (2 ^ 63))) = FFin True (2 ^ 52) 11"
  by code_simp+

lemma lim_long_of_int:
  assumes "\<bar>v\<bar> \<le> 2 ^ 53"
  shows "HB_DBL_LIM_LONG (d_of_int v)"
proof -
  obtain s m e where v: "d_val (d_of_int v) = FFin s m e" "- 1074 \<le> e" "units (FFin s m e) = v * 2 ^ nat 1074"
    using units_of_int[OF assms] .
  have p: "(2::int) ^ 52 * 2 ^ nat (11 + 1074) = 2 ^ 63 * 2 ^ nat 1074"
    by (simp only: power_add[symmetric]) simp
  have u: "units (FFin False (2 ^ 52) 11) = 2 ^ 63 * 2 ^ nat 1074" "units (FFin True (2 ^ 52) 11) = - (2 ^ 63) * 2 ^ nat 1074"
    unfolding units_def fp.case signed_def using p by simp_all
  have z: "0 < (2::int) ^ nat 1074" by (rule zero_less_power) simp
  have b: "- (2 ^ 63) \<le> v" "v < 2 ^ 63" using assms by auto
  have "d_le (d_of_int (- (2 ^ 63))) (d_of_int v)"
    unfolding d_le_def limits_as_doubles v(1)
    by (subst fp_cmp_units[OF _ v(2)]) (use b z in \<open>simp_all only: u v(3) mult_le_cancel_right\<close>, simp_all)
  moreover have "d_lt (d_of_int v) (d_of_int (2 ^ 63))"
    unfolding d_lt_def limits_as_doubles v(1)
    by (subst fp_cmp_units[OF v(2)]) (use b z in \<open>simp_all only: u v(3) mult_less_cancel_right\<close>, simp_all)
  ultimately show ?thesis unfolding HB_DBL_LIM_LONG_def ..
qed

text \<open>A product of longs goes through doubles.\<close>

lemma put_product:
  assumes "\<bar>a\<bar> \<le> 2 ^ 53" "\<bar>b\<bar> \<le> 2 ^ 53" "\<bar>a * b\<bar> \<le> 2 ^ 53"
    and "item_rd p s = Some x" "\<not> HB_IS_COMPLEX x"
  shows "\<exists>y. hb_itemPutNumType R p (d_mul (d_of_int a) (d_of_int b)) 0 False False s = item_wr p y s \<and>
    same_value y (long_item (a * b))"
proof -
  let ?d = "d_mul (d_of_int a) (d_of_int b)"
  have v: "d_to_long ?d = a * b \<and> (HB_DBL_LIM_INT ?d \<or> HB_DBL_LIM_LONG ?d)"
  proof (cases "a = 0 \<or> b = 0")
    case True
    then have "zero_dbl ?d" using d_mul_zero[of a] d_mul_zero[of b] assms(1,2) by auto
    then show ?thesis using zero_dbl_facts True by auto
  next
    case False
    then have d: "?d = d_of_int (a * b)" using assms(1,2) by (intro d_mul_int) auto
    show ?thesis unfolding d using d_to_long_of_int[OF assms(3)] lim_long_of_int[OF assms(3)] by simp
  qed
  have sv: "same_value (I_Integer (a * b) k) (long_item (a * b))" "same_value (I_Long (a * b) k) (long_item (a * b))" for k
    by (simp_all add: same_value_def)
  show ?thesis using v sv assms(4,5)
    by (auto simp: hb_itemPutNumType_def hb_itemPutNI_def hb_itemPutNLL_def put_simple)
qed

definition mult_fits :: "expr \<Rightarrow> expr \<Rightarrow> bool" where
  "mult_fits l r =
     (case (asNum l, asNum r) of
        (NUM_LONG a, NUM_LONG b) \<Rightarrow>
          (HB_LIM_INT a \<and> HB_LIM_INT b) \<or> (\<bar>a\<bar> \<le> 2 ^ 53 \<and> \<bar>b\<bar> \<le> 2 ^ 53 \<and> \<bar>a * b\<bar> \<le> 2 ^ 53)
      | (NUM_DOUBLE x, NUM_DOUBLE y) \<Rightarrow> bDec l + bDec r < 255
      | _ \<Rightarrow> True)"

lemma lim_int_mult:
  assumes "HB_LIM_INT a" "HB_LIM_INT b"
  shows "HB_LIM_LONG (a * b)"
proof -
  have "\<bar>a * b\<bar> \<le> 2 ^ 31 * 2 ^ 31"
    unfolding abs_mult using assms by (intro mult_mono) (auto simp: HB_LIM_INT_def)
  then show ?thesis by (auto simp: HB_LIM_LONG_def)
qed

lemma lim_53: "\<bar>v\<bar> \<le> 2 ^ 53 \<Longrightarrow> HB_LIM_LONG v"
  by (auto simp: HB_LIM_LONG_def)

lemma litI_int:
  assumes "lit_item D (E_NUMERIC (NUM_LONG v) w d) = Some x"
  shows "HB_IS_INTEGER x \<longleftrightarrow> HB_LIM_INT v"
  using assms by (auto simp: long_item_def HB_LIM_INT_def split: if_splits)

lemma vm_mult:
  assumes x: "lit_item D l = Some x1" "is_num l" "lit_item D r = Some x2" "is_num r"
    and p: "item_rd p s = Some x1" "item_rd q s = Some x2"
    and pl: "plain_num l" "plain_num r" "mult_fits l r"
  shows "\<exists>y z. hb_vmMult R p p q s = item_wr p y s \<and> lit_item D (hb_compExprReduceMult l r) = Some z \<and> same_value y z"
  using x(1,2)
proof (cases rule: num_litE)
  case (int v w d)
  note l = int
  show ?thesis using x(3,4)
  proof (cases rule: num_litE)
    case (int v2 w2 d2)
    have i: "HB_IS_INTEGER x1 \<longleftrightarrow> HB_LIM_INT v" "HB_IS_INTEGER x2 \<longleftrightarrow> HB_LIM_INT v2"
      using litI_int x(1,3) l(1) int(1) by blast+
    have lim: "HB_LIM_LONG (v * v2)"
      using pl(3) lim_int_mult lim_53 by (auto simp: mult_fits_def l int)
    then have e: "lit_item D (hb_compExprReduceMult l r) = Some (long_item (v * v2))"
      by (simp add: hb_compExprReduceMult_def l int long_result_simps)
    show ?thesis
    proof (cases "HB_LIM_INT v \<and> HB_LIM_INT v2")
      case True
      then have "hb_vmMult R p p q s = item_wr p (HB_ITEM_PUT_NUMINTRAW (v * v2)) s"
        using p l int i lim clear_simple[OF p(1) l(4)] by (simp add: hb_vmMult_def maxint_id)
      then show ?thesis using e same_value_int by blast
    next
      case False
      then have ni: "\<not> (HB_IS_INTEGER x1 \<and> HB_IS_INTEGER x2)" using i by simp
      from False have "\<bar>v\<bar> \<le> 2 ^ 53" "\<bar>v2\<bar> \<le> 2 ^ 53" "\<bar>v * v2\<bar> \<le> 2 ^ 53" using pl(3) by (auto simp: mult_fits_def l int)
      moreover have "hb_vmMult R p p q s = hb_itemPutNumType R p (d_mul (d_of_int v) (d_of_int v2)) 0 False False s"
        using ni p l(2-6) int(2-6) l(7) int(7) by (auto simp: hb_vmMult_def HB_IS_NUMERIC_def)
      ultimately show ?thesis using put_product[OF _ _ _ p(1) l(4), of v v2 R] e by auto
    qed
  next
    case (double y2 w2 d2 k2)
    then show ?thesis using p l pl(2)
      by (simp add: hb_vmMult_def HB_IS_NUMERIC_def hb_itemPutNumType_def hb_itemPutNDDec_def put_simple
          hb_compExprReduceMult_def plain_num_def, blast intro: same_value_dbl)
  qed
next
  case (double y w d k)
  note l = double
  show ?thesis using x(3,4)
  proof (cases rule: num_litE)
    case (int v2 w2 d2)
    then show ?thesis using p l pl(1)
      by (simp add: hb_vmMult_def HB_IS_NUMERIC_def hb_itemPutNumType_def hb_itemPutNDDec_def put_simple
          hb_compExprReduceMult_def plain_num_def, blast intro: same_value_dbl)
  next
    case (double y2 w2 d2 k2)
    then show ?thesis using p l pl
      by (simp add: hb_vmMult_def HB_IS_NUMERIC_def hb_itemPutNumType_def hb_itemPutNDDec_def put_simple
          hb_compExprReduceMult_def plain_num_def mult_fits_def, blast intro: same_value_dbl)
  qed
qed

text \<open>Quotients: an integer quotient is exact in a double up to 53 bits.\<close>

definition div_fits :: "expr \<Rightarrow> expr \<Rightarrow> bool" where
  "div_fits l r =
     (case (asNum l, asNum r) of
        (NUM_LONG a, NUM_LONG b) \<Rightarrow> \<bar>a\<bar> \<le> 2 ^ 53 \<and> \<bar>b\<bar> \<le> 2 ^ 53 | _ \<Rightarrow> True)"

lemma same_number_refl:
  "same_number (put_double d n) (I_Double d k m)"
  by (simp add: same_number_def put_double_def HB_IS_NUMERIC_def)

lemma ex_put: "same_number y z \<Longrightarrow> \<exists>u. item_wr p y s = item_wr p u s \<and> same_number u z"
  by blast

lemma same_number_int: "d = d_of_int v \<or> d_eq d (d_of_int v) \<Longrightarrow> same_number (put_double d n) (long_item v)"
  by (auto simp: same_number_def put_double_def HB_IS_NUMERIC_def)

lemma int_quotient:
  assumes "a smod b = 0" "b \<noteq> 0" "\<bar>a\<bar> \<le> 2 ^ 53" "\<bar>b\<bar> \<le> 2 ^ 53"
  shows "d_div (d_of_int a) (d_of_int b) = d_of_int (a sdiv b) \<or>
    d_eq (d_div (d_of_int a) (d_of_int b)) (d_of_int (a sdiv b))"
proof -
  have a: "a = (a sdiv b) * b"
    using sdiv_mult_smod_eq[of a b] assms(1) by simp
  show ?thesis
  proof (cases "a = 0")
    case True
    then show ?thesis using zero_dbl_facts(3)[OF d_div_zero[OF assms(2,4)]] by simp
  next
    case False
    then have "a sdiv b \<noteq> 0" using a by auto
    then show ?thesis using d_div_int[of "a sdiv b" b] a assms by metis
  qed
qed

lemma vm_quotients:
  assumes x: "lit_item D l = Some x1" "is_num l" "lit_item D r = Some x2" "is_num r"
    and p: "item_rd p s = Some x1" "item_rd q s = Some x2" and lim: "plain_num l" "plain_num r"
    and D: "D = hdecimals R s mod 65536" and z: "lit_item D e = Some z"
  shows "hb_compExprReduceDiv l r = Some e \<Longrightarrow> div_fits l r \<Longrightarrow>
      \<exists>y. hb_vmDivide R p p q s = item_wr p y s \<and> same_number y z"
    "hb_compExprReduceMod F l r = Some e \<Longrightarrow> \<exists>y. hb_vmModulus R p p q s = item_wr p y s \<and> same_number y z"
    "hb_compExprReducePower (hpow R) l r = e \<Longrightarrow> \<exists>y. hb_vmPower R p p q s = item_wr p y s \<and> same_number y z"
proof -
  have zero: "d_eq (d_of_int v) (d_of_int 0) \<longleftrightarrow> v = 0" if "HB_LIM_LONG v" for v
  proof -
    have "\<bar>v\<bar> \<le> 2 ^ 64" using that by (auto simp: HB_LIM_LONG_def)
    show ?thesis
    proof (cases "v = 0")
      case False
      then obtain m q where "d_val (d_of_int v) = FFin (v < 0) m q" "2 ^ 52 \<le> m"
        using d_val_of_int[OF False \<open>\<bar>v\<bar> \<le> 2 ^ 64\<close>] by metis
      then show ?thesis using False by (auto simp: d_eq_def d_of_int_0 fp_cmp_def signed_def Let_def)
    qed (simp add: d_eq_same)
  qed
  note defs = HB_IS_NUMERIC_def hb_itemPutND_def put_simple hb_itemGetND_def D[symmetric] d_ne_def Let_def
  have "(hb_compExprReduceDiv l r = Some e \<longrightarrow> div_fits l r \<longrightarrow>
      (\<exists>y. hb_vmDivide R p p q s = item_wr p y s \<and> same_number y z)) \<and>
    (hb_compExprReduceMod F l r = Some e \<longrightarrow> (\<exists>y. hb_vmModulus R p p q s = item_wr p y s \<and> same_number y z)) \<and>
    (hb_compExprReducePower (hpow R) l r = e \<longrightarrow> (\<exists>y. hb_vmPower R p p q s = item_wr p y s \<and> same_number y z))"
    using x(1,2)
  proof (cases rule: num_litE)
    case (int v w d)
    note l = int
    have xl: "HB_ITEM_GET_NUMDBLRAW x1 = d_of_int v" using l(2,3) by (cases x1) auto
    show ?thesis using x(3,4)
    proof (cases rule: num_litE)
      case (int v2 w2 d2)
      have xr: "HB_ITEM_GET_NUMDBLRAW x2 = d_of_int v2" using int(2,3) by (cases x2) auto
      show ?thesis using p l int z xl xr int_quotient[of v v2]
        by (auto simp: hb_vmDivide_def hb_vmModulus_def hb_vmPower_def hb_compExprReduceDiv_def
            hb_compExprReduceMod_def hb_compExprReducePower_def div_fits_def c_mod_def c_div_def c_traps_def defs
            intro!: ex_put same_number_refl intro: same_number_int split: if_splits)
    next
      case (double y2 w2 d2 k2)
      then show ?thesis using p l z xl
        by (auto simp: hb_vmDivide_def hb_vmModulus_def hb_vmPower_def hb_compExprReduceDiv_def
            hb_compExprReduceMod_def hb_compExprReducePower_def defs intro!: ex_put same_number_refl split: if_splits)
    qed
  next
    case (double y w d k)
    note l = double
    show ?thesis using x(3,4)
    proof (cases rule: num_litE)
      case (int v2 w2 d2)
      have xr: "HB_ITEM_GET_NUMDBLRAW x2 = d_of_int v2" using int(2,3) by (cases x2) auto
      have v2: "HB_LIM_LONG v2" using lim int by (simp add: plain_num_def)
      show ?thesis using p l int z xr zero[OF v2]
        by (auto simp: hb_vmDivide_def hb_vmModulus_def hb_vmPower_def hb_compExprReduceDiv_def
            hb_compExprReduceMod_def hb_compExprReducePower_def defs intro!: ex_put same_number_refl split: if_splits)
    next
      case (double y2 w2 d2 k2)
      then show ?thesis using p l z
        by (auto simp: hb_vmDivide_def hb_vmModulus_def hb_vmPower_def hb_compExprReduceDiv_def
            hb_compExprReduceMod_def hb_compExprReducePower_def defs intro!: ex_put same_number_refl split: if_splits)
    qed
  qed
  then show "hb_compExprReduceDiv l r = Some e \<Longrightarrow> div_fits l r \<Longrightarrow>
      \<exists>y. hb_vmDivide R p p q s = item_wr p y s \<and> same_number y z"
    "hb_compExprReduceMod F l r = Some e \<Longrightarrow> \<exists>y. hb_vmModulus R p p q s = item_wr p y s \<and> same_number y z"
    "hb_compExprReducePower (hpow R) l r = e \<Longrightarrow> \<exists>y. hb_vmPower R p p q s = item_wr p y s \<and> same_number y z"
    by blast+
qed

end
