(* ===== verification/ExprFacts.thy ===== *)
theory ExprFacts
  imports ExprNum
begin

text \<open>
  The other operators of literals, dates, strings, relations and logical values,
  and the theorem on all operators.
\<close>

section \<open>Dates and strings\<close>

lemma put_stamp: "hb_compExprReduceTimeStampPut j t = (case norm_stamp j t of (a, b) \<Rightarrow> E_TIMESTAMP a b)"
  by (simp add: hb_compExprReduceTimeStampPut_def norm_stamp_def Let_def)

lemma lit_norm: "lit_item D (case z of (a, b) \<Rightarrow> E_TIMESTAMP a b) = Some (I_TimeStamp (fst z) (snd z))"
  by (cases z) simp

lemmas date_defs = hb_vmTimeStampPut_def hb_vmTimeStampAdd_def hb_itemPutTDT_def hb_itemPutDL_def
  hb_itemGetDL_def HB_IS_NUMERIC_def put_simple date_add_def plus_num_def is_date_def lDate_def lTime_def
  put_stamp hb_compExprReduceTimeStampAdd_def lit_norm Let_def

lemma same_value_simps [simp]:
  "same_value (I_Date j) (I_Date j)" "same_value (I_TimeStamp j t) (I_TimeStamp j t)"
  "same_value (I_String f cs) (I_String g cs)" "same_value (I_Logical b) (I_Logical b)"
  "same_value (I_Long v k) (long_item v)"
  by (simp_all add: same_value_def)

lemma ex_same: "same_value y z \<Longrightarrow> \<exists>u. item_wr p y s = item_wr p u s \<and> same_value u z"
  by blast

lemma vm_dates:
  assumes x: "lit_item D l = Some x1" "lit_item D r = Some x2" "is_date l \<or> is_date r"
    and p: "item_rd p s = Some x1" "item_rd q s = Some x2" and z: "lit_item D e = Some z"
    and ko: "\<not> fExtopt F"
  shows "hb_compExprReducePlus F l r = e \<Longrightarrow> \<exists>y. hb_vmPlus R p p q s = item_wr p y s \<and> same_value y z"
    "hb_compExprReduceMinus F l r = e \<Longrightarrow> \<exists>y. hb_vmMinus R p p q s = item_wr p y s \<and> same_value y z"
proof -
  show "\<exists>y. hb_vmPlus R p p q s = item_wr p y s \<and> same_value y z" if "hb_compExprReducePlus F l r = e"
    using x(1)
    by (cases rule: litE; use x(2) in \<open>cases rule: litE\<close>;
      use x(3) p z ko that in \<open>auto simp: hb_vmPlus_def hb_compExprReducePlus_def date_defs add.commute
        intro!: ex_same split: if_splits prod.splits\<close>)
  show "\<exists>y. hb_vmMinus R p p q s = item_wr p y s \<and> same_value y z" if "hb_compExprReduceMinus F l r = e"
    using x(1)
    by (cases rule: litE; use x(2) in \<open>cases rule: litE\<close>;
      use x(3) p z ko that in \<open>auto simp: hb_vmMinus_def hb_compExprReduceMinus_def date_defs
        hb_itemPutNDDec_def HB_ITEM_PUT_LONGRAW_def clear_if_complex_def same_value_dbl
        intro!: ex_same split: if_splits prod.splits\<close>)
qed

text \<open>The memory manager: a string is freed and gets a reference without other effects.\<close>

definition manages :: "'w helpers \<Rightarrow> bool" where
  "manages R \<longleftrightarrow> clears R \<and> (\<forall>m cs s. hcall R ''hb_gcRefInc'' [X (I_String m cs)] s = Some s)"

lemma manages_clears: "manages R \<Longrightarrow> clears R"
  by (simp add: manages_def)

lemma manages_unref: "manages R \<Longrightarrow> manages (R\<lparr>hunref := f\<rparr>)"
  by (simp add: manages_def clears_vm(2))

lemma vm_strings:
  assumes s: "stack s = xs @ [I_String False cs, I_String False ds]" and R: "manages R"
    and len: "length cs + length ds < HB_SIZE_MAX"
  defines "p \<equiv> AtStack (length xs)" and "q \<equiv> AtStack (length xs + 1)"
  shows "hb_vmPlus R p p q s = item_wr p (I_String False (cs @ ds)) s"
    "hb_vmMinus R p p q s =
      item_wr p (I_String False (if cs = [] then ds else if ds = [] then cs else string_minus cs ds)) s"
  using s R len
  by (auto simp: hb_vmPlus_def plus_strings_def hb_vmMinus_def minus_strings_def p_def q_def top_two[OF s]
      HB_IS_NUMERIC_def hb_itemCopy_def hb_itemClear_def manages_def clears_def nth_append list_update_append)

section \<open>Relations and logical operators\<close>

lemma result_logical: "result_top s xs b = result s xs (I_Logical b)"
  by (simp add: result_def result_top_def)

lemma vm_orders:
  assumes x: "lit_item D l = Some x1" "lit_item D r = Some x2" and s: "stack s = xs @ [x1, x2]"
    and e: "reduce_order bl li st ld oper l r = e" "lit_item D e = Some z"
    and li: "\<And>i j. li i j \<longleftrightarrow> st i j \<or> (i = j \<and> li 0 0)"
  shows "vm_order li st ld bl n m R s = Some (result s xs z)"
  unfolding vm_order_def top_two[OF s] Option.bind.simps
  using x(1)
  by (cases rule: litE; use x(2) in \<open>cases rule: litE\<close>; use e put_top[OF s] in \<open>auto simp: reduce_order_def
    HB_IS_NUMERIC_def cmp_nums_def is_date_def lDate_def lTime_def result_logical li[symmetric]\<close>)

lemma str_cmp_empty: "hb_itemStrCmp R [] [] b s = 0"
  by (simp add: hb_itemStrCmp_def trim_to.simps Let_def)

lemma nil_equality_top:
  assumes "stack s = xs @ [x1, x2]" "clears R" "plain_item x1" "plain_item x2"
  shows "nil_equality eq R f s =
    (if x1 = I_Nil \<or> x2 = I_Nil then Some (result s xs (I_Logical ((x1 = x2) = eq)))
     else f s (AtStack (length xs)) (AtStack (length xs + 1)) x1 x2)"
  unfolding nil_equality_def top_two[OF assms(1)] Option.bind.simps
  using assms(1) clear_plain[OF assms(2,3)] clear_plain[OF assms(2,4)]
  by (auto simp: hb_stackPop_def hb_itemClear_def result_def hb_stackDec_def clear_if_complex_def
      list_update_append butlast_append nth_append Let_def eq_commute[of I_Nil])

lemma vm_equalities:
  assumes x: "lit_item D l = Some x1" "lit_item D r = Some x2" and s: "stack s = xs @ [x1, x2]"
    and R: "clears R" and ko: "\<not> fExtopt F" and z: "lit_item D e = Some z"
  shows "hb_compExprReduceEQ F EO_EQUAL l r = e \<Longrightarrow> hb_vmEqual R s = Some (result s xs z)"
    "hb_compExprReduceNE F l r = e \<Longrightarrow> hb_vmNotEqual R s = Some (result s xs z)"
    "hb_compExprReduceEQ F EO_EQ l r = e \<Longrightarrow> hb_vmExactlyEqual R s = Some (result s xs z)"
proof -
  note defs = HB_IS_NUMERIC_def cmp_nums_def is_date_def lDate_def lTime_def result_logical is_const_def
    vm_equality_def exact_rest_def str_cmp_empty d_ne_def put_top[OF s] put_pop_top[OF s R lit_plain[OF x(1)] lit_plain[OF x(2)]]
  show "hb_vmEqual R s = Some (result s xs z)" if "hb_compExprReduceEQ F EO_EQUAL l r = e"
    unfolding hb_vmEqual_def nil_equality_top[OF s R lit_plain[OF x(1)] lit_plain[OF x(2)]]
    using x(1)
    by (cases rule: litE; use x(2) in \<open>cases rule: litE\<close>; use that z ko in \<open>auto simp: hb_compExprReduceEQ_def defs split: if_splits\<close>)
  show "hb_vmNotEqual R s = Some (result s xs z)" if "hb_compExprReduceNE F l r = e"
    unfolding hb_vmNotEqual_def nil_equality_top[OF s R lit_plain[OF x(1)] lit_plain[OF x(2)]]
    using x(1)
    by (cases rule: litE; use x(2) in \<open>cases rule: litE\<close>; use that z ko in \<open>auto simp: hb_compExprReduceNE_def defs split: if_splits\<close>)
  show "hb_vmExactlyEqual R s = Some (result s xs z)" if "hb_compExprReduceEQ F EO_EQ l r = e"
    unfolding hb_vmExactlyEqual_def nil_equality_top[OF s R lit_plain[OF x(1)] lit_plain[OF x(2)]]
    using x(1)
    by (cases rule: litE; use x(2) in \<open>cases rule: litE\<close>; use that z ko in \<open>auto simp: hb_compExprReduceEQ_def defs split: if_splits\<close>)
qed

lemma vm_juncts:
  assumes x: "lit_item D l = Some x1" "lit_item D r = Some x2" and s: "stack s = xs @ [x1, x2]"
    and z: "lit_item D e = Some z" "is_logical l" "is_logical r"
  shows "hb_compExprReduceAnd F l r = e \<Longrightarrow> hb_vmAnd H s = Some (result s xs z)"
    "hb_compExprReduceOr F l r = e \<Longrightarrow> hb_vmOr H s = Some (result s xs z)"
proof -
  obtain a b where ab: "l = E_LOGICAL a" "r = E_LOGICAL b" by (cases l; cases r; use z(2,3) in simp)
  then have x12: "x1 = I_Logical a" "x2 = I_Logical b" using x by simp_all
  show "hb_vmAnd H s = Some (result s xs z)" if "hb_compExprReduceAnd F l r = e"
    unfolding hb_vmAnd_def logical_binop_def top_two[OF s] Option.bind.simps
    using that z(1) put_top[OF s] by (auto simp: hb_compExprReduceAnd_def reduce_junct_def ab x12 put_logical_dec_def result_logical)
  show "hb_vmOr H s = Some (result s xs z)" if "hb_compExprReduceOr F l r = e"
    unfolding hb_vmOr_def logical_binop_def top_two[OF s] Option.bind.simps
    using that z(1) put_top[OF s] by (auto simp: hb_compExprReduceOr_def reduce_junct_def ab x12 put_logical_dec_def result_logical)
qed

lemma vm_instring:
  assumes x: "lit_item D l = Some x1" "lit_item D r = Some x2" and s: "stack s = xs @ [x1, x2]"
    and R: "clears R" and z: "lit_item D e = Some z" "fHarbour F"
    and e: "hb_compExprReduceIN F l r = e"
  shows "hb_vmInstring R s = Some (result s xs z)"
proof -
  have "is_string l \<and> is_string r" using e z(1) by (auto simp: hb_compExprReduceIN_def split: if_splits)
  then obtain cs ds where c: "l = E_STRING cs" "r = E_STRING ds" by (cases l; cases r; simp)
  then have x12: "x1 = I_String False cs" "x2 = I_String False ds" using x by simp_all
  show ?thesis
    unfolding hb_vmInstring_def top_two[OF s] Option.bind.simps
    using z e put_pop_top[OF s R lit_plain[OF x(1)] lit_plain[OF x(2)]]
    by (auto simp: hb_compExprReduceIN_def c x12 result_logical hb_strAt_def str_at_def split: if_splits)
qed

section \<open>All operators\<close>

text \<open>The operands for which the computation of the compiler is that of the machine.\<close>

definition exact_op :: "binop \<Rightarrow> expr \<Rightarrow> expr \<Rightarrow> bool" where
  "exact_op oper l r =
     (if is_num l \<and> is_num r \<and> oper \<in> {EO_PLUS, EO_MINUS, EO_MULT, EO_DIV, EO_MOD, EO_POWER} then
        plain_num l \<and> plain_num r \<and>
        (case oper of EO_PLUS \<Rightarrow> fits HB_LIM_LONG (+) l r | EO_MINUS \<Rightarrow> fits HB_LIM_LONG (-) l r
         | EO_MULT \<Rightarrow> mult_fits l r | EO_DIV \<Rightarrow> div_fits l r | _ \<Rightarrow> True)
      else if is_string l \<and> is_string r \<and> oper \<in> {EO_PLUS, EO_MINUS}
      then length (asString l) + length (asString r) < HB_SIZE_MAX
      else if oper \<in> {EO_AND, EO_OR} then is_logical l \<and> is_logical r
      else True)"

definition agrees :: "binop \<Rightarrow> item \<Rightarrow> item \<Rightarrow> bool" where
  "agrees oper = (if oper \<in> {EO_DIV, EO_MOD, EO_POWER} then same_number else same_value)"

lemma agrees_simps:
  "agrees EO_PLUS = same_value" "agrees EO_MINUS = same_value" "agrees EO_MULT = same_value"
  "agrees EO_DIV = same_number" "agrees EO_MOD = same_number" "agrees EO_POWER = same_number"
  by (simp_all add: agrees_def)

lemma folded_kinds:
  assumes "lit_item D e = Some z" "\<not> fExtopt F"
  shows "hb_compExprReducePlus F l r = e \<Longrightarrow> (is_num l \<and> is_num r) \<or> is_date l \<or> is_date r \<or> (is_string l \<and> is_string r)"
    "hb_compExprReduceMinus F l r = e \<Longrightarrow> (is_num l \<and> is_num r) \<or> is_date l \<or> is_date r \<or> (is_string l \<and> is_string r)"
    "hb_compExprReduceMult l r = e \<Longrightarrow> is_num l \<and> is_num r"
    "hb_compExprReduceDiv l r = Some e \<Longrightarrow> is_num l \<and> is_num r"
    "hb_compExprReduceMod F l r = Some e \<Longrightarrow> is_num l \<and> is_num r"
    "hb_compExprReducePower pow l r = e \<Longrightarrow> is_num l \<and> is_num r"
  using assms by (auto simp: hb_compExprReducePlus_def plus_num_def hb_compExprReduceMinus_def
      hb_compExprReduceMult_def hb_compExprReduceDiv_def hb_compExprReduceMod_def hb_compExprReducePower_def
      Let_def split: if_splits)

lemma string_no_num: "is_string l \<Longrightarrow> \<not> is_num l"
  by (cases l) simp_all

lemma same_eq: "\<exists>y. f = item_wr p y s \<and> P y \<Longrightarrow> (\<And>y. f = item_wr p y s \<Longrightarrow> g = Some (h y)) \<Longrightarrow> \<exists>y. g = Some (h y) \<and> P y"
  by blast

lemma fold_strings:
  assumes s: "stack s = xs @ [x1, x2]" and x: "lit_item D l = Some x1" "lit_item D r = Some x2"
    and R: "manages R" and k: "is_string l" "is_string r" "length (asString l) + length (asString r) < HB_SIZE_MAX"
    and z: "lit_item D e = Some z"
  defines "p \<equiv> AtStack (length xs)" and "q \<equiv> AtStack (length xs + 1)"
  shows "hb_compExprReducePlus F l r = e \<Longrightarrow> \<exists>y. hb_vmPlus R p p q s = item_wr p y s \<and> same_value y z"
    "hb_compExprReduceMinus F l r = e \<Longrightarrow> \<exists>y. hb_vmMinus R p p q s = item_wr p y s \<and> same_value y z"
proof -
  obtain cs ds where c: "l = E_STRING cs" "r = E_STRING ds" using k(1,2) by (cases l; cases r; simp)
  then have "x1 = I_String False cs" "x2 = I_String False ds" using x by simp_all
  then have v: "hb_vmPlus R p p q s = item_wr p (I_String False (cs @ ds)) s"
    "hb_vmMinus R p p q s =
      item_wr p (I_String False (if cs = [] then ds else if ds = [] then cs else string_minus cs ds)) s"
    using vm_strings[of s xs cs ds R] s R k(3) c unfolding p_def q_def by auto
  show "\<exists>y. hb_vmPlus R p p q s = item_wr p y s \<and> same_value y z" if "hb_compExprReducePlus F l r = e"
    unfolding v using that z by (intro ex_same) (auto simp: hb_compExprReducePlus_def c hb_compExprReducePlusStrings_def
        is_date_def split: if_splits)
  show "\<exists>y. hb_vmMinus R p p q s = item_wr p y s \<and> same_value y z" if "hb_compExprReduceMinus F l r = e"
    unfolding v using that z by (intro ex_same) (auto simp: hb_compExprReduceMinus_def c hb_compExprReduceMinusStrings_def
        string_minus_def is_date_def Let_def split: if_splits)
qed

lemma fold_arith:
  assumes s: "stack s = xs @ [x1, x2]" and x: "lit_item D l = Some x1" "lit_item D r = Some x2"
    and R: "manages R" and D: "D = hdecimals R s mod 65536" and z: "lit_item D e = Some z"
    and F: "\<not> fExtopt F"
  defines "p \<equiv> AtStack (length xs)" and "q \<equiv> AtStack (length xs + 1)"
  shows "hb_compExprReducePlus F l r = e \<Longrightarrow> exact_op EO_PLUS l r \<Longrightarrow>
      \<exists>y. hb_vmPlus R p p q s = item_wr p y s \<and> same_value y z"
    "hb_compExprReduceMinus F l r = e \<Longrightarrow> exact_op EO_MINUS l r \<Longrightarrow>
      \<exists>y. hb_vmMinus R p p q s = item_wr p y s \<and> same_value y z"
    "hb_compExprReduceMult l r = e \<Longrightarrow> exact_op EO_MULT l r \<Longrightarrow>
      \<exists>y. hb_vmMult R p p q s = item_wr p y s \<and> same_value y z"
    "hb_compExprReduceDiv l r = Some e \<Longrightarrow> exact_op EO_DIV l r \<Longrightarrow>
      \<exists>y. hb_vmDivide R p p q s = item_wr p y s \<and> same_number y z"
    "hb_compExprReduceMod F l r = Some e \<Longrightarrow> exact_op EO_MOD l r \<Longrightarrow>
      \<exists>y. hb_vmModulus R p p q s = item_wr p y s \<and> same_number y z"
    "hb_compExprReducePower (hpow R) l r = e \<Longrightarrow> exact_op EO_POWER l r \<Longrightarrow>
      \<exists>y. hb_vmPower R p p q s = item_wr p y s \<and> same_number y z"
proof -
  have pq: "item_rd p s = Some x1" "item_rd q s = Some x2" unfolding p_def q_def by (rule top_two[OF s])+
  note str = fold_strings[OF s x R _ _ _ z, folded p_def q_def]
  note date = vm_dates[OF x _ pq z F]
  note kinds = folded_kinds[OF z F]
  note nums = vm_sums[OF x(1) _ x(2) _ pq, of R] vm_mult[OF x(1) _ x(2) _ pq, of R]
  note quot = vm_quotients[OF x(1) _ x(2) _ pq _ _ D z]
  show "\<exists>y. hb_vmPlus R p p q s = item_wr p y s \<and> same_value y z"
    if e: "hb_compExprReducePlus F l r = e" "exact_op EO_PLUS l r"
    using kinds(1)[OF e(1)]
  proof (elim disjE)
    assume n: "is_num l \<and> is_num r"
    then have "sum_nums 1 d_add l r = e" using e(1) by (simp add: hb_compExprReducePlus_def)
    then show ?thesis using nums(1) n e(2) z by (auto simp: exact_op_def)
  qed (use date(1)[of R] str(1)[of F] e string_no_num[of l] in \<open>auto simp: exact_op_def\<close>)
  show "\<exists>y. hb_vmMinus R p p q s = item_wr p y s \<and> same_value y z"
    if e: "hb_compExprReduceMinus F l r = e" "exact_op EO_MINUS l r"
    using kinds(2)[OF e(1)]
  proof (elim disjE)
    assume n: "is_num l \<and> is_num r"
    then have "sum_nums (- 1) d_sub l r = e" using e(1) by (simp add: hb_compExprReduceMinus_def)
    then show ?thesis using nums(2) n e(2) z by (auto simp: exact_op_def)
  qed (use date(2)[of R] str(2)[of F] e string_no_num[of l] in \<open>auto simp: exact_op_def\<close>)
  show "\<exists>y. hb_vmMult R p p q s = item_wr p y s \<and> same_value y z"
    if e: "hb_compExprReduceMult l r = e" "exact_op EO_MULT l r"
    using kinds(3)[OF e(1)] nums(3) e z by (auto simp: exact_op_def)
  show "\<exists>y. hb_vmDivide R p p q s = item_wr p y s \<and> same_number y z"
    if e: "hb_compExprReduceDiv l r = Some e" "exact_op EO_DIV l r"
    using kinds(4)[OF e(1)] quot(1) e by (auto simp: exact_op_def)
  show "\<exists>y. hb_vmModulus R p p q s = item_wr p y s \<and> same_number y z"
    if e: "hb_compExprReduceMod F l r = Some e" "exact_op EO_MOD l r"
    using kinds(5)[OF e(1)] quot(2) e by (auto simp: exact_op_def)
  show "\<exists>y. hb_vmPower R p p q s = item_wr p y s \<and> same_number y z"
    if e: "hb_compExprReducePower (hpow R) l r = e" "exact_op EO_POWER l r"
    using kinds(6)[OF e(1)] quot(3) e by (auto simp: exact_op_def)
qed

lemma eval_ops:
  "hcall (vm_helpers R) ''hb_vmPlus'' [L a, L b, L c] = hb_vmPlus (R\<lparr>hunref := hb_itemUnRef R\<rparr>) a b c"
  "hcall (vm_helpers R) ''hb_vmMinus'' [L a, L b, L c] = hb_vmMinus (R\<lparr>hunref := hb_itemUnRef R\<rparr>) a b c"
  "hcall (vm_helpers R) ''hb_vmMult'' [L a, L b, L c] = hb_vmMult (R\<lparr>hunref := hb_itemUnRef R\<rparr>) a b c"
  "hcall (vm_helpers R) ''hb_vmDivide'' [L a, L b, L c] = hb_vmDivide (R\<lparr>hunref := hb_itemUnRef R\<rparr>) a b c"
  "hcall (vm_helpers R) ''hb_vmModulus'' [L a, L b, L c] = hb_vmModulus (R\<lparr>hunref := hb_itemUnRef R\<rparr>) a b c"
  "hcall (vm_helpers R) ''hb_vmPower'' [L a, L b, L c] = hb_vmPower (R\<lparr>hunref := hb_itemUnRef R\<rparr>) a b c"
  "hcall (vm_helpers R) ''hb_vmEqual'' [] = hb_vmEqual (R\<lparr>hunref := hb_itemUnRef R\<rparr>)"
  "hcall (vm_helpers R) ''hb_vmExactlyEqual'' [] = hb_vmExactlyEqual (R\<lparr>hunref := hb_itemUnRef R\<rparr>)"
  "hcall (vm_helpers R) ''hb_vmNotEqual'' [] = hb_vmNotEqual (R\<lparr>hunref := hb_itemUnRef R\<rparr>)"
  "hcall (vm_helpers R) ''hb_vmLess'' [] = hb_vmLess (R\<lparr>hunref := hb_itemUnRef R\<rparr>)"
  "hcall (vm_helpers R) ''hb_vmLessEqual'' [] = hb_vmLessEqual (R\<lparr>hunref := hb_itemUnRef R\<rparr>)"
  "hcall (vm_helpers R) ''hb_vmGreater'' [] = hb_vmGreater (R\<lparr>hunref := hb_itemUnRef R\<rparr>)"
  "hcall (vm_helpers R) ''hb_vmGreaterEqual'' [] = hb_vmGreaterEqual (R\<lparr>hunref := hb_itemUnRef R\<rparr>)"
  "hcall (vm_helpers R) ''hb_vmInstring'' [] = hb_vmInstring (R\<lparr>hunref := hb_itemUnRef R\<rparr>)"
  by (simp_all add: vm_helpers_sel vm_calls_def fun_eq_iff)

lemma same_value_refl: "same_value x x"
  by (cases x) (simp_all add: same_value_def)

lemma fold_operator:
  assumes s: "stack s = xs @ [x1, x2]" and x: "lit_item D l = Some x1" "lit_item D r = Some x2"
    and R: "manages R" and D: "D = hdecimals R s mod 65536"
    and F: "\<not> fExtopt (flags P)" "fHarbour (flags P)" "c_pow P = hpow R"
    and e: "reduce_bin P oper l r = Some e" "lit_item D e = Some z" "exact_op oper l r"
  shows "\<exists>y. vm_operator (vm_helpers R) oper s = Some (result s xs y) \<and> agrees oper y z"
proof -
  let ?R = "R\<lparr>hunref := hb_itemUnRef R\<rparr>"
  have R': "manages ?R" "clears ?R" "clears R" "D = hdecimals ?R s mod 65536" "hpow ?R = hpow R"
    using R D by (simp_all add: manages_unref manages_clears clears_vm)
  have run: "\<exists>y. vm_binop (vm_helpers R) f (\<lambda>i. 0) s = Some (result s xs y) \<and> Q y"
    if "\<And>a b c. hcall (vm_helpers R) f [L a, L b, L c] = g a b c"
      "\<exists>y. g (AtStack (length xs)) (AtStack (length xs)) (AtStack (length xs + 1)) s = item_wr (AtStack (length xs)) y s \<and> Q y"
    for f g Q
    using that run_binop[OF s R'(3) lit_plain[OF x(2)]] by metis
  note ar = fold_arith[OF s x R'(1,4) e(2) F(1)] and eq = vm_equalities[OF x s R'(2) F(1) e(2)]
    and ord = vm_orders[OF x s _ e(2)] and jun = vm_juncts[OF x s e(2)] and ins = vm_instring[OF x s R'(2) e(2) F(2)]
  have val: "\<exists>y. f s = Some (result s xs y) \<and> agrees oper y z"
    if "f s = Some (result s xs z)" "oper \<notin> {EO_DIV, EO_MOD, EO_POWER}" for f
    using that same_value_refl by (auto simp: agrees_def)
  note red = e(1)[unfolded reduce_bin_def Let_def]
  show ?thesis
  proof (cases oper)
    case EO_OR
    then show ?thesis using e(3) red jun(2) by (intro val) (auto simp: operator_rows exact_op_def)
  next
    case EO_AND
    then show ?thesis using e(3) red jun(1) by (intro val) (auto simp: operator_rows exact_op_def)
  next
    case EO_EQUAL
    then show ?thesis using red eq(1) by (intro val) (auto simp: operator_rows eval_ops)
  next
    case EO_EQ
    then show ?thesis using red eq(3) by (intro val) (auto simp: operator_rows eval_ops)
  next
    case EO_NE
    then show ?thesis using red eq(2) by (intro val) (auto simp: operator_rows eval_ops)
  next
    case EO_IN
    then show ?thesis using red ins by (intro val) (auto simp: operator_rows eval_ops)
  next
    case EO_LT
    have "reduce_order (\<lambda>a b. \<not> a \<and> b) (<) (<) d_lt EO_LT l r = e" using red EO_LT by (simp add: hb_compExprReduceLT_def)
    from ord[OF this] show ?thesis using EO_LT by (intro val) (auto simp: operator_rows eval_ops hb_vmLess_def)
  next
    case EO_GT
    have "reduce_order (\<lambda>a b. a \<and> \<not> b) (>) (>) (\<lambda>x y. d_lt y x) EO_GT l r = e"
      using red EO_GT by (simp add: hb_compExprReduceGT_def)
    from ord[OF this] show ?thesis using EO_GT by (intro val) (auto simp: operator_rows eval_ops hb_vmGreater_def)
  next
    case EO_LE
    have "reduce_order (\<lambda>a b. \<not> a \<or> b) (\<le>) (<) d_le EO_LE l r = e"
      using red EO_LE by (simp add: hb_compExprReduceLE_def)
    then have "vm_order (\<le>) (<) d_le (\<lambda>a b. \<not> a \<or> b) n m Q s = Some (result s xs z)" for n m Q
      by (rule ord) auto
    then show ?thesis using EO_LE by (intro val) (auto simp: operator_rows eval_ops hb_vmLessEqual_def)
  next
    case EO_GE
    have "reduce_order (\<lambda>a b. a \<or> \<not> b) (\<ge>) (>) (\<lambda>x y. d_le y x) EO_GE l r = e"
      using red EO_GE by (simp add: hb_compExprReduceGE_def)
    then have "vm_order (\<ge>) (>) (\<lambda>x y. d_le y x) (\<lambda>a b. a \<or> \<not> b) n m Q s = Some (result s xs z)" for n m Q
      by (rule ord) auto
    then show ?thesis using EO_GE by (intro val) (auto simp: operator_rows eval_ops hb_vmGreaterEqual_def)
  next
    case EO_PLUS
    then have "hb_compExprReducePlus (flags P) l r = e" "exact_op EO_PLUS l r" using red e(3) by simp_all
    then show ?thesis unfolding EO_PLUS operator_rows agrees_simps by (rule run[OF eval_ops(1) ar(1)])
  next
    case EO_MINUS
    then have "hb_compExprReduceMinus (flags P) l r = e" "exact_op EO_MINUS l r" using red e(3) by simp_all
    then show ?thesis unfolding EO_MINUS operator_rows agrees_simps by (rule run[OF eval_ops(2) ar(2)])
  next
    case EO_MULT
    then have "hb_compExprReduceMult l r = e" "exact_op EO_MULT l r" using red e(3) by simp_all
    then show ?thesis unfolding EO_MULT operator_rows agrees_simps by (rule run[OF eval_ops(3) ar(3)])
  next
    case EO_DIV
    then have "hb_compExprReduceDiv l r = Some e" "exact_op EO_DIV l r" using red e(3) by simp_all
    then show ?thesis unfolding EO_DIV operator_rows agrees_simps by (rule run[OF eval_ops(4) ar(4)])
  next
    case EO_MOD
    then have "hb_compExprReduceMod (flags P) l r = Some e" "exact_op EO_MOD l r" using red e(3) by simp_all
    then show ?thesis unfolding EO_MOD operator_rows agrees_simps by (rule run[OF eval_ops(5) ar(5)])
  next
    case EO_POWER
    then have "hb_compExprReducePower (hpow ?R) l r = e" "exact_op EO_POWER l r" using red e(3) F(2,3) by simp_all
    then show ?thesis unfolding EO_POWER operator_rows agrees_simps by (rule run[OF eval_ops(6) ar(6)])
  qed
qed

end
