(* ===== verification/ExprGen.thy ===== *)
theory ExprGen
  imports ExprFacts
begin

text \<open>
  The pcode of expressions: the functions of compiler/hbmain.c and
  compiler/hbpcode.c that write instructions, and HB_EA_PUSH_PCODE of
  include/hbexprb.c.
\<close>

section \<open>Writing pcode\<close>

text \<open>
  The pcode of a function and the positions of its long jumps; the size of the
  buffer is not modelled.
\<close>

record hfunc =
  pCode :: "HB_BYTE list"
  pJumps :: "nat list"

definition hb_compGenPCode1 :: "HB_BYTE \<Rightarrow> hfunc \<Rightarrow> hfunc" where
  "hb_compGenPCode1 b f = f\<lparr>pCode := pCode f @ [b]\<rparr>"

definition hb_compGenPCode2 :: "HB_BYTE \<Rightarrow> HB_BYTE \<Rightarrow> hfunc \<Rightarrow> hfunc" where
  "hb_compGenPCode2 b1 b2 f = f\<lparr>pCode := pCode f @ [b1, b2]\<rparr>"

definition hb_compGenPCode3 :: "HB_BYTE \<Rightarrow> HB_BYTE \<Rightarrow> HB_BYTE \<Rightarrow> hfunc \<Rightarrow> hfunc" where
  "hb_compGenPCode3 b1 b2 b3 f = f\<lparr>pCode := pCode f @ [b1, b2, b3]\<rparr>"

definition hb_compGenPCode4 :: "HB_BYTE \<Rightarrow> HB_BYTE \<Rightarrow> HB_BYTE \<Rightarrow> HB_BYTE \<Rightarrow> hfunc \<Rightarrow> hfunc" where
  "hb_compGenPCode4 b1 b2 b3 b4 f = f\<lparr>pCode := pCode f @ [b1, b2, b3, b4]\<rparr>"

definition hb_compGenPCodeN :: "HB_BYTE list \<Rightarrow> hfunc \<Rightarrow> hfunc" where
  "hb_compGenPCodeN pBuffer f = f\<lparr>pCode := pCode f @ pBuffer\<rparr>"

text \<open>The low \<open>k\<close> bytes of a number, least first: HB_PUT_LE_UINT24, 32 and 64; HB_LOBYTE is the first.\<close>

definition put_le :: "nat \<Rightarrow> int \<Rightarrow> HB_BYTE list" where
  "put_le k v = map (\<lambda>i. word_of_int (drop_bit (8 * i) v)) [0..<k]"

definition opb :: "nat \<Rightarrow> HB_BYTE" where
  "opb n = word_of_nat n"

section \<open>Literals\<close>

definition hb_compGenPushLogical :: "bool \<Rightarrow> hfunc \<Rightarrow> hfunc" where
  "hb_compGenPushLogical b = hb_compGenPCode1 (opb (if b then HB_P_TRUE else HB_P_FALSE))"

definition hb_compGenPushNil :: "hfunc \<Rightarrow> hfunc" where
  "hb_compGenPushNil = hb_compGenPCode1 (opb HB_P_PUSHNIL)"

definition hb_compGenPushDouble :: "64 word \<Rightarrow> nat \<Rightarrow> nat \<Rightarrow> hfunc \<Rightarrow> hfunc" where
  "hb_compGenPushDouble dNumber ucWidth ucDec =
     hb_compGenPCodeN (opb HB_P_PUSHDOUBLE # put_le 8 (uint dNumber) @ [word_of_nat ucWidth, word_of_nat ucDec])"

text \<open>In the constants of a SWITCH the operand has 4 or 8 bytes.\<close>

definition hb_compGenPushLong :: "bool \<Rightarrow> int \<Rightarrow> hfunc \<Rightarrow> hfunc" where
  "hb_compGenPushLong fSwitchCase v =
     (if \<not> fSwitchCase then
        (if v = 0 then hb_compGenPCode1 (opb HB_P_ZERO)
         else if v = 1 then hb_compGenPCode1 (opb HB_P_ONE)
         else if - 128 \<le> v \<and> v \<le> 127 then hb_compGenPCode2 (opb HB_P_PUSHBYTE) (word_of_int v)
         else if - (2 ^ 15) \<le> v \<and> v \<le> 2 ^ 15 - 1
         then hb_compGenPCode3 (opb HB_P_PUSHINT) (word_of_int v) (word_of_int (drop_bit 8 v))
         else if - (2 ^ 31) \<le> v \<and> v \<le> 2 ^ 31 - 1 then hb_compGenPCodeN (opb HB_P_PUSHLONG # put_le 4 v)
         else hb_compGenPCodeN (opb HB_P_PUSHLONGLONG # put_le 8 v))
      else
        (if - (2 ^ 31) \<le> v \<and> v \<le> 2 ^ 31 - 1 then hb_compGenPCodeN (opb HB_P_PUSHLONG # put_le 4 v)
         else hb_compGenPCodeN (opb HB_P_PUSHLONGLONG # put_le 8 v)))"

definition hb_compGenPushDate :: "int \<Rightarrow> hfunc \<Rightarrow> hfunc" where
  "hb_compGenPushDate j = hb_compGenPCodeN (opb HB_P_PUSHDATE # put_le 4 j)"

definition hb_compGenPushTimeStamp :: "int \<Rightarrow> int \<Rightarrow> hfunc \<Rightarrow> hfunc" where
  "hb_compGenPushTimeStamp j t =
     hb_compGenPCodeN (opb HB_P_PUSHTIMESTAMP # put_le 4 j @ put_le 4 t)"

text \<open>
  Without the option that hides strings.  \<open>szText\<close> includes the terminating 0;
  None when the compiler reports that the string is too long.
\<close>

definition hb_compGenPushString :: "HB_BYTE list \<Rightarrow> hfunc \<Rightarrow> hfunc option" where
  "hb_compGenPushString szText f =
     (let nStrLen = length szText; v = int nStrLen in
      if nStrLen > 0xFFFFFF then None
      else Some (hb_compGenPCodeN szText
        (if nStrLen > 0xFFFF
         then hb_compGenPCode4 (opb HB_P_PUSHSTRLARGE) (word_of_int v) (word_of_int (drop_bit 8 v)) (word_of_int (drop_bit 16 v)) f
         else if nStrLen > 0xFF
         then hb_compGenPCode3 (opb HB_P_PUSHSTR) (word_of_int v) (word_of_int (drop_bit 8 v)) f
         else hb_compGenPCode2 (opb HB_P_PUSHSTRSHORT) (word_of_int v) f)))"

text \<open>A local variable, hb_compGenPushVar; \<open>block\<close> tells the code is that of a code block.\<close>

definition gen_push_local :: "bool \<Rightarrow> int \<Rightarrow> hfunc \<Rightarrow> hfunc" where
  "gen_push_local block iVar =
     (if - 128 \<le> iVar \<and> iVar \<le> 127 \<and> block then hb_compGenPCode2 (opb HB_P_PUSHLOCALNEAR) (word_of_int iVar)
      else hb_compGenPCode3 (opb HB_P_PUSHLOCAL) (word_of_int iVar) (word_of_int (drop_bit 8 iVar)))"

section \<open>Jumps\<close>

definition HB_LIM_INT24 :: "int \<Rightarrow> bool" where
  "HB_LIM_INT24 v \<longleftrightarrow> - (2 ^ 23) \<le> v \<and> v \<le> 2 ^ 23 - 1"

definition hb_compPrepareJumps :: "hfunc \<Rightarrow> hfunc" where
  "hb_compPrepareJumps f = f\<lparr>pJumps := pJumps f @ [length (pCode f) - 4]\<rparr>"

text \<open>
  The three functions differ in the opcode.  The result is the position of the
  offset; None when the compiler reports a jump that is too long.
\<close>

definition gen_jump :: "nat \<Rightarrow> int \<Rightarrow> hfunc \<Rightarrow> (nat \<times> hfunc) option" where
  "gen_jump bOp nOffset f =
     (if \<not> HB_LIM_INT24 nOffset then None
      else let f = hb_compPrepareJumps (hb_compGenPCode4 (opb bOp) (word_of_int nOffset)
                     (word_of_int (drop_bit 8 nOffset)) (word_of_int (drop_bit 16 nOffset)) f)
           in Some (length (pCode f) - 3, f))"

definition hb_compGenJump :: "int \<Rightarrow> hfunc \<Rightarrow> (nat \<times> hfunc) option" where
  "hb_compGenJump = gen_jump HB_P_JUMPFAR"

definition hb_compGenJumpFalse :: "int \<Rightarrow> hfunc \<Rightarrow> (nat \<times> hfunc) option" where
  "hb_compGenJumpFalse = gen_jump HB_P_JUMPFALSEFAR"

definition hb_compGenJumpTrue :: "int \<Rightarrow> hfunc \<Rightarrow> (nat \<times> hfunc) option" where
  "hb_compGenJumpTrue = gen_jump HB_P_JUMPTRUEFAR"

definition hb_compGenJumpThere :: "nat \<Rightarrow> nat \<Rightarrow> hfunc \<Rightarrow> hfunc option" where
  "hb_compGenJumpThere nFrom nTo f =
     (let nOffset = int nTo - int nFrom + 1 in
      if HB_LIM_INT24 nOffset
      then Some (f\<lparr>pCode := (pCode f)[nFrom := word_of_int nOffset, nFrom + 1 := word_of_int (drop_bit 8 nOffset),
                              nFrom + 2 := word_of_int (drop_bit 16 nOffset)]\<rparr>)
      else None)"

definition hb_compGenJumpHere :: "nat \<Rightarrow> hfunc \<Rightarrow> hfunc option" where
  "hb_compGenJumpHere nOffset f = hb_compGenJumpThere nOffset (length (pCode f)) f"

section \<open>Expressions\<close>

text \<open>The parameters: the switches, whether the code is that of a block and of a constant of a SWITCH.\<close>

record gen_param =
  gflags :: comp_flags
  in_block :: bool
  fSwitchCase :: bool

definition is_unit :: "int \<Rightarrow> numval \<Rightarrow> bool" where
  "is_unit v n = (case n of NUM_LONG l \<Rightarrow> l = v | NUM_DOUBLE d \<Rightarrow> d_eq d (d_of_int v))"

text \<open>Under -ko, adding or subtracting 1 or -1 is an increment or decrement of the other side.\<close>

definition inc_side :: "binop \<Rightarrow> expr \<Rightarrow> expr \<Rightarrow> (expr \<times> nat) option" where
  "inc_side oper l r =
     (if oper = EO_PLUS then
        (if is_num l then
           (if is_unit 1 (asNum l) then Some (r, HB_P_INC)
            else if is_unit (- 1) (asNum l) then Some (r, HB_P_DEC) else None)
         else if is_num r then
           (if is_unit 1 (asNum r) then Some (l, HB_P_INC)
            else if is_unit (- 1) (asNum r) then Some (l, HB_P_DEC) else None)
         else None)
      else if oper = EO_MINUS \<and> is_num r then
        (if is_unit 1 (asNum r) then Some (l, HB_P_DEC)
         else if is_unit (- 1) (asNum r) then Some (l, HB_P_INC) else None)
      else None)"

lemma inc_side_size: "inc_side oper l r = Some (x, k) \<Longrightarrow> size x < Suc (size l + size r)"
  by (auto simp: inc_side_def split: if_splits)

definition shortcut :: "comp_flags \<Rightarrow> binop \<Rightarrow> bool" where
  "shortcut F oper \<longleftrightarrow> fShortcuts F \<and> (oper = EO_OR \<or> oper = EO_AND)"

text \<open>
  HB_EA_PUSH_PCODE.  A string without macro text is pushed as it is, with macro
  text on (hb_compPushMacroText) or off.  None also for the expressions outside
  this model: arrays, calls, lists of several expressions, strings with macro
  text.
\<close>

function gen_push :: "gen_param \<Rightarrow> expr \<Rightarrow> hfunc \<Rightarrow> hfunc option" where
  "gen_push G e f =
     (case e of
        E_NIL \<Rightarrow> Some (hb_compGenPushNil f)
      | E_NUMERIC n w d \<Rightarrow>
          Some (case n of
              NUM_DOUBLE x \<Rightarrow> hb_compGenPushDouble x w d f
            | NUM_LONG v \<Rightarrow> hb_compGenPushLong (fSwitchCase G) v f)
      | E_DATE j \<Rightarrow> Some (hb_compGenPushDate j f)
      | E_TIMESTAMP j t \<Rightarrow> Some (hb_compGenPushTimeStamp j t f)
      | E_STRING cs \<Rightarrow>
          (if fMacrotext (gflags G) \<and> hb_compExprHasMacro (gflags G) cs then None
           else hb_compGenPushString (cs @ [0]) f)
      | E_LOGICAL b \<Rightarrow> Some (hb_compGenPushLogical b f)
      | E_LOCAL i \<Rightarrow> Some (gen_push_local (in_block G) i f)
      | E_NOT x \<Rightarrow> map_option (hb_compGenPCode1 (opb HB_P_NOT)) (gen_push G x f)
      | E_NEGATE x \<Rightarrow> map_option (hb_compGenPCode1 (opb HB_P_NEGATE)) (gen_push G x f)
      | E_BIN oper l r \<Rightarrow>
          (if shortcut (gflags G) oper then do {
             f \<leftarrow> gen_push G l f;
             (nEndPos, f) \<leftarrow> (if oper = EO_OR then hb_compGenJumpTrue else hb_compGenJumpFalse) 0
               (hb_compGenPCode1 (opb HB_P_DUPLICATE) f);
             f \<leftarrow> gen_push G r (hb_compGenPCode1 (opb HB_P_POP) f);
             hb_compGenJumpHere nEndPos f }
           else case (if fExtopt (gflags G) then inc_side oper l r else None) of
             Some (x, k) \<Rightarrow> map_option (hb_compGenPCode1 (opb k)) (gen_push G x f)
           | None \<Rightarrow> do {
               f \<leftarrow> gen_push G l f;
               f \<leftarrow> gen_push G r f;
               Some (hb_compGenPCode1 (opb (op_code oper)) f) })
      | E_IIF c x y \<Rightarrow> do {
          f \<leftarrow> gen_push G c f;
          (nPosFalse, f) \<leftarrow> hb_compGenJumpFalse 0 f;
          f \<leftarrow> gen_push G x f;
          (nPosEnd, f) \<leftarrow> hb_compGenJump 0 f;
          f \<leftarrow> hb_compGenJumpHere nPosFalse f;
          f \<leftarrow> gen_push G y f;
          hb_compGenJumpHere nPosEnd f }
      | E_LIST xs \<Rightarrow> (case xs of [x] \<Rightarrow> (if x = E_NONE then None else gen_push G x f) | _ \<Rightarrow> None)
      | _ \<Rightarrow> None)"
  by pat_completeness auto
termination by (relation "measure (\<lambda>(_, e, _). size e)") (auto dest: inc_side_size split: if_splits)

declare gen_push.simps [simp del]

end
