(* ===== verification/ExprLit.thy ===== *)
theory ExprLit
  imports ExprGen
begin

text \<open>
  What the interpreter does on the pcode of an expression: the meaning of an
  expression without pcode, runs of the interpreter, and the instructions of the
  literals, which push the item \<open>lit_item\<close> names.
\<close>

section \<open>Reading back what was written\<close>

lemma bit_byte: "bit (word_of_int (drop_bit k v) :: 8 word) n \<longleftrightarrow> n < 8 \<and> bit v (k + n)"
  by (simp add: bit_simps)

lemma put_le_nth [simp]: "i < k \<Longrightarrow> put_le k v ! i = word_of_int (drop_bit (8 * i) v)" "length (put_le k v) = k"
  by (simp_all add: put_le_def)

lemma bit_pushed:
  "bit (push_bit k (ucast (word_of_int (drop_bit k v) :: 8 word)) :: 'a::len word) n \<longleftrightarrow>
    n < LENGTH('a) \<and> k \<le> n \<and> n < k + 8 \<and> bit v n"
  "bit (ucast (word_of_int v :: 8 word) :: 'a word) n \<longleftrightarrow> n < LENGTH('a) \<and> n < 8 \<and> bit v n"
  by (auto simp: bit_simps)

lemma len_num_simps: "LENGTH(8) = 8" "LENGTH(16) = 16" "LENGTH(32) = 32" "LENGTH(64) = 64"
  by simp_all

lemma get_16: "p 0 = word_of_int v \<Longrightarrow> p 1 = word_of_int (drop_bit 8 v) \<Longrightarrow> HB_GET_LE_UINT16 p = word_of_int v"
  by (rule bit_word_eqI) (simp only: HB_GET_LE_UINT16_def bit_or_iff bit_pushed bit_word_of_int_iff len_num_simps, arith)

lemma get_24: "p 0 = word_of_int v \<Longrightarrow> p 1 = word_of_int (drop_bit 8 v) \<Longrightarrow> p 2 = word_of_int (drop_bit 16 v) \<Longrightarrow>
    HB_GET_LE_UINT24 p = word_of_int (take_bit 24 v)"
  by (rule bit_word_eqI)
    (simp only: HB_GET_LE_UINT24_def bit_or_iff bit_pushed bit_word_of_int_iff bit_take_bit_iff len_num_simps, arith)

lemma put_le_at:
  "(\<And>i. i < k \<Longrightarrow> p i = put_le k v ! i) \<Longrightarrow> i < k \<Longrightarrow> p i = word_of_int (drop_bit (8 * i) v)"
  by simp

lemma get_32: 
  assumes "\<And>i. i < 4 \<Longrightarrow> p i = put_le 4 v ! i"
  shows "HB_GET_LE_UINT32 p = word_of_int v"
proof -
  have "p 0 = word_of_int v" "p 1 = word_of_int (drop_bit 8 v)" "p 2 = word_of_int (drop_bit 16 v)"
    "p 3 = word_of_int (drop_bit 24 v)" using assms by simp_all
  then show ?thesis
    by (intro bit_word_eqI)
      (simp only: HB_GET_LE_UINT32_def bit_or_iff bit_pushed bit_word_of_int_iff len_num_simps, arith)
qed

lemma get_64:
  assumes "\<And>i. i < 8 \<Longrightarrow> p i = put_le 8 v ! i"
  shows "HB_GET_LE_UINT64 p = word_of_int v"
proof -
  have "p 0 = word_of_int v" "p 1 = word_of_int (drop_bit 8 v)" "p 2 = word_of_int (drop_bit 16 v)"
    "p 3 = word_of_int (drop_bit 24 v)" "p 4 = word_of_int (drop_bit 32 v)" "p 5 = word_of_int (drop_bit 40 v)"
    "p 6 = word_of_int (drop_bit 48 v)" "p 7 = word_of_int (drop_bit 56 v)" using assms by simp_all
  then show ?thesis
    by (intro bit_word_eqI)
      (simp only: HB_GET_LE_UINT64_def bit_or_iff bit_pushed bit_word_of_int_iff len_num_simps, arith)
qed

lemma sint_small: "- (2 ^ (LENGTH('a) - 1)) \<le> v \<Longrightarrow> v < 2 ^ (LENGTH('a) - 1) \<Longrightarrow> sint (word_of_int v :: 'a::len word) = v"
  by (simp add: sint_sbintrunc' signed_take_bit_int_eq_self)

lemma bits_24:
  assumes "HB_LIM_INT24 v" "23 \<le> n"
  shows "bit v n = bit v 23"
proof -
  have "signed_take_bit 23 v = v" using assms(1) by (intro signed_take_bit_int_eq_self) (auto simp: HB_LIM_INT24_def)
  then show ?thesis using assms(2) bit_signed_take_bit_iff[of 23 v n] bit_signed_take_bit_iff[of 23 v 23]
    by (simp add: min_def possible_bit_def)
qed

lemma mask_byte: "bit (0xFF :: 32 word) n \<longleftrightarrow> n < 8"
proof -
  have "(0xFF :: 32 word) = mask 8" by (simp add: mask_eq_exp_minus_1)
  then show "bit (0xFF :: 32 word) n \<longleftrightarrow> n < 8" by (simp only: bit_mask_iff len_num_simps) auto
qed

lemma get_int24:
  assumes p: "p 0 = word_of_int v" "p 1 = word_of_int (drop_bit 8 v)" "p 2 = word_of_int (drop_bit 16 v)" and v: "HB_LIM_INT24 v"
  shows "HB_PCODE_MKINT24 p = v"
proof -
  have "p 2 AND 2 ^ 7 = 0 \<longleftrightarrow> \<not> bit (p 2) 7" by (rule and_exp_eq_0_iff_not_bit)
  then have n: "p 2 AND 0x80 \<noteq> 0 \<longleftrightarrow> bit v 23" using p(3) by (simp add: bit_byte)
  have b: "bit v n = bit v 23" if "23 \<le> n" for n using bits_24[OF v that] .
  have "HB_GET_LE_INT24 p = word_of_int v"
  proof (rule bit_word_eqI)
    fix k
    assume k: "k < LENGTH(32)"
    have m: "bit (push_bit 24 (if bit v 23 then 0xFF else 0) :: 32 word) k \<longleftrightarrow> 24 \<le> k \<and> bit v k"
      using k b[of k] unfolding if_distrib[of "push_bit 24"] if_distrib[of "\<lambda>w. bit w k"] bit_push_bit_iff mask_byte
      by auto
    show "bit (HB_GET_LE_INT24 p) k = bit (word_of_int v :: 32 word) k"
      using k unfolding HB_GET_LE_INT24_def n bit_or_iff m unfolding p bit_pushed bit_word_of_int_iff len_num_simps by arith
  qed
  then show ?thesis using v by (simp add: HB_PCODE_MKINT24_def sint_small HB_LIM_INT24_def)
qed

section \<open>What an expression does to the machine\<close>

text \<open>A literal whose operands the instruction has room for.\<close>

definition storable :: "expr \<Rightarrow> bool" where
  "storable e =
     (case e of
        E_NUMERIC n w d \<Rightarrow> (case n of NUM_LONG v \<Rightarrow> HB_LIM_LONG v | NUM_DOUBLE x \<Rightarrow> w < 256 \<and> d < 256)
      | E_DATE j \<Rightarrow> HB_LIM_INT j
      | E_TIMESTAMP j t \<Rightarrow> HB_LIM_INT j \<and> HB_LIM_INT t
      | _ \<Rightarrow> True)"

text \<open>The machine goes on as long as no action is requested.\<close>

definition quiet :: "'w vm \<Rightarrow> 'w vm option" where
  "quiet s = (if actionRequest s = 0 then Some s else None)"

definition push_lit :: "'w helpers \<Rightarrow> expr \<Rightarrow> 'w vm \<Rightarrow> 'w vm option" where
  "push_lit H e s =
     (if storable e then map_option (\<lambda>x. stack_push x s) (lit_item (hdecimals H s mod 65536) e) else None)"

text \<open>
  The meaning of an expression, without pcode: the state after its value was
  pushed; None when an operator requests an action, or for an expression
  outside the model.
\<close>

function eval_push :: "gen_param \<Rightarrow> 'w helpers \<Rightarrow> expr \<Rightarrow> 'w vm \<Rightarrow> 'w vm option" where
  "eval_push G H e s =
     (case e of
        E_LOCAL i \<Rightarrow> (if - (2 ^ 15) \<le> i \<and> i < 2 ^ 15 then hb_vmPushLocal H i s \<bind> quiet else None)
      | E_NOT x \<Rightarrow> eval_push G H x s \<bind> hb_vmNot H \<bind> quiet
      | E_NEGATE x \<Rightarrow> eval_push G H x s \<bind> hcall H ''hb_vmNegate'' [] \<bind> quiet
      | E_BIN oper l r \<Rightarrow>
          (if shortcut (gflags G) oper then do {
             s \<leftarrow> eval_push G H l s;
             s \<leftarrow> hb_vmDuplicate H s \<bind> quiet;
             (b, s) \<leftarrow> hb_vmPopLogical H s;
             s \<leftarrow> quiet s;
             if b = (oper = EO_OR) then Some s
             else hb_stackPop H s \<bind> quiet \<bind> eval_push G H r }
           else case (if fExtopt (gflags G) then inc_side oper l r else None) of
             Some (x, k) \<Rightarrow>
               do { s \<leftarrow> eval_push G H x s;
                    p \<leftarrow> hb_stackItemFromTop (- 1) s;
                    hcall H (if k = HB_P_INC then ''hb_vmInc'' else ''hb_vmDec'') [L p] s \<bind> quiet }
           | None \<Rightarrow> eval_push G H l s \<bind> eval_push G H r \<bind> vm_operator H oper \<bind> quiet)
      | E_IIF c x y \<Rightarrow> do {
          s \<leftarrow> eval_push G H c s;
          (b, s) \<leftarrow> hb_vmPopLogical H s;
          s \<leftarrow> quiet s;
          eval_push G H (if b then x else y) s }
      | E_LIST xs \<Rightarrow> (case xs of [x] \<Rightarrow> eval_push G H x s | _ \<Rightarrow> None)
      | _ \<Rightarrow> push_lit H e s)"
  by pat_completeness auto
termination by (relation "measure (\<lambda>(_, _, e, _). size e)") (auto dest: inc_side_size split: if_splits)

declare eval_push.simps [simp del]

section \<open>Steps of the interpreter\<close>

definition at_code :: "'w ctx \<Rightarrow> nat \<Rightarrow> HB_BYTE list \<Rightarrow> bool" where
  "at_code C n bs \<longleftrightarrow> (\<forall>i<length bs. code C (n + i) = bs ! i)"

definition moves :: "'w ctx \<Rightarrow> nat \<Rightarrow> 'w vm \<Rightarrow> nat \<Rightarrow> 'w vm \<Rightarrow> bool" where
  "moves C n s m t \<longleftrightarrow>
     (\<forall>i. (i\<lparr>pc := int n, vmst := s\<rparr>, i\<lparr>pc := int m, vmst := t\<rparr>) \<in> {(a, b). vm_step C a = Some (Loop b)}\<^sup>*)"

lemma moves_refl: "moves C n s n s"
  by (simp add: moves_def)

lemma moves_trans [trans]: "moves C n s m t \<Longrightarrow> moves C m t k u \<Longrightarrow> moves C n s k u"
  unfolding moves_def by (meson rtrancl_trans)

lemma quiet_some [simp]: "quiet s = Some t \<longleftrightarrow> t = s \<and> actionRequest s = 0"
  by (auto simp: quiet_def)

lemma at_code_append: "at_code C n (bs @ cs) \<longleftrightarrow> at_code C n bs \<and> at_code C (n + length bs) cs"
proof -
  have "(\<forall>i<length bs + length cs. P i) \<longleftrightarrow> (\<forall>i<length bs. P i) \<and> (\<forall>i<length cs. P (length bs + i))" for P :: "nat \<Rightarrow> bool"
  proof (intro iffI allI impI conjI)
    fix i assume "(\<forall>i<length bs. P i) \<and> (\<forall>i<length cs. P (length bs + i))" "i < length bs + length cs"
    then show "P i" by (cases "i < length bs") (auto dest!: spec[of _ "i - length bs"])
  qed auto
  then show ?thesis by (simp add: at_code_def nth_append add.assoc)
qed

lemma at_code_Cons: "at_code C n (b # bs) \<longleftrightarrow> code C n = b \<and> at_code C (Suc n) bs"
  using at_code_append[of C n "[b]" bs] by (simp add: at_code_def)

lemma at_code_nth: "at_code C n bs \<Longrightarrow> i < length bs \<Longrightarrow> code C (n + i) = bs ! i"
  by (simp add: at_code_def)

lemma moves_step:
  assumes "\<And>i. exec_case C (i\<lparr>pc := int n, vmst := s\<rparr>) = Some (i\<lparr>pc := int m, vmst := t\<rparr>)" "actionRequest t = 0"
  shows "moves C n s m t"
proof -
  have "vm_step C (i\<lparr>pc := int n, vmst := s\<rparr>) = Some (Loop (i\<lparr>pc := int m, vmst := t\<rparr>))" for i
    using assms by (simp add: vm_step_def after_case_def Let_def)
  then show ?thesis by (auto simp: moves_def)
qed

lemma opc_byte: "k < 256 \<Longrightarrow> code C n = opb k \<Longrightarrow> opc (pc_at (code C) n) = k"
  by (simp add: opc_def opb_def pc_at_app unat_of_nat)

lemma moves_plain:
  assumes "code C n = opb k" "k < 256" "map_of (cases_plain (hlp C)) k = Some (f, adv)"
    and "f (pc_at (code C) n) s = Some t" "actionRequest t = 0" "m = n + adv"
  shows "moves C n s m t"
  using assms(4-6) by (intro moves_step) (simp_all add: exec_case_def opc_byte[OF assms(2,1)] assms(3) case_plain_def)

section \<open>The instructions\<close>

lemma row_none:
  "map_of (cases_plain H) HB_P_JUMPFAR = None" "map_of (cases_plain H) HB_P_JUMPFALSEFAR = None"
  "map_of (cases_plain H) HB_P_JUMPTRUEFAR = None" "map_of (cases_plain H) HB_P_PUSHSTRSHORT = None"
  "map_of (cases_plain H) HB_P_PUSHSTR = None" "map_of (cases_plain H) HB_P_PUSHSTRLARGE = None"
  by (simp_all only: case_tables lookup_simps map_of.simps(1))

lemma row_some:
  "map_of (cases_plain H) HB_P_TRUE = Some (\<lambda>p s. Some (stack_push (I_Logical True) s), 1)"
  "map_of (cases_plain H) HB_P_FALSE = Some (\<lambda>p s. Some (stack_push (I_Logical False) s), 1)"
  "map_of (cases_plain H) HB_P_ONE = Some (\<lambda>p s. Some (stack_push (I_Integer 1 10) s), 1)"
  "map_of (cases_plain H) HB_P_ZERO = Some (\<lambda>p s. Some (stack_push (I_Integer 0 10) s), 1)"
  "map_of (cases_plain H) HB_P_PUSHNIL = Some (\<lambda>p s. Some (stack_push I_Nil s), 1)"
  "map_of (cases_plain H) HB_P_PUSHBYTE = Some (\<lambda>p s. Some (stack_push (I_Integer (schar (p 1)) 10) s), 2)"
  "map_of (cases_plain H) HB_P_PUSHINT = Some (\<lambda>p s. Some (stack_push (I_Integer (MKS16 p 1) 10) s), 3)"
  "map_of (cases_plain H) HB_P_PUSHLONG =
     Some (\<lambda>p s. Some (hb_vmPushIntegerConst (HB_PCODE_MKLONG (pc_at p 1)) s), 5)"
  "map_of (cases_plain H) HB_P_PUSHLONGLONG =
     Some (\<lambda>p s. Some (hb_vmPushLongLongConst (HB_PCODE_MKLONGLONG (pc_at p 1)) s), 9)"
  "map_of (cases_plain H) HB_P_PUSHDOUBLE = Some (\<lambda>p s.
       Some (hb_vmPushDoubleConst H (HB_GET_LE_UINT64 (pc_at p 1)) (int (U8 p 9)) (int (U8 p 10)) s), 11)"
  "map_of (cases_plain H) HB_P_PUSHDATE = Some (\<lambda>p s. Some (stack_push (I_Date (HB_PCODE_MKLONG (pc_at p 1))) s), 5)"
  "map_of (cases_plain H) HB_P_PUSHTIMESTAMP = Some (\<lambda>p s. Some (stack_push
       (I_TimeStamp (HB_PCODE_MKLONG (pc_at p 1)) (HB_PCODE_MKLONG (pc_at p 5))) s), 9)"
  "map_of (cases_plain H) HB_P_PUSHLOCAL = Some (\<lambda>p s. hb_vmPushLocal H (MKS16 p 1) s, 3)"
  "map_of (cases_plain H) HB_P_PUSHLOCALNEAR = Some (\<lambda>p s. hb_vmPushLocal H (schar (p 1)) s, 2)"
  "map_of (cases_plain H) HB_P_DUPLICATE = Some (\<lambda>p s. hb_vmDuplicate H s, 1)"
  "map_of (cases_plain H) HB_P_POP = Some (\<lambda>p s. hb_stackPop H s, 1)"
  "map_of (cases_plain H) HB_P_NOT = Some (\<lambda>p s. hb_vmNot H s, 1)"
  "map_of (cases_plain H) HB_P_NEGATE = Some (vm_call0 H ''hb_vmNegate'', 1)"
  "map_of (cases_plain H) HB_P_INC = Some (vm_incdec H ''hb_vmInc'', 1)"
  "map_of (cases_plain H) HB_P_DEC = Some (vm_incdec H ''hb_vmDec'', 1)"
  by (simp_all only: case_tables lookup_simps map_of.simps(1))

lemma row_operator: "\<exists>f. map_of (cases_plain H) (op_code oper) = Some (f, 1) \<and>
    (\<forall>p s. f p s = vm_operator H oper s)"
  unfolding vm_operator_def
  by (cases oper; simp_all only: op_code_def binop.case case_tables lookup_simps map_of.simps(1) option.case prod.case;
      auto simp: vm_call0_def vm_binop_def)

lemma moves_jump:
  assumes "at_code C n (opb k # put_le 3 v)" "HB_LIM_INT24 v" "0 \<le> int n + v" "actionRequest s = 0"
  shows "k = HB_P_JUMPFAR \<Longrightarrow> moves C n s (nat (int n + v)) s"
    "k = HB_P_JUMPFALSEFAR \<Longrightarrow> hb_vmPopLogical (hlp C) s = Some (b, t) \<Longrightarrow> actionRequest t = 0 \<Longrightarrow>
       moves C n s (if b then n + 4 else nat (int n + v)) t"
    "k = HB_P_JUMPTRUEFAR \<Longrightarrow> hb_vmPopLogical (hlp C) s = Some (b, t) \<Longrightarrow> actionRequest t = 0 \<Longrightarrow>
       moves C n s (if b then nat (int n + v) else n + 4) t"
proof -
  have c: "code C (n + i) = (opb k # put_le 3 v) ! i" if "i < 4" for i
    using at_code_nth[OF assms(1), of i] that by simp
  have v: "HB_PCODE_MKINT24 (pc_at (code C) (Suc n)) = v"
    using c[of 1] c[of 2] c[of 3] assms(2) by (intro get_int24) (simp_all add: pc_at_app numeral_3_eq_3 numeral_2_eq_2)
  have o: "code C n = opb k" using c[of 0] by simp
  note defs = exec_case_def row_none case_jumps_def jump_disp_def jump_size_def v hb_pcodeIsJump_def Let_def
  show "moves C n s (nat (int n + v)) s" if "k = HB_P_JUMPFAR"
    using opc_byte[OF _ o] that assms(3,4) by (intro moves_step) (simp_all add: defs)
  show "moves C n s (if b then n + 4 else nat (int n + v)) t"
    if "k = HB_P_JUMPFALSEFAR" "hb_vmPopLogical (hlp C) s = Some (b, t)" "actionRequest t = 0"
    using opc_byte[OF _ o] that assms(3,4) by (intro moves_step) (simp_all add: defs)
  show "moves C n s (if b then nat (int n + v) else n + 4) t"
    if "k = HB_P_JUMPTRUEFAR" "hb_vmPopLogical (hlp C) s = Some (b, t)" "actionRequest t = 0"
    using opc_byte[OF _ o] that assms(3,4) by (intro moves_step) (simp_all add: defs)
qed

section \<open>Literals\<close>

text \<open>Pcode at position \<open>n\<close> that does what \<open>f\<close> says.\<close>

definition runs :: "('w ctx \<Rightarrow> 'w vm \<Rightarrow> 'w vm option) \<Rightarrow> nat \<Rightarrow> HB_BYTE list \<Rightarrow> bool" where
  "runs f n bs \<longleftrightarrow>
     (\<forall>C s t. at_code C n bs \<longrightarrow> actionRequest s = 0 \<longrightarrow> f C s = Some t \<longrightarrow>
       actionRequest t = 0 \<and> moves C n s (n + length bs) t)"

lemma runsI:
  "(\<And>C s t. at_code C n bs \<Longrightarrow> actionRequest s = 0 \<Longrightarrow> f C s = Some t \<Longrightarrow>
    actionRequest t = 0 \<and> moves C n s (n + length bs) t) \<Longrightarrow> runs f n bs"
  unfolding runs_def by blast

lemma runsD:
  "runs f n bs \<Longrightarrow> at_code C n bs \<Longrightarrow> actionRequest s = 0 \<Longrightarrow> f C s = Some t \<Longrightarrow> actionRequest t = 0"
  "runs f n bs \<Longrightarrow> at_code C n bs \<Longrightarrow> actionRequest s = 0 \<Longrightarrow> f C s = Some t \<Longrightarrow> moves C n s (n + length bs) t"
  unfolding runs_def by blast+

lemma at_codeD: "at_code C n (b # bs) \<Longrightarrow> code C n = b" "at_code C n (b # bs) \<Longrightarrow> i < length bs \<Longrightarrow> code C (n + 1 + i) = bs ! i"
  using at_code_nth[of C n "b # bs" 0] at_code_nth[of C n "b # bs" "Suc i"] by simp_all

text \<open>An instruction of the tables.\<close>

lemma runs_row:
  assumes "\<And>H. map_of (cases_plain H) k = Some (g H, adv)" "adv = length bs + 1" "k < 256"
    and "\<And>C s t. actionRequest s = 0 \<Longrightarrow> f C s = Some t \<Longrightarrow> (\<And>i. i < length bs \<Longrightarrow> code C (n + 1 + i) = bs ! i) \<Longrightarrow>
      g (hlp C) (pc_at (code C) n) s = Some t \<and> actionRequest t = 0"
  shows "runs f n (opb k # bs)"
proof (rule runsI)
  fix C s t
  assume c: "at_code C n (opb k # bs)" "actionRequest s = 0" "f C s = Some t"
  then have "g (hlp C) (pc_at (code C) n) s = Some t \<and> actionRequest t = 0"
    using assms(4)[OF c(2,3) at_codeD(2)[OF c(1)]] by blast
  then show "actionRequest t = 0 \<and> moves C n s (n + length (opb k # bs)) t"
    using moves_plain[OF at_codeD(1)[OF c(1)] assms(3,1)] assms(2) by simp
qed

lemma stack_push_action [simp]: "actionRequest (stack_push x s) = actionRequest s"
  by (simp add: stack_push_def)

definition pushes :: "item \<Rightarrow> 'w ctx \<Rightarrow> 'w vm \<Rightarrow> 'w vm option" where
  "pushes x C s = Some (stack_push x s)"

lemma runs_push:
  assumes "\<And>H. map_of (cases_plain H) k = Some (g H, adv)" "adv = length bs + 1" "k < 256"
    and "\<And>(C :: 'w ctx) s. (\<And>i. i < length bs \<Longrightarrow> code C (n + 1 + i) = bs ! i) \<Longrightarrow>
      g (hlp C) (pc_at (code C) n) s = Some (stack_push x s)"
  shows "runs (pushes x :: 'w ctx \<Rightarrow> _) n (opb k # bs)"
  by (rule runs_row[OF assms(1-3)]) (use assms(4) in \<open>auto simp: pushes_def\<close>)

lemma long_item_cases:
  "- (2 ^ 15) \<le> v \<Longrightarrow> v \<le> 2 ^ 15 - 1 \<Longrightarrow> long_item v = I_Integer v 10"
  "HB_LIM_INT v \<Longrightarrow> long_item v = I_Integer v (hb_vmCalcIntWidth v)"
  "\<not> HB_LIM_INT v \<Longrightarrow> long_item v = I_Long v (hb_vmCalcIntWidth v)"
  by (auto simp: long_item_def HB_LIM_INT_def hb_vmCalcIntWidth_def calc_width_loop.simps)

lemma runs_long:
  assumes "HB_LIM_LONG v"
  shows "\<exists>bs. pCode (hb_compGenPushLong sw v f) = pCode f @ bs \<and> runs (pushes (long_item v) :: 'a ctx \<Rightarrow> _) n bs"
proof -
  consider "sw = False" "v = 0" | "sw = False" "v = 1" | "sw = False" "v \<noteq> 0" "v \<noteq> 1" "- 128 \<le> v" "v \<le> 127"
    | "sw = False" "\<not> (- 128 \<le> v \<and> v \<le> 127)" "- (2 ^ 15) \<le> v" "v \<le> 2 ^ 15 - 1"
    | "sw \<or> \<not> (- (2 ^ 15) \<le> v \<and> v \<le> 2 ^ 15 - 1)" "HB_LIM_INT v"
    | "\<not> HB_LIM_INT v"
    by (cases sw) (auto simp: HB_LIM_INT_def)
  then show ?thesis
  proof cases
    case 1
    have "runs (pushes (long_item v)) n [opb HB_P_ZERO]"
      by (rule runs_push[OF row_some(4)]) (simp_all add: 1 long_item_cases)
    then show ?thesis using 1 by (auto simp: hb_compGenPushLong_def hb_compGenPCode1_def)
  next
    case 2
    have "runs (pushes (long_item v)) n [opb HB_P_ONE]"
      by (rule runs_push[OF row_some(3)]) (simp_all add: 2 long_item_cases)
    then show ?thesis using 2 by (auto simp: hb_compGenPushLong_def hb_compGenPCode1_def)
  next
    case 3
    have "runs (pushes (long_item v) :: 'a ctx \<Rightarrow> _) n [opb HB_P_PUSHBYTE, word_of_int v]"
  proof (rule runs_push[OF row_some(6)])
      fix C :: "'a ctx" and s
      assume "\<And>i. i < length [word_of_int v] \<Longrightarrow> code C (n + 1 + i) = [word_of_int v] ! i"
      from this[of 0] have "schar (pc_at (code C) n 1) = v" using 3 by (simp add: pc_at_app schar_def sint_small)
      then show "Some (stack_push (I_Integer (schar (pc_at (code C) n 1)) 10) s) = Some (stack_push (long_item v) s)"
        using 3 by (simp add: long_item_cases)
    qed simp_all
    then show ?thesis using 3 by (auto simp: hb_compGenPushLong_def hb_compGenPCode2_def)
  next
    case 4
    have "runs (pushes (long_item v) :: 'a ctx \<Rightarrow> _) n [opb HB_P_PUSHINT, word_of_int v, word_of_int (drop_bit 8 v)]"
    proof (rule runs_push[OF row_some(7)])
      fix C :: "'a ctx" and s
      assume "\<And>i. i < length [word_of_int v, word_of_int (drop_bit 8 v)] \<Longrightarrow>
        code C (n + 1 + i) = [word_of_int v, word_of_int (drop_bit 8 v)] ! i"
      from this[of 0] this[of 1] have "MKS16 (pc_at (code C) n) 1 = v" using 4
        by (simp add: MKS16_def HB_PCODE_MKSHORT_def get_16[of _ v] pc_at_app sint_small)
      then show "Some (stack_push (I_Integer (MKS16 (pc_at (code C) n) 1) 10) s) = Some (stack_push (long_item v) s)"
        using 4 by (simp add: long_item_cases)
    qed simp_all
    then show ?thesis using 4 by (auto simp: hb_compGenPushLong_def hb_compGenPCode3_def)
  next
    case 5
    have "runs (pushes (long_item v) :: 'a ctx \<Rightarrow> _) n (opb HB_P_PUSHLONG # put_le 4 v)"
    proof (rule runs_push[OF row_some(8)])
      fix C :: "'a ctx" and s
      assume "\<And>i. i < length (put_le 4 v) \<Longrightarrow> code C (n + 1 + i) = put_le 4 v ! i"
      then have "HB_GET_LE_UINT32 (pc_at (pc_at (code C) n) 1) = word_of_int v"
        by (intro get_32) (simp add: pc_at_app add.assoc)
      then show "Some (hb_vmPushIntegerConst (HB_PCODE_MKLONG (pc_at (pc_at (code C) n) 1)) s) = Some (stack_push (long_item v) s)"
        using 5 by (simp add: HB_PCODE_MKLONG_def sint_small HB_LIM_INT_def hb_vmPushIntegerConst_def long_item_cases(2))
    qed simp_all
    then show ?thesis using 5 by (auto simp: hb_compGenPushLong_def hb_compGenPCodeN_def HB_LIM_INT_def)
  next
    case 6
    have "runs (pushes (long_item v) :: 'a ctx \<Rightarrow> _) n (opb HB_P_PUSHLONGLONG # put_le 8 v)"
    proof (rule runs_push[OF row_some(9)])
      fix C :: "'a ctx" and s
      assume "\<And>i. i < length (put_le 8 v) \<Longrightarrow> code C (n + 1 + i) = put_le 8 v ! i"
      then have "HB_GET_LE_UINT64 (pc_at (pc_at (code C) n) 1) = word_of_int v"
        by (intro get_64) (simp add: pc_at_app add.assoc)
      then show "Some (hb_vmPushLongLongConst (HB_PCODE_MKLONGLONG (pc_at (pc_at (code C) n) 1)) s) = Some (stack_push (long_item v) s)"
        using 6 assms by (simp add: HB_PCODE_MKLONGLONG_def sint_small HB_LIM_LONG_def hb_vmPushLongLongConst_def long_item_cases(3))
    qed simp_all
    then show ?thesis using 6 by (auto simp: hb_compGenPushLong_def hb_compGenPCodeN_def HB_LIM_INT_def)
  qed
qed

lemma get_32_word: "HB_LIM_INT v \<Longrightarrow> (\<And>i. i < 4 \<Longrightarrow> code C (n + i) = put_le 4 v ! i) \<Longrightarrow> HB_PCODE_MKLONG (pc_at (code C) n) = v"
  by (simp add: HB_PCODE_MKLONG_def get_32[of _ v] pc_at_app sint_small HB_LIM_INT_def)

lemma runs_double:
  assumes "w < 256" "d < 256"
  shows "\<exists>bs. pCode (hb_compGenPushDouble x w d f) = pCode f @ bs \<and>
    runs (\<lambda>(C :: 'w ctx). push_lit (hlp C) (E_NUMERIC (NUM_DOUBLE x) w d)) n bs"
proof -
  let ?bs = "put_le 8 (uint x) @ [word_of_nat w, word_of_nat d]"
  have "runs (\<lambda>(C :: 'w ctx). push_lit (hlp C) (E_NUMERIC (NUM_DOUBLE x) w d)) n (opb HB_P_PUSHDOUBLE # ?bs)"
  proof (rule runs_row[OF row_some(10)])
    fix C :: "'w ctx" and s t
    assume a: "push_lit (hlp C) (E_NUMERIC (NUM_DOUBLE x) w d) s = Some t" "actionRequest s = 0"
      "\<And>i. i < length ?bs \<Longrightarrow> code C (n + 1 + i) = ?bs ! i"
    have "HB_GET_LE_UINT64 (pc_at (pc_at (code C) n) 1) = word_of_int (uint x)"
    proof (rule get_64)
      fix i :: nat assume "i < 8"
      then show "pc_at (pc_at (code C) n) 1 i = put_le 8 (uint x) ! i" using a(3)[of i] by (simp add: pc_at_app nth_append)
    qed
    moreover have "U8 (pc_at (code C) n) 9 = w" "U8 (pc_at (code C) n) 10 = d"
      using a(3)[of 8] a(3)[of 9] assms by (simp_all add: U8_def pc_at_app nth_append unat_of_nat add.commute[of n])
    ultimately show "Some (hb_vmPushDoubleConst (hlp C) (HB_GET_LE_UINT64 (pc_at (pc_at (code C) n) 1))
        (int (U8 (pc_at (code C) n) 9)) (int (U8 (pc_at (code C) n) 10)) s) = Some t \<and> actionRequest t = 0"
      using a(1,2) assms by (auto simp: push_lit_def storable_def hb_vmPushDoubleConst_def)
  qed simp_all
  then show ?thesis by (auto simp: hb_compGenPushDouble_def hb_compGenPCodeN_def)
qed

lemma runs_day:
  assumes "HB_LIM_INT j"
  shows "\<exists>bs. pCode (hb_compGenPushDate j f) = pCode f @ bs \<and> runs (pushes (I_Date j) :: 'w ctx \<Rightarrow> _) n bs"
proof -
  have "runs (pushes (I_Date j) :: 'w ctx \<Rightarrow> _) n (opb HB_P_PUSHDATE # put_le 4 j)"
  proof (rule runs_push[OF row_some(11)])
    fix C :: "'w ctx" and s
    assume "\<And>i. i < length (put_le 4 j) \<Longrightarrow> code C (n + 1 + i) = put_le 4 j ! i"
    then have "HB_PCODE_MKLONG (pc_at (code C) (n + 1)) = j" by (intro get_32_word assms) simp
    then show "Some (stack_push (I_Date (HB_PCODE_MKLONG (pc_at (pc_at (code C) n) 1))) s) = Some (stack_push (I_Date j) s)"
      by simp
  qed simp_all
  then show ?thesis by (auto simp: hb_compGenPushDate_def hb_compGenPCodeN_def)
qed

lemma runs_stamp:
  assumes "HB_LIM_INT j" "HB_LIM_INT t"
  shows "\<exists>bs. pCode (hb_compGenPushTimeStamp j t f) = pCode f @ bs \<and>
    runs (pushes (I_TimeStamp j t) :: 'w ctx \<Rightarrow> _) n bs"
proof -
  let ?bs = "put_le 4 j @ put_le 4 t"
  have "runs (pushes (I_TimeStamp j t) :: 'w ctx \<Rightarrow> _) n (opb HB_P_PUSHTIMESTAMP # ?bs)"
  proof (rule runs_push[OF row_some(12)])
    fix C :: "'w ctx" and s
    assume a: "\<And>i. i < length ?bs \<Longrightarrow> code C (n + 1 + i) = ?bs ! i"
    have "HB_PCODE_MKLONG (pc_at (code C) (n + 1)) = j"
    proof (rule get_32_word[OF assms(1)])
      fix i :: nat assume "i < 4"
      then show "code C (n + 1 + i) = put_le 4 j ! i" using a[of i] by (simp add: nth_append)
    qed
    moreover have "HB_PCODE_MKLONG (pc_at (code C) (n + 5)) = t"
    proof (rule get_32_word[OF assms(2)])
      fix i :: nat assume "i < 4"
      then show "code C (n + 5 + i) = put_le 4 t ! i" using a[of "4 + i"] by (simp add: nth_append add_ac)
    qed
    ultimately show "Some (stack_push (I_TimeStamp (HB_PCODE_MKLONG (pc_at (pc_at (code C) n) 1))
        (HB_PCODE_MKLONG (pc_at (pc_at (code C) n) 5))) s) = Some (stack_push (I_TimeStamp j t) s)" by simp
  qed simp_all
  then show ?thesis by (auto simp: hb_compGenPushTimeStamp_def hb_compGenPCodeN_def)
qed

lemma pushed_text:
  assumes "\<And>i. i < length cs \<Longrightarrow> p i = cs ! i" "k = length cs + 1"
  shows "vm_pushstr dyn p k s = Some (stack_push (I_String False cs) s)"
proof -
  have b: "bytes_at p (length cs) = cs" unfolding bytes_at_def using assms(1) by (intro nth_equalityI) auto
  have "take (length cs) [p 0] = cs" if "length cs \<le> 1" using that assms(1)[of 0] by (cases cs) auto
  then show ?thesis using b assms(2) by (simp add: vm_pushstr_def hb_vmPushString_def hb_vmPushStringPcode_def)
qed

lemma size_reads:
  "p 0 = word_of_int (int m) \<Longrightarrow> m < 256 \<Longrightarrow> unat (p 0) = m"
  "p 0 = word_of_int (int m) \<Longrightarrow> p 1 = word_of_int (drop_bit 8 (int m)) \<Longrightarrow> m < 65536 \<Longrightarrow> HB_PCODE_MKUSHORT p = m"
  "p 0 = word_of_int (int m) \<Longrightarrow> p 1 = word_of_int (drop_bit 8 (int m)) \<Longrightarrow> p 2 = word_of_int (drop_bit 16 (int m)) \<Longrightarrow>
     m < 16777216 \<Longrightarrow> HB_PCODE_MKUINT24 p = m"
proof -
  show "unat (p 0) = m" if "p 0 = word_of_int (int m)" "m < 256" using that by (simp add: unat_of_nat)
  show "HB_PCODE_MKUSHORT p = m" if "p 0 = word_of_int (int m)" "p 1 = word_of_int (drop_bit 8 (int m))" "m < 65536"
    using that by (simp add: HB_PCODE_MKUSHORT_def get_16[OF that(1,2)] unat_of_nat)
  show "HB_PCODE_MKUINT24 p = m" if "p 0 = word_of_int (int m)" "p 1 = word_of_int (drop_bit 8 (int m))"
    "p 2 = word_of_int (drop_bit 16 (int m))" "m < 16777216"
    using that by (simp add: HB_PCODE_MKUINT24_def get_24[OF that(1-3)] take_bit_int_eq_self unat_of_nat)
qed

lemma runs_string:
  assumes "hb_compGenPushString (cs @ [0]) f = Some f'"
  shows "\<exists>bs. pCode f' = pCode f @ bs \<and> runs (pushes (I_String False cs) :: 'w ctx \<Rightarrow> _) n bs"
proof -
  let ?n = "length cs + 1"
  let ?v = "int ?n"
  obtain k hd where bs: "pCode f' = pCode f @ opb k # hd @ cs @ [0]"
    and k: "(?n \<le> 255 \<and> k = HB_P_PUSHSTRSHORT \<and> hd = [word_of_int ?v]) \<or>
      (?n \<le> 65535 \<and> k = HB_P_PUSHSTR \<and> hd = [word_of_int ?v, word_of_int (drop_bit 8 ?v)]) \<or>
      (?n \<le> 16777215 \<and> k = HB_P_PUSHSTRLARGE \<and> hd = [word_of_int ?v, word_of_int (drop_bit 8 ?v), word_of_int (drop_bit 16 ?v)])"
    using assms by (auto simp: hb_compGenPushString_def Let_def hb_compGenPCodeN_def hb_compGenPCode2_def
        hb_compGenPCode3_def hb_compGenPCode4_def split: if_splits)
  have "runs (pushes (I_String False cs) :: 'w ctx \<Rightarrow> _) n (opb k # hd @ cs @ [0])"
  proof (rule runsI)
    fix C :: "'w ctx" and s t
    assume c: "at_code C n (opb k # hd @ cs @ [0])" "actionRequest s = 0" "pushes (I_String False cs) C s = Some t"
    have t: "t = stack_push (I_String False cs) s" "actionRequest t = 0" using c(2,3) by (auto simp: pushes_def)
    have k256: "k < 256" using k by auto
    have o: "opc (pc_at (code C) n) = k" by (rule opc_byte[OF k256 at_codeD(1)[OF c(1)]])
    have h: "code C (n + 1 + i) = hd ! i" if "i < length hd" for i
      using at_codeD(2)[OF c(1), of i] that by (simp add: nth_append)
    have "code C (n + 1 + length hd + i) = cs ! i" if "i < length cs" for i
      using at_codeD(2)[OF c(1), of "length hd + i"] that by (simp add: nth_append add.assoc)
    then have p: "vm_pushstr d (pc_at (code C) (n + 1 + length hd)) ?n s = Some t" for d
      unfolding t(1) by (intro pushed_text) (simp_all add: pc_at_app add.assoc)
    then have p: "vm_pushstr d (pc_at (code C) m) ?n s = Some t" if "m = n + 1 + length hd" for d m
      using that by simp
    have "moves C n s (n + 1 + length hd + ?n) t"
      using k
    proof (elim disjE conjE)
      assume k: "?n \<le> 255" "k = HB_P_PUSHSTRSHORT" "hd = [word_of_int ?v]"
      have "U8 (pc_at (code C) n) 1 = ?n"
        using size_reads(1)[of "pc_at (code C) (n + 1)" ?n] h[of 0] k by (simp add: U8_def pc_at_app)
      then show ?thesis using o p[of "n + 2"] k t(2) by (intro moves_step)
          (simp_all add: exec_case_def row_none hb_pcodeIsJump_def case_strings_def Let_def)
    next
      assume k: "?n \<le> 65535" "k = HB_P_PUSHSTR" "hd = [word_of_int ?v, word_of_int (drop_bit 8 ?v)]"
      have "MKU16 (pc_at (code C) n) 1 = ?n" unfolding MKU16_def pc_at_pc_at
        by (rule size_reads(2)) (use h[of 0] h[of 1] k in \<open>simp_all add: pc_at_app\<close>)
      then show ?thesis using o p[of "n + 3"] k t(2) by (intro moves_step)
          (simp_all add: exec_case_def row_none hb_pcodeIsJump_def case_strings_def Let_def)
    next
      assume k: "?n \<le> 16777215" "k = HB_P_PUSHSTRLARGE"
        "hd = [word_of_int ?v, word_of_int (drop_bit 8 ?v), word_of_int (drop_bit 16 ?v)]"
      have "HB_PCODE_MKUINT24 (pc_at (code C) (n + 1)) = ?n"
        by (rule size_reads(3)) (use h[of 0] h[of 1] h[of 2] k in \<open>simp_all add: pc_at_app\<close>)
      then show ?thesis using o p[of "n + 4"] k t(2) by (intro moves_step)
          (simp_all add: exec_case_def row_none hb_pcodeIsJump_def case_strings_def Let_def)
    qed
    then show "actionRequest t = 0 \<and> moves C n s (n + length (opb k # hd @ cs @ [0])) t"
      using t(2) by (simp add: add.assoc)
  qed
  then show ?thesis using bs by auto
qed

end
