(* ===== verification/ExprCode.thy ===== *)
theory ExprCode
  imports ExprLit
begin

text \<open>
  The pcode of every expression of the model runs as the expression says, by
  induction on the expression; and the pcode of a folded operator.
\<close>

section \<open>Operators\<close>

lemma runs_seq:
  assumes "runs f n bs" "runs g (n + length bs) cs"
  shows "runs (\<lambda>C s. f C s \<bind> g C) n (bs @ cs)"
proof (rule runsI)
  fix C s t
  assume c: "at_code C n (bs @ cs)" "actionRequest s = 0" "f C s \<bind> g C = Some t"
  then obtain u where u: "f C s = Some u" "g C u = Some t" by (auto split: bind_splits)
  have a: "at_code C n bs" "at_code C (n + length bs) cs" using c(1) by (simp_all add: at_code_append)
  note d = runsD[OF assms(1) a(1) c(2) u(1)]
  show "actionRequest t = 0 \<and> moves C n s (n + length (bs @ cs)) t"
    using runsD[OF assms(2) a(2) d(1) u(2)] moves_trans[OF d(2)] by (simp add: add.assoc)
qed

lemma runs_weaken: "runs f n bs \<Longrightarrow> (\<And>C s t. g C s = Some t \<Longrightarrow> f C s = Some t) \<Longrightarrow> runs g n bs"
  unfolding runs_def by blast

lemma runs_simple:
  assumes "\<And>H. map_of (cases_plain H) k = Some (g H, 1)" "k < 256" "\<And>H p s. g H p s = h H s"
  shows "runs (\<lambda>C s. h (hlp C) s \<bind> quiet) n [opb k]"
  by (rule runs_row[OF assms(1)]) (use assms in \<open>auto split: bind_splits\<close>)

lemma runs_operator: "runs (\<lambda>C s. vm_operator (hlp C) oper s \<bind> quiet) n [opb (op_code oper)]"
proof -
  have "op_code oper < 256" by (cases oper) (simp_all add: op_code_def)
  moreover have "\<exists>g. \<forall>H :: 'a helpers. map_of (cases_plain H) (op_code oper) = Some (g H, 1) \<and>
      (\<forall>p s. g H p s = vm_operator H oper s)"
    by (rule choice) (use row_operator in blast)
  then obtain g where "\<forall>H :: 'a helpers. map_of (cases_plain H) (op_code oper) = Some (g H, 1) \<and>
      (\<forall>p s. g H p s = vm_operator H oper s)" by blast
  ultimately show ?thesis by (intro runs_simple[of "op_code oper" g]) auto
qed

lemma runs_local:
  assumes "- (2 ^ 15) \<le> i" "i < 2 ^ 15"
  shows "\<exists>bs. pCode (gen_push_local b i f) = pCode f @ bs \<and>
    runs (\<lambda>(C :: 'w ctx) s. hb_vmPushLocal (hlp C) i s \<bind> quiet) n bs"
proof (cases "- 128 \<le> i \<and> i \<le> 127 \<and> b")
  case True
  have "runs (\<lambda>(C :: 'w ctx) s. hb_vmPushLocal (hlp C) i s \<bind> quiet) n (opb HB_P_PUSHLOCALNEAR # [word_of_int i])"
  proof (rule runs_row[OF row_some(14)])
    fix C :: "'w ctx" and s t
    assume a: "hb_vmPushLocal (hlp C) i s \<bind> quiet = Some t"
      "\<And>j. j < length [word_of_int i] \<Longrightarrow> code C (n + 1 + j) = [word_of_int i] ! j"
    have "schar (pc_at (code C) n 1) = i" using a(2)[of 0] True by (simp add: pc_at_app schar_def sint_small)
    then show "hb_vmPushLocal (hlp C) (schar (pc_at (code C) n 1)) s = Some t \<and> actionRequest t = 0"
      using a(1) by (auto split: bind_splits)
  qed simp_all
  then show ?thesis using True by (auto simp: gen_push_local_def hb_compGenPCode2_def)
next
  case False
  have "runs (\<lambda>(C :: 'w ctx) s. hb_vmPushLocal (hlp C) i s \<bind> quiet) n
    (opb HB_P_PUSHLOCAL # [word_of_int i, word_of_int (drop_bit 8 i)])"
  proof (rule runs_row[OF row_some(13)])
    fix C :: "'w ctx" and s t
    assume a: "hb_vmPushLocal (hlp C) i s \<bind> quiet = Some t"
      "\<And>j. j < length [word_of_int i, word_of_int (drop_bit 8 i)] \<Longrightarrow>
        code C (n + 1 + j) = [word_of_int i, word_of_int (drop_bit 8 i)] ! j"
    have "MKS16 (pc_at (code C) n) 1 = i" using a(2)[of 0] a(2)[of 1] assms
      by (simp add: MKS16_def HB_PCODE_MKSHORT_def get_16[of _ i] pc_at_app sint_small)
    then show "hb_vmPushLocal (hlp C) (MKS16 (pc_at (code C) n) 1) s = Some t \<and> actionRequest t = 0"
      using a(1) by (auto split: bind_splits)
  qed simp_all
  then show ?thesis using False by (auto simp: gen_push_local_def hb_compGenPCode3_def)
qed

section \<open>Jumps\<close>

lemma gen_jump_Some:
  assumes "gen_jump k 0 f = Some (p, f1)"
  shows "p = length (pCode f) + 1" "pCode f1 = pCode f @ [opb k, 0, 0, 0]"
  using assms by (auto simp: gen_jump_def Let_def hb_compPrepareJumps_def hb_compGenPCode4_def split: if_splits)

lemma put_le_3: "put_le 3 v = [word_of_int v, word_of_int (drop_bit 8 v), word_of_int (drop_bit 16 v)]"
  by (simp add: put_le_def numeral_3_eq_3 upt_rec)

lemma jump_here:
  assumes "hb_compGenJumpHere p f = Some f'" "pCode f = A @ [opb k, 0, 0, 0] @ d" "p = length A + 1"
  shows "HB_LIM_INT24 (4 + int (length d))" "pCode f' = A @ (opb k # put_le 3 (4 + int (length d))) @ d"
  using assms by (auto simp: hb_compGenJumpHere_def hb_compGenJumpThere_def Let_def put_le_3 list_update_append
      add.commute split: if_splits)

section \<open>Expressions\<close>

definition gen_ok :: "gen_param \<Rightarrow> 'w itself \<Rightarrow> expr \<Rightarrow> hfunc \<Rightarrow> hfunc \<Rightarrow> bool" where
  "gen_ok G _ e f f' \<longleftrightarrow>
     (\<exists>bs. pCode f' = pCode f @ bs \<and> runs (\<lambda>(C :: 'w ctx). eval_push G (hlp C) e) (length (pCode f)) bs)"

lemma gen_okI:
  "pCode f' = pCode f @ bs \<Longrightarrow> runs (\<lambda>(C :: 'w ctx). eval_push G (hlp C) e) (length (pCode f)) bs \<Longrightarrow>
    gen_ok G TYPE('w) e f f'"
  by (auto simp: gen_ok_def)

lemma gen_okE:
  assumes "gen_ok G TYPE('w) e f f'"
  obtains bs where "pCode f' = pCode f @ bs" "runs (\<lambda>(C :: 'w ctx). eval_push G (hlp C) e) (length (pCode f)) bs"
  using assms by (auto simp: gen_ok_def)

lemma gen_ok_ops:
  assumes "gen_ok G TYPE('w) x f f1"
  shows "gen_ok G TYPE('w) (E_NOT x) f (hb_compGenPCode1 (opb HB_P_NOT) f1)"
    "gen_ok G TYPE('w) (E_NEGATE x) f (hb_compGenPCode1 (opb HB_P_NEGATE) f1)"
proof -
  obtain bs where bs: "pCode f1 = pCode f @ bs" "runs (\<lambda>(C :: 'w ctx). eval_push G (hlp C) x) (length (pCode f)) bs"
    using assms by (rule gen_okE)
  have "runs (\<lambda>(C :: 'w ctx) s. hb_vmNot (hlp C) s \<bind> quiet) m [opb HB_P_NOT]" for m
    by (rule runs_simple[OF row_some(17)]) simp_all
  from runs_seq[OF bs(2) this]
  have "runs (\<lambda>(C :: 'w ctx). eval_push G (hlp C) (E_NOT x)) (length (pCode f)) (bs @ [opb HB_P_NOT])"
    by (rule runs_weaken) (simp add: eval_push.simps[of _ _ "E_NOT x"])
  then show "gen_ok G TYPE('w) (E_NOT x) f (hb_compGenPCode1 (opb HB_P_NOT) f1)"
    using bs(1) by (intro gen_okI) (simp_all add: hb_compGenPCode1_def)
  have "runs (\<lambda>(C :: 'w ctx) s. hcall (hlp C) ''hb_vmNegate'' [] s \<bind> quiet) m [opb HB_P_NEGATE]" for m
    by (rule runs_simple[OF row_some(18)]) (simp_all add: vm_call0_def)
  from runs_seq[OF bs(2) this]
  have "runs (\<lambda>(C :: 'w ctx). eval_push G (hlp C) (E_NEGATE x)) (length (pCode f)) (bs @ [opb HB_P_NEGATE])"
    by (rule runs_weaken) (simp add: eval_push.simps[of _ _ "E_NEGATE x"])
  then show "gen_ok G TYPE('w) (E_NEGATE x) f (hb_compGenPCode1 (opb HB_P_NEGATE) f1)"
    using bs(1) by (intro gen_okI) (simp_all add: hb_compGenPCode1_def)
qed

lemma gen_ok_binary:
  assumes "gen_ok G TYPE('w) l f f1" "gen_ok G TYPE('w) r f1 f2"
    and "\<not> shortcut (gflags G) oper" "(if fExtopt (gflags G) then inc_side oper l r else None) = None"
  shows "gen_ok G TYPE('w) (E_BIN oper l r) f (hb_compGenPCode1 (opb (op_code oper)) f2)"
proof -
  obtain bs where bs: "pCode f1 = pCode f @ bs" "runs (\<lambda>(C :: 'w ctx). eval_push G (hlp C) l) (length (pCode f)) bs"
    using assms(1) by (rule gen_okE)
  obtain cs where cs: "pCode f2 = pCode f1 @ cs" "runs (\<lambda>(C :: 'w ctx). eval_push G (hlp C) r) (length (pCode f1)) cs"
    using assms(2) by (rule gen_okE)
  have "runs (\<lambda>(C :: 'w ctx) s. eval_push G (hlp C) l s \<bind> eval_push G (hlp C) r) (length (pCode f)) (bs @ cs)"
    using runs_seq[OF bs(2)] cs(2) bs(1) by simp
  from runs_seq[OF this runs_operator[of oper]]
  have "runs (\<lambda>(C :: 'w ctx). eval_push G (hlp C) (E_BIN oper l r)) (length (pCode f)) ((bs @ cs) @ [opb (op_code oper)])"
    by (rule runs_weaken) (use assms(3,4) in \<open>simp add: eval_push.simps[of _ _ "E_BIN oper l r"]\<close>)
  then show ?thesis using bs(1) cs(1) by (intro gen_okI) (simp_all add: hb_compGenPCode1_def)
qed

lemma gen_ok_inc:
  assumes "gen_ok G TYPE('w) x f f1" "\<not> shortcut (gflags G) oper"
    and "(if fExtopt (gflags G) then inc_side oper l r else None) = Some (x, k)"
  shows "gen_ok G TYPE('w) (E_BIN oper l r) f (hb_compGenPCode1 (opb k) f1)"
proof -
  obtain bs where bs: "pCode f1 = pCode f @ bs" "runs (\<lambda>(C :: 'w ctx). eval_push G (hlp C) x) (length (pCode f)) bs"
    using assms(1) by (rule gen_okE)
  have k: "k = HB_P_INC \<or> k = HB_P_DEC" using assms(3) by (auto simp: inc_side_def split: if_splits)
  have "runs (\<lambda>(C :: 'w ctx) s. (\<lambda>H s. hb_stackItemFromTop (- 1) s \<bind>
      (\<lambda>p. hcall H (if k = HB_P_INC then ''hb_vmInc'' else ''hb_vmDec'') [L p] s)) (hlp C) s \<bind> quiet) m [opb k]" for m
    using k
  proof
    assume "k = HB_P_INC"
    then show ?thesis by (intro runs_simple[of k "\<lambda>H. vm_incdec H ''hb_vmInc''"])
        (simp_all add: row_some(19) vm_incdec_def)
  next
    assume "k = HB_P_DEC"
    then show ?thesis by (intro runs_simple[of k "\<lambda>H. vm_incdec H ''hb_vmDec''"])
        (simp_all add: row_some(20) vm_incdec_def)
  qed
  from runs_seq[OF bs(2) this]
  have "runs (\<lambda>(C :: 'w ctx). eval_push G (hlp C) (E_BIN oper l r)) (length (pCode f)) (bs @ [opb k])"
    by (rule runs_weaken) (use assms(2,3) in \<open>simp add: eval_push.simps[of _ _ "E_BIN oper l r"]\<close>)
  then show ?thesis using bs(1) by (intro gen_okI) (simp_all add: hb_compGenPCode1_def)
qed

lemma gen_ok_shortcut:
  assumes "gen_ok G TYPE('w) l f f1" "gen_ok G TYPE('w) r (hb_compGenPCode1 (opb HB_P_POP) f2) f3"
    and "(if oper = EO_OR then hb_compGenJumpTrue else hb_compGenJumpFalse) 0
           (hb_compGenPCode1 (opb HB_P_DUPLICATE) f1) = Some (p, f2)"
    and "hb_compGenJumpHere p f3 = Some f'" "shortcut (gflags G) oper"
  shows "gen_ok G TYPE('w) (E_BIN oper l r) f f'"
proof -
  define k where "k = (if oper = EO_OR then HB_P_JUMPTRUEFAR else HB_P_JUMPFALSEFAR)"
  obtain bs where bs: "pCode f1 = pCode f @ bs" "runs (\<lambda>(C :: 'w ctx). eval_push G (hlp C) l) (length (pCode f)) bs"
    using assms(1) by (rule gen_okE)
  have j: "gen_jump k 0 (hb_compGenPCode1 (opb HB_P_DUPLICATE) f1) = Some (p, f2)"
    using assms(3) by (simp add: k_def hb_compGenJumpTrue_def hb_compGenJumpFalse_def split: if_splits)
  have p: "p = length (pCode f @ bs @ [opb HB_P_DUPLICATE]) + 1"
      "pCode f2 = pCode f @ bs @ [opb HB_P_DUPLICATE] @ [opb k, 0, 0, 0]"
    using gen_jump_Some[OF j] bs(1) by (simp_all add: hb_compGenPCode1_def)
  obtain cs where cs: "pCode f3 = pCode f2 @ [opb HB_P_POP] @ cs"
      "runs (\<lambda>(C :: 'w ctx). eval_push G (hlp C) r) (length (pCode f2) + 1) cs"
    using assms(2) by (rule gen_okE) (simp add: hb_compGenPCode1_def)
  define v where "v = 4 + int (length (opb HB_P_POP # cs))"
  have v: "HB_LIM_INT24 v"
      "pCode f' = pCode f @ (bs @ [opb HB_P_DUPLICATE]) @ (opb k # put_le 3 v) @ (opb HB_P_POP # cs)"
    using jump_here[OF assms(4), of "pCode f @ bs @ [opb HB_P_DUPLICATE]" k "opb HB_P_POP # cs"] p cs(1)
    by (simp_all add: v_def)
  let ?n = "length (pCode f)"
  let ?m = "?n + length bs + 1"
  have dup: "runs (\<lambda>(C :: 'w ctx) s. hb_vmDuplicate (hlp C) s \<bind> quiet) (?n + length bs) [opb HB_P_DUPLICATE]"
    by (rule runs_simple[OF row_some(15)]) simp_all
  have pop: "runs (\<lambda>(C :: 'w ctx) s. hb_stackPop (hlp C) s \<bind> quiet) (?m + 4) [opb HB_P_POP]"
    by (rule runs_simple[OF row_some(16)]) simp_all
  have rt: "runs (\<lambda>(C :: 'w ctx). eval_push G (hlp C) r) (?m + 4 + length [opb HB_P_POP]) cs"
    using cs(2) p(2) by (simp add: numeral_eq_Suc)
  show ?thesis
  proof (rule gen_okI[of _ _ "(bs @ [opb HB_P_DUPLICATE]) @ (opb k # put_le 3 v) @ ([opb HB_P_POP] @ cs)"])
    show "runs (\<lambda>(C :: 'w ctx). eval_push G (hlp C) (E_BIN oper l r)) ?n
       ((bs @ [opb HB_P_DUPLICATE]) @ (opb k # put_le 3 v) @ ([opb HB_P_POP] @ cs))"
    proof (rule runsI)
      fix C :: "'w ctx" and s t
      assume c: "at_code C ?n ((bs @ [opb HB_P_DUPLICATE]) @ (opb k # put_le 3 v) @ ([opb HB_P_POP] @ cs))"
        "actionRequest s = 0" "eval_push G (hlp C) (E_BIN oper l r) s = Some t"
      from c(3) obtain s1 b s2 where s: "eval_push G (hlp C) l s \<bind> (\<lambda>s. hb_vmDuplicate (hlp C) s \<bind> quiet) = Some s1"
          "hb_vmPopLogical (hlp C) s1 = Some (b, s2)" "actionRequest s2 = 0"
          "(if b = (oper = EO_OR) then Some s2 else hb_stackPop (hlp C) s2 \<bind> quiet \<bind> eval_push G (hlp C) r) = Some t"
        using assms(5) by (auto simp: eval_push.simps[of _ _ "E_BIN oper l r"] split: bind_splits)
      have a: "at_code C ?n (bs @ [opb HB_P_DUPLICATE])" "at_code C ?m (opb k # put_le 3 v)"
          "at_code C (?m + 4) ([opb HB_P_POP] @ cs)"
        using c(1) unfolding at_code_append[of _ _ "bs @ [opb HB_P_DUPLICATE]"] at_code_append[of _ _ "opb k # put_le 3 v"]
        by (simp_all add: add.commute add.left_commute)
      note m1 = runsD[OF runs_seq[OF bs(2) dup] a(1) c(2) s(1)]
      have m2: "moves C ?m s1 (if b = (oper = EO_OR) then nat (int ?m + v) else ?m + 4) s2"
        using moves_jump(2)[OF a(2) v(1) _ m1(1) _ s(2,3)] moves_jump(3)[OF a(2) v(1) _ m1(1) _ s(2,3)] assms(5)
        by (auto simp: k_def v_def shortcut_def split: if_splits)
      have e: "nat (int ?m + v) = ?n + length ((bs @ [opb HB_P_DUPLICATE]) @ (opb k # put_le 3 v) @ ([opb HB_P_POP] @ cs))"
        by (simp add: v_def)
      have ml: "?n + length (bs @ [opb HB_P_DUPLICATE]) = ?m" by simp
      show "actionRequest t = 0 \<and> moves C ?n s
          (?n + length ((bs @ [opb HB_P_DUPLICATE]) @ (opb k # put_le 3 v) @ ([opb HB_P_POP] @ cs))) t"
      proof (cases "b = (oper = EO_OR)")
        case True
        then show ?thesis using s(3,4) moves_trans[OF m1(2)[unfolded ml] m2] unfolding e by simp
      next
        case False
        then have r: "hb_stackPop (hlp C) s2 \<bind> quiet \<bind> eval_push G (hlp C) r = Some t" using s(4) by simp
        note m3 = runsD[OF runs_seq[OF pop rt] a(3) s(3)]
        have "(hb_stackPop (hlp C) s2 \<bind> quiet) \<bind> eval_push G (hlp C) r = Some t" using r by simp
        from m3[OF this] have "actionRequest t = 0" "moves C (?m + 4) s2 (?m + 4 + length ([opb HB_P_POP] @ cs)) t" by blast+
        then show ?thesis using False m2 moves_trans[OF moves_trans[OF m1(2)[unfolded ml] m2]] by (simp add: add_ac numeral_eq_Suc)
      qed
    qed
  qed (use v(2) in simp)
qed

lemma gen_ok_iif:
  assumes "gen_ok G TYPE('w) c f f1" "hb_compGenJumpFalse 0 f1 = Some (p, f2)" "gen_ok G TYPE('w) x f2 f3"
    and "hb_compGenJump 0 f3 = Some (q, f4)" "hb_compGenJumpHere p f4 = Some f5" "gen_ok G TYPE('w) y f5 f6"
    and "hb_compGenJumpHere q f6 = Some f'"
  shows "gen_ok G TYPE('w) (E_IIF c x y) f f'"
proof -
  obtain bs where bs: "pCode f1 = pCode f @ bs" "runs (\<lambda>(C :: 'w ctx). eval_push G (hlp C) c) (length (pCode f)) bs"
    using assms(1) by (rule gen_okE)
  have p: "p = length (pCode f @ bs) + 1" "pCode f2 = (pCode f @ bs) @ [opb HB_P_JUMPFALSEFAR, 0, 0, 0]"
    using gen_jump_Some[OF assms(2)[unfolded hb_compGenJumpFalse_def]] bs(1) by simp_all
  obtain xs where xs: "pCode f3 = pCode f2 @ xs" "runs (\<lambda>(C :: 'w ctx). eval_push G (hlp C) x) (length (pCode f2)) xs"
    using assms(3) by (rule gen_okE)
  have q: "q = length (pCode f3) + 1" "pCode f4 = pCode f3 @ [opb HB_P_JUMPFAR, 0, 0, 0]"
    using gen_jump_Some[OF assms(4)[unfolded hb_compGenJump_def]] by simp_all
  define v where "v = 4 + int (length (xs @ [opb HB_P_JUMPFAR, 0, 0, 0]))"
  have v: "HB_LIM_INT24 v"
      "pCode f5 = (pCode f @ bs) @ (opb HB_P_JUMPFALSEFAR # put_le 3 v) @ xs @ [opb HB_P_JUMPFAR, 0, 0, 0]"
    using jump_here[OF assms(5), of "pCode f @ bs" HB_P_JUMPFALSEFAR "xs @ [opb HB_P_JUMPFAR, 0, 0, 0]"] p q(2) xs(1)
    by (simp_all add: v_def)
  obtain ys where ys: "pCode f6 = pCode f5 @ ys" "runs (\<lambda>(C :: 'w ctx). eval_push G (hlp C) y) (length (pCode f5)) ys"
    using assms(6) by (rule gen_okE)
  define w where "w = 4 + int (length ys)"
  let ?A = "pCode f @ bs @ (opb HB_P_JUMPFALSEFAR # put_le 3 v) @ xs"
  have w: "HB_LIM_INT24 w" "pCode f' = ?A @ (opb HB_P_JUMPFAR # put_le 3 w) @ ys"
    using jump_here[OF assms(7), of ?A HB_P_JUMPFAR ys] q xs(1) ys(1) v(2) p(2) by (simp_all add: w_def)
  let ?n = "length (pCode f)"
  let ?m = "?n + length bs"
  let ?bs = "bs @ (opb HB_P_JUMPFALSEFAR # put_le 3 v) @ xs @ (opb HB_P_JUMPFAR # put_le 3 w) @ ys"
  show ?thesis
  proof (rule gen_okI[of _ _ ?bs])
    show "runs (\<lambda>(C :: 'w ctx). eval_push G (hlp C) (E_IIF c x y)) ?n ?bs"
    proof (rule runsI)
      fix C :: "'w ctx" and s t
      assume c: "at_code C ?n ?bs" "actionRequest s = 0" "eval_push G (hlp C) (E_IIF c x y) s = Some t"
      from c(3) obtain s1 b s2 where s: "eval_push G (hlp C) c s = Some s1" "hb_vmPopLogical (hlp C) s1 = Some (b, s2)"
          "actionRequest s2 = 0" "eval_push G (hlp C) (if b then x else y) s2 = Some t"
        by (auto simp: eval_push.simps[of _ _ "E_IIF c x y"] split: bind_splits)
      have a: "at_code C ?n bs" "at_code C ?m (opb HB_P_JUMPFALSEFAR # put_le 3 v)" "at_code C (?m + 4) xs"
          "at_code C (?m + 4 + length xs) (opb HB_P_JUMPFAR # put_le 3 w)" "at_code C (?m + 8 + length xs) ys"
        using c(1) unfolding at_code_append[of _ _ bs] at_code_append[of _ _ "opb HB_P_JUMPFALSEFAR # put_le 3 v"]
          at_code_append[of _ _ xs] at_code_append[of _ _ "opb HB_P_JUMPFAR # put_le 3 w"] by (simp_all add: add_ac)
      note m1 = runsD[OF bs(2) a(1) c(2) s(1)]
      have "moves C ?m s1 (if b then ?m + 4 else nat (int ?m + v)) s2"
        using moves_jump(2)[OF a(2) v(1) _ m1(1) refl s(2,3)] by (simp add: v_def)
      from moves_trans[OF m1(2) this] have m2: "moves C ?n s (if b then ?m + 4 else ?m + 8 + length xs) s2"
        by (simp add: v_def nat_add_distrib add_ac split: if_splits)
      show "actionRequest t = 0 \<and> moves C ?n s (?n + length ?bs) t"
      proof (cases b)
        case True
        have "length (pCode f2) = ?m + 4" using p(2) by simp
        then have m3: "actionRequest t = 0" "moves C (?m + 4) s2 (?m + 4 + length xs) t"
          using runsD[OF xs(2), of C s2 t] a(3) s(3,4) True by simp_all
        have e: "nat (int (?m + 4 + length xs) + w) = ?n + length ?bs" by (simp add: w_def)
        have "moves C (?m + 4 + length xs) t (?n + length ?bs) t"
          using moves_jump(1)[OF a(4) w(1) _ m3(1) refl] unfolding e by (simp add: w_def)
        moreover have "moves C ?n s (?m + 4) s2" using m2 True by simp
        ultimately show ?thesis using m3(1) moves_trans[OF _ moves_trans[OF m3(2)]] by blast
      next
        case False
        have "length (pCode f5) = ?m + 8 + length xs" using v(2) by simp
        then have m3: "actionRequest t = 0" "moves C (?m + 8 + length xs) s2 (?m + 8 + length xs + length ys) t"
          using runsD[OF ys(2), of C s2 t] a(5) s(3,4) False by simp_all
        have e: "?m + 8 + length xs + length ys = ?n + length ?bs" by simp
        have "moves C ?n s (?m + 8 + length xs) s2" using m2 False by simp
        from moves_trans[OF this m3(2)] show ?thesis using m3(1) unfolding e by blast
      qed
    qed
  qed (use w(2) in simp)
qed

lemma eval_push_lit [simp]:
  "eval_push G H E_NIL s = push_lit H E_NIL s" "eval_push G H (E_LOGICAL b) s = push_lit H (E_LOGICAL b) s"
  "eval_push G H (E_NUMERIC n w d) s = push_lit H (E_NUMERIC n w d) s" "eval_push G H (E_DATE j) s = push_lit H (E_DATE j) s"
  "eval_push G H (E_TIMESTAMP j t) s = push_lit H (E_TIMESTAMP j t) s" "eval_push G H (E_STRING cs) s = push_lit H (E_STRING cs) s"
  by (simp_all add: eval_push.simps)

lemma gen_ok_lit:
  assumes "\<exists>bs. pCode f' = pCode f @ bs \<and> runs (pushes x :: 'w ctx \<Rightarrow> _) (length (pCode f)) bs"
    and "\<And>(H :: 'w helpers) s. eval_push G H e s = push_lit H e s" "\<And>D. lit_item D e = Some x"
  shows "gen_ok G TYPE('w) e f f'"
proof -
  obtain bs where b: "pCode f' = pCode f @ bs" "runs (pushes x :: 'w ctx \<Rightarrow> _) (length (pCode f)) bs" using assms(1) by blast
  show ?thesis
    by (rule gen_okI[OF b(1)], rule runs_weaken[OF b(2)])
      (simp add: assms(2,3) push_lit_def pushes_def split: if_splits)
qed

lemma gen_ok_unstorable:
  assumes "\<exists>bs. pCode f' = pCode f @ bs" "\<not> storable e" "\<And>(H :: 'w helpers) s. eval_push G H e s = push_lit H e s"
  shows "gen_ok G TYPE('w) e f f'"
proof -
  obtain bs where b: "pCode f' = pCode f @ bs" using assms(1) by blast
  show ?thesis by (rule gen_okI[OF b], rule runsI) (simp add: assms(2,3) push_lit_def)
qed

lemma runs_byte:
  assumes "\<And>H :: 'w helpers. map_of (cases_plain H) k = Some (\<lambda>p s. Some (stack_push x s), 1)" "k < 256"
  shows "\<exists>bs. pCode (hb_compGenPCode1 (opb k) f) = pCode f @ bs \<and> runs (pushes x :: 'w ctx \<Rightarrow> _) n bs"
proof -
  have "runs (pushes x :: 'w ctx \<Rightarrow> _) n [opb k]"
    by (rule runs_push[OF assms(1)]) (use assms(2) in simp_all)
  then show ?thesis by (auto simp: hb_compGenPCode1_def)
qed

lemma gen_ok_number:
  "gen_ok G TYPE('w) (E_NUMERIC (NUM_LONG v) w d) f (hb_compGenPushLong sw v f)"
  "gen_ok G TYPE('w) (E_NUMERIC (NUM_DOUBLE x) w d) f (hb_compGenPushDouble x w d f)"
proof -
  show "gen_ok G TYPE('w) (E_NUMERIC (NUM_LONG v) w d) f (hb_compGenPushLong sw v f)"
  proof (cases "HB_LIM_LONG v")
    case True
    then show ?thesis using runs_long by (intro gen_ok_lit[of _ _ "long_item v"]) simp_all
  next
    case False
    then show ?thesis by (intro gen_ok_unstorable)
        (auto simp: storable_def hb_compGenPushLong_def hb_compGenPCode1_def hb_compGenPCode2_def
          hb_compGenPCode3_def hb_compGenPCodeN_def)
  qed
  show "gen_ok G TYPE('w) (E_NUMERIC (NUM_DOUBLE x) w d) f (hb_compGenPushDouble x w d f)"
  proof (cases "w < 256 \<and> d < 256")
    case True
    have "eval_push G (hlp C) (E_NUMERIC (NUM_DOUBLE x) w d) = push_lit (hlp C) (E_NUMERIC (NUM_DOUBLE x) w d)"
      for C :: "'w ctx" by (rule ext) simp
    then show ?thesis using True by (simp add: gen_ok_def runs_double)
  next
    case False
    then show ?thesis by (intro gen_ok_unstorable)
        (auto simp: storable_def hb_compGenPushDouble_def hb_compGenPCodeN_def)
  qed
qed

lemma gen_ok_days:
  "gen_ok G TYPE('w) (E_DATE j) f (hb_compGenPushDate j f)"
  "gen_ok G TYPE('w) (E_TIMESTAMP j t) f (hb_compGenPushTimeStamp j t f)"
proof -
  show "gen_ok G TYPE('w) (E_DATE j) f (hb_compGenPushDate j f)"
  proof (cases "HB_LIM_INT j")
    case True
    then show ?thesis using runs_day by (intro gen_ok_lit[of _ _ "I_Date j"]) simp_all
  qed (intro gen_ok_unstorable; auto simp: storable_def hb_compGenPushDate_def hb_compGenPCodeN_def)
  show "gen_ok G TYPE('w) (E_TIMESTAMP j t) f (hb_compGenPushTimeStamp j t f)"
  proof (cases "HB_LIM_INT j \<and> HB_LIM_INT t")
    case True
    then show ?thesis using runs_stamp[of j t] by (intro gen_ok_lit[of _ _ "I_TimeStamp j t"]) auto
  qed (intro gen_ok_unstorable; auto simp: storable_def hb_compGenPushTimeStamp_def hb_compGenPCodeN_def)
qed

lemma gen_ok_local: "gen_ok G TYPE('w) (E_LOCAL i) f (gen_push_local b i f)"
proof (cases "- (2 ^ 15) \<le> i \<and> i < 2 ^ 15")
  case True
  then obtain bs where b: "pCode (gen_push_local b i f) = pCode f @ bs"
      "runs (\<lambda>(C :: 'w ctx) s. hb_vmPushLocal (hlp C) i s \<bind> quiet) (length (pCode f)) bs"
    using runs_local by blast
  show ?thesis by (rule gen_okI[OF b(1)], rule runs_weaken[OF b(2)]) (use True in \<open>simp add: eval_push.simps\<close>)
next
  case False
  have "\<exists>bs. pCode (gen_push_local b i f) = pCode f @ bs"
    by (simp add: gen_push_local_def hb_compGenPCode2_def hb_compGenPCode3_def)
  then obtain bs where b: "pCode (gen_push_local b i f) = pCode f @ bs" by blast
  show ?thesis by (rule gen_okI[OF b(1)], rule runsI) (use False in \<open>auto simp: eval_push.simps\<close>)
qed

lemma gen_push_ok: "gen_push G e f = Some f' \<Longrightarrow> gen_ok G TYPE('w) e f f'"
proof (induction "size e" arbitrary: e f f' rule: less_induct)
  case less
  note g = less.prems[unfolded gen_push.simps[of G e]] and IH = less.hyps
  show ?case
  proof (cases e)
    case E_NIL
    then show ?thesis using g runs_byte[OF row_some(5)]
      by (intro gen_ok_lit[of _ _ I_Nil]) (auto simp: hb_compGenPushNil_def)
  next
    case (E_LOGICAL b)
    then show ?thesis using g runs_byte[OF row_some(1)] runs_byte[OF row_some(2)]
      by (cases b; intro gen_ok_lit[of _ _ "I_Logical b"]) (auto simp: hb_compGenPushLogical_def)
  next
    case (E_NUMERIC n w d)
    then show ?thesis using g gen_ok_number by (cases n) auto
  next
    case (E_DATE j)
    then show ?thesis using g gen_ok_days by auto
  next
    case (E_TIMESTAMP j t)
    then show ?thesis using g gen_ok_days by auto
  next
    case (E_STRING cs)
    then have "hb_compGenPushString (cs @ [0]) f = Some f'" using g by (simp split: if_splits)
    then show ?thesis using runs_string by (intro gen_ok_lit[of _ _ "I_String False cs"]) (simp_all add: E_STRING)
  next
    case (E_LOCAL i)
    then show ?thesis using g gen_ok_local by auto
  next
    case (E_NOT x)
    then obtain f1 where f: "gen_push G x f = Some f1" "f' = hb_compGenPCode1 (opb HB_P_NOT) f1" using g by auto
    show ?thesis unfolding E_NOT f(2) by (rule gen_ok_ops(1)[OF IH[OF _ f(1)]]) (simp add: E_NOT)
  next
    case (E_NEGATE x)
    then obtain f1 where f: "gen_push G x f = Some f1" "f' = hb_compGenPCode1 (opb HB_P_NEGATE) f1" using g by auto
    show ?thesis unfolding E_NEGATE f(2) by (rule gen_ok_ops(2)[OF IH[OF _ f(1)]]) (simp add: E_NEGATE)
  next
    case (E_BIN oper l r)
    have sz: "size l < size e" "size r < size e" using E_BIN by simp_all
    show ?thesis
    proof (cases "shortcut (gflags G) oper")
      case True
      from g True E_BIN obtain f1 p f2 f3 where f: "gen_push G l f = Some f1"
          "(if oper = EO_OR then hb_compGenJumpTrue else hb_compGenJumpFalse) 0
             (hb_compGenPCode1 (opb HB_P_DUPLICATE) f1) = Some (p, f2)"
          "gen_push G r (hb_compGenPCode1 (opb HB_P_POP) f2) = Some f3" "hb_compGenJumpHere p f3 = Some f'"
        by (auto split: bind_splits)
      show ?thesis unfolding E_BIN
        by (rule gen_ok_shortcut[OF IH[OF sz(1) f(1)] IH[OF sz(2) f(3)] f(2,4) True])
    next
      case False
      show ?thesis
      proof (cases "if fExtopt (gflags G) then inc_side oper l r else None")
        case None
        from g False E_BIN None obtain f1 f2 where f: "gen_push G l f = Some f1" "gen_push G r f1 = Some f2"
            "f' = hb_compGenPCode1 (opb (op_code oper)) f2"
          by (auto split: bind_splits)
        show ?thesis unfolding E_BIN f(3)
          by (rule gen_ok_binary[OF IH[OF sz(1) f(1)] IH[OF sz(2) f(2)] False None])
      next
        case (Some z)
        then obtain x k where z: "(if fExtopt (gflags G) then inc_side oper l r else None) = Some (x, k)" by (cases z) simp
        then have x: "size x < size e" using inc_side_size E_BIN by (auto split: if_splits)
        obtain f1 where f: "gen_push G x f = Some f1" "f' = hb_compGenPCode1 (opb k) f1"
          using g False E_BIN z by auto
        show ?thesis unfolding E_BIN f(2) by (rule gen_ok_inc[OF IH[OF x f(1)] False z])
      qed
    qed
  next
    case (E_IIF c x y)
    have sz: "size c < size e" "size x < size e" "size y < size e" using E_IIF by simp_all
    from g E_IIF obtain f1 p f2 f3 q f4 f5 f6 where f: "gen_push G c f = Some f1" "hb_compGenJumpFalse 0 f1 = Some (p, f2)"
        "gen_push G x f2 = Some f3" "hb_compGenJump 0 f3 = Some (q, f4)" "hb_compGenJumpHere p f4 = Some f5"
        "gen_push G y f5 = Some f6" "hb_compGenJumpHere q f6 = Some f'"
      by (auto split: bind_splits)
    show ?thesis unfolding E_IIF
      by (rule gen_ok_iif[OF IH[OF sz(1) f(1)] f(2) IH[OF sz(2) f(3)] f(4,5) IH[OF sz(3) f(6)] f(7)])
  next
    case (E_LIST xs)
    then obtain x where x: "xs = [x]" "gen_push G x f = Some f'" using g by (auto split: list.splits if_splits)
    have "gen_ok G TYPE('w) x f f'" using IH[OF _ x(2)] E_LIST x(1) by simp
    moreover have "eval_push G H e = eval_push G H x" for H :: "'w helpers"
      by (rule ext) (simp add: E_LIST x(1) eval_push.simps[of G H "E_LIST [x]"])
    ultimately show ?thesis by (simp add: gen_ok_def)
  qed (use g in simp_all)
qed


section \<open>The code of an expression and of its literal\<close>

lemma code_runs:
  assumes "gen_push G e f = Some f'" "at_code C (length (pCode f)) (drop (length (pCode f)) (pCode f'))"
    and "eval_push G (hlp C) e s = Some t" "actionRequest s = 0"
  shows "take (length (pCode f)) (pCode f') = pCode f \<and> moves C (length (pCode f)) s (length (pCode f')) t"
proof -
  obtain bs where b: "pCode f' = pCode f @ bs" "runs (\<lambda>(C :: 'a ctx). eval_push G (hlp C) e) (length (pCode f)) bs"
    using gen_push_ok[OF assms(1)] by (rule gen_okE)
  have "moves C (length (pCode f)) s (length (pCode f) + length bs) t"
    by (rule runsD(2)[OF b(2)]) (use assms b(1) in simp_all)
  then show ?thesis by (simp add: b(1))
qed

text \<open>SET DECIMALS does not depend on the evaluation stack.\<close>

definition keeps_decimals :: "'w helpers \<Rightarrow> bool" where
  "keeps_decimals R \<longleftrightarrow> (\<forall>x s. hdecimals R (stack_push x s) = hdecimals R s)"

lemma literal_kind: "lit_item D e = Some x \<Longrightarrow> eval_push G H e s = push_lit H e s"
  by (cases rule: litE) auto

lemma no_inc: "\<not> fExtopt F \<Longrightarrow> (if fExtopt F then inc_side oper l r else None) = None"
  by simp

lemma fold_code:
  assumes R: "manages R" "keeps_decimals R" and H: "hlp C1 = vm_helpers R" "hlp C2 = vm_helpers R"
    and F: "flags P = gflags G" "\<not> fExtopt (gflags G)" "fHarbour (gflags G)" "c_pow P = hpow R" "\<not> shortcut (gflags G) oper"
    and lr: "lit_item 0 l \<noteq> None" "lit_item 0 r \<noteq> None" "storable l" "storable r" "exact_op oper l r"
    and e: "reduce_bin P oper l r = Some e" "lit_item 0 e \<noteq> None" "storable e"
    and g: "gen_push G (E_BIN oper l r) f = Some f1" "gen_push G e f = Some f2"
    and c: "at_code C1 (length (pCode f)) (drop (length (pCode f)) (pCode f1))"
      "at_code C2 (length (pCode f)) (drop (length (pCode f)) (pCode f2))" and s: "actionRequest s = 0"
  shows "\<exists>y z. moves C1 (length (pCode f)) s (length (pCode f1)) (stack_push y s) \<and>
    moves C2 (length (pCode f)) s (length (pCode f2)) (stack_push z s) \<and> agrees oper y z"
proof -
  define D where "D = hdecimals R s mod 65536"
  have lit: "\<exists>x. lit_item D e = Some x" if "lit_item 0 e \<noteq> None" for e
    using that by (cases e) (auto simp: lit_item_def split: numval.splits)
  obtain x1 x2 z where x: "lit_item D l = Some x1" "lit_item D r = Some x2" "lit_item D e = Some z"
    using lit[OF lr(1)] lit[OF lr(2)] lit[OF e(2)] by blast
  have d: "hdecimals (vm_helpers R) s mod 65536 = D" "hdecimals R (stack_push x u) = hdecimals R u" for x u
    using R(2) by (simp_all add: D_def vm_helpers_sel keeps_decimals_def)
  let ?s = "stack_push x2 (stack_push x1 s)"
  have st: "stack ?s = stack s @ [x1, x2]" by (simp add: stack_push_def)
  obtain y where y: "vm_operator (vm_helpers R) oper ?s = Some (result ?s (stack s) y)" "agrees oper y z"
    using fold_operator[OF st x(1,2) R(1) _ _ _ _ e(1) x(3) lr(5)] F d by (auto simp: D_def)
  have r: "result ?s (stack s) y = stack_push y s" by (simp add: result_def stack_push_def)
  have "eval_push G (vm_helpers R) (E_BIN oper l r) s = Some (stack_push y s)"
    using y(1) F lr(3,4) x(1,2) d s
    by (simp add: eval_push.simps[of G _ "E_BIN oper l r"] literal_kind[OF x(1)] literal_kind[OF x(2)] push_lit_def r
        vm_helpers_sel D_def[symmetric])
  moreover have "eval_push G (vm_helpers R) e s = Some (stack_push z s)"
    using x(3) e(3) d by (simp add: literal_kind[OF x(3)] push_lit_def)
  ultimately show ?thesis using code_runs[OF g(1) c(1) _ s] code_runs[OF g(2) c(2) _ s] y(2) by (auto simp: H)
qed

end
