(* ===== verification/ExprProps.thy ===== *)
theory ExprProps
  imports ExprCode
begin

text \<open>
  The properties of the expression optimiser and of the code of expressions.
\<close>

section \<open>Macro text\<close>

lemma has_macro_append:
  "hb_compExprHasMacro F (cs @ ds) \<longleftrightarrow> hb_compExprHasMacro F cs \<or> hb_compExprHasMacro F ds \<or>
     (cs \<noteq> [] \<and> last cs = 38 \<and> ds \<noteq> [] \<and> (name_start (hd ds) \<or> \<not> fHarbour F))"
proof (induction cs)
  case (Cons c cs)
  then show ?case by (cases cs; cases ds; simp; blast)
qed simp

lemma joins_macro_iff:
  "joins_macro F cs ds \<longleftrightarrow> hb_compExprHasMacro F cs \<or> (cs \<noteq> [] \<and> last cs = 38 \<and> (name_start (hd ds) \<or> \<not> fHarbour F))"
proof (induction cs)
  case (Cons c cs)
  then show ?case by (cases cs; simp; blast)
qed simp

lemma has_macro_spaces: "\<not> hb_compExprHasMacro F (replicate n 32)"
  by (induction n) auto

lemma trim_split: "\<exists>k. cs = trim_to 0 cs @ replicate k 32"
proof (induction "length cs" arbitrary: cs)
  case (Suc n)
  show ?case
  proof (cases "last cs = 32")
    case True
    have ne: "cs \<noteq> []" using Suc(2) by auto
    have "n = length (butlast cs)" using Suc(2) by simp
    from Suc(1)[OF this] obtain k where "butlast cs = trim_to 0 (butlast cs) @ replicate k 32" by blast
    moreover have "trim_to 0 cs = trim_to 0 (butlast cs)" using True ne by (subst trim_to.simps) simp
    moreover have "cs = butlast cs @ [32]" using True ne append_butlast_last_id by metis
    ultimately have "cs = (trim_to 0 cs @ replicate k 32) @ [32]" by metis
    then have "cs = trim_to 0 cs @ replicate (Suc k) 32" by (simp only: append_assoc replicate_append_same replicate_Suc)
    then show ?thesis by blast
  next
    case False
    then show ?thesis by (intro exI[of _ 0]) (simp add: trim_to.simps)
  qed
qed (simp add: trim_to.simps)

lemma has_macro_trim: "hb_compExprHasMacro F (trim_to 0 cs) \<Longrightarrow> hb_compExprHasMacro F cs"
  using trim_split[of cs] has_macro_append[of F "trim_to 0 cs"] by metis

lemma name_start_space: "\<not> name_start 32"
  by (simp add: name_start_def)

lemma concat_macro:
  assumes "fMacrotext F"
  shows "hb_compExprReducePlus F (E_STRING cs) (E_STRING ds) = E_STRING es \<Longrightarrow>
      es = cs @ ds \<and> (hb_compExprHasMacro F es \<longleftrightarrow> hb_compExprHasMacro F cs \<or> hb_compExprHasMacro F ds)"
    "hb_compExprReduceMinus F (E_STRING cs) (E_STRING ds) = E_STRING es \<Longrightarrow>
      hb_compExprHasMacro F es \<longleftrightarrow> hb_compExprHasMacro F cs \<or> hb_compExprHasMacro F ds"
proof -
  show "es = cs @ ds \<and> (hb_compExprHasMacro F es \<longleftrightarrow> hb_compExprHasMacro F cs \<or> hb_compExprHasMacro F ds)"
    if "hb_compExprReducePlus F (E_STRING cs) (E_STRING ds) = E_STRING es"
    using that assms by (auto simp: hb_compExprReducePlus_def is_date_def joins_macro_iff has_macro_append
        hb_compExprReducePlusStrings_def split: if_splits)
  have tr: "hb_compExprHasMacro F cs \<longleftrightarrow> hb_compExprHasMacro F (trim_to 0 cs) \<or>
      (trim_to 0 cs \<noteq> [] \<and> last (trim_to 0 cs) = 38 \<and> trim_to 0 cs \<noteq> cs \<and> \<not> fHarbour F)" for cs
  proof -
    obtain k where k: "cs = trim_to 0 cs @ replicate k 32" using trim_split by blast
    have "hb_compExprHasMacro F cs \<longleftrightarrow> hb_compExprHasMacro F (trim_to 0 cs @ replicate k 32)" using k by simp
    also have "\<dots> \<longleftrightarrow> hb_compExprHasMacro F (trim_to 0 cs) \<or> (trim_to 0 cs \<noteq> [] \<and> last (trim_to 0 cs) = 38 \<and> k \<noteq> 0 \<and> \<not> fHarbour F)"
      using name_start_space by (cases k) (auto simp: has_macro_append has_macro_spaces)
    also have "k \<noteq> 0 \<longleftrightarrow> trim_to 0 cs \<noteq> cs"
      using k by (metis append_Nil2 append_eq_conv_conj append_self_conv length_replicate list.size(3) replicate_empty)
    finally show ?thesis .
  qed
  have last38: "hb_compExprHasMacro F xs" if "xs \<noteq> []" "last xs = 38" "\<not> fHarbour F" for xs
    using that by (induction xs) (auto split: if_splits)
  show "hb_compExprHasMacro F es \<longleftrightarrow> hb_compExprHasMacro F cs \<or> hb_compExprHasMacro F ds"
    if "hb_compExprReduceMinus F (E_STRING cs) (E_STRING ds) = E_STRING es"
  proof (cases "cs = [] \<or> ds = []")
    case True
    then show ?thesis using that by (cases "ds = []") (auto simp: hb_compExprReduceMinus_def is_date_def)
  next
    case False
    define t where "t = trim_to 0 cs"
    have j: "\<not> joins_macro F t ds" "es = t @ ds @ replicate (length cs - length t) 32"
      using that assms False by (auto simp: hb_compExprReduceMinus_def is_date_def hb_compExprReduceMinusStrings_def Let_def
          t_def split: if_splits)
    have d: "hb_compExprHasMacro F (ds @ replicate k 32) \<longleftrightarrow> hb_compExprHasMacro F ds" for k
      using name_start_space last38[of ds] by (cases k) (auto simp: has_macro_append has_macro_spaces)
    have "hb_compExprHasMacro F cs \<longleftrightarrow> hb_compExprHasMacro F t" using tr[of cs] last38[of t] by (auto simp: t_def)
    then show ?thesis using j False by (auto simp: joins_macro_iff has_macro_append[of F t] d)
  qed
qed

section \<open>Operations the compiler cannot do\<close>

lemma reduce_traps:
  "reduce_bin P oper l r = None \<longleftrightarrow>
     oper \<in> {EO_DIV, EO_MOD} \<and> is_num l \<and> is_num r \<and> asNum l = NUM_LONG (- (2 ^ 63)) \<and> asNum r = NUM_LONG (- 1)"
proof (cases oper)
  case EO_DIV
  then show ?thesis by (auto simp: reduce_bin_def hb_compExprReduceDiv_def c_mod_def c_div_def c_traps_def Let_def split: numval.splits if_splits)
next
  case EO_MOD
  then show ?thesis by (auto simp: reduce_bin_def hb_compExprReduceMod_def c_mod_def c_div_def c_traps_def Let_def split: numval.splits if_splits)
qed (simp_all add: reduce_bin_def Let_def)

section \<open>Properties\<close>

lemma reduce_operands:
  assumes "lit_item D l \<noteq> None" "lit_item D r \<noteq> None"
  shows "hb_compExprReduce P (E_BIN oper l r) = reduce_bin P oper l r"
proof -
  have "hb_compExprReduce P e = Some e" if "lit_item D e \<noteq> None" for e
    using that by (cases e) (simp_all add: hb_compExprReduce.simps lit_item_def)
  then show ?thesis using assms by (simp add: hb_compExprReduce.simps[of P "E_BIN oper l r"])
qed

text \<open>C37.
  The pcode written for an expression leaves the code before it alone, and the
  interpreter runs it as the expression says: operands from left to right, .AND.
  and .OR. with the short cut when it is on, one branch of an IIF.  The jumps of
  the code, written with offset 0 and patched later, all go to the place they
  should.
\<close>

theorem gen_push_runs:
  assumes "gen_push G e f = Some f'" "at_code C (length (pCode f)) (drop (length (pCode f)) (pCode f'))"
    and "eval_push G (hlp C) e s = Some t" "actionRequest s = 0"
  shows "take (length (pCode f)) (pCode f') = pCode f \<and> moves C (length (pCode f)) s (length (pCode f')) t"
  by (rule code_runs[OF assms])

text \<open>A compiler with its default switches (hb_comp_new), a function and a machine for the examples.\<close>

definition std_flags :: comp_flags where
  "std_flags = \<lparr>fHarbour = True, fExtopt = False, fMacrotext = True, fUsercp = False, fShortcuts = True, fCompiler = True\<rparr>"

definition std_param :: comp_param where
  "std_param = \<lparr>flags = std_flags, c_pow = (\<lambda>x y. 0), fun_check = (\<lambda>f n. True)\<rparr>"

definition std_gen :: gen_param where
  "std_gen = \<lparr>gflags = std_flags, in_block = False, fSwitchCase = False\<rparr>"

definition new_func :: hfunc where
  "new_func = \<lparr>pCode = [], pJumps = []\<rparr>"

definition std_ctx :: "HB_BYTE list \<Rightarrow> unit ctx" where
  "std_ctx bs = \<lparr>code = pc_of_list bs, bDynCode = False, fDebugging = False, hlp = vm_helpers base_helpers\<rparr>"

lemmas std_defs = std_flags_def std_param_def std_gen_def new_func_def std_ctx_def

lemma std_sel [simp]:
  "hlp (std_ctx bs) = vm_helpers base_helpers" "pCode new_func = []" "flags std_param = std_flags"
  "gflags std_gen = std_flags" "fExtopt std_flags = False" "fHarbour std_flags = True" "fShortcuts std_flags = True"
  "c_pow std_param = hpow (base_helpers :: unit helpers)" "actionRequest (vm_with xs) = 0"
  by (simp_all add: std_defs base_helpers_def vm_with_def)

lemma at_code_list: "at_code (std_ctx bs) 0 bs"
  by (simp add: at_code_def std_ctx_def pc_of_list_def)

definition iif_expr :: expr where
  "iif_expr = E_IIF (E_BIN EO_AND (E_LOGICAL False) (E_LOGICAL True)) (hb_compExprNewLong 1) (hb_compExprNewLong 7)"

definition iif_code :: "HB_BYTE list" where
  "iif_code = [9, 21, 30, 6, 0, 0, 73, 120, 30, 9, 0, 0, 122, 27, 6, 0, 0, 92, 7]"

lemma iif_gen: "gen_push std_gen iif_expr new_func = Some \<lparr>pCode = iif_code, pJumps = [2, 8, 13]\<rparr>"
  by code_simp

lemma iif_eval: "eval_push std_gen (vm_helpers base_helpers) iif_expr (vm_with []) = Some (vm_with [I_Integer 7 10])"
proof -
  have b: "eval_push std_gen (vm_helpers base_helpers) (E_LOGICAL False) (vm_with []) = Some (vm_with [I_Logical False])"
    by (simp add: push_lit_def storable_def vm_with_def stack_push_def)
  have d: "hb_vmDuplicate (vm_helpers base_helpers) (vm_with [I_Logical False]) = Some (vm_with [I_Logical False, I_Logical False])"
    by (simp add: hb_vmDuplicate_def hb_stackItemFromTop_def vm_with_def hb_stackAllocItem_def hb_itemCopy_def hb_itemClear_def)
  have p: "hb_vmPopLogical (vm_helpers base_helpers) (vm_with [I_Logical False, I_Logical False]) = Some (False, vm_with [I_Logical False])"
    "hb_vmPopLogical (vm_helpers base_helpers) (vm_with [I_Logical False]) = Some (False, vm_with [])"
    by (simp_all add: hb_vmPopLogical_def hb_stackItemFromTop_def vm_with_def hb_stackDec_def)
  have n: "eval_push std_gen (vm_helpers base_helpers) (hb_compExprNewLong 7) (vm_with []) = Some (vm_with [I_Integer 7 10])"
    by (simp add: hb_compExprNewLong_def push_lit_def storable_def HB_LIM_LONG_def long_item_def vm_with_def stack_push_def)
  have "eval_push std_gen (vm_helpers base_helpers) (E_BIN EO_AND (E_LOGICAL False) (E_LOGICAL True)) (vm_with []) =
      Some (vm_with [I_Logical False])"
    unfolding eval_push.simps[of _ _ "E_BIN oper l r" for oper l r] using b d p(1) by (simp add: shortcut_def quiet_def)
  then show ?thesis
    unfolding iif_expr_def eval_push.simps[of _ _ "E_IIF c x y" for c x y] using p(2) n by (simp add: quiet_def)
qed

lemma gen_push_runs_witness:
  "moves (std_ctx iif_code) 0 (vm_with []) 19 (vm_with [I_Integer 7 10])"
  using gen_push_runs[OF iif_gen, of "std_ctx iif_code" "vm_with []" "vm_with [I_Integer 7 10]"] at_code_list[of iif_code] iif_eval
  by (simp add: iif_code_def eval_nat_numeral)

text \<open>C36.
  Where the optimiser replaces an operator of two literals by a literal and the
  operands are among those of exact_op, the code of the operator and the code of
  the literal leave the machine in the same state but for the value on top of the
  stack, and the two values agree: the same value, for quotients, remainders and
  powers the same number.  Relations and operators of dates are all in exact_op;
  .AND. and .OR. when both operands are logical; strings whose lengths add up to
  less than HB_SIZE_MAX.  Of numbers it has the integers of 64 bits and the doubles
  with a number of decimals of their own (not the default 255), with these bounds:
  the sum or difference of integers fits 64 bits; a product of integers has factors
  of 32 bits, or factors and product up to 2 to the 53; the decimals of a product of
  doubles add up to less than 255; integers divided are at most 2 to the 53.  Outside
  them compiler and machine differ, see product_differs.  The compiler runs in
  Harbour mode without -ko, the operator is not a .AND. or .OR. compiled with the
  short cut, and the machine clears and copies strings without other effects and
  keeps SET DECIMALS while items are pushed.
\<close>

theorem folded_code_agrees:
  assumes "manages R" "keeps_decimals R" "hlp C1 = vm_helpers R" "hlp C2 = vm_helpers R"
    and "flags P = gflags G" "\<not> fExtopt (gflags G)" "fHarbour (gflags G)" "c_pow P = hpow R" "\<not> shortcut (gflags G) oper"
    and "lit_item 0 l \<noteq> None" "lit_item 0 r \<noteq> None" "storable l" "storable r" "exact_op oper l r"
    and "hb_compExprReduce P (E_BIN oper l r) = Some e" "lit_item 0 e \<noteq> None" "storable e"
    and "gen_push G (E_BIN oper l r) f = Some f1" "gen_push G e f = Some f2"
    and "at_code C1 (length (pCode f)) (drop (length (pCode f)) (pCode f1))"
      "at_code C2 (length (pCode f)) (drop (length (pCode f)) (pCode f2))" and "actionRequest s = 0"
  shows "\<exists>y z. moves C1 (length (pCode f)) s (length (pCode f1)) (stack_push y s) \<and>
    moves C2 (length (pCode f)) s (length (pCode f2)) (stack_push z s) \<and> agrees oper y z"
  by (rule fold_code[OF assms(1-14) assms(15)[unfolded reduce_operands[OF assms(10,11)]] assms(16-)])

lemma sum_gen:
  "gen_push std_gen (E_BIN EO_PLUS (hb_compExprNewLong 2) (hb_compExprNewLong 3)) new_func =
     Some \<lparr>pCode = [92, 2, 92, 3, 72], pJumps = []\<rparr>"
  "gen_push std_gen (hb_compExprNewLong 5) new_func = Some \<lparr>pCode = [92, 5], pJumps = []\<rparr>"
  by code_simp+

lemma sum_reduce:
  "hb_compExprReduce std_param (E_BIN EO_PLUS (hb_compExprNewLong 2) (hb_compExprNewLong 3)) = Some (hb_compExprNewLong 5)"
  by code_simp

lemma folded_code_agrees_witness:
  "\<exists>y z. moves (std_ctx [92, 2, 92, 3, 72]) 0 (vm_with []) 5 (stack_push y (vm_with [])) \<and>
    moves (std_ctx [92, 5]) 0 (vm_with []) 2 (stack_push z (vm_with [])) \<and> agrees EO_PLUS y z"
proof -
  have "manages (base_helpers :: unit helpers)" "keeps_decimals (base_helpers :: unit helpers)"
    by (simp_all add: manages_def clears_def keeps_decimals_def base_helpers_def)
  moreover have "exact_op EO_PLUS (hb_compExprNewLong 2) (hb_compExprNewLong 3)"
    by (simp add: exact_op_def hb_compExprNewLong_def plain_num_def fits_def HB_LIM_LONG_def)
  moreover have "lit_item 0 (hb_compExprNewLong v) \<noteq> None \<and> storable (hb_compExprNewLong v)" if "\<bar>v\<bar> < 9" for v
    using that by (auto simp: hb_compExprNewLong_def storable_def HB_LIM_LONG_def)
  moreover have "\<not> shortcut std_flags EO_PLUS" by (simp add: shortcut_def)
  ultimately show ?thesis
    using folded_code_agrees[OF _ _ _ _ _ _ _ _ _ _ _ _ _ _ sum_reduce _ _ sum_gen, of base_helpers
        "std_ctx [92, 2, 92, 3, 72]" "std_ctx [92, 5]" "vm_with []"]
      at_code_list[of "[92, 2, 92, 3, 72]"] at_code_list[of "[92, 5]"]
    by (simp add: eval_nat_numeral)
qed

lemma string_literal: "is_string e \<Longrightarrow> \<exists>cs. e = E_STRING cs"
  by (cases e) auto

text \<open>C38.
  With macro text on, a concatenation of literals computed by the compiler has
  macro text if and only if one of its arguments has: no macro is made where the
  two texts meet, or lost.
\<close>

theorem concat_keeps_macros:
  assumes "fMacrotext F" "is_string l" "is_string r" "is_string e"
    and "hb_compExprReducePlus F l r = e \<or> hb_compExprReduceMinus F l r = e"
  shows "hb_compExprHasMacro F (asString e) \<longleftrightarrow> hb_compExprHasMacro F (asString l) \<or> hb_compExprHasMacro F (asString r)"
proof -
  obtain cs ds es where "l = E_STRING cs" "r = E_STRING ds" "e = E_STRING es"
    using string_literal assms(2-4) by metis
  then show ?thesis using concat_macro[OF assms(1)] assms(5) by auto
qed

text \<open>\<open>"a&" + "1"\<close> may be joined, \<open>"a&" + "b"\<close> may not.\<close>

lemma concat_keeps_macros_witness:
  "\<not> hb_compExprHasMacro std_flags [97, 38, 49]"
  using concat_keeps_macros[of std_flags "E_STRING [97, 38]" "E_STRING [49]" "E_STRING [97, 38, 49]"]
  by (simp add: std_flags_def hb_compExprReducePlus_def is_date_def hb_compExprReducePlusStrings_def name_start_def)

text \<open>C39.
  The compiler traps on an operator of literals in one case only, and does trap
  there: the least 64 bit integer divided by -1, or its remainder.  The C operators
  / and % trap for a divisor 0 too (c_traps); the guards of the two functions keep
  the compiler from that, but not from the quotient that is too large.
\<close>

theorem hb_compExprReduce_trap:
  "reduce_bin P oper l r = None \<longleftrightarrow>
     oper \<in> {EO_DIV, EO_MOD} \<and> is_num l \<and> is_num r \<and> asNum l = NUM_LONG (- (2 ^ 63)) \<and> asNum r = NUM_LONG (- 1)"
  by (rule reduce_traps)

text \<open>
  A product of two literals beyond 53 bits is exact in the compiler; the machine
  computes it with doubles.  \<open>exact_op\<close> excludes it.
\<close>

lemma product_differs:
  "hb_compExprReduceMult (hb_compExprNewLong 3000000001) (hb_compExprNewLong 3000000001) = hb_compExprNewLong 9000000006000000001 \<and>
   map_option stack (hb_vmMult base_helpers (AtStack 0) (AtStack 0) (AtStack 1)
     (vm_with [long_item 3000000001, long_item 3000000001])) = Some [I_Long 9000000006000000000 20, I_Long 3000000001 11]"
  by code_simp

end
