(* ===== verification/Hashes.thy ===== *)
theory Hashes
  imports VmItem HbStr
begin

text \<open>
  Hash items, vm/hashes.c: a table of pairs sorted by key, or, with
  HB_HASH_KEEPORDER, a table in the order of insertion with a sorted index.

  \<open>pPairs\<close> and \<open>pnPos\<close> hold the used entries, so nLen is their length;
  \<open>nSize\<close> is the number of allocated ones.  Copies of items and references
  to variables go through \<open>hash_lib\<close>; the destructors that releasing an
  item may run are not modelled.  \<open>None\<close> is the end of the program by
  hb_errInternal, or a loop that does not end.
\<close>

declare One_nat_def [simp del]

section \<open>State\<close>

record BASEHASH =
  pPairs :: "(item \<times> item) list"
  pDefault :: "item option"
  pnPos :: "nat list option"
  nSize :: nat
  iFlags :: "32 word"

abbreviation nLen :: "BASEHASH \<Rightarrow> nat" where "nLen h \<equiv> length (pPairs h)"

abbreviation (input) HB_HASH_AUTOADD_ASSIGN :: "32 word" where "HB_HASH_AUTOADD_ASSIGN \<equiv> 0x02"
abbreviation (input) HB_HASH_AUTOADD_REFERENCE :: "32 word" where "HB_HASH_AUTOADD_REFERENCE \<equiv> 0x03"
abbreviation (input) HB_HASH_RESORT :: "32 word" where "HB_HASH_RESORT \<equiv> 0x08"
abbreviation (input) HB_HASH_IGNORECASE :: "32 word" where "HB_HASH_IGNORECASE \<equiv> 0x10"
abbreviation (input) HB_HASH_BINARY :: "32 word" where "HB_HASH_BINARY \<equiv> 0x20"
abbreviation (input) HB_HASH_KEEPORDER :: "32 word" where "HB_HASH_KEEPORDER \<equiv> 0x40"
abbreviation (input) HB_HASH_ITEM_ALLOC :: nat where "HB_HASH_ITEM_ALLOC \<equiv> 16"

text \<open>
  \<open>lcmp\<close> is the helper record for the code page, \<open>lcdpicmp\<close> the comparison
  hb_cdpicmp; \<open>lrd\<close> and \<open>lwr\<close> read and write what a reference refers to
  (hb_itemUnRef); \<open>lclone\<close> is hb_itemClone, the copy of an item with the
  arrays and hashes in it; \<open>ldyn\<close> is the dynamic symbol of a symbol.
\<close>

record 'w hash_lib =
  lcmp :: "'w helpers"
  lcdpicmp :: "HB_BYTE list \<Rightarrow> HB_BYTE list \<Rightarrow> bool \<Rightarrow> int"
  lrd :: "item \<Rightarrow> 'w vm \<Rightarrow> item"
  lwr :: "item \<Rightarrow> item \<Rightarrow> 'w vm \<Rightarrow> 'w vm"
  lclone :: "item \<Rightarrow> 'w vm \<Rightarrow> item \<times> 'w vm"
  ldyn :: "nat \<Rightarrow> nat option"

section \<open>Comparison of keys\<close>

text \<open>The case is folded byte by byte.\<close>

fun byte_icmp :: "HB_BYTE list \<Rightarrow> HB_BYTE list \<Rightarrow> int" where
  "byte_icmp (a # as) (b # bs) =
     (let i1 = to_upper a; i2 = to_upper b
      in if i1 \<noteq> i2 then (if i1 < i2 then - 1 else 1) else byte_icmp as bs)"
| "byte_icmp _ _ = 0"

definition hb_itemStrICmp ::
  "'w hash_lib \<Rightarrow> HB_BYTE list \<Rightarrow> HB_BYTE list \<Rightarrow> bool \<Rightarrow> 'w vm \<Rightarrow> int" where
  "hb_itemStrICmp E szFirst szSecond bForceExact s =
     (let trim = (\<not> bForceExact \<and> hsetexact (lcmp E) s);
          szFirst = (if trim then trim_to (length szSecond) szFirst else szFirst);
          szSecond = (if trim then trim_to (length szFirst) szSecond else szSecond);
          bForceExact = (bForceExact \<or> trim);
          nLenFirst = length szFirst; nLenSecond = length szSecond
      in if min nLenFirst nLenSecond \<noteq> 0 then
           (case hcdpcmp (lcmp E) s of
              Some cmp \<Rightarrow> lcdpicmp E szFirst szSecond bForceExact
            | None \<Rightarrow>
                (let iRet = byte_icmp szFirst szSecond
                 in if iRet = 0 \<and> nLenFirst \<noteq> nLenSecond \<and> (bForceExact \<or> nLenSecond > nLenFirst)
                    then (if nLenFirst < nLenSecond then - 1 else 1) else iRet))
         else if nLenFirst \<noteq> nLenSecond then
           (if bForceExact then (if nLenFirst < nLenSecond then - 1 else 1)
            else if nLenSecond = 0 then 0 else - 1)
         else 0)"

definition hb_hashItemCmp :: "'w hash_lib \<Rightarrow> 'w vm \<Rightarrow> 32 word \<Rightarrow> item \<Rightarrow> item \<Rightarrow> int" where
  "hb_hashItemCmp E s flags pKey1 pKey2 =
     (case pKey1 of
        I_String m1 cs1 \<Rightarrow>
          (case pKey2 of
             I_String m2 cs2 \<Rightarrow>
               (if flags AND HB_HASH_BINARY \<noteq> 0 then
                  (if length cs1 < length cs2 then - 1
                   else if length cs1 > length cs2 then 1 else byte_cmp cs1 cs2)
                else if flags AND HB_HASH_IGNORECASE \<noteq> 0 then hb_itemStrICmp E cs1 cs2 True s
                else hb_itemStrCmp (lcmp E) cs1 cs2 True s)
           | _ \<Rightarrow> 1)
      | _ \<Rightarrow>
          (if HB_IS_DATETIME pKey1 then
             (if HB_IS_DATETIME pKey2 then
                (if dt_julian pKey1 < dt_julian pKey2 then - 1
                 else if dt_julian pKey1 > dt_julian pKey2 then 1
                 else if dt_time pKey1 < dt_time pKey2 then - 1
                 else if dt_time pKey1 > dt_time pKey2 then 1 else 0)
              else if HB_IS_STRING pKey2 then - 1 else 1)
           else
             (case pKey1 of
                I_Pointer p1 \<Rightarrow>
                  (case pKey2 of
                     I_Pointer p2 \<Rightarrow> (if p1 < p2 then - 1 else if p1 > p2 then 1 else 0)
                   | _ \<Rightarrow> (if HB_IS_STRING pKey2 \<or> HB_IS_DATETIME pKey2 then - 1 else 1))
              | _ \<Rightarrow>
                  (if HB_IS_NUMINT pKey1 \<and> HB_IS_NUMINT pKey2 then
                     (let n1 = HB_ITEM_GET_NUMINTRAW pKey1; n2 = HB_ITEM_GET_NUMINTRAW pKey2
                      in if n1 < n2 then - 1 else if n1 > n2 then 1 else 0)
                   else if HB_IS_NUMERIC pKey2 then
                     (let d1 = hb_itemGetND pKey1; d2 = hb_itemGetND pKey2
                      in if d_lt d1 d2 then - 1 else if d_lt d2 d1 then 1 else 0)
                   else - 1))))"

text \<open>The equality of items, hb_itemEqual of vm/itemapi.c.\<close>

definition hb_itemEqual :: "'w hash_lib \<Rightarrow> item \<Rightarrow> item \<Rightarrow> bool" where
  "hb_itemEqual E pItem1 pItem2 =
     (if HB_IS_NUMERIC pItem1 then
        (if HB_IS_NUMINT pItem1 \<and> HB_IS_NUMINT pItem2
         then HB_ITEM_GET_NUMINTRAW pItem1 = HB_ITEM_GET_NUMINTRAW pItem2
         else HB_IS_NUMERIC pItem2 \<and> d_eq (hb_itemGetND pItem1) (hb_itemGetND pItem2))
      else if HB_IS_DATETIME pItem1 then
        HB_IS_DATETIME pItem2 \<and> dt_julian pItem1 = dt_julian pItem2 \<and> dt_time pItem1 = dt_time pItem2
      else
        (case (pItem1, pItem2) of
           (I_String m a, I_String n b) \<Rightarrow> length a = length b \<and> a = b
         | (I_Nil, I_Nil) \<Rightarrow> True
         | (I_Logical a, I_Logical b) \<Rightarrow> (if a then b else \<not> b)
         | (I_Array a, I_Array b) \<Rightarrow> a = b
         | (I_Hash a, I_Hash b) \<Rightarrow> a = b
         | (I_Pointer a, I_Pointer b) \<Rightarrow> a = b
         | (I_Block a, I_Block b) \<Rightarrow> a = b
         | (I_Symbol a, I_Symbol b) \<Rightarrow> a = b \<or> (ldyn E a \<noteq> None \<and> ldyn E a = ldyn E b)
         | _ \<Rightarrow> False))"

section \<open>Sorting\<close>

text \<open>An allocated entry; those that are not in use hold NIL.\<close>

definition raw_pair :: "BASEHASH \<Rightarrow> nat \<Rightarrow> item \<times> item" where
  "raw_pair h i = (if i < nLen h then pPairs h ! i else (I_Nil, I_Nil))"

definition hb_hashResort :: "BASEHASH \<Rightarrow> BASEHASH option" where
  "hb_hashResort h =
     (case pnPos h of
        Some ps \<Rightarrow>
          (if nLen h = 0 then None
           else Some (h\<lparr>pPairs := map (raw_pair h) ps, pnPos := Some [0..<nLen h], nSize := nLen h\<rparr>))
      | None \<Rightarrow> None)"

text \<open>The first place of the index whose key is greater than pKey.\<close>

function upper_loop ::
  "(item \<Rightarrow> item \<Rightarrow> int) \<Rightarrow> (nat \<Rightarrow> item) \<Rightarrow> item \<Rightarrow> nat \<Rightarrow> nat \<Rightarrow> nat" where
  "upper_loop cmp keyAt pKey nLeft nRight =
     (if nLeft < nRight then
        let nMiddle = (nLeft + nRight) div 2
        in if cmp (keyAt nMiddle) pKey > 0 then upper_loop cmp keyAt pKey nLeft nMiddle
           else upper_loop cmp keyAt pKey (nMiddle + 1) nRight
      else nLeft)"
  by pat_completeness auto
termination by (relation "measure (\<lambda>(cmp, keyAt, pKey, nLeft, nRight). nRight - nLeft)") auto

declare upper_loop.simps [simp del]

text \<open>The index of the pairs before \<open>nFrom\<close> is \<open>ps\<close>; \<open>k\<close> pairs are left.\<close>

fun sort_index ::
  "(item \<Rightarrow> item \<Rightarrow> int) \<Rightarrow> (item \<times> item) list \<Rightarrow> nat \<Rightarrow> nat \<Rightarrow> nat list \<Rightarrow> nat list" where
  "sort_index cmp pairs nFrom 0 ps = ps"
| "sort_index cmp pairs nFrom (Suc k) ps =
     (let nLeft = upper_loop cmp (\<lambda>i. fst (pairs ! (ps ! i))) (fst (pairs ! nFrom)) 0 nFrom
      in sort_index cmp pairs (nFrom + 1) k (take nLeft ps @ nFrom # drop nLeft ps))"

fun sink_pair :: "(item \<Rightarrow> item \<Rightarrow> int) \<Rightarrow> nat \<Rightarrow> (item \<times> item) list \<Rightarrow> (item \<times> item) list" where
  "sink_pair cmp 0 pairs = pairs"
| "sink_pair cmp (Suc nPos) pairs =
     (if cmp (fst (pairs ! nPos)) (fst (pairs ! Suc nPos)) > 0
      then sink_pair cmp nPos (pairs[nPos := pairs ! Suc nPos, Suc nPos := pairs ! nPos])
      else pairs)"

fun sort_pairs :: "(item \<Rightarrow> item \<Rightarrow> int) \<Rightarrow> nat \<Rightarrow> nat \<Rightarrow> (item \<times> item) list \<Rightarrow> (item \<times> item) list" where
  "sort_pairs cmp nFrom 0 pairs = pairs"
| "sort_pairs cmp nFrom (Suc k) pairs = sort_pairs cmp (nFrom + 1) k (sink_pair cmp nFrom pairs)"

definition hb_hashSortDo :: "'w hash_lib \<Rightarrow> 'w vm \<Rightarrow> BASEHASH \<Rightarrow> BASEHASH" where
  "hb_hashSortDo E s h =
     (let cmp = hb_hashItemCmp E s (iFlags h);
          h = (case pnPos h of
                 Some ps \<Rightarrow> h\<lparr>pnPos := Some (if nLen h = 0 then [] else sort_index cmp (pPairs h) 1 (nLen h - 1) [0])\<rparr>
               | None \<Rightarrow> h\<lparr>pPairs := sort_pairs cmp 1 (nLen h - 1) (pPairs h)\<rparr>)
      in h\<lparr>iFlags := iFlags h AND NOT HB_HASH_RESORT\<rparr>)"

section \<open>Search\<close>

definition pair_at :: "BASEHASH \<Rightarrow> nat \<Rightarrow> nat" where
  "pair_at h n = (case pnPos h of Some ps \<Rightarrow> ps ! n | None \<Rightarrow> n)"

function find_loop ::
  "(item \<Rightarrow> item \<Rightarrow> int) \<Rightarrow> (nat \<Rightarrow> item) \<Rightarrow> item \<Rightarrow> nat \<Rightarrow> nat \<Rightarrow> bool \<times> nat" where
  "find_loop cmp keyAt pKey nLeft nRight =
     (if nLeft < nRight then
        let nMiddle = (nLeft + nRight) div 2; i = cmp (keyAt nMiddle) pKey
        in if i = 0 then (True, nMiddle)
           else if i < 0 then find_loop cmp keyAt pKey (nMiddle + 1) nRight
           else find_loop cmp keyAt pKey nLeft nMiddle
      else (False, nLeft))"
  by pat_completeness auto
termination by (relation "measure (\<lambda>(cmp, keyAt, pKey, nLeft, nRight). nRight - nLeft)") auto

declare find_loop.simps [simp del]

text \<open>Whether the key is there, and the pair or the place in the order.\<close>

definition hb_hashFind :: "'w hash_lib \<Rightarrow> 'w vm \<Rightarrow> BASEHASH \<Rightarrow> item \<Rightarrow> BASEHASH \<times> bool \<times> nat" where
  "hb_hashFind E s h pKey =
     (let h1 = (if iFlags h AND HB_HASH_RESORT \<noteq> 0 then hb_hashSortDo E s h else h)
      in case find_loop (hb_hashItemCmp E s (iFlags h)) (\<lambda>i. fst (pPairs h1 ! pair_at h1 i)) pKey 0 (nLen h1) of
           (found, n) \<Rightarrow> (h1, found, if found then pair_at h1 n else n))"

section \<open>Allocation\<close>

definition hb_hashResize :: "BASEHASH \<Rightarrow> nat \<Rightarrow> BASEHASH" where
  "hb_hashResize h nNewSize =
     (if nSize h < nNewSize then
        h\<lparr>pnPos := (if nSize h = 0 \<and> iFlags h AND HB_HASH_KEEPORDER \<noteq> 0 then Some [] else pnPos h),
          nSize := nNewSize\<rparr>
      else if nSize h > nNewSize \<and> nLen h \<le> nNewSize then
        h\<lparr>nSize := nNewSize, pnPos := (if nNewSize = 0 then None else pnPos h)\<rparr>
      else h)"

definition hb_hashNew :: BASEHASH where
  "hb_hashNew = \<lparr>pPairs = [], pDefault = None, pnPos = None, nSize = 0,
     iFlags = HB_HASH_AUTOADD_ASSIGN OR HB_HASH_BINARY OR HB_HASH_KEEPORDER\<rparr>"

definition grow :: "BASEHASH \<Rightarrow> BASEHASH" where
  "grow h = (if nSize h = nLen h then hb_hashResize h (nSize h + HB_HASH_ITEM_ALLOC) else h)"

text \<open>A new pair at the place hb_hashFind gave; the result is its position.\<close>

definition insert_pair :: "BASEHASH \<Rightarrow> nat \<Rightarrow> item \<times> item \<Rightarrow> BASEHASH \<times> nat" where
  "insert_pair h nPos p =
     (let h = grow h
      in case pnPos h of
           Some ps \<Rightarrow>
             (h\<lparr>pnPos := Some (take nPos ps @ nLen h # drop nPos ps), pPairs := pPairs h @ [p]\<rparr>, nLen h)
         | None \<Rightarrow> (h\<lparr>pPairs := take nPos (pPairs h) @ p # drop nPos (pPairs h)\<rparr>, nPos))"

section \<open>Values\<close>

text \<open>hb_itemCopy and hb_itemCopyFromRef: the value the copy has.\<close>

definition copy_val :: "item \<Rightarrow> item" where
  "copy_val x = (if HB_IS_ENUM x then I_Nil else x)"

definition from_ref :: "'w hash_lib \<Rightarrow> item \<Rightarrow> 'w vm \<Rightarrow> item" where
  "from_ref E x s = copy_val (if HB_IS_BYREF x then lrd E x s else x)"

definition value_at :: "BASEHASH \<Rightarrow> nat \<Rightarrow> item" where
  "value_at h n = snd (pPairs h ! n)"

definition set_value :: "BASEHASH \<Rightarrow> nat \<Rightarrow> item \<Rightarrow> BASEHASH" where
  "set_value h n v = h\<lparr>pPairs := (pPairs h)[n := (fst (pPairs h ! n), v)]\<rparr>"

text \<open>The position of the value, when there is one.\<close>

definition hb_hashValuePtr ::
  "'w hash_lib \<Rightarrow> BASEHASH \<Rightarrow> item \<Rightarrow> bool \<Rightarrow> 'w vm \<Rightarrow> BASEHASH \<times> nat option \<times> 'w vm" where
  "hb_hashValuePtr E h pKey fAdd s =
     (let (h, found, nPos) = hb_hashFind E s h pKey
      in if found then (h, Some nPos, s)
         else if \<not> fAdd then (h, None, s)
         else (let (v, s) = (case pDefault h of Some d \<Rightarrow> lclone E d s | None \<Rightarrow> (I_Nil, s));
                   (h, nPos) = insert_pair h nPos (copy_val pKey, v)
               in (h, Some nPos, s)))"

definition hb_hashNewValue ::
  "'w hash_lib \<Rightarrow> BASEHASH \<Rightarrow> item \<Rightarrow> item \<Rightarrow> 'w vm \<Rightarrow> bool \<times> BASEHASH" where
  "hb_hashNewValue E h pKey pValue s =
     (let (h, found, nPos) = hb_hashFind E s h pKey
      in if \<not> found then (True, fst (insert_pair h nPos (copy_val pKey, from_ref E pValue s)))
         else (False, h))"

definition hb_hashNewPair :: "BASEHASH \<Rightarrow> BASEHASH" where
  "hb_hashNewPair h =
     (let h = grow h
      in h\<lparr>pnPos := map_option (\<lambda>ps. ps @ [nLen h]) (pnPos h), pPairs := pPairs h @ [(I_Nil, I_Nil)]\<rparr>)"

section \<open>Deletion\<close>

text \<open>
  The loop over the index of all pairs (one more than \<open>n0\<close>, the new length);
  an index that holds the position twice may keep it from ending.
\<close>

partial_function (option) del_pos :: "nat \<Rightarrow> nat \<Rightarrow> nat \<Rightarrow> nat list \<Rightarrow> nat list option" where
  [code]: "del_pos n0 nPos n ps =
     (if n < n0 then
        if ps ! n > nPos then del_pos n0 nPos (n + 1) (ps[n := ps ! n - 1])
        else if ps ! n = nPos then del_pos n0 nPos n (take n ps @ drop (n + 1) ps @ [last ps])
        else del_pos n0 nPos (n + 1) ps
      else Some ps)"

definition hb_hashDelPair :: "BASEHASH \<Rightarrow> nat \<Rightarrow> BASEHASH option" where
  "hb_hashDelPair h nPos =
     (let n0 = nLen h - 1
      in if n0 = 0 then Some (h\<lparr>pPairs := [], nSize := 0, pnPos := None\<rparr>)
         else
           (case (case pnPos h of
                    Some ps \<Rightarrow>
                      (if iFlags h AND HB_HASH_RESORT = 0
                       then map_option (\<lambda>ps. Some (take n0 ps)) (del_pos n0 nPos 0 ps)
                       else Some (Some (take n0 ps)))
                  | None \<Rightarrow> Some None) of
              None \<Rightarrow> None
            | Some ps \<Rightarrow>
                Some (h\<lparr>pnPos := ps, pPairs := take nPos (pPairs h) @ drop (nPos + 1) (pPairs h),
                  nSize := (if nSize h - n0 > 2 * HB_HASH_ITEM_ALLOC
                            then nSize h - HB_HASH_ITEM_ALLOC else nSize h)\<rparr>)))"

section \<open>The functions for hash items\<close>

definition hb_hashLen :: "BASEHASH \<Rightarrow> nat" where
  "hb_hashLen h = nLen h"

definition hb_hashPreallocate :: "BASEHASH \<Rightarrow> nat \<Rightarrow> BASEHASH" where
  "hb_hashPreallocate h nNewSize = hb_hashResize h nNewSize"

definition hb_hashAllocNewPair :: "BASEHASH \<Rightarrow> BASEHASH" where
  "hb_hashAllocNewPair h = hb_hashNewPair h"

definition hb_hashSort :: "'w hash_lib \<Rightarrow> 'w vm \<Rightarrow> BASEHASH \<Rightarrow> BASEHASH option" where
  "hb_hashSort E s h =
     (let h = (if iFlags h AND HB_HASH_RESORT \<noteq> 0 then hb_hashSortDo E s h else h)
      in if pnPos h \<noteq> None then hb_hashResort h else Some h)"

text \<open>The value of a key, read through a reference.\<close>

definition read_value :: "'w hash_lib \<Rightarrow> BASEHASH \<Rightarrow> nat \<Rightarrow> 'w vm \<Rightarrow> item" where
  "read_value E h n s =
     (let v = value_at h n in if HB_IS_BYREF v then lrd E v s else v)"

definition hb_hashGetItemPtr ::
  "'w hash_lib \<Rightarrow> BASEHASH \<Rightarrow> item \<Rightarrow> 32 word \<Rightarrow> 'w vm \<Rightarrow> BASEHASH \<times> item option \<times> 'w vm" where
  "hb_hashGetItemPtr E h pKey flags s =
     (if HB_IS_HASHKEY pKey then
        (case hb_hashValuePtr E h pKey (flags \<noteq> 0 \<and> iFlags h AND flags = flags) s of
           (h, Some n, s) \<Rightarrow> (h, Some (read_value E h n s), s)
         | (h, None, s) \<Rightarrow> (h, None, s))
      else (h, None, s))"

definition hb_hashGetCItemPtr ::
  "'w hash_lib \<Rightarrow> BASEHASH \<Rightarrow> HB_BYTE list \<Rightarrow> 'w vm \<Rightarrow> BASEHASH \<times> item option" where
  "hb_hashGetCItemPtr E h pszKey s =
     (case hb_hashValuePtr E h (I_String False pszKey) False s of
        (h, Some n, s) \<Rightarrow> (h, Some (read_value E h n s))
      | (h, None, s) \<Rightarrow> (h, None))"

definition hb_hashGetCItemPos ::
  "'w hash_lib \<Rightarrow> BASEHASH \<Rightarrow> HB_BYTE list \<Rightarrow> 'w vm \<Rightarrow> BASEHASH \<times> nat" where
  "hb_hashGetCItemPos E h pszKey s =
     (case hb_hashFind E s h (I_String False pszKey) of
        (h, found, nPos) \<Rightarrow> (h, if found then nPos + 1 else 0))"

text \<open>The key to scan for may be a hash, given by its pairs.\<close>

definition hb_hashScan ::
  "'w hash_lib \<Rightarrow> BASEHASH \<Rightarrow> item \<Rightarrow> (item \<times> item) list \<Rightarrow> 'w vm \<Rightarrow> BASEHASH \<times> bool \<times> nat" where
  "hb_hashScan E h pKey pairs s =
     (if HB_IS_HASHKEY pKey then
        (case hb_hashFind E s h pKey of
           (h, found, nPos) \<Rightarrow> if found then (h, True, nPos + 1) else (h, False, 0))
      else if HB_IS_HASH pKey \<and> length pairs = 1 then
        (case hb_hashFind E s h (fst (pairs ! 0)) of
           (h, found, nPos) \<Rightarrow>
             if found \<and> hb_itemEqual E (value_at h nPos) (snd (pairs ! 0)) then (h, True, nPos + 1)
             else (h, False, 0))
      else (h, False, 0))"

definition hb_hashScanSoft ::
  "'w hash_lib \<Rightarrow> BASEHASH \<Rightarrow> item \<Rightarrow> 'w vm \<Rightarrow> BASEHASH \<times> bool \<times> nat" where
  "hb_hashScanSoft E h pKey s =
     (if HB_IS_HASHKEY pKey then
        (case hb_hashFind E s h pKey of
           (h, found, nPos) \<Rightarrow>
             (h, found,
              if found then nPos + 1
              else (case pnPos h of Some ps \<Rightarrow> (if nPos \<noteq> 0 then ps ! (nPos - 1) + 1 else nPos)
                    | None \<Rightarrow> nPos)))
      else (h, False, 0))"

definition hb_hashClear :: "BASEHASH \<Rightarrow> BASEHASH" where
  "hb_hashClear h = (if nSize h \<noteq> 0 then h\<lparr>pPairs := [], nSize := 0, pnPos := None\<rparr> else h)"

definition hb_hashDel :: "'w hash_lib \<Rightarrow> BASEHASH \<Rightarrow> item \<Rightarrow> 'w vm \<Rightarrow> (bool \<times> BASEHASH) option" where
  "hb_hashDel E h pKey s =
     (if HB_IS_HASHKEY pKey then
        (case hb_hashFind E s h pKey of
           (h, found, nPos) \<Rightarrow>
             (if found then map_option (\<lambda>h. (True, h)) (hb_hashDelPair h nPos) else Some (False, h)))
      else Some (False, h))"

definition hb_hashAdd ::
  "'w hash_lib \<Rightarrow> BASEHASH \<Rightarrow> item \<Rightarrow> item option \<Rightarrow> 'w vm \<Rightarrow> bool \<times> BASEHASH \<times> 'w vm" where
  "hb_hashAdd E h pKey pValue s =
     (if HB_IS_HASHKEY pKey then
        (case hb_hashValuePtr E h pKey True s of
           (h, Some n, s) \<Rightarrow>
             (let v = (case pValue of Some x \<Rightarrow> from_ref E x s | None \<Rightarrow> I_Nil); d = value_at h n
              in if HB_IS_BYREF d then (True, h, lwr E d v s) else (True, set_value h n v, s))
         | (h, None, s) \<Rightarrow> (False, h, s))
      else (False, h, s))"

definition hb_hashAddNew ::
  "'w hash_lib \<Rightarrow> BASEHASH \<Rightarrow> item \<Rightarrow> item \<Rightarrow> 'w vm \<Rightarrow> bool \<times> BASEHASH" where
  "hb_hashAddNew E h pKey pValue s =
     (if HB_IS_HASHKEY pKey then hb_hashNewValue E h pKey pValue s else (False, h))"

definition hb_hashGetKeyAt :: "BASEHASH \<Rightarrow> nat \<Rightarrow> item option" where
  "hb_hashGetKeyAt h nPos =
     (if nPos > 0 \<and> nPos \<le> nLen h then Some (fst (pPairs h ! (nPos - 1))) else None)"

definition hb_hashGetValueAt :: "'w hash_lib \<Rightarrow> BASEHASH \<Rightarrow> nat \<Rightarrow> 'w vm \<Rightarrow> item option" where
  "hb_hashGetValueAt E h nPos s =
     (if nPos > 0 \<and> nPos \<le> nLen h then Some (read_value E h (nPos - 1) s) else None)"

definition hb_hashDelAt :: "BASEHASH \<Rightarrow> nat \<Rightarrow> (bool \<times> BASEHASH) option" where
  "hb_hashDelAt h nPos =
     (if nPos > 0 \<and> nPos \<le> nLen h
      then map_option (\<lambda>h. (True, h)) (hb_hashDelPair h (nPos - 1)) else Some (False, h))"

definition hb_hashGetKeys :: "BASEHASH \<Rightarrow> item list" where
  "hb_hashGetKeys h = map copy_val (List.map_filter (hb_hashGetKeyAt h) [1..<nLen h + 1])"

definition hb_hashGetValues :: "'w hash_lib \<Rightarrow> BASEHASH \<Rightarrow> 'w vm \<Rightarrow> item list" where
  "hb_hashGetValues E h s =
     map copy_val (List.map_filter (\<lambda>n. hb_hashGetValueAt E h n s) [1..<nLen h + 1])"

text \<open>\<open>fSelf\<close>: the value is this hash.\<close>

definition hb_hashSetDefault ::
  "'w hash_lib \<Rightarrow> BASEHASH \<Rightarrow> item option \<Rightarrow> bool \<Rightarrow> 'w vm \<Rightarrow> BASEHASH \<times> 'w vm" where
  "hb_hashSetDefault E h pValue fSelf s =
     (case pValue of
        Some v \<Rightarrow>
          (if v \<noteq> I_Nil \<and> \<not> fSelf
           then (let (d, s) = lclone E v s in (h\<lparr>pDefault := Some d\<rparr>, s))
           else (h\<lparr>pDefault := None\<rparr>, s))
      | None \<Rightarrow> (h\<lparr>pDefault := None\<rparr>, s))"

definition hb_hashGetDefault :: "BASEHASH \<Rightarrow> item option" where
  "hb_hashGetDefault h = pDefault h"

definition hb_hashSetFlags :: "BASEHASH \<Rightarrow> 32 word \<Rightarrow> BASEHASH" where
  "hb_hashSetFlags h flags =
     (let h = h\<lparr>iFlags := iFlags h OR flags\<rparr>
      in if pnPos h = None \<and> nSize h \<noteq> 0 \<and> iFlags h AND HB_HASH_KEEPORDER \<noteq> 0
         then h\<lparr>pnPos := Some [0..<nLen h]\<rparr> else h)"

definition hb_hashClearFlags :: "BASEHASH \<Rightarrow> 32 word \<Rightarrow> BASEHASH option" where
  "hb_hashClearFlags h flags =
     (let h = h\<lparr>iFlags := iFlags h AND NOT flags\<rparr>
      in if pnPos h \<noteq> None \<and> iFlags h AND HB_HASH_KEEPORDER = 0
         then map_option (\<lambda>h. h\<lparr>pnPos := None\<rparr>) (hb_hashResort h) else Some h)"

definition hb_hashGetFlags :: "BASEHASH \<Rightarrow> 32 word" where
  "hb_hashGetFlags h = iFlags h"

section \<open>Two hashes\<close>

text \<open>
  The loops of hb_hashJoin over another hash, by its pairs; a hash joined with
  itself is treated before them (\<open>hb_hashClear\<close> or nothing).
\<close>

fun join_union ::
  "'w hash_lib \<Rightarrow> (item \<times> item) list \<Rightarrow> BASEHASH \<Rightarrow> 'w vm \<Rightarrow> BASEHASH \<times> 'w vm" where
  "join_union E [] h s = (h, s)"
| "join_union E ((k, v) # ps) h s =
     (case hb_hashAdd E h k (Some (if HB_IS_BYREF v then lrd E v s else v)) s of
        (b, h, s) \<Rightarrow> join_union E ps h s)"

fun join_remove :: "'w hash_lib \<Rightarrow> (item \<times> item) list \<Rightarrow> BASEHASH \<Rightarrow> 'w vm \<Rightarrow> BASEHASH option" where
  "join_remove E [] h s = Some h"
| "join_remove E ((k, v) # ps) h s =
     (case hb_hashDel E h k s of None \<Rightarrow> None | Some (b, h) \<Rightarrow> join_remove E ps h s)"

fun join_difference ::
  "'w hash_lib \<Rightarrow> (item \<times> item) list \<Rightarrow> BASEHASH \<Rightarrow> 'w vm \<Rightarrow> (BASEHASH \<times> 'w vm) option" where
  "join_difference E [] h s = Some (h, s)"
| "join_difference E ((k, v) # ps) h s =
     (case hb_hashDel E h k s of
        None \<Rightarrow> None
      | Some (True, h) \<Rightarrow> join_difference E ps h s
      | Some (False, h) \<Rightarrow>
          (case hb_hashAdd E h k (Some (if HB_IS_BYREF v then lrd E v s else v)) s of
             (b, h, s) \<Rightarrow> join_difference E ps h s))"

text \<open>
  hb_hashRemove: \<open>items\<close> are the items of an array, or the keys of a hash,
  which is None when it is the hash itself.
\<close>

fun del_items :: "'w hash_lib \<Rightarrow> item list \<Rightarrow> BASEHASH \<Rightarrow> 'w vm \<Rightarrow> BASEHASH option" where
  "del_items E [] h s = Some h"
| "del_items E (k # ks) h s =
     (case hb_hashDel E h k s of None \<Rightarrow> None | Some (b, h) \<Rightarrow> del_items E ks h s)"

definition hb_hashRemove ::
  "'w hash_lib \<Rightarrow> BASEHASH \<Rightarrow> item \<Rightarrow> item list option \<Rightarrow> 'w vm \<Rightarrow> (bool \<times> BASEHASH) option" where
  "hb_hashRemove E h pItem items s =
     (if HB_IS_HASHKEY pItem then map_option (\<lambda>(b, h). (True, h)) (hb_hashDel E h pItem s)
      else if HB_IS_ARRAY pItem \<or> HB_IS_HASH pItem then
        (case items of
           None \<Rightarrow> Some (True, hb_hashClear h)
         | Some ks \<Rightarrow> map_option (\<lambda>h. (True, h)) (del_items E ks h s))
      else Some (False, h))"

text \<open>The copies of the values are made in the order of the table.\<close>

fun clone_pairs ::
  "'w hash_lib \<Rightarrow> (item \<times> item) list \<Rightarrow> 'w vm \<Rightarrow> (item \<times> item) list \<times> 'w vm" where
  "clone_pairs E [] s = ([], s)"
| "clone_pairs E ((k, v) # ps) s =
     (let v = (if HB_IS_BYREF v then lrd E v s else v);
          (c, s) = lclone E v s;
          (cs, s) = clone_pairs E ps s
      in ((copy_val k, c) # cs, s))"

definition hb_hashCloneBody :: "'w hash_lib \<Rightarrow> BASEHASH \<Rightarrow> 'w vm \<Rightarrow> BASEHASH \<times> 'w vm" where
  "hb_hashCloneBody E pHash s =
     (let d = hb_hashResize (hb_hashNew\<lparr>iFlags := iFlags pHash\<rparr>) (nLen pHash);
          (ps, s) = clone_pairs E (pPairs pHash) s
      in (d\<lparr>pDefault := map_option copy_val (pDefault pHash), pPairs := ps,
            pnPos := (if pnPos pHash \<noteq> None \<and> pnPos d \<noteq> None then pnPos pHash else pnPos d)\<rparr>, s))"

text \<open>
  The intersection goes over the positions of the destination; \<open>k\<close> bounds the
  turns by the pairs that are left.
\<close>

fun join_intersect ::
  "'w hash_lib \<Rightarrow> nat \<Rightarrow> nat \<Rightarrow> BASEHASH \<Rightarrow> BASEHASH \<Rightarrow> 'w vm \<Rightarrow> (BASEHASH \<times> BASEHASH \<times> 'w vm) option" where
  "join_intersect E 0 nPos h src s = Some (h, src, s)"
| "join_intersect E (Suc k) nPos h src s =
     (if nPos < nLen h then
        (case hb_hashFind E s src (fst (pPairs h ! nPos)) of
           (src, found, nSrcPos) \<Rightarrow>
             (if found then
                (let v = from_ref E (value_at src nSrcPos) s; d = value_at h nPos
                 in if HB_IS_BYREF d then join_intersect E k (nPos + 1) h src (lwr E d v s)
                    else join_intersect E k (nPos + 1) (set_value h nPos v) src s)
              else (case hb_hashDelPair h nPos of
                      None \<Rightarrow> None
                    | Some h \<Rightarrow> join_intersect E k nPos h src s)))
      else Some (h, src, s))"

datatype join_type = HB_HASH_UNION | HB_HASH_INTERSECT | HB_HASH_DIFFERENCE | HB_HASH_REMOVE

text \<open>
  \<open>pSource\<close> is None when the hashes are the same.  The source is part of
  the result because a search may sort it.
\<close>

definition hb_hashJoin ::
  "'w hash_lib \<Rightarrow> BASEHASH \<Rightarrow> BASEHASH option \<Rightarrow> join_type \<Rightarrow> 'w vm
    \<Rightarrow> (BASEHASH \<times> BASEHASH option \<times> 'w vm) option" where
  "hb_hashJoin E pDest pSource iType s =
     (case pSource of
        None \<Rightarrow>
          (case iType of
             HB_HASH_UNION \<Rightarrow> Some (pDest, None, s)
           | HB_HASH_INTERSECT \<Rightarrow> Some (pDest, None, s)
           | HB_HASH_DIFFERENCE \<Rightarrow> Some (hb_hashClear pDest, None, s)
           | HB_HASH_REMOVE \<Rightarrow> Some (hb_hashClear pDest, None, s))
      | Some src \<Rightarrow>
          (case iType of
             HB_HASH_UNION \<Rightarrow>
               (case join_union E (pPairs src) pDest s of (h, s) \<Rightarrow> Some (h, Some src, s))
           | HB_HASH_INTERSECT \<Rightarrow>
               map_option (\<lambda>(h, src, s). (h, Some src, s)) (join_intersect E (nLen pDest) 0 pDest src s)
           | HB_HASH_DIFFERENCE \<Rightarrow>
               map_option (\<lambda>(h, s). (h, Some src, s)) (join_difference E (pPairs src) pDest s)
           | HB_HASH_REMOVE \<Rightarrow>
               map_option (\<lambda>h. (h, Some src, s)) (join_remove E (pPairs src) pDest s)))"

end
