(* ===== verification/HashIndex.thy ===== *)
theory HashIndex
  imports Hashes "HOL-Library.Multiset"
begin

text \<open>
  The table and the index of vm/hashes.c under any order of the keys: the
  locale \<open>key_order\<close> is what the searches and sorts rely on (the comparison
  agrees with a code in a linear order); the lemmas say what inserting a pair,
  deleting one and sorting do to the table, the index and the map they stand for.
\<close>

declare One_nat_def [simp del]

section \<open>The two binary searches\<close>

text \<open>The order of the keys: a code in a linear order for the keys in \<open>K\<close>.\<close>

locale key_order =
  fixes cmp :: "item \<Rightarrow> item \<Rightarrow> int" and K :: "item set" and code :: "item \<Rightarrow> 'c::linorder"
  assumes cmp_less: "a \<in> K \<Longrightarrow> b \<in> K \<Longrightarrow> cmp a b < 0 \<longleftrightarrow> code a < code b"
    and cmp_greater: "a \<in> K \<Longrightarrow> b \<in> K \<Longrightarrow> cmp a b > 0 \<longleftrightarrow> code b < code a"
begin

lemma cmp_eq: "a \<in> K \<Longrightarrow> b \<in> K \<Longrightarrow> cmp a b = 0 \<longleftrightarrow> code a = code b"
  using cmp_less[of a b] cmp_greater[of a b] by (metis less_irrefl linorder_neqE)

definition between :: "(nat \<Rightarrow> item) \<Rightarrow> nat \<Rightarrow> item \<Rightarrow> nat \<Rightarrow> bool" where
  "between keyAt n k m \<longleftrightarrow> m \<le> n \<and> (\<forall>i<m. code (keyAt i) < code k) \<and> (\<forall>i. m \<le> i \<and> i < n \<longrightarrow> code k < code (keyAt i))"

lemma find_loop_spec:
  assumes K: "\<And>i. i < n \<Longrightarrow> keyAt i \<in> K" "k \<in> K"
    and sorted: "\<And>i j. i < j \<Longrightarrow> j < n \<Longrightarrow> code (keyAt i) < code (keyAt j)"
    and "nL \<le> nR" "nR \<le> n" "\<And>i. i < nL \<Longrightarrow> code (keyAt i) < code k"
    and "\<And>i. nR \<le> i \<Longrightarrow> i < n \<Longrightarrow> code k < code (keyAt i)"
  shows "case find_loop cmp keyAt k nL nR of (found, m) \<Rightarrow>
    if found then m < n \<and> code (keyAt m) = code k else between keyAt n k m"
  using assms(4-)
proof (induction "nR - nL" arbitrary: nL nR rule: less_induct)
  case less
  show ?case
  proof (cases "nL < nR")
    case False
    then have "nL = nR" using less.prems by simp
    then show ?thesis using less.prems by (subst find_loop.simps) (simp add: between_def)
  next
    case True
    define m where "m = (nL + nR) div 2"
    have m: "nL \<le> m" "m < nR" "m < n" using True less.prems by (auto simp: m_def)
    have mK: "keyAt m \<in> K" using K m by simp
    note st = find_loop.simps[of cmp keyAt k nL nR, unfolded Let_def m_def[symmetric]]
    consider "code (keyAt m) = code k" | "code (keyAt m) < code k" | "code k < code (keyAt m)" by fastforce
    then show ?thesis
    proof cases
      case 1
      then have "find_loop cmp keyAt k nL nR = (True, m)" using True st cmp_eq[OF mK K(2)] by simp
      then show ?thesis using 1 m by simp
    next
      case 2
      then have "find_loop cmp keyAt k nL nR = find_loop cmp keyAt k (m + 1) nR"
        using True st cmp_less[OF mK K(2)] by simp
      moreover have "code (keyAt i) < code k" if "i < m + 1" for i
        using that 2 sorted[of i m] m by (cases "i = m") auto
      ultimately show ?thesis using less.hyps[of nR "m + 1"] m less.prems by simp
    next
      case 3
      then have "find_loop cmp keyAt k nL nR = find_loop cmp keyAt k nL m"
        using True st cmp_greater[OF mK K(2)] by simp
      moreover have "code k < code (keyAt i)" if "m \<le> i" "i < n" for i
        using that 3 sorted[of m i] by (cases "i = m") auto
      ultimately show ?thesis using less.hyps[of m nL] m less.prems by simp
    qed
  qed
qed

lemma upper_loop_spec:
  assumes K: "\<And>i. i < n \<Longrightarrow> keyAt i \<in> K" "k \<in> K"
    and sorted: "\<And>i j. i < j \<Longrightarrow> j < n \<Longrightarrow> code (keyAt i) \<le> code (keyAt j)"
    and "nL \<le> nR" "nR \<le> n" "\<And>i. i < nL \<Longrightarrow> code (keyAt i) \<le> code k"
    and "\<And>i. nR \<le> i \<Longrightarrow> i < n \<Longrightarrow> code k \<le> code (keyAt i)"
  shows "upper_loop cmp keyAt k nL nR \<le> n \<and> (\<forall>i < upper_loop cmp keyAt k nL nR. code (keyAt i) \<le> code k) \<and>
    (\<forall>i. upper_loop cmp keyAt k nL nR \<le> i \<and> i < n \<longrightarrow> code k \<le> code (keyAt i))"
  using assms(4-)
proof (induction "nR - nL" arbitrary: nL nR rule: less_induct)
  case less
  show ?case
  proof (cases "nL < nR")
    case False
    then have "upper_loop cmp keyAt k nL nR = nL" by (subst upper_loop.simps) simp
    moreover have "nL = nR" using False less.prems by simp
    ultimately show ?thesis using less.prems by simp
  next
    case True
    define m where "m = (nL + nR) div 2"
    have m: "nL \<le> m" "m < nR" "m < n" using True less.prems by (auto simp: m_def)
    have mK: "keyAt m \<in> K" using K m by simp
    note st = upper_loop.simps[of cmp keyAt k nL nR, unfolded Let_def m_def[symmetric]]
    show ?thesis
    proof (cases "code k < code (keyAt m)")
      case False
      then have u: "upper_loop cmp keyAt k nL nR = upper_loop cmp keyAt k (m + 1) nR"
        using True st cmp_greater[OF mK K(2)] by simp
      have c: "code (keyAt i) \<le> code k" if "i < m + 1" for i
        using that False sorted[of i m] m by (cases "i = m") auto
      show ?thesis unfolding u using m less.prems(1,2) by (intro less.hyps less.prems(4) c) simp_all
    next
      case gt: True
      then have u: "upper_loop cmp keyAt k nL nR = upper_loop cmp keyAt k nL m"
        using True st cmp_greater[OF mK K(2)] by simp
      have c: "code k \<le> code (keyAt i)" if "m \<le> i" "i < n" for i
        using that gt sorted[of m i] by (cases "i = m") auto
      show ?thesis unfolding u using m less.prems(1,2) by (intro less.hyps less.prems(3) c) simp_all
    qed
  qed
qed

end

section \<open>The index and the map of a table\<close>

definition index_of :: "BASEHASH \<Rightarrow> nat list" where
  "index_of h = (case pnPos h of Some ps \<Rightarrow> ps | None \<Rightarrow> [0..<nLen h])"

definition codes :: "(item \<Rightarrow> 'c) \<Rightarrow> BASEHASH \<Rightarrow> 'c list" where
  "codes code h = map (\<lambda>i. code (fst (pPairs h ! i))) (index_of h)"

definition hash_map :: "(item \<Rightarrow> 'c) \<Rightarrow> BASEHASH \<Rightarrow> 'c \<Rightarrow> item option" where
  "hash_map code h = map_of (map (\<lambda>(k, v). (code k, v)) (pPairs h))"

definition hash_shape :: "item set \<Rightarrow> BASEHASH \<Rightarrow> bool" where
  "hash_shape K h \<longleftrightarrow> set (map fst (pPairs h)) \<subseteq> K \<and> mset (index_of h) = mset [0..<nLen h] \<and> nLen h \<le> nSize h \<and>
     (pnPos h \<noteq> None \<longleftrightarrow> nSize h \<noteq> 0 \<and> iFlags h AND HB_HASH_KEEPORDER \<noteq> 0)"

definition hash_inv :: "(item \<Rightarrow> 'c::linorder) \<Rightarrow> item set \<Rightarrow> BASEHASH \<Rightarrow> bool" where
  "hash_inv code K h \<longleftrightarrow> hash_shape K h \<and> iFlags h AND HB_HASH_RESORT = 0 \<and> sorted_wrt (<) (codes code h)"

lemma index_facts:
  assumes "mset (index_of h) = mset [0..<nLen h]"
  shows "length (index_of h) = nLen h" "set (index_of h) = {0..<nLen h}" "distinct (index_of h)"
proof -
  show "length (index_of h) = nLen h" using assms by (metis diff_zero length_upt size_mset)
  show "set (index_of h) = {0..<nLen h}" using assms by (metis set_mset_mset set_upt)
  show "distinct (index_of h)" using assms by (metis distinct_upt mset_eq_imp_distinct_iff)
qed

lemma pair_at_index: "i < nLen h \<Longrightarrow> pair_at h i = index_of h ! i"
  by (simp add: pair_at_def index_of_def split: option.split)

lemma codes_nth: "length (index_of h) = nLen h \<Longrightarrow> i < nLen h \<Longrightarrow> codes code h ! i = code (fst (pPairs h ! pair_at h i))"
  by (simp add: codes_def pair_at_index)

text \<open>Without an index the pairs themselves are in order.\<close>

lemma codes_None: "pnPos h = None \<Longrightarrow> codes code h = map (code \<circ> fst) (pPairs h)"
  by (intro nth_equalityI) (simp_all add: codes_def index_of_def)

lemma codes_perm:
  assumes "mset (index_of h) = mset [0..<nLen h]"
  shows "mset (codes code h) = mset (map (code \<circ> fst) (pPairs h))"
proof -
  have "mset (codes code h) = image_mset (\<lambda>i. code (fst (pPairs h ! i))) (mset [0..<nLen h])"
    by (simp only: codes_def mset_map assms)
  also have "\<dots> = mset (map (\<lambda>i. code (fst (pPairs h ! i))) [0..<nLen h])" by simp
  also have "map (\<lambda>i. code (fst (pPairs h ! i))) [0..<nLen h] = map (code \<circ> fst) (pPairs h)"
    by (intro nth_equalityI) simp_all
  finally show ?thesis .
qed

lemma distinct_codes:
  fixes code :: "item \<Rightarrow> 'c::linorder"
  assumes "mset (index_of h) = mset [0..<nLen h]" "sorted_wrt (<) (codes code h)"
  shows "distinct (map (code \<circ> fst) (pPairs h))"
  using codes_perm[OF assms(1), of code] assms(2)
  by (metis mset_eq_imp_distinct_iff strict_sorted_iff)

lemma hash_map_keys: "map fst (map (\<lambda>(k, v). (code k, v)) xs) = map (code \<circ> fst) xs"
  by (simp add: case_prod_unfold comp_def)

lemma hash_map_at:
  assumes "distinct (map (code \<circ> fst) (pPairs h))" "i < nLen h"
  shows "hash_map code h (code (fst (pPairs h ! i))) = Some (snd (pPairs h ! i))"
  unfolding hash_map_def
proof (rule map_of_is_SomeI)
  show "distinct (map fst (map (\<lambda>(k, v). (code k, v)) (pPairs h)))" using assms(1) by (simp only: hash_map_keys)
  have "(\<lambda>(k, v). (code k, v)) (pPairs h ! i) \<in> set (map (\<lambda>(k, v). (code k, v)) (pPairs h))"
    using assms(2) by (metis length_map nth_map nth_mem)
  then show "(code (fst (pPairs h ! i)), snd (pPairs h ! i)) \<in> set (map (\<lambda>(k, v). (code k, v)) (pPairs h))"
    by (simp add: case_prod_unfold)
qed

lemma hash_map_None: "hash_map code h c = None \<longleftrightarrow> c \<notin> set (map (code \<circ> fst) (pPairs h))"
  unfolding hash_map_def map_of_eq_None_iff by (force simp: case_prod_unfold)

subsection \<open>The index after a deletion\<close>

lemma del_pos_rest:
  assumes "p \<notin> set (take (n0 - n) (drop n ps))" "length ps = n0 + 1" "n \<le> n0"
  shows "\<exists>qs. del_pos n0 p n ps = Some qs \<and>
    take n0 qs = take n ps @ map (\<lambda>i. if i > p then i - 1 else i) (take (n0 - n) (drop n ps))"
  using assms
proof (induction "n0 - n" arbitrary: n ps)
  case 0
  then have "del_pos n0 p n ps = Some ps" by (subst del_pos.simps) simp
  with 0 show ?case by simp
next
  case (Suc k)
  have n: "n < n0" "n < length ps" using Suc by simp_all
  have kk: "k = n0 - (n + 1)" using Suc.hyps(2) by simp
  have d: "take (n0 - n) (drop n ps) = ps ! n # take (n0 - (n + 1)) (drop (n + 1) ps)"
    using n Suc.hyps(2) by (simp add: Cons_nth_drop_Suc[symmetric] take_Suc_conv_app_nth Suc_eq_plus1[symmetric] flip: Suc_diff_Suc)
  let ?x = "if ps ! n > p then ps ! n - 1 else ps ! n"
  have ne: "ps ! n \<noteq> p" "p \<notin> set (take (n0 - (n + 1)) (drop (n + 1) ps))" using Suc.prems(1) d by auto
  let ?ps = "ps[n := ?x]"
  have st: "del_pos n0 p n ps = del_pos n0 p (n + 1) ?ps" using n ne by (subst del_pos.simps) simp
  have "drop (n + 1) ?ps = drop (n + 1) ps" by simp
  moreover obtain qs where "del_pos n0 p (n + 1) ?ps = Some qs"
    "take n0 qs = take (n + 1) ?ps @ map (\<lambda>i. if i > p then i - 1 else i) (take (n0 - (n + 1)) (drop (n + 1) ?ps))"
    using Suc.hyps(1)[OF kk, of ?ps] Suc.prems ne n by auto
  ultimately show ?case using st d n
    by (auto simp: take_Suc_conv_app_nth Suc_eq_plus1[symmetric])
qed

lemma del_pos_spec:
  assumes "distinct (drop n ps)" "p \<in> set (drop n ps)" "length ps = n0 + 1" "n \<le> n0"
  shows "\<exists>qs. del_pos n0 p n ps = Some qs \<and>
    take n0 qs = take n ps @ map (\<lambda>i. if i > p then i - 1 else i) (filter (\<lambda>i. i \<noteq> p) (drop n ps))"
  using assms
proof (induction "n0 - n" arbitrary: n ps)
  case 0
  then have "del_pos n0 p n ps = Some ps" by (subst del_pos.simps) simp
  moreover have "drop n ps = [p]"
  proof -
    have "length (drop n ps) = 1" using 0 by simp
    then obtain x where "drop n ps = [x]" by (metis One_nat_def length_0_conv length_Suc_conv)
    then show ?thesis using 0 by simp
  qed
  ultimately show ?case using 0 by simp
next
  case (Suc k)
  have n: "n < n0" "n < length ps" using Suc by simp_all
  have kk: "k = n0 - (n + 1)" using Suc.hyps(2) by simp
  have d: "drop n ps = ps ! n # drop (n + 1) ps" using n by (simp add: Cons_nth_drop_Suc Suc_eq_plus1[symmetric])
  show ?case
  proof (cases "ps ! n = p")
    case True
    let ?ps = "take n ps @ drop (n + 1) ps @ [last ps]"
    have st: "del_pos n0 p n ps = del_pos n0 p n ?ps" using n True by (subst del_pos.simps) simp
    have t: "take (n0 - n) (drop n ?ps) = drop (n + 1) ps" "take n ?ps = take n ps" using n Suc.prems by simp_all
    have "p \<notin> set (drop (n + 1) ps)" using Suc.prems(1) d True by simp
    then have "p \<notin> set (take (n0 - n) (drop n ?ps))" "filter (\<lambda>i. i \<noteq> p) (drop n ps) = drop (n + 1) ps"
      using t d True by (auto simp: filter_id_conv)
    moreover have "length ?ps = n0 + 1" using n Suc.prems by simp
    ultimately show ?thesis using del_pos_rest[of p n0 n ?ps] st t n by simp
  next
    case False
    let ?x = "if ps ! n > p then ps ! n - 1 else ps ! n"
    let ?ps = "ps[n := ?x]"
    have st: "del_pos n0 p n ps = del_pos n0 p (n + 1) ?ps" using n False by (subst del_pos.simps) simp
    have "drop (n + 1) ?ps = drop (n + 1) ps" by simp
    moreover have "distinct (drop (n + 1) ps)" "p \<in> set (drop (n + 1) ps)" using Suc.prems d False by auto
    ultimately obtain qs where "del_pos n0 p (n + 1) ?ps = Some qs"
      "take n0 qs = take (n + 1) ?ps @ map (\<lambda>i. if i > p then i - 1 else i) (filter (\<lambda>i. i \<noteq> p) (drop (n + 1) ps))"
      using Suc.hyps(1)[OF kk, of ?ps] Suc.prems n by auto
    then show ?thesis using st d n False
      by (auto simp: take_Suc_conv_app_nth Suc_eq_plus1[symmetric])
  qed
qed

section \<open>Insertion\<close>

lemma upt_plus_1: "[0..<n + 1] = [0..<n] @ [n]"
  by (simp flip: Suc_eq_plus1)

lemma grow_facts:
  assumes "hash_shape K h"
  shows "pPairs (grow h) = pPairs h" "index_of (grow h) = index_of h" "hash_shape K (grow h)"
    "nLen h < nSize (grow h)" "iFlags (grow h) = iFlags h" "pDefault (grow h) = pDefault h"
    "pnPos (grow h) \<noteq> None \<longleftrightarrow> iFlags h AND HB_HASH_KEEPORDER \<noteq> 0"
  using assms
  by (auto simp: grow_def hb_hashResize_def hash_shape_def index_of_def split: option.splits if_splits)

lemma nth_take_drop_insert:
  "n \<le> length xs \<Longrightarrow> map f (take n xs @ x # drop n xs) = take n (map f xs) @ f x # drop n (map f xs)"
  by (simp add: take_map drop_map)

lemma mset_insert_at: "mset (take n xs @ x # drop n xs) = add_mset x (mset xs)"
  by (metis append_take_drop_id mset.simps(2) mset_append union_mset_add_mset_right)

lemma insert_pair_facts:
  fixes code :: "item \<Rightarrow> 'c::linorder"
  assumes sh: "hash_shape K h" and k: "k \<in> K" and n: "n \<le> nLen h" and new: "hash_map code h (code k) = None"
    and ins: "insert_pair h n (k, v) = (h', m)"
  shows "hash_shape K h'" "codes code h' = take n (codes code h) @ code k # drop n (codes code h)"
    "hash_map code h' = (hash_map code h)(code k \<mapsto> v)" "m < nLen h'" "pPairs h' ! m = (k, v)"
    "iFlags h' = iFlags h" "pDefault h' = pDefault h"
    "iFlags h AND HB_HASH_KEEPORDER \<noteq> 0 \<longrightarrow> pPairs h' = pPairs h @ [(k, v)] \<and> m = nLen h"
proof -
  define b where "b \<longleftrightarrow> pnPos (grow h) = None"
  note g = grow_facts[OF sh]
  have i: "mset (index_of h) = mset [0..<nLen h]" using sh by (simp add: hash_shape_def)
  note ix = index_facts[OF i]
  have pairs: "pPairs h' = (if b then take n (pPairs h) @ (k, v) # drop n (pPairs h) else pPairs h @ [(k, v)])"
    and m: "m = (if b then n else nLen h)"
    using ins g(1) by (auto simp: insert_pair_def Let_def b_def split: option.splits)
  have idx: "index_of h' = (if b then [0..<nLen h + 1] else take n (index_of h) @ nLen h # drop n (index_of h))"
    using ins g(1,2) n by (auto simp: insert_pair_def Let_def index_of_def upt_plus_1 b_def split: option.splits)
  have rest: "iFlags h' = iFlags (grow h)" "pDefault h' = pDefault (grow h)" "nSize h' = nSize (grow h)"
    "pnPos h' = None \<longleftrightarrow> b"
    using ins by (auto simp: insert_pair_def Let_def b_def split: option.splits)
  show "iFlags h' = iFlags h" "pDefault h' = pDefault h" using rest g by simp_all
  show "m < nLen h'" "pPairs h' ! m = (k, v)" using pairs m n by (auto simp: nth_append)
  show "iFlags h AND HB_HASH_KEEPORDER \<noteq> 0 \<longrightarrow> pPairs h' = pPairs h @ [(k, v)] \<and> m = nLen h" using pairs m g(7) by (auto simp: b_def)
  have len: "nLen h' = nLen h + 1" using pairs n by auto
  have "mset (pPairs h') = add_mset (k, v) (mset (pPairs h))" using pairs mset_insert_at[of n "pPairs h" "(k, v)"]
    by (cases b) (simp_all del: mset_append, simp)
  then have "set (pPairs h') = insert (k, v) (set (pPairs h))" by (metis set_mset_add_mset_insert set_mset_mset)
  then have "set (map fst (pPairs h')) = insert k (set (map fst (pPairs h)))" by simp
  then have K: "set (map fst (pPairs h')) \<subseteq> K" using sh k by (auto simp: hash_shape_def)
  have "mset (index_of h') = mset [0..<nLen h']"
  proof (cases "b")
    case True
    then show ?thesis using idx len by simp
  next
    case False
    then have "index_of h' = take n (index_of h) @ nLen h # drop n (index_of h)" using idx by simp
    then have "mset (index_of h') = add_mset (nLen h) (mset [0..<nLen h])"
      by (simp only: mset_insert_at i)
    also have "\<dots> = mset [0..<nLen h']" unfolding len upt_plus_1 by (simp del: mset_upt)
    finally show ?thesis .
  qed
  then show "hash_shape K h'" using K g(3,4) rest len by (auto simp: hash_shape_def b_def)
  show "codes code h' = take n (codes code h) @ code k # drop n (codes code h)"
  proof (cases "b")
    case True
    have "pnPos h' = None" using rest True by simp
    then have "codes code h' = map (code \<circ> fst) (pPairs h')" by (rule codes_None)
    moreover have "codes code h = map (code \<circ> fst) (pPairs h)"
    proof -
      have "codes code (grow h) = map (code \<circ> fst) (pPairs (grow h))" using True unfolding b_def by (rule codes_None)
      then show ?thesis using g(1,2) by (simp add: codes_def)
    qed
    ultimately show ?thesis using pairs True n by (simp add: take_map drop_map)
  next
    case False
    have "map (\<lambda>i. code (fst (pPairs h' ! i))) (index_of h) = codes code h"
      unfolding codes_def using pairs False ix(2) by (intro map_cong) (auto simp: nth_append)
    moreover have "code (fst (pPairs h' ! nLen h)) = code k" using pairs False by simp
    ultimately show ?thesis unfolding codes_def[of code h'] using idx False
      by (simp add: take_map[symmetric] drop_map[symmetric])
  qed
  show "hash_map code h' = (hash_map code h)(code k \<mapsto> v)"
  proof
    fix c
    have split: "hash_map code h = map_of (map (\<lambda>(k, v). (code k, v)) (take n (pPairs h)) @ map (\<lambda>(k, v). (code k, v)) (drop n (pPairs h)))"
      unfolding hash_map_def by (metis append_take_drop_id map_append)
    show "hash_map code h' c = ((hash_map code h)(code k \<mapsto> v)) c"
    proof (cases "b")
      case True
      have "hash_map code h' = map_of (map (\<lambda>(k, v). (code k, v)) (take n (pPairs h)) @ (code k, v) # map (\<lambda>(k, v). (code k, v)) (drop n (pPairs h)))"
        unfolding hash_map_def using pairs True by simp
      moreover have "map_of (map (\<lambda>(k, v). (code k, v)) (take n (pPairs h))) (code k) = None"
        using new split by (auto simp: map_add_def split: option.splits)
      ultimately show ?thesis using split by (auto simp: map_add_def split: option.splits)
    next
      case False
      have "hash_map code h' = map_of (map (\<lambda>(k, v). (code k, v)) (pPairs h) @ [(code k, v)])"
        unfolding hash_map_def using pairs False by simp
      then show ?thesis using new by (auto simp: hash_map_def map_add_def split: option.splits)
    qed
  qed
qed

section \<open>Deletion of a pair\<close>

lemma map_of_remove_nth:
  assumes "distinct (map fst xs)" "p < length xs"
  shows "map_of (take p xs @ drop (p + 1) xs) = (map_of xs)(fst (xs ! p) := None)"
proof
  fix c
  have xs: "xs = take p xs @ xs ! p # drop (p + 1) xs" using assms(2) by (simp add: id_take_nth_drop Suc_eq_plus1[symmetric])
  have "distinct (map fst (take p xs @ xs ! p # drop (p + 1) xs))" using assms(1) by (simp only: xs[symmetric])
  then have d: "fst (xs ! p) \<notin> fst ` set (take p xs)" "fst (xs ! p) \<notin> fst ` set (drop (p + 1) xs)" by auto
  have "map_of xs = map_of (take p xs @ xs ! p # drop (p + 1) xs)" by (simp only: xs[symmetric])
  then have "map_of xs c = (map_of (xs ! p # drop (p + 1) xs) ++ map_of (take p xs)) c"
    by (simp only: map_of_append)
  moreover have "map_of (take p xs) (fst (xs ! p)) = None" "map_of (drop (p + 1) xs) (fst (xs ! p)) = None"
    using d by (simp_all add: map_of_eq_None_iff)
  ultimately show "map_of (take p xs @ drop (p + 1) xs) c = ((map_of xs)(fst (xs ! p) := None)) c"
    by (cases "xs ! p") (auto simp: map_add_def split: option.splits)
qed

text \<open>A position after the pair \<open>p\<close> has been taken out.\<close>

definition dec :: "nat \<Rightarrow> nat \<Rightarrow> nat" where "dec p i = (if i > p then i - 1 else i)"

lemma nth_remove:
  assumes "p < length xs" "i < length xs" "i \<noteq> p"
  shows "(take p xs @ drop (p + 1) xs) ! dec p i = xs ! i"
  using assms by (auto simp: dec_def nth_append min_def)

lemma dec_upt:
  assumes "p \<le> n"
  shows "map (dec p) (filter (\<lambda>i. i \<noteq> p) [0..<n + 1]) = [0..<n]"
proof -
  have u: "[0..<n + 1] = [0..<p] @ p # [p + 1..<n + 1]"
    using assms upt_add_eq_append[of 0 p "n + 1 - p"] by (simp add: upt_conv_Cons Suc_eq_plus1)
  have "filter (\<lambda>i. i \<noteq> p) [0..<p] = [0..<p]" "filter (\<lambda>i. i \<noteq> p) [p + 1..<n + 1] = [p + 1..<n + 1]"
    by (auto simp: filter_id_conv)
  moreover have "map (dec p) [0..<p] = [0..<p]" by (auto simp: dec_def intro!: map_idI)
  moreover have "map (dec p) [p + 1..<n + 1] = [p..<n]" by (rule nth_equalityI) (auto simp: dec_def)
  moreover have "[0..<n] = [0..<p] @ [p..<n]" using assms upt_add_eq_append[of 0 p "n - p"] by simp
  ultimately show ?thesis unfolding u by simp
qed

lemma hb_hashDelPair_facts:
  fixes code :: "item \<Rightarrow> 'c::linorder"
  assumes inv: "hash_inv code K h" and p: "p < nLen h"
  shows "\<exists>h'. hb_hashDelPair h p = Some h' \<and> hash_inv code K h' \<and>
    pPairs h' = take p (pPairs h) @ drop (p + 1) (pPairs h) \<and>
    hash_map code h' = (hash_map code h)(code (fst (pPairs h ! p)) := None) \<and> pDefault h' = pDefault h \<and> iFlags h' = iFlags h"
proof -
  have sh: "hash_shape K h" and rs: "iFlags h AND HB_HASH_RESORT = 0" and so: "sorted_wrt (<) (codes code h)"
    using inv by (auto simp: hash_inv_def)
  have i: "mset (index_of h) = mset [0..<nLen h]" using sh by (simp add: hash_shape_def)
  note ix = index_facts[OF i] and dc = distinct_codes[OF i so]
  let ?n = "nLen h - 1" and ?ps = "take p (pPairs h) @ drop (p + 1) (pPairs h)"
  have len: "length ?ps = ?n" using p by auto
  have dm: "distinct (map fst (map (\<lambda>(k, v). (code k, v)) (pPairs h)))" using dc by (simp only: hash_map_keys)
  have hm: "map_of (map (\<lambda>(k, v). (code k, v)) ?ps) = (hash_map code h)(code (fst (pPairs h ! p)) := None)"
    using map_of_remove_nth[OF dm, of p] p by (simp add: hash_map_def take_map drop_map case_prod_unfold)
  have K: "set (map fst ?ps) \<subseteq> K" using sh set_take_subset[of p "pPairs h"] set_drop_subset[of "p + 1" "pPairs h"]
    by (auto simp: hash_shape_def)
  show ?thesis
  proof (cases "?n = 0")
    case True
    then have e: "?ps = []" using len by (metis length_0_conv)
    have "hb_hashDelPair h p = Some (h\<lparr>pPairs := [], nSize := 0, pnPos := None\<rparr>)" using True by (simp add: hb_hashDelPair_def)
    moreover have "hash_inv code K (h\<lparr>pPairs := [], nSize := 0, pnPos := None\<rparr>)"
      using rs by (simp add: hash_inv_def hash_shape_def index_of_def codes_def)
    moreover have "(hash_map code h)(code (fst (pPairs h ! p)) := None) = (\<lambda>x. None)"
      using hm unfolding e by (simp add: fun_eq_iff)
    ultimately show ?thesis using e by (simp add: hash_map_def)
  next
    case False
    define sz where "sz = (if nSize h - ?n > 2 * HB_HASH_ITEM_ALLOC then nSize h - HB_HASH_ITEM_ALLOC else nSize h)"
    have sz: "?n \<le> sz" "sz \<noteq> 0" using sh False by (auto simp: sz_def hash_shape_def)
    have ns: "nSize h \<noteq> 0" using sh p by (auto simp: hash_shape_def)
    define ps' where "ps' = map (dec p) (filter (\<lambda>i. i \<noteq> p) (index_of h))"
    have cs: "map (\<lambda>i. code (fst (?ps ! i))) ps' = map (\<lambda>i. code (fst (pPairs h ! i))) (filter (\<lambda>i. i \<noteq> p) (index_of h))"
      unfolding ps'_def map_map using nth_remove[OF p] ix(2) by (intro map_cong) auto
    have so': "sorted_wrt (<) (map (\<lambda>i. code (fst (?ps ! i))) ps')"
      unfolding cs using so unfolding codes_def sorted_wrt_map by (rule sorted_wrt_filter)
    have pm: "mset ps' = mset [0..<?n]"
    proof -
      have "mset ps' = image_mset (dec p) (filter_mset (\<lambda>i. i \<noteq> p) (mset [0..<nLen h]))"
        by (simp only: ps'_def mset_map mset_filter i)
      also have "\<dots> = mset (map (dec p) (filter (\<lambda>i. i \<noteq> p) [0..<?n + 1]))" using p by (simp only: mset_map mset_filter) simp
      also have "\<dots> = mset [0..<?n]" using p dec_upt[of p ?n] by simp
      finally show ?thesis .
    qed
    show ?thesis
    proof (cases "pnPos h")
      case None
      let ?h = "h\<lparr>pnPos := None, pPairs := ?ps, nSize := sz\<rparr>"
      have "hb_hashDelPair h p = Some ?h" using False None by (simp add: hb_hashDelPair_def sz_def Let_def)
      moreover have "ps' = [0..<?n]" using None dec_upt[of p ?n] p by (simp add: ps'_def index_of_def)
      then have "hash_inv code K ?h"
        using rs sh so' K sz len None ns by (simp add: hash_inv_def hash_shape_def index_of_def codes_def)
      ultimately show ?thesis using hm by (simp add: hash_map_def)
    next
      case (Some ps)
      have io: "index_of h = ps" using Some by (simp add: index_of_def)
      have "p \<in> set (drop 0 ps)" using p ix(2) io by simp
      moreover have "length ps = ?n + 1" using ix(1) io p by simp
      ultimately obtain qs where qs: "del_pos ?n p 0 ps = Some qs" "take ?n qs = ps'"
        using del_pos_spec[of 0 ps p ?n] ix(3) io by (auto simp: ps'_def dec_def[abs_def])
      let ?h = "h\<lparr>pnPos := Some ps', pPairs := ?ps, nSize := sz\<rparr>"
      have "hb_hashDelPair h p = Some ?h" using False Some rs qs by (simp add: hb_hashDelPair_def sz_def Let_def)
      moreover have "hash_inv code K ?h"
        using rs sh so' K sz len Some ns pm by (simp add: hash_inv_def hash_shape_def index_of_def codes_def)
      ultimately show ?thesis using hm by (simp add: hash_map_def)
    qed
  qed
qed

section \<open>Searching and sorting a table\<close>

lemma sorted_insert_at:
  fixes c :: "'c::linorder"
  assumes "sorted_wrt (<) cs" "n \<le> length cs" "\<And>i. i < n \<Longrightarrow> cs ! i < c" "\<And>i. n \<le> i \<Longrightarrow> i < length cs \<Longrightarrow> c < cs ! i"
  shows "sorted_wrt (<) (take n cs @ c # drop n cs)"
proof -
  have t: "\<forall>x \<in> set (take n cs). x < c" using assms(2,3) by (auto simp: in_set_conv_nth)
  have d: "\<forall>y \<in> set (drop n cs). c < y" using assms(4) by (auto simp: in_set_conv_nth)
  have "sorted_wrt (<) (take n cs @ drop n cs)" using assms(1) by simp
  note so = this[unfolded sorted_wrt_append]
  show ?thesis unfolding sorted_wrt_append using so t d by auto
qed

lemma sorted_insert_le:
  fixes c :: "'c::linorder"
  assumes "sorted cs" "n \<le> length cs" "\<And>i. i < n \<Longrightarrow> cs ! i \<le> c" "\<And>i. n \<le> i \<Longrightarrow> i < length cs \<Longrightarrow> c \<le> cs ! i"
  shows "sorted (take n cs @ c # drop n cs)"
proof -
  have t: "\<forall>x \<in> set (take n cs). x \<le> c" using assms(2,3) by (auto simp: in_set_conv_nth)
  have d: "\<forall>y \<in> set (drop n cs). c \<le> y" using assms(4) by (auto simp: in_set_conv_nth)
  have "sorted (take n cs @ drop n cs)" using assms(1) by simp
  note so = this[unfolded sorted_append]
  show ?thesis unfolding sorted_append using so t d by auto
qed

context key_order
begin

lemma find_in_hash:
  assumes inv: "hash_inv code K h" and k: "k \<in> K"
  shows "case find_loop cmp (\<lambda>i. fst (pPairs h ! pair_at h i)) k 0 (nLen h) of (found, n) \<Rightarrow>
    if found then pair_at h n < nLen h \<and> code (fst (pPairs h ! pair_at h n)) = code k
    else n \<le> nLen h \<and> hash_map code h (code k) = None \<and>
      sorted_wrt (<) (take n (codes code h) @ code k # drop n (codes code h))"
proof -
  have i: "mset (index_of h) = mset [0..<nLen h]" and so: "sorted_wrt (<) (codes code h)"
    and sh: "set (map fst (pPairs h)) \<subseteq> K" using inv by (auto simp: hash_inv_def hash_shape_def)
  note ix = index_facts[OF i]
  let ?f = "\<lambda>i. fst (pPairs h ! pair_at h i)"
  have lc: "length (codes code h) = nLen h" using ix(1) by (simp add: codes_def)
  have cn: "codes code h ! j = code (?f j)" if "j < nLen h" for j using codes_nth[OF ix(1) that] .
  have pa: "pair_at h j < nLen h" if "j < nLen h" for j
    using that ix pair_at_index[OF that] nth_mem[of j "index_of h"] by simp
  have fK: "?f j \<in> K" if "j < nLen h" for j using pa[OF that] sh by auto
  have st: "code (?f a) < code (?f b)" if "a < b" "b < nLen h" for a b
    using sorted_wrt_nth_less[OF so that(1)] that cn lc by simp
  obtain found n where r: "find_loop cmp ?f k 0 (nLen h) = (found, n)" by fastforce
  have S: "if found then n < nLen h \<and> code (?f n) = code k else between ?f (nLen h) k n"
    using find_loop_spec[of "nLen h" ?f k 0 "nLen h"] fK k st r by auto
  show ?thesis
  proof (cases found)
    case True
    then show ?thesis using S r pa by simp
  next
    case False
    then have b: "n \<le> nLen h" "\<And>j. j < n \<Longrightarrow> code (?f j) < code k" "\<And>j. n \<le> j \<Longrightarrow> j < nLen h \<Longrightarrow> code k < code (?f j)"
      using S by (auto simp: between_def)
    have ne: "codes code h ! j \<noteq> code k" if "j < nLen h" for j
      using cn[OF that] b(2,3)[of j] that by (cases "j < n") auto
    then have "code k \<notin> set (codes code h)" using lc by (auto simp: in_set_conv_nth)
    then have "code k \<notin> set (map (code \<circ> fst) (pPairs h))" using codes_perm[OF i, of code] by (metis set_mset_mset)
    then have "hash_map code h (code k) = None" by (rule hash_map_None[THEN iffD2])
    moreover have "sorted_wrt (<) (take n (codes code h) @ code k # drop n (codes code h))"
      using so b lc cn by (intro sorted_insert_at) auto
    ultimately show ?thesis using False r b(1) by simp
  qed
qed

lemma sort_index_sorted:
  assumes "set (map fst pairs) \<subseteq> K" "n + k = length pairs" "mset ps = mset [0..<n]"
    and "sorted (map (\<lambda>i. code (fst (pairs ! i))) ps)"
  shows "mset (sort_index cmp pairs n k ps) = mset [0..<n + k] \<and>
    sorted (map (\<lambda>i. code (fst (pairs ! i))) (sort_index cmp pairs n k ps))"
  using assms(2-)
proof (induction k arbitrary: n ps)
  case (Suc k)
  let ?g = "\<lambda>i. code (fst (pairs ! i))"
  have lp: "length ps = n" using Suc.prems(2) by (metis diff_zero length_upt size_mset)
  have sp: "set ps = {0..<n}" using Suc.prems(2) by (metis set_mset_mset set_upt)
  define m where "m = upper_loop cmp (\<lambda>i. fst (pairs ! (ps ! i))) (fst (pairs ! n)) 0 n"
  have in_K: "fst (pairs ! i) \<in> K" if "i < length pairs" for i using that assms(1) by auto
  have psn: "ps ! i < length pairs" if "i < n" for i
    using that sp lp nth_mem[of i ps] Suc.prems(1) by auto
  have srt: "code (fst (pairs ! (ps ! i))) \<le> code (fst (pairs ! (ps ! j)))" if "i < j" "j < n" for i j
    using sorted_nth_mono[OF Suc.prems(3), of i j] that lp by simp
  have U: "m \<le> n" "\<And>i. i < m \<Longrightarrow> ?g (ps ! i) \<le> ?g n" "\<And>i. m \<le> i \<Longrightarrow> i < n \<Longrightarrow> ?g n \<le> ?g (ps ! i)"
    using upper_loop_spec[of n "\<lambda>i. fst (pairs ! (ps ! i))" "fst (pairs ! n)" 0 n] in_K psn srt Suc.prems(1)
    by (auto simp: m_def)
  let ?ps = "take m ps @ n # drop m ps"
  have "mset ?ps = mset [0..<n + 1]"
    unfolding upt_plus_1 using Suc.prems(2) mset_insert_at[of m ps n] by (simp del: mset_upt)
  moreover have "sorted (map ?g ?ps)"
    unfolding nth_take_drop_insert[OF U(1)[folded lp]] using Suc.prems(3) U lp by (intro sorted_insert_le) auto
  ultimately have "mset (sort_index cmp pairs (n + 1) k ?ps) = mset [0..<n + 1 + k] \<and>
      sorted (map ?g (sort_index cmp pairs (n + 1) k ?ps))"
    using Suc.prems(1) by (intro Suc.IH) auto
  moreover have "n + 1 + k = n + Suc k" by simp
  ultimately show ?case by (simp add: m_def Let_def)
qed simp

lemma sink_pair_sorted:
  assumes "set (map fst xs) \<subseteq> K" "n < length xs" "sorted (map (code \<circ> fst) (take n xs))"
  shows "length (sink_pair cmp n xs) = length xs \<and> drop (n + 1) (sink_pair cmp n xs) = drop (n + 1) xs \<and>
    mset (take (n + 1) (sink_pair cmp n xs)) = mset (take (n + 1) xs) \<and>
    sorted (map (code \<circ> fst) (take (n + 1) (sink_pair cmp n xs)))"
  using assms
proof (induction n arbitrary: xs)
  case 0
  then show ?case by (cases xs) (auto simp: One_nat_def)
next
  case (Suc n)
  let ?c = "code \<circ> fst"
  let ?a = "xs ! n" and ?b = "xs ! Suc n"
  have t: "take (Suc n) xs = take n xs @ [?a]" "take (Suc n + 1) xs = take n xs @ [?a, ?b]"
    using Suc.prems(2) by (simp_all add: take_Suc_conv_app_nth Suc_eq_plus1[symmetric])
  have so: "sorted (map ?c (take n xs))" "\<forall>x \<in> set (take n xs). ?c x \<le> ?c ?a"
    using Suc.prems(3) unfolding t by (auto simp: sorted_append comp_def)
  have mem: "fst ?a \<in> K" "fst ?b \<in> K" using Suc.prems(1,2) by auto
  show ?case
  proof (cases "cmp (fst ?a) (fst ?b) > 0")
    case False
    then have "?c ?a \<le> ?c ?b" using cmp_greater[OF mem] by simp
    then have "sorted (map ?c (take (Suc n + 1) xs))"
      unfolding t using so by (auto simp: sorted_append intro: order_trans)
    then show ?thesis using False by (simp add: comp_def)
  next
    case True
    then have lt: "?c ?b < ?c ?a" using cmp_greater[OF mem] by simp
    let ?ys = "xs[n := ?b, Suc n := ?a]"
    have st: "sink_pair cmp (Suc n) xs = sink_pair cmp n ?ys" using True by simp
    have y: "take n ?ys = take n xs" "?ys ! n = ?b" "?ys ! Suc n = ?a" "length ?ys = length xs"
      "drop (Suc n + 1) ?ys = drop (Suc n + 1) xs"
      using Suc.prems(2) by simp_all
    have ty: "take (n + 1) ?ys = take n xs @ [?b]"
      using y(1,2) Suc.prems(2) take_Suc_conv_app_nth[of n ?ys] by (simp add: Suc_eq_plus1[symmetric])
    have dy: "drop (n + 1) ?ys = ?a # drop (Suc n + 1) xs"
      using y(3,5) Suc.prems(2) Cons_nth_drop_Suc[of "Suc n" ?ys] by (simp add: Suc_eq_plus1[symmetric])
    have "set ?ys \<subseteq> set xs" using Suc.prems(2) by (auto simp: in_set_conv_nth nth_list_update split: if_splits)
    then have "set (map fst ?ys) \<subseteq> K" using Suc.prems(1) by auto
    moreover have "n < length ?ys" using Suc.prems(2) by simp
    moreover have "sorted (map ?c (take n ?ys))" unfolding y(1) by (rule so(1))
    ultimately have ih: "length (sink_pair cmp n ?ys) = length ?ys \<and> drop (n + 1) (sink_pair cmp n ?ys) = drop (n + 1) ?ys \<and>
      mset (take (n + 1) (sink_pair cmp n ?ys)) = mset (take (n + 1) ?ys) \<and>
      sorted (map ?c (take (n + 1) (sink_pair cmp n ?ys)))" by (rule Suc.IH)
    then have IH: "length (sink_pair cmp n ?ys) = length xs"
      "drop (n + 1) (sink_pair cmp n ?ys) = ?a # drop (Suc n + 1) xs"
      "mset (take (n + 1) (sink_pair cmp n ?ys)) = mset (take n xs @ [?b])"
      "sorted (map ?c (take (n + 1) (sink_pair cmp n ?ys)))"
      unfolding y(4) ty dy by blast+
    let ?z = "sink_pair cmp n ?ys"
    have d: "drop (Suc n + 1) ?z = drop (Suc n + 1) xs" using arg_cong[OF IH(2), of tl] by (simp add: tl_drop drop_Suc[symmetric] Suc_eq_plus1[symmetric])
    have "take (Suc n + 1) ?z = take (n + 1) ?z @ [?a]"
      using IH(1,2) Suc.prems(2) take_Suc_conv_app_nth[of "n + 1" ?z] hd_drop_conv_nth[of "n + 1" ?z] by simp
    moreover have "set (take (n + 1) ?z) = set (take n xs @ [?b])" using IH(3) by (metis set_mset_mset)
    ultimately have "sorted (map ?c (take (Suc n + 1) ?z))" "mset (take (Suc n + 1) ?z) = mset (take (Suc n + 1) xs)"
      using IH(3,4) so(2) lt unfolding t by (auto simp: sorted_append)
    then show ?thesis unfolding st using IH(1) d by (simp add: comp_def)
  qed
qed

lemma sort_pairs_sorted:
  assumes "set (map fst xs) \<subseteq> K" "n + k = length xs" "sorted (map (code \<circ> fst) (take n xs))"
  shows "length (sort_pairs cmp n k xs) = length xs \<and> mset (sort_pairs cmp n k xs) = mset xs \<and>
    sorted (map (code \<circ> fst) (sort_pairs cmp n k xs))"
  using assms
proof (induction k arbitrary: n xs)
  case (Suc k)
  let ?z = "sink_pair cmp n xs"
  have z: "length ?z = length xs" "drop (n + 1) ?z = drop (n + 1) xs"
    "mset (take (n + 1) ?z) = mset (take (n + 1) xs)" "sorted (map (code \<circ> fst) (take (n + 1) ?z))"
    using sink_pair_sorted[OF Suc.prems(1) _ Suc.prems(3)] Suc.prems(2) by auto
  have "mset ?z = mset (take (n + 1) ?z) + mset (drop (n + 1) ?z)" by (metis append_take_drop_id mset_append)
  also have "\<dots> = mset xs" unfolding z(2,3) by (metis append_take_drop_id mset_append)
  finally have m: "mset ?z = mset xs" .
  then have "set ?z = set xs" by (metis set_mset_mset)
  then have "set (map fst ?z) \<subseteq> K" using Suc.prems(1) by simp
  moreover have "n + 1 + k = length ?z" using z(1) Suc.prems(2) by simp
  ultimately have "length (sort_pairs cmp (n + 1) k ?z) = length ?z \<and> mset (sort_pairs cmp (n + 1) k ?z) = mset ?z \<and>
      sorted (map (code \<circ> fst) (sort_pairs cmp (n + 1) k ?z))"
    using z(4) by (rule Suc.IH)
  then show ?case using z(1) m by (simp add: comp_def)
qed (simp add: comp_def)
end

end
