(* ===== verification/HashFacts.thy ===== *)
theory HashFacts
  imports HashIndex StrOrder "HOL-Library.Product_Lexorder"
begin

text \<open>
  Hash items as finite maps: \<open>key_code\<close> is the order hb_hashItemCmp sorts by,
  \<open>abs_hash\<close> the map a hash stands for and \<open>hash_valid\<close> what every operation
  of vm/hashes.c keeps.  Keys with a fraction are left out (\<open>plain_keys\<close>): the
  comparison of doubles is not a linear order.
\<close>

declare One_nat_def [simp del]

section \<open>The order of the keys\<close>

lemma byte_icmp_upper: "byte_icmp a b = byte_cmp (map to_upper a) (map to_upper b)"
  by (induction a b rule: byte_icmp.induct) (simp_all add: Let_def)

lemma stricmp_exact:
  assumes "hcdpcmp (lcmp E) s = None"
  shows "hb_itemStrICmp E a b True s = hb_itemStrCmp (lcmp E) (map to_upper a) (map to_upper b) True s"
proof -
  have t: "(\<not> True \<and> x) = False" for x by simp
  show ?thesis unfolding hb_itemStrICmp_def hb_itemStrCmp_def t Let_def assms byte_icmp_upper by simp
qed

fun key_code :: "32 word \<Rightarrow> item \<Rightarrow> nat \<times> int list" where
  "key_code fl (I_String m cs) =
     (3, if fl AND HB_HASH_BINARY \<noteq> 0 then int (length cs) # str_key cs
         else if fl AND HB_HASH_IGNORECASE \<noteq> 0 then str_key (map to_upper cs) else str_key cs)"
| "key_code fl (I_Date j) = (2, [j, 0])"
| "key_code fl (I_TimeStamp j t) = (2, [j, t])"
| "key_code fl (I_Pointer p) = (1, [int p])"
| "key_code fl x = (0, [HB_ITEM_GET_NUMINTRAW x])"

definition plain_keys :: "'w hash_lib \<Rightarrow> 'w vm \<Rightarrow> 32 word \<Rightarrow> item set" where
  "plain_keys E s fl = {k. HB_IS_HASHKEY k \<and> \<not> HB_IS_DOUBLE k \<and>
     (HB_IS_STRING k \<longrightarrow> fl AND HB_HASH_BINARY \<noteq> 0 \<or> hcdpcmp (lcmp E) s = None)}"

lemma byte_cmp_same_length:
  assumes "length a = length b"
  shows "byte_cmp a b < 0 \<longleftrightarrow> str_key a < str_key b" "byte_cmp a b > 0 \<longleftrightarrow> str_key b < str_key a"
  using byte_cmp_lex[of a b] assms by simp_all

lemma string_keys_cmp:
  assumes "fl AND HB_HASH_BINARY \<noteq> 0 \<or> hcdpcmp (lcmp E) s = None"
  shows "hb_hashItemCmp E s fl (I_String m a) (I_String n b) < 0 \<longleftrightarrow> key_code fl (I_String m a) < key_code fl (I_String n b)"
    "hb_hashItemCmp E s fl (I_String m a) (I_String n b) > 0 \<longleftrightarrow> key_code fl (I_String n b) < key_code fl (I_String m a)"
  using assms byte_cmp_same_length[of a b]
  by (auto simp: hb_hashItemCmp_def stricmp_exact strcmp_exact)

lemma hb_hashItemCmp_code:
  assumes "a \<in> plain_keys E s fl" "b \<in> plain_keys E s fl"
  shows "(hb_hashItemCmp E s fl a b < 0 \<longleftrightarrow> key_code fl a < key_code fl b) \<and>
    (hb_hashItemCmp E s fl a b > 0 \<longleftrightarrow> key_code fl b < key_code fl a)"
proof (cases "HB_IS_STRING a \<and> HB_IS_STRING b")
  case True
  then obtain m as n bs where "a = I_String m as" "b = I_String n bs" by (cases a; cases b) simp_all
  then show ?thesis using assms string_keys_cmp[of fl E s] by (simp add: plain_keys_def)
next
  case False
  then show ?thesis using assms
    by (cases a; cases b) (simp_all add: plain_keys_def hb_hashItemCmp_def HB_IS_HASHKEY_def HB_IS_NUMERIC_def Let_def)
qed

interpretation keys: key_order "hb_hashItemCmp E s fl" "plain_keys E s fl" "key_code fl"
  for E :: "'w hash_lib" and s fl
  by unfold_locales (simp_all add: hb_hashItemCmp_code)

lemma key_code_flags:
  "key_code (fl AND NOT HB_HASH_RESORT) = key_code fl"
proof
  have f: "(fl AND NOT HB_HASH_RESORT) AND HB_HASH_BINARY = fl AND HB_HASH_BINARY"
    "(fl AND NOT HB_HASH_RESORT) AND HB_HASH_IGNORECASE = fl AND HB_HASH_IGNORECASE"
    by (simp_all add: and.assoc)
  show "key_code (fl AND NOT HB_HASH_RESORT) x = key_code fl x" for x
    by (cases x) (simp_all only: key_code.simps f)
qed

lemma plain_keys_flags: "plain_keys E s (fl AND NOT HB_HASH_RESORT) = plain_keys E s fl"
proof -
  have f: "(fl AND NOT HB_HASH_RESORT) AND HB_HASH_BINARY = fl AND HB_HASH_BINARY" by (simp add: and.assoc)
  show ?thesis by (simp only: plain_keys_def f)
qed

lemma plain_key_copy: "k \<in> plain_keys E s fl \<Longrightarrow> copy_val k = k \<and> HB_IS_HASHKEY k"
  by (cases k) (auto simp: plain_keys_def copy_val_def HB_IS_HASHKEY_def HB_IS_NUMERIC_def)

section \<open>The map of a hash\<close>

text \<open>What a hash stands for, and what every operation keeps of it.\<close>

abbreviation hcode :: "BASEHASH \<Rightarrow> item \<Rightarrow> nat \<times> int list" where "hcode h \<equiv> key_code (iFlags h)"

definition abs_hash :: "BASEHASH \<Rightarrow> nat \<times> int list \<Rightarrow> item option" where
  "abs_hash h = hash_map (hcode h) h"

definition hash_keys :: "'w hash_lib \<Rightarrow> 'w vm \<Rightarrow> BASEHASH \<Rightarrow> item set" where
  "hash_keys E s h = plain_keys E s (iFlags h)"

definition hash_valid :: "'w hash_lib \<Rightarrow> 'w vm \<Rightarrow> BASEHASH \<Rightarrow> bool" where
  "hash_valid E s h \<longleftrightarrow> hash_shape (hash_keys E s h) h \<and> distinct (map (hcode h \<circ> fst) (pPairs h)) \<and>
     (iFlags h AND HB_HASH_RESORT = 0 \<longrightarrow> sorted_wrt (<) (codes (hcode h) h))"

text \<open>The flags the order of the keys depends on.\<close>

definition same_order :: "BASEHASH \<Rightarrow> BASEHASH \<Rightarrow> bool" where
  "same_order h h' \<longleftrightarrow> iFlags h' = iFlags h \<or> iFlags h' = iFlags h AND NOT HB_HASH_RESORT"

lemma same_orderD:
  assumes "same_order h h'"
  shows "hcode h' = hcode h" "hash_keys E s h' = hash_keys E s h"
    "iFlags h' AND HB_HASH_KEEPORDER = iFlags h AND HB_HASH_KEEPORDER"
proof -
  have keep: "(fl AND NOT HB_HASH_RESORT) AND HB_HASH_KEEPORDER = fl AND HB_HASH_KEEPORDER" for fl
    by (simp add: and.assoc)
  consider "iFlags h' = iFlags h" | "iFlags h' = iFlags h AND NOT HB_HASH_RESORT"
    using assms unfolding same_order_def by blast
  then have "hcode h' = hcode h \<and> hash_keys E s h' = hash_keys E s h \<and>
    iFlags h' AND HB_HASH_KEEPORDER = iFlags h AND HB_HASH_KEEPORDER"
    by cases (simp_all only: hash_keys_def key_code_flags plain_keys_flags keep)
  then show "hcode h' = hcode h" "hash_keys E s h' = hash_keys E s h"
    "iFlags h' AND HB_HASH_KEEPORDER = iFlags h AND HB_HASH_KEEPORDER" by blast+
qed

lemma hash_map_perm:
  assumes "mset (pPairs h') = mset (pPairs h)" "distinct (map (code \<circ> fst) (pPairs h))"
  shows "hash_map code h' = hash_map code h" "distinct (map (code \<circ> fst) (pPairs h'))"
proof -
  have "mset (map (code \<circ> fst) (pPairs h')) = mset (map (code \<circ> fst) (pPairs h))" unfolding mset_map assms(1) ..
  then show d: "distinct (map (code \<circ> fst) (pPairs h'))" using assms(2) by (metis mset_eq_imp_distinct_iff)
  have "set (pPairs h') = set (pPairs h)" using assms(1) by (metis set_mset_mset)
  then show "hash_map code h' = hash_map code h"
    unfolding hash_map_def using d assms(2) by (intro map_of_inject_set[THEN iffD2]) (simp_all add: case_prod_unfold comp_def)
qed

lemma hb_hashSortDo_facts:
  assumes "hash_shape (hash_keys E s h) h"
  defines "h' \<equiv> hb_hashSortDo E s h"
  shows "hash_shape (hash_keys E s h) h'" "mset (pPairs h') = mset (pPairs h)" "sorted (codes (hcode h) h')"
    "iFlags h' = iFlags h AND NOT HB_HASH_RESORT" "pDefault h' = pDefault h"
    "iFlags h AND HB_HASH_KEEPORDER \<noteq> 0 \<longrightarrow> pPairs h' = pPairs h"
proof -
  let ?cmp = "hb_hashItemCmp E s (iFlags h)"
  have K: "set (map fst (pPairs h)) \<subseteq> plain_keys E s (iFlags h)" and i: "mset (index_of h) = mset [0..<nLen h]"
    and sz: "nLen h \<le> nSize h" and pos: "pnPos h \<noteq> None \<longleftrightarrow> nSize h \<noteq> 0 \<and> iFlags h AND HB_HASH_KEEPORDER \<noteq> 0"
    using assms(1) by (auto simp: hash_shape_def hash_keys_def)
  have fl: "(iFlags h AND NOT HB_HASH_RESORT) AND HB_HASH_KEEPORDER = iFlags h AND HB_HASH_KEEPORDER"
    by (simp add: and.assoc)
  show "iFlags h' = iFlags h AND NOT HB_HASH_RESORT" "pDefault h' = pDefault h"
    by (simp_all add: h'_def hb_hashSortDo_def Let_def split: option.split)
  have "hash_shape (hash_keys E s h) h' \<and> mset (pPairs h') = mset (pPairs h) \<and> sorted (codes (hcode h) h') \<and>
    (iFlags h AND HB_HASH_KEEPORDER \<noteq> 0 \<longrightarrow> pPairs h' = pPairs h)"
  proof (cases "pnPos h")
    case (Some ps)
    define qs where "qs = (if nLen h = 0 then [] else sort_index ?cmp (pPairs h) 1 (nLen h - 1) [0])"
    have h': "h' = h\<lparr>pnPos := Some qs, iFlags := iFlags h AND NOT HB_HASH_RESORT\<rparr>"
      using Some by (simp add: h'_def hb_hashSortDo_def Let_def qs_def)
    have "mset qs = mset [0..<nLen h] \<and> sorted (map (\<lambda>i. hcode h (fst (pPairs h ! i))) qs)"
    proof (cases "nLen h = 0")
      case False
      then show ?thesis unfolding qs_def using keys.sort_index_sorted[OF K, of 1 "nLen h - 1" "[0]"]
        by (simp add: upt_conv_Cons One_nat_def)
    qed (simp add: qs_def)
    then show ?thesis using assms(1) Some fl unfolding h'
      by (simp add: hash_shape_def index_of_def codes_def del: mset_upt)
  next
    case None
    define qs where "qs = sort_pairs ?cmp 1 (nLen h - 1) (pPairs h)"
    have h': "h' = h\<lparr>pPairs := qs, iFlags := iFlags h AND NOT HB_HASH_RESORT\<rparr>"
      using None by (simp add: h'_def hb_hashSortDo_def Let_def qs_def)
    have q: "length qs = nLen h \<and> mset qs = mset (pPairs h) \<and> sorted (map (hcode h \<circ> fst) qs)"
    proof (cases "nLen h = 0")
      case True
      then show ?thesis by (simp add: qs_def)
    next
      case False
      have "sorted (map (hcode h \<circ> fst) (take 1 (pPairs h)))" by (cases "pPairs h") (simp_all add: One_nat_def)
      then show ?thesis unfolding qs_def using keys.sort_pairs_sorted[OF K, of 1 "nLen h - 1"] False by simp
    qed
    then have "set qs = set (pPairs h)" by (metis set_mset_mset)
    moreover have "codes (hcode h) h' = map (hcode h \<circ> fst) (pPairs h')" using None unfolding h' by (intro codes_None) simp
    moreover have "nSize h = 0 \<longrightarrow> qs = []" using q sz by auto
    ultimately show ?thesis using assms(1) None fl q pos sz unfolding h'
      by (auto simp: hash_shape_def index_of_def simp del: mset_upt)
  qed
  then show "hash_shape (hash_keys E s h) h'" "mset (pPairs h') = mset (pPairs h)" "sorted (codes (hcode h) h')"
    "iFlags h AND HB_HASH_KEEPORDER \<noteq> 0 \<longrightarrow> pPairs h' = pPairs h" by blast+
qed

lemma hash_valid_inv:
  assumes "hash_valid E s h" "iFlags h AND HB_HASH_RESORT = 0"
  shows "hash_inv (hcode h) (hash_keys E s h) h"
  using assms by (simp add: hash_valid_def hash_inv_def)

lemma hash_inv_valid:
  assumes "hash_inv (hcode h) (hash_keys E s h) h"
  shows "hash_valid E s h"
  using assms distinct_codes[of h "hcode h"] by (simp add: hash_valid_def hash_inv_def hash_shape_def)

text \<open>The table a search works on.\<close>

definition sorted_hash :: "'w hash_lib \<Rightarrow> 'w vm \<Rightarrow> BASEHASH \<Rightarrow> BASEHASH" where
  "sorted_hash E s h = (if iFlags h AND HB_HASH_RESORT \<noteq> 0 then hb_hashSortDo E s h else h)"

lemma sorted_hash_facts:
  assumes "hash_valid E s h"
  defines "h' \<equiv> sorted_hash E s h"
  shows "same_order h h'" "hash_inv (hcode h) (hash_keys E s h) h'" "abs_hash h' = abs_hash h"
    "pDefault h' = pDefault h" "mset (pPairs h') = mset (pPairs h)"
    "iFlags h AND HB_HASH_KEEPORDER \<noteq> 0 \<longrightarrow> pPairs h' = pPairs h"
proof -
  have v: "hash_shape (hash_keys E s h) h" "distinct (map (hcode h \<circ> fst) (pPairs h))"
    using assms(1) by (simp_all add: hash_valid_def)
  note f = hb_hashSortDo_facts[OF v(1)]
  show so: "same_order h h'" using f(4) by (simp add: h'_def sorted_hash_def same_order_def)
  show "pDefault h' = pDefault h" using f(5) by (simp add: h'_def sorted_hash_def)
  show m: "mset (pPairs h') = mset (pPairs h)" using f(2) by (simp add: h'_def sorted_hash_def)
  show "iFlags h AND HB_HASH_KEEPORDER \<noteq> 0 \<longrightarrow> pPairs h' = pPairs h" using f(6) by (simp add: h'_def sorted_hash_def)
  show "abs_hash h' = abs_hash h" using hash_map_perm(1)[OF m v(2)] same_orderD(1)[OF so] by (simp add: abs_hash_def)
  show "hash_inv (hcode h) (hash_keys E s h) h'"
  proof (cases "iFlags h AND HB_HASH_RESORT = 0")
    case True
    then show ?thesis using hash_valid_inv[OF assms(1)] by (simp add: h'_def sorted_hash_def)
  next
    case False
    then have h': "h' = hb_hashSortDo E s h" by (simp add: h'_def sorted_hash_def)
    have "mset (codes (hcode h) h') = mset (map (hcode h \<circ> fst) (pPairs h'))"
      using f(1) by (intro codes_perm) (simp add: h' hash_shape_def)
    moreover have "distinct (map (hcode h \<circ> fst) (pPairs h'))" by (rule hash_map_perm(2)[OF m v(2)])
    ultimately have "distinct (codes (hcode h) h')" by (metis mset_eq_imp_distinct_iff)
    then have "sorted_wrt (<) (codes (hcode h) h')" using f(3) by (simp add: h' strict_sorted_iff)
    then show ?thesis using f(1,4) unfolding h' hash_inv_def by (simp add: and.assoc)
  qed
qed

lemma hb_hashFind_facts:
  assumes "hash_valid E s h" "k \<in> hash_keys E s h"
  defines "h' \<equiv> sorted_hash E s h"
  obtains (found) n where "hb_hashFind E s h k = (h', True, n)" "n < nLen h'" "hcode h (fst (pPairs h' ! n)) = hcode h k"
    "abs_hash h (hcode h k) = Some (snd (pPairs h' ! n))"
  | (new) n where "hb_hashFind E s h k = (h', False, n)" "n \<le> nLen h'" "abs_hash h (hcode h k) = None"
    "sorted_wrt (<) (take n (codes (hcode h) h') @ hcode h k # drop n (codes (hcode h) h'))"
proof -
  note f = sorted_hash_facts[OF assms(1), folded h'_def]
  have k: "k \<in> plain_keys E s (iFlags h)" using assms(2) by (simp add: hash_keys_def)
  let ?cmp = "hb_hashItemCmp E s (iFlags h)"
  obtain b n where r: "find_loop ?cmp (\<lambda>i. fst (pPairs h' ! pair_at h' i)) k 0 (nLen h') = (b, n)" by fastforce
  have F: "hb_hashFind E s h k = (h', b, if b then pair_at h' n else n)"
    using r by (simp add: hb_hashFind_def Let_def h'_def sorted_hash_def)
  have S: "if b then pair_at h' n < nLen h' \<and> hcode h (fst (pPairs h' ! pair_at h' n)) = hcode h k
    else n \<le> nLen h' \<and> hash_map (hcode h) h' (hcode h k) = None \<and>
      sorted_wrt (<) (take n (codes (hcode h) h') @ hcode h k # drop n (codes (hcode h) h'))"
    using keys.find_in_hash[OF f(2)[unfolded hash_keys_def] k] r by simp
  have am: "abs_hash h = hash_map (hcode h) h'" using f(3) same_orderD(1)[OF f(1)] by (simp add: abs_hash_def)
  show thesis
  proof (cases b)
    case True
    then have p: "pair_at h' n < nLen h'" "hcode h (fst (pPairs h' ! pair_at h' n)) = hcode h k" using S by auto
    have "distinct (map (hcode h \<circ> fst) (pPairs h'))"
      using f(2) by (intro distinct_codes) (simp_all add: hash_inv_def hash_shape_def)
    from hash_map_at[OF this p(1)] show thesis using found[of "pair_at h' n"] F True p am by simp
  next
    case False
    then show thesis using new[of n] F S am by simp
  qed
qed

section \<open>Values and new pairs\<close>

lemma hash_inv_same:
  assumes "same_order h h'" "hash_inv (hcode h) (hash_keys E s h) h'"
  shows "hash_valid E s h'"
  using hash_inv_valid[of h' E s] assms(2) by (simp only: same_orderD[OF assms(1)])

lemma valid_after_find:
  assumes "hash_valid E s h"
  shows "hash_valid E s (sorted_hash E s h)"
  using hash_inv_same sorted_hash_facts[OF assms] by blast

text \<open>Storing a value in the pair found.\<close>

lemma set_value_facts:
  assumes "hash_valid E s h" "n < nLen h"
  shows "hash_valid E s (set_value h n v)" "abs_hash (set_value h n v) = (abs_hash h)(hcode h (fst (pPairs h ! n)) \<mapsto> v)"
    "same_order h (set_value h n v)"
proof -
  let ?h = "set_value h n v" and ?p = "\<lambda>(k, v). (hcode h k, v)"
  have keys: "map fst (pPairs ?h) = map fst (pPairs h)"
    using assms(2) by (intro nth_equalityI) (auto simp: set_value_def nth_list_update)
  then have kc: "map (hcode h \<circ> fst) (pPairs ?h) = map (hcode h \<circ> fst) (pPairs h)"
    by (simp only: map_map[symmetric])
  have len: "nLen ?h = nLen h" by (simp add: set_value_def)
  have rest: "iFlags ?h = iFlags h" "nSize ?h = nSize h" "pnPos ?h = pnPos h" by (simp_all add: set_value_def)
  have io: "index_of ?h = index_of h" unfolding index_of_def rest len ..
  have i: "mset (index_of h) = mset [0..<nLen h]" using assms(1) by (simp add: hash_valid_def hash_shape_def)
  have nk: "fst (pPairs ?h ! i) = fst (pPairs h ! i)" if "i < nLen h" for i
    using arg_cong[OF keys, of "\<lambda>xs. xs ! i"] that len by simp
  have cs: "codes (hcode h) ?h = codes (hcode h) h"
    unfolding codes_def io using nk index_facts(2)[OF i] by (intro map_cong) auto
  have sh: "hash_keys E s ?h = hash_keys E s h" using rest by (simp add: hash_keys_def)
  show "hash_valid E s ?h" using assms(1) unfolding hash_valid_def hash_shape_def keys kc rest cs io len sh .
  show "same_order h ?h" using rest by (simp add: same_order_def)
  have d: "distinct (map (hcode h \<circ> fst) (pPairs h))" using assms(1) by (simp add: hash_valid_def)
  show "abs_hash ?h = (abs_hash h)(hcode h (fst (pPairs h ! n)) \<mapsto> v)"
  proof
    fix c
    show "abs_hash ?h c = ((abs_hash h)(hcode h (fst (pPairs h ! n)) \<mapsto> v)) c"
    proof (cases "c \<in> set (map (hcode h \<circ> fst) (pPairs h))")
      case False
      moreover have "c \<noteq> hcode h (fst (pPairs h ! n))" using False assms(2) by auto
      ultimately show ?thesis using hash_map_None[of "hcode h"] kc rest unfolding abs_hash_def by (metis fun_upd_other)
    next
      case True
      then obtain i where i: "i < nLen h" "c = hcode h (fst (pPairs h ! i))" by (auto simp: in_set_conv_nth)
      have "abs_hash ?h c = Some (snd (pPairs ?h ! i))"
        using hash_map_at[of "hcode h" ?h i] d kc nk[OF i(1)] i len rest unfolding abs_hash_def by simp
      moreover have "abs_hash h c = Some (snd (pPairs h ! i))" using hash_map_at[OF d i(1)] i(2) by (simp add: abs_hash_def)
      moreover have "c = hcode h (fst (pPairs h ! n)) \<longleftrightarrow> i = n" using i d assms(2) nth_eq_iff_index_eq[OF d, of i n] by simp
      ultimately show ?thesis using assms(2) by (auto simp: set_value_def nth_list_update)
    qed
  qed
qed

lemma new_pair_facts:
  assumes v: "hash_valid E s h" and k: "k \<in> hash_keys E s h" and F: "hb_hashFind E s h k = (h1, False, n)"
    and I: "insert_pair h1 n (k, x) = (h', m)"
  shows "hash_valid E s h'" "abs_hash h' = (abs_hash h)(hcode h k \<mapsto> x)" "m < nLen h'" "pPairs h' ! m = (k, x)"
    "same_order h h'" "pDefault h' = pDefault h"
    "iFlags h AND HB_HASH_KEEPORDER \<noteq> 0 \<longrightarrow> pPairs h' = pPairs h @ [(k, x)] \<and> m = nLen h"
proof -
  note f = sorted_hash_facts[OF v]
  obtain "h1 = sorted_hash E s h" "n \<le> nLen h1" "abs_hash h (hcode h k) = None"
    "sorted_wrt (<) (take n (codes (hcode h) h1) @ hcode h k # drop n (codes (hcode h) h1))"
    using hb_hashFind_facts[OF v k] F by (cases; force)
  note g = this and so = f(1)[folded this(1)]
  have am: "abs_hash h = hash_map (hcode h) h1" using f(3) same_orderD(1)[OF so] g(1) by (simp add: abs_hash_def)
  have inv1: "hash_inv (hcode h) (hash_keys E s h) h1" using f(2) g(1) by simp
  then have sh: "hash_shape (hash_keys E s h) h1" and rs: "iFlags h1 AND HB_HASH_RESORT = 0" by (simp_all add: hash_inv_def)
  note p = insert_pair_facts[OF sh k g(2) g(3)[unfolded am] I]
  have "hash_inv (hcode h) (hash_keys E s h) h'" unfolding hash_inv_def p(2,6) using p(1) g(4) rs by blast
  moreover show so': "same_order h h'" using so p(6) by (simp add: same_order_def)
  ultimately show "hash_valid E s h'" using hash_inv_same by blast
  show "abs_hash h' = (abs_hash h)(hcode h k \<mapsto> x)" using p(3) am same_orderD(1)[OF so'] by (simp add: abs_hash_def)
  show "m < nLen h'" "pPairs h' ! m = (k, x)" by (fact p)+
  show "pDefault h' = pDefault h" using p(7) f(4) g(1) by simp
  show "iFlags h AND HB_HASH_KEEPORDER \<noteq> 0 \<longrightarrow> pPairs h' = pPairs h @ [(k, x)] \<and> m = nLen h"
    using p(8) f(6) g(1) same_orderD(3)[OF so] by auto
qed

lemma find_map:
  assumes "hash_valid E s h" "k \<in> hash_keys E s h"
  shows "case hb_hashFind E s h k of (h', found, n) \<Rightarrow>
    hash_valid E s h' \<and> abs_hash h' = abs_hash h \<and> same_order h h' \<and>
    (case abs_hash h (hcode h k) of
       Some v \<Rightarrow> found \<and> n < nLen h' \<and> hcode h (fst (pPairs h' ! n)) = hcode h k \<and> snd (pPairs h' ! n) = v
     | None \<Rightarrow> \<not> found \<and> n \<le> nLen h')"
  using hb_hashFind_facts[OF assms] valid_after_find[OF assms(1)] sorted_hash_facts(1,3)[OF assms(1)]
  by cases auto

lemma add_map:
  assumes "hash_valid E s h" "k \<in> hash_keys E s h" "pDefault h = None"
    and "case abs_hash h (hcode h k) of Some d \<Rightarrow> \<not> HB_IS_BYREF d | None \<Rightarrow> True"
  shows "\<exists>h'. hb_hashAdd E h k (Some x) s = (True, h', s) \<and> hash_valid E s h' \<and>
    abs_hash h' = (abs_hash h)(hcode h k \<mapsto> from_ref E x s) \<and> same_order h h' \<and> pDefault h' = None \<and>
    (iFlags h AND HB_HASH_KEEPORDER \<noteq> 0 \<and> abs_hash h (hcode h k) = None
      \<longrightarrow> pPairs h' = pPairs h @ [(k, from_ref E x s)])"
proof -
  have pk: "copy_val k = k" "HB_IS_HASHKEY k" using plain_key_copy[of k E s "iFlags h"] assms(2) by (simp_all add: hash_keys_def)
  note f = sorted_hash_facts[OF assms(1)] and v1 = valid_after_find[OF assms(1)]
  let ?v = "from_ref E x s"
  show ?thesis
  proof (cases rule: hb_hashFind_facts[OF assms(1,2)])
    case (1 n)
    let ?h1 = "sorted_hash E s h"
    have "\<not> HB_IS_BYREF (value_at ?h1 n)" using assms(4) 1(4) by (simp add: value_at_def)
    then have "hb_hashAdd E h k (Some x) s = (True, set_value ?h1 n ?v, s)"
      using pk 1(1) by (simp add: hb_hashAdd_def hb_hashValuePtr_def)
    moreover note set_value_facts[OF v1 1(2), of ?v]
    moreover have "same_order h (set_value ?h1 n ?v)" "pDefault (set_value ?h1 n ?v) = None"
      using f(1,4) assms(3) by (simp_all add: same_order_def set_value_def)
    ultimately show ?thesis using 1(3,4) f(3) same_orderD(1)[OF f(1)] by simp
  next
    case (2 n)
    let ?h1 = "sorted_hash E s h"
    obtain h2 m where I: "insert_pair ?h1 n (k, I_Nil) = (h2, m)" by fastforce
    note p = new_pair_facts[OF assms(1,2) 2(1) I]
    have d1: "pDefault ?h1 = None" using f(4) assms(3) by simp
    have "hb_hashAdd E h k (Some x) s = (True, set_value h2 m ?v, s)"
      using pk 2(1) I p(4) d1 by (simp add: hb_hashAdd_def hb_hashValuePtr_def value_at_def)
    moreover note set_value_facts[OF p(1,3), of ?v]
    moreover have "same_order h (set_value h2 m ?v)" "pDefault (set_value h2 m ?v) = None"
      using p(5,6) assms(3) by (simp_all add: same_order_def set_value_def)
    moreover have "iFlags h AND HB_HASH_KEEPORDER \<noteq> 0 \<longrightarrow> pPairs (set_value h2 m ?v) = pPairs h @ [(k, ?v)]"
      using p(7) by (auto simp: set_value_def)
    ultimately show ?thesis using p(2,4) same_orderD(1)[OF p(5)] by simp
  qed
qed

section \<open>Deletion, lookup, sort\<close>

lemma filter_remove_nth:
  assumes "distinct (map f xs)" "p < length xs"
  shows "filter (\<lambda>x. f x \<noteq> f (xs ! p)) xs = take p xs @ drop (p + 1) xs"
proof -
  have xs: "xs = take p xs @ xs ! p # drop (p + 1) xs" using assms(2) by (simp add: id_take_nth_drop Suc_eq_plus1[symmetric])
  have "distinct (map f (take p xs @ xs ! p # drop (p + 1) xs))" using assms(1) by (simp only: xs[symmetric])
  then have "f (xs ! p) \<notin> f ` set (take p xs)" "f (xs ! p) \<notin> f ` set (drop (p + 1) xs)" by simp_all
  then have "filter (\<lambda>x. f x \<noteq> f (xs ! p)) (take p xs) = take p xs"
    "filter (\<lambda>x. f x \<noteq> f (xs ! p)) (drop (p + 1) xs) = drop (p + 1) xs"
    unfolding filter_id_conv by (metis imageI)+
  then have "filter (\<lambda>x. f x \<noteq> f (xs ! p)) (take p xs @ xs ! p # drop (p + 1) xs) = take p xs @ drop (p + 1) xs" by simp
  then show ?thesis by (simp only: xs[symmetric])
qed

lemma del_map:
  assumes "hash_valid E s h" "k \<in> hash_keys E s h"
  shows "\<exists>h'. hb_hashDel E h k s = Some (abs_hash h (hcode h k) \<noteq> None, h') \<and> hash_valid E s h' \<and>
    abs_hash h' = (abs_hash h)(hcode h k := None) \<and> same_order h h' \<and> pDefault h' = pDefault h \<and>
    (iFlags h AND HB_HASH_KEEPORDER \<noteq> 0 \<longrightarrow> pPairs h' = filter (\<lambda>p. hcode h (fst p) \<noteq> hcode h k) (pPairs h))"
proof -
  have pk: "HB_IS_HASHKEY k" using plain_key_copy[of k E s "iFlags h"] assms(2) by (simp add: hash_keys_def)
  let ?h1 = "sorted_hash E s h"
  note f = sorted_hash_facts[OF assms(1)] and v1 = valid_after_find[OF assms(1)] and o1 = same_orderD[OF sorted_hash_facts(1)[OF assms(1)]]
  have d: "distinct (map (hcode h \<circ> fst) (pPairs ?h1))" using v1 o1(1) by (simp add: hash_valid_def)
  show ?thesis
  proof (cases rule: hb_hashFind_facts[OF assms])
    case (1 n)
    obtain h' where h': "hb_hashDelPair ?h1 n = Some h'" "hash_inv (hcode h) (hash_keys E s h) h'"
      "pPairs h' = take n (pPairs ?h1) @ drop (n + 1) (pPairs ?h1)"
      "hash_map (hcode h) h' = (hash_map (hcode h) ?h1)(hcode h (fst (pPairs ?h1 ! n)) := None)"
      "pDefault h' = pDefault ?h1" "iFlags h' = iFlags ?h1"
      using hb_hashDelPair_facts[OF f(2) 1(2)] by blast
    have so: "same_order h h'" using f(1) h'(6) by (simp add: same_order_def)
    have "abs_hash h' = (abs_hash h)(hcode h k := None)"
      using h'(4) 1(3) f(3) same_orderD(1)[OF so] o1(1) by (simp add: abs_hash_def)
    moreover have "filter (\<lambda>p. hcode h (fst p) \<noteq> hcode h k) (pPairs ?h1) = pPairs h'"
      using filter_remove_nth[OF d 1(2)] 1(3) h'(3) by simp
    ultimately show ?thesis using pk 1(1,4) h'(1,5) f(4,6) so hash_inv_same[OF so h'(2)]
      by (auto simp: hb_hashDel_def)
  next
    case (2 n)
    have "filter (\<lambda>p. hcode h (fst p) \<noteq> hcode h k) (pPairs ?h1) = pPairs ?h1"
      using 2(3) f(3) o1(1) hash_map_None[of "hcode h" ?h1 "hcode h k"] by (auto simp: filter_id_conv abs_hash_def image_iff)
    then show ?thesis using pk 2(1,3) f v1 by (auto simp: hb_hashDel_def fun_upd_idem)
  qed
qed

lemma hb_hashGetItemPtr_lookup:
  assumes "hash_valid E s h" "k \<in> hash_keys E s h" "flags = 0 \<or> iFlags h AND flags \<noteq> flags"
  shows "\<exists>h'. hb_hashGetItemPtr E h k flags s =
      (h', map_option (\<lambda>v. if HB_IS_BYREF v then lrd E v s else v) (abs_hash h (hcode h k)), s) \<and>
    hash_valid E s h' \<and> abs_hash h' = abs_hash h"
proof -
  have pk: "HB_IS_HASHKEY k" using plain_key_copy[of k E s "iFlags h"] assms(2) by (simp add: hash_keys_def)
  have fl: "(flags \<noteq> 0 \<and> iFlags h AND flags = flags) = False" using assms(3) by auto
  note f = sorted_hash_facts[OF assms(1)] and v1 = valid_after_find[OF assms(1)]
  show ?thesis using pk f(3) v1
    by (cases rule: hb_hashFind_facts[OF assms(1,2)])
      (auto simp: hb_hashGetItemPtr_def hb_hashValuePtr_def fl read_value_def value_at_def)
qed

lemma sort_map:
  assumes "hash_valid E s h" "nLen h > 0"
  shows "\<exists>h'. hb_hashSort E s h = Some h' \<and> hash_valid E s h' \<and> abs_hash h' = abs_hash h \<and>
    mset (pPairs h') = mset (pPairs h) \<and> sorted_wrt (<) (map (hcode h \<circ> fst) (pPairs h'))"
proof -
  let ?h1 = "sorted_hash E s h"
  note f = sorted_hash_facts[OF assms(1)] and o1 = same_orderD[OF sorted_hash_facts(1)[OF assms(1)]]
  have len: "nLen ?h1 = nLen h" using f(5) by (metis size_mset)
  have sh: "hash_shape (hash_keys E s h) ?h1" and so: "sorted_wrt (<) (codes (hcode h) ?h1)"
    using f(2) by (simp_all add: hash_inv_def)
  have S: "hb_hashSort E s h = (if pnPos ?h1 \<noteq> None then hb_hashResort ?h1 else Some ?h1)"
    by (simp add: hb_hashSort_def Let_def sorted_hash_def)
  show ?thesis
  proof (cases "pnPos ?h1")
    case None
    then show ?thesis using S f so codes_None[OF None, of "hcode h"] valid_after_find[OF assms(1)] by simp
  next
    case (Some ps)
    let ?ps = "map ((!) (pPairs ?h1)) ps"
    have i: "mset ps = mset [0..<nLen ?h1]" using sh Some by (simp add: hash_shape_def index_of_def)
    then have "set ps = {0..<nLen ?h1}" by (metis set_mset_mset set_upt)
    then have rp: "map (raw_pair ?h1) ps = ?ps" by (intro map_cong) (simp_all add: raw_pair_def)
    let ?h = "?h1\<lparr>pPairs := ?ps, pnPos := Some [0..<nLen ?h1], nSize := nLen ?h1\<rparr>"
    have R: "hb_hashSort E s h = Some ?h" using S Some len assms(2) rp by (simp add: hb_hashResort_def)
    have "mset ?ps = image_mset ((!) (pPairs ?h1)) (mset [0..<nLen ?h1])" by (simp only: mset_map i)
    also have "\<dots> = mset (map ((!) (pPairs ?h1)) [0..<nLen ?h1])" by (simp only: mset_map)
    also have "\<dots> = mset (pPairs ?h1)" by (simp only: map_nth)
    finally have m: "mset ?ps = mset (pPairs ?h1)" .
    have lp: "length ?ps = nLen ?h1" using m by (metis size_mset)
    have so': "sorted_wrt (<) (map (hcode h \<circ> fst) ?ps)"
      using so Some by (simp add: codes_def index_of_def comp_def)
    have oh: "same_order h ?h" using f(1) by (simp add: same_order_def)
    have "set ?ps = set (pPairs ?h1)" using m by (metis set_mset_mset)
    then have "set (map fst ?ps) \<subseteq> hash_keys E s h" using sh by (auto simp: hash_shape_def)
    moreover have "codes (hcode h) ?h = map (hcode h \<circ> fst) ?ps"
      using lp by (intro nth_equalityI) (simp_all add: codes_def index_of_def)
    ultimately have "hash_inv (hcode h) (hash_keys E s h) ?h"
      using f(2) Some lp so' len assms(2) by (simp add: hash_inv_def hash_shape_def index_of_def)
    moreover have "abs_hash ?h = abs_hash h"
      using hash_map_perm(1)[of ?h ?h1 "hcode h"] m f(3) o1(1) so' distinct_codes[OF _ so] sh
      by (simp add: abs_hash_def hash_shape_def)
    ultimately show ?thesis using R m f(5) so' hash_inv_same[OF oh] by simp
  qed
qed

section \<open>The flag that keeps the order\<close>

lemma keeporder_bits:
  fixes fl :: "32 word"
  shows "(fl AND NOT HB_HASH_KEEPORDER) AND HB_HASH_BINARY = fl AND HB_HASH_BINARY"
    "(fl AND NOT HB_HASH_KEEPORDER) AND HB_HASH_IGNORECASE = fl AND HB_HASH_IGNORECASE"
    "(fl AND NOT HB_HASH_KEEPORDER) AND HB_HASH_RESORT = fl AND HB_HASH_RESORT"
    "(fl AND NOT HB_HASH_KEEPORDER) AND HB_HASH_KEEPORDER = 0"
    "(fl OR HB_HASH_KEEPORDER) AND HB_HASH_BINARY = fl AND HB_HASH_BINARY"
    "(fl OR HB_HASH_KEEPORDER) AND HB_HASH_IGNORECASE = fl AND HB_HASH_IGNORECASE"
    "(fl OR HB_HASH_KEEPORDER) AND HB_HASH_RESORT = fl AND HB_HASH_RESORT"
    "(fl OR HB_HASH_KEEPORDER) AND HB_HASH_KEEPORDER = HB_HASH_KEEPORDER"
  by (simp_all add: and.assoc bit.conj_disj_distrib2)

lemma same_bits:
  assumes "fl' AND HB_HASH_BINARY = fl AND HB_HASH_BINARY" "fl' AND HB_HASH_IGNORECASE = fl AND HB_HASH_IGNORECASE"
  shows "key_code fl' = key_code fl" "plain_keys E s fl' = plain_keys E s fl"
proof -
  have "key_code fl' x = key_code fl x" for x by (cases x) (simp_all only: key_code.simps assms)
  then show "key_code fl' = key_code fl" ..
  show "plain_keys E s fl' = plain_keys E s fl" by (simp only: plain_keys_def assms)
qed

lemmas keeporder_codes = same_bits[OF keeporder_bits(1,2)] same_bits[OF keeporder_bits(5,6)]

lemma set_keeporder:
  assumes "hash_valid E s h"
  defines "h' \<equiv> hb_hashSetFlags h HB_HASH_KEEPORDER"
  shows "hash_valid E s h' \<and> abs_hash h' = abs_hash h \<and> pPairs h' = pPairs h"
proof -
  have v: "hash_shape (hash_keys E s h) h" "distinct (map (hcode h \<circ> fst) (pPairs h))"
    "iFlags h AND HB_HASH_RESORT = 0 \<longrightarrow> sorted_wrt (<) (codes (hcode h) h)"
    using assms(1) by (simp_all add: hash_valid_def)
  have f: "iFlags h' = iFlags h OR HB_HASH_KEEPORDER" "pPairs h' = pPairs h" "nSize h' = nSize h"
    "pnPos h' = (if pnPos h = None \<and> nSize h \<noteq> 0 then Some [0..<nLen h] else pnPos h)"
    by (simp_all add: h'_def hb_hashSetFlags_def Let_def keeporder_bits)
  have i: "index_of h' = index_of h" by (simp add: index_of_def f split: option.split)
  have c: "codes g h' = codes g h" for g :: "item \<Rightarrow> nat \<times> int list" by (simp add: codes_def i f)
  have "pnPos h' \<noteq> None \<longleftrightarrow> nSize h \<noteq> 0" using v(1) f(4) by (auto simp: hash_shape_def)
  then have "hash_valid E s h'" using v
    unfolding hash_valid_def hash_shape_def hash_keys_def c i f(1-3) keeporder_codes keeporder_bits by simp
  moreover have "abs_hash h' = abs_hash h" by (simp only: abs_hash_def hash_map_def f keeporder_codes)
  ultimately show ?thesis using f(2) by simp
qed

lemma clear_keeporder:
  assumes "hash_valid E s h" "iFlags h AND HB_HASH_RESORT = 0" "nLen h > 0"
  shows "\<exists>h'. hb_hashClearFlags h HB_HASH_KEEPORDER = Some h' \<and> hash_valid E s h' \<and> abs_hash h' = abs_hash h \<and>
    mset (pPairs h') = mset (pPairs h) \<and> pnPos h' = None \<and> sorted_wrt (<) (map (hcode h \<circ> fst) (pPairs h'))"
proof -
  obtain h0 where h0: "hb_hashSort E s h = Some h0" "hash_valid E s h0" "abs_hash h0 = abs_hash h"
    "mset (pPairs h0) = mset (pPairs h)" "sorted_wrt (<) (map (hcode h \<circ> fst) (pPairs h0))"
    using sort_map[OF assms(1,3)] by blast
  have S: "hb_hashSort E s h = (if pnPos h \<noteq> None then hb_hashResort h else Some h)"
    using assms(2) by (simp add: hb_hashSort_def)
  then have fl: "iFlags h0 = iFlags h" using h0(1) by (auto simp: hb_hashResort_def split: if_splits option.splits)
  define fl where "fl = iFlags h AND NOT HB_HASH_KEEPORDER"
  have bits: "key_code fl = key_code (iFlags h)" "plain_keys E s fl = plain_keys E s (iFlags h)"
    "fl AND HB_HASH_KEEPORDER = 0" "fl AND HB_HASH_RESORT = iFlags h AND HB_HASH_RESORT"
    by (simp_all only: fl_def keeporder_codes keeporder_bits)
  let ?h = "h0\<lparr>iFlags := fl, pnPos := None\<rparr>"
  have "hb_hashClearFlags h HB_HASH_KEEPORDER = Some ?h"
  proof (cases "pnPos h")
    case None
    then show ?thesis using S h0(1) by (simp add: hb_hashClearFlags_def fl_def)
  next
    case (Some ps)
    have "raw_pair (h\<lparr>iFlags := fl\<rparr>) = raw_pair h" for fl by (simp add: raw_pair_def fun_eq_iff)
    then show ?thesis using S h0(1) assms(3) Some
      by (auto simp: hb_hashClearFlags_def Let_def and.assoc hb_hashResort_def fl_def)
  qed
  moreover have "hash_valid E s ?h"
  proof -
    have "codes g ?h = map (g \<circ> fst) (pPairs h0)" for g :: "item \<Rightarrow> nat \<times> int list" using codes_None[of ?h g] by simp
    moreover have "set (map fst (pPairs h0)) \<subseteq> plain_keys E s (iFlags h)" "nLen h0 \<le> nSize h0"
      "distinct (map (hcode h \<circ> fst) (pPairs h0))"
      using h0(2) fl by (simp_all add: hash_valid_def hash_shape_def hash_keys_def)
    ultimately show ?thesis using h0(5)
      by (simp add: hash_valid_def hash_shape_def hash_keys_def index_of_def bits)
  qed
  moreover have "abs_hash ?h = abs_hash h"
    using h0(3) fl by (simp add: abs_hash_def hash_map_def bits)
  ultimately show ?thesis using h0(4,5) by simp
qed

section \<open>Two hashes\<close>

text \<open>The four combinations of two tables.\<close>

fun join_map :: "join_type \<Rightarrow> ('c \<Rightarrow> item option) \<Rightarrow> ('c \<Rightarrow> item option) \<Rightarrow> 'c \<Rightarrow> item option" where
  "join_map HB_HASH_UNION d r c = (if r c \<noteq> None then r c else d c)"
| "join_map HB_HASH_INTERSECT d r c = (if d c \<noteq> None then r c else None)"
| "join_map HB_HASH_DIFFERENCE d r c = (if d c = None then r c else if r c = None then d c else None)"
| "join_map HB_HASH_REMOVE d r c = (if r c = None then d c else None)"

definition plain_values :: "('c \<Rightarrow> item option) \<Rightarrow> bool" where
  "plain_values m \<longleftrightarrow> (\<forall>v \<in> ran m. \<not> HB_IS_BYREF v)"

definition pair_map :: "(item \<Rightarrow> 'c) \<Rightarrow> (item \<times> item) list \<Rightarrow> 'c \<Rightarrow> item option" where
  "pair_map code ps = map_of (map (\<lambda>(k, v). (code k, v)) ps)"

lemma pair_map_simps [simp]: "pair_map code [] = (\<lambda>c. None)"
  "pair_map code ((k, v) # ps) = (pair_map code ps)(code k \<mapsto> v)"
  by (simp_all add: pair_map_def)

lemma pair_map_None: "c \<notin> code ` fst ` set ps \<Longrightarrow> pair_map code ps c = None"
  by (induction ps) auto

definition plain_pairs :: "'w hash_lib \<Rightarrow> 'w vm \<Rightarrow> BASEHASH \<Rightarrow> (item \<times> item) list \<Rightarrow> bool" where
  "plain_pairs E s h ps \<longleftrightarrow> fst ` set ps \<subseteq> hash_keys E s h \<and> (\<forall>(k, v) \<in> set ps. \<not> HB_IS_BYREF v) \<and>
     distinct (map (hcode h \<circ> fst) ps)"

definition joinable :: "'w hash_lib \<Rightarrow> 'w vm \<Rightarrow> BASEHASH \<Rightarrow> bool" where
  "joinable E s h \<longleftrightarrow> hash_valid E s h \<and> pDefault h = None \<and> plain_values (abs_hash h)"

lemma from_plain: "\<not> HB_IS_BYREF v \<Longrightarrow> from_ref E v s = v"
  by (cases v) (auto simp: from_ref_def copy_val_def)

lemma plain_pairs_same: "same_order h h' \<Longrightarrow> plain_pairs E s h' ps = plain_pairs E s h ps"
  by (simp only: plain_pairs_def same_orderD)

lemma plain_pairs_Cons:
  "plain_pairs E s h ((k, v) # ps) \<longleftrightarrow> k \<in> hash_keys E s h \<and> \<not> HB_IS_BYREF v \<and> plain_pairs E s h ps \<and>
     hcode h k \<notin> hcode h ` fst ` set ps"
  by (auto simp: plain_pairs_def image_comp)

lemma joinable_add:
  assumes "joinable E s h" "k \<in> hash_keys E s h" "\<not> HB_IS_BYREF v"
  shows "\<exists>h'. hb_hashAdd E h k (Some (if HB_IS_BYREF v then lrd E v s else v)) s = (True, h', s) \<and> joinable E s h' \<and>
    same_order h h' \<and> abs_hash h' = (abs_hash h)(hcode h k \<mapsto> v)"
proof -
  have pv: "plain_values (abs_hash h)" using assms(1) by (simp add: joinable_def)
  have "case abs_hash h (hcode h k) of Some d \<Rightarrow> \<not> HB_IS_BYREF d | None \<Rightarrow> True"
    using pv by (auto simp: plain_values_def split: option.split intro: ranI)
  moreover have "plain_values ((abs_hash h)(hcode h k \<mapsto> v))"
    using pv assms(3) by (auto simp: plain_values_def ran_def split: if_splits)
  moreover have "hash_valid E s h" "pDefault h = None" using assms(1) by (simp_all add: joinable_def)
  ultimately show ?thesis using add_map[of E s h k v, unfolded from_plain[OF assms(3)]] assms(2,3)
    unfolding joinable_def by auto
qed

lemma joinable_del:
  assumes "joinable E s h" "k \<in> hash_keys E s h"
  shows "\<exists>h'. hb_hashDel E h k s = Some (abs_hash h (hcode h k) \<noteq> None, h') \<and> joinable E s h' \<and>
    same_order h h' \<and> abs_hash h' = (abs_hash h)(hcode h k := None)"
proof -
  have "plain_values ((abs_hash h)(hcode h k := None))"
    using assms(1) by (auto simp: joinable_def plain_values_def ran_def split: if_splits)
  moreover have "hash_valid E s h" "pDefault h = None" using assms(1) by (simp_all add: joinable_def)
  ultimately show ?thesis using del_map[of E s h k] assms(2) unfolding joinable_def by metis
qed

lemma same_order_trans: "same_order a b \<Longrightarrow> same_order b c \<Longrightarrow> same_order a c"
  by (auto simp: same_order_def and.assoc)

lemma join_union_map:
  assumes "joinable E s h" "plain_pairs E s h ps"
  shows "\<exists>h'. join_union E ps h s = (h', s) \<and> joinable E s h' \<and> same_order h h' \<and>
    abs_hash h' = join_map HB_HASH_UNION (abs_hash h) (pair_map (hcode h) ps)"
  using assms
proof (induction ps arbitrary: h)
  case Nil
  then show ?case by (simp add: same_order_def fun_eq_iff)
next
  case (Cons p ps)
  obtain k v where p: "p = (k, v)" by fastforce
  have pp: "k \<in> hash_keys E s h" "\<not> HB_IS_BYREF v" "plain_pairs E s h ps" "hcode h k \<notin> hcode h ` fst ` set ps"
    using Cons.prems(2) unfolding p plain_pairs_Cons by blast+
  obtain h1 where h1: "hb_hashAdd E h k (Some (if HB_IS_BYREF v then lrd E v s else v)) s = (True, h1, s)" "joinable E s h1"
    "same_order h h1" "abs_hash h1 = (abs_hash h)(hcode h k \<mapsto> v)"
    using joinable_add[OF Cons.prems(1) pp(1,2)] by blast
  obtain h' where h': "join_union E ps h1 s = (h', s)" "joinable E s h'" "same_order h1 h'"
    "abs_hash h' = join_map HB_HASH_UNION (abs_hash h1) (pair_map (hcode h) ps)"
    using Cons.IH[OF h1(2) pp(3)[folded plain_pairs_same[OF h1(3)]], unfolded same_orderD(1)[OF h1(3)]] by blast
  have "abs_hash h' c = join_map HB_HASH_UNION (abs_hash h) (pair_map (hcode h) ((k, v) # ps)) c" for c
    using pair_map_None[OF pp(4)] by (cases "c = hcode h k") (simp_all add: h'(4) h1(4))
  then show ?case using h1(1) h' same_order_trans[OF h1(3) h'(3)] by (auto simp: p fun_eq_iff)
qed

lemma join_remove_map:
  assumes "joinable E s h" "plain_pairs E s h ps"
  shows "\<exists>h'. join_remove E ps h s = Some h' \<and> joinable E s h' \<and> same_order h h' \<and>
    abs_hash h' = join_map HB_HASH_REMOVE (abs_hash h) (pair_map (hcode h) ps)"
  using assms
proof (induction ps arbitrary: h)
  case Nil
  then show ?case by (simp add: same_order_def fun_eq_iff)
next
  case (Cons p ps)
  obtain k v where p: "p = (k, v)" by fastforce
  have pp: "k \<in> hash_keys E s h" "plain_pairs E s h ps" "hcode h k \<notin> hcode h ` fst ` set ps"
    using Cons.prems(2) unfolding p plain_pairs_Cons by blast+
  obtain h1 where h1: "hb_hashDel E h k s = Some (abs_hash h (hcode h k) \<noteq> None, h1)" "joinable E s h1"
    "same_order h h1" "abs_hash h1 = (abs_hash h)(hcode h k := None)"
    using joinable_del[OF Cons.prems(1) pp(1)] by blast
  obtain h' where h': "join_remove E ps h1 s = Some h'" "joinable E s h'" "same_order h1 h'"
    "abs_hash h' = join_map HB_HASH_REMOVE (abs_hash h1) (pair_map (hcode h) ps)"
    using Cons.IH[OF h1(2) pp(2)[folded plain_pairs_same[OF h1(3)]], unfolded same_orderD(1)[OF h1(3)]] by blast
  have "abs_hash h' c = join_map HB_HASH_REMOVE (abs_hash h) (pair_map (hcode h) ((k, v) # ps)) c" for c
    by (cases "c = hcode h k") (simp_all add: h'(4) h1(4))
  then show ?case using h1(1) h' same_order_trans[OF h1(3) h'(3)] by (auto simp: p fun_eq_iff)
qed

lemma join_difference_map:
  assumes "joinable E s h" "plain_pairs E s h ps"
  shows "\<exists>h'. join_difference E ps h s = Some (h', s) \<and> joinable E s h' \<and> same_order h h' \<and>
    abs_hash h' = join_map HB_HASH_DIFFERENCE (abs_hash h) (pair_map (hcode h) ps)"
  using assms
proof (induction ps arbitrary: h)
  case Nil
  then show ?case by (simp add: same_order_def fun_eq_iff)
next
  case (Cons p ps)
  obtain k v where p: "p = (k, v)" by fastforce
  have pp: "k \<in> hash_keys E s h" "\<not> HB_IS_BYREF v" "plain_pairs E s h ps" "hcode h k \<notin> hcode h ` fst ` set ps"
    using Cons.prems(2) unfolding p plain_pairs_Cons by blast+
  let ?c = "hcode h k"
  obtain h1 where h1: "hb_hashDel E h k s = Some (abs_hash h ?c \<noteq> None, h1)" "joinable E s h1"
    "same_order h h1" "abs_hash h1 = (abs_hash h)(?c := None)"
    using joinable_del[OF Cons.prems(1) pp(1)] by blast
  note o1 = same_orderD[OF h1(3)]
  obtain h2 where h2: "join_difference E (p # ps) h s = join_difference E ps h2 s" "joinable E s h2" "same_order h h2"
    "abs_hash h2 = (abs_hash h)(?c := if abs_hash h ?c = None then Some v else None)"
  proof (cases "abs_hash h ?c = None")
    case True
    obtain h2 where "hb_hashAdd E h1 k (Some (if HB_IS_BYREF v then lrd E v s else v)) s = (True, h2, s)" "joinable E s h2"
      "same_order h1 h2" "abs_hash h2 = (abs_hash h1)(hcode h1 k \<mapsto> v)"
      using joinable_add[OF h1(2) _ pp(2), of k] pp(1) o1(2) by auto
    then show thesis using that[of h2] h1 True o1(1) same_order_trans[OF h1(3)] by (simp add: p)
  next
    case False
    then show thesis using that[of h1] h1 by (auto simp: p)
  qed
  obtain h' where h': "join_difference E ps h2 s = Some (h', s)" "joinable E s h'" "same_order h2 h'"
    "abs_hash h' = join_map HB_HASH_DIFFERENCE (abs_hash h2) (pair_map (hcode h) ps)"
    using Cons.IH[OF h2(2) pp(3)[folded plain_pairs_same[OF h2(3)]], unfolded same_orderD(1)[OF h2(3)]] by blast
  have "abs_hash h' c = join_map HB_HASH_DIFFERENCE (abs_hash h) (pair_map (hcode h) ((k, v) # ps)) c" for c
    using pair_map_None[OF pp(4)] by (cases "c = ?c") (simp_all add: h'(4) h2(4))
  then show ?case using h2(1) h' same_order_trans[OF h2(3) h'(3)] by (auto simp: p fun_eq_iff)
qed

text \<open>The intersection: the pairs before \<open>n\<close> have been treated.\<close>

lemma hb_hashDelPair_valid:
  assumes "joinable E s h" "iFlags h AND HB_HASH_RESORT = 0" "n < nLen h"
  shows "\<exists>h'. hb_hashDelPair h n = Some h' \<and> joinable E s h' \<and> iFlags h' = iFlags h \<and>
    pPairs h' = take n (pPairs h) @ drop (n + 1) (pPairs h) \<and>
    abs_hash h' = (abs_hash h)(hcode h (fst (pPairs h ! n)) := None)"
proof -
  have v: "hash_valid E s h" "pDefault h = None" and pv: "plain_values (abs_hash h)" using assms(1) by (simp_all add: joinable_def)
  obtain h' where h': "hb_hashDelPair h n = Some h'" "hash_inv (hcode h) (hash_keys E s h) h'"
    "pPairs h' = take n (pPairs h) @ drop (n + 1) (pPairs h)"
    "hash_map (hcode h) h' = (hash_map (hcode h) h)(hcode h (fst (pPairs h ! n)) := None)"
    "pDefault h' = pDefault h" "iFlags h' = iFlags h"
    using hb_hashDelPair_facts[OF hash_valid_inv[OF v(1) assms(2)] assms(3)] by blast
  have a: "abs_hash h' = (abs_hash h)(hcode h (fst (pPairs h ! n)) := None)" using h'(4,6) by (simp add: abs_hash_def)
  have "plain_values (abs_hash h')" unfolding a using pv by (auto simp: plain_values_def ran_def split: if_splits)
  moreover have "hash_valid E s h'" using hash_inv_same[of h h' E s] h'(2,6) by (simp add: same_order_def)
  ultimately show ?thesis using h' a v(2) by (simp add: joinable_def)
qed

lemma plain_valuesD: "joinable E s h \<Longrightarrow> abs_hash h c = Some v \<Longrightarrow> \<not> HB_IS_BYREF v"
  unfolding joinable_def plain_values_def by (blast intro: ranI)

lemma abs_hash_at:
  assumes "hash_valid E s h" "i < nLen h"
  shows "abs_hash h (hcode h (fst (pPairs h ! i))) = Some (snd (pPairs h ! i))"
  using hash_map_at[of "hcode h" h i] assms by (simp add: abs_hash_def hash_valid_def)

lemma abs_hash_in:
  assumes "abs_hash h c = Some v"
  obtains i where "i < nLen h" "c = hcode h (fst (pPairs h ! i))"
proof -
  have "c \<in> set (map (hcode h \<circ> fst) (pPairs h))" using assms hash_map_None[of "hcode h" h c] by (auto simp: abs_hash_def)
  then show thesis using that by (auto simp: in_set_conv_nth)
qed

text \<open>\<open>treated\<close>: the values of the pairs before \<open>n\<close> are those of the source.\<close>

definition treated :: "BASEHASH \<Rightarrow> BASEHASH \<Rightarrow> nat \<Rightarrow> bool" where
  "treated h r n \<longleftrightarrow> (\<forall>i<n. abs_hash r (hcode h (fst (pPairs h ! i))) = abs_hash h (hcode h (fst (pPairs h ! i))))"

lemma intersect_step:
  assumes "joinable E s h" "iFlags h AND HB_HASH_RESORT = 0" "n < nLen h" "Suc k = nLen h - n"
    and "joinable E s r" "hcode r = hcode h" "hash_keys E s r = hash_keys E s h" "treated h r n"
  obtains h1 n1 where "join_intersect E (Suc k) n h r s = join_intersect E k n1 h1 (sorted_hash E s r) s"
    "joinable E s h1" "iFlags h1 = iFlags h" "n1 \<le> nLen h1" "k = nLen h1 - n1" "treated h1 r n1"
    "join_map HB_HASH_INTERSECT (abs_hash h1) (abs_hash r) = join_map HB_HASH_INTERSECT (abs_hash h) (abs_hash r)"
proof -
  let ?r = "sorted_hash E s r"
  let ?k = "fst (pPairs h ! n)"
  let ?c = "hcode h ?k"
  note n = assms(3)
  have v: "hash_valid E s h" and vr: "hash_valid E s r" using assms(1,5) by (simp_all add: joinable_def)
  have kk: "?k \<in> hash_keys E s r"
    using v imageI[OF nth_mem[OF n], of fst] assms(7) by (simp add: hash_valid_def hash_shape_def subset_iff)
  have dn: "hcode h (fst (pPairs h ! i)) \<noteq> ?c" if "i < n" for i
    using v that n nth_eq_iff_index_eq[of "map (hcode h \<circ> fst) (pPairs h)" i n] by (simp add: hash_valid_def)
  show thesis
  proof (cases rule: hb_hashFind_facts[OF vr kk])
    case (1 m)
    define x where "x = snd (pPairs ?r ! m)"
    have rc: "abs_hash r ?c = Some x" using 1(4) assms(6) by (simp add: x_def)
    have px: "\<not> HB_IS_BYREF x" by (rule plain_valuesD[OF assms(5) rc])
    have hc: "abs_hash h ?c = Some (snd (pPairs h ! n))" by (rule abs_hash_at[OF v n])
    then have ph: "\<not> HB_IS_BYREF (value_at h n)" using plain_valuesD[OF assms(1)] by (simp add: value_at_def)
    let ?h = "set_value h n x"
    note sv = set_value_facts[OF v n, of x]
    have "plain_values (abs_hash ?h)" unfolding sv(2)
      using assms(1) px by (auto simp: joinable_def plain_values_def ran_def split: if_splits)
    then have j: "joinable E s ?h" using sv(1) assms(1) by (simp add: joinable_def set_value_def)
    have fl: "iFlags ?h = iFlags h" "nLen ?h = nLen h" by (simp_all add: set_value_def)
    have st: "join_intersect E (Suc k) n h r s = join_intersect E k (n + 1) ?h ?r s"
      using n 1(1) ph from_plain[OF px, of E s] by (simp add: value_at_def x_def)
    have "fst (pPairs ?h ! i) = fst (pPairs h ! i)" if "i < n + 1" for i
      using that n by (simp add: set_value_def nth_list_update)
    then have tr: "treated ?h r (n + 1)"
      unfolding treated_def sv(2) fl using dn assms(8) rc by (auto simp: treated_def less_Suc_eq Suc_eq_plus1[symmetric])
    have "join_map HB_HASH_INTERSECT (abs_hash ?h) (abs_hash r) = join_map HB_HASH_INTERSECT (abs_hash h) (abs_hash r)"
      unfolding sv(2) using hc rc by (intro ext) auto
    then show thesis using that[OF st j fl(1) _ _ tr] fl(2) n assms(4) by simp
  next
    case (2 m)
    obtain h' where h': "hb_hashDelPair h n = Some h'" "joinable E s h'" "iFlags h' = iFlags h"
      "pPairs h' = take n (pPairs h) @ drop (n + 1) (pPairs h)" "abs_hash h' = (abs_hash h)(?c := None)"
      using hb_hashDelPair_valid[OF assms(1,2) n] by blast
    have st: "join_intersect E (Suc k) n h r s = join_intersect E k n h' ?r s" using n 2(1) h'(1) by simp
    have tr: "treated h' r n" using dn assms(8) n by (simp add: treated_def h'(3,4,5) nth_append)
    have "join_map HB_HASH_INTERSECT (abs_hash h') (abs_hash r) = join_map HB_HASH_INTERSECT (abs_hash h) (abs_hash r)"
      unfolding h'(5) using 2(3) assms(6) by (intro ext) auto
    moreover have "n \<le> nLen h'" "k = nLen h' - n" using h'(4) n assms(4) by simp_all
    ultimately show thesis using that[OF st h'(2,3) _ _ tr] by simp
  qed
qed

lemma join_intersect_map:
  assumes "joinable E s h" "iFlags h AND HB_HASH_RESORT = 0" "n \<le> nLen h" "k = nLen h - n"
    and "joinable E s r" "hcode r = hcode h" "hash_keys E s r = hash_keys E s h" "treated h r n"
  shows "\<exists>h' r'. join_intersect E k n h r s = Some (h', r', s) \<and> joinable E s h' \<and>
    abs_hash h' = join_map HB_HASH_INTERSECT (abs_hash h) (abs_hash r)"
  using assms
proof (induction k arbitrary: h r n)
  case 0
  have "abs_hash h c = join_map HB_HASH_INTERSECT (abs_hash h) (abs_hash r) c" for c
  proof (cases "abs_hash h c")
    case (Some v)
    then show ?thesis using 0 by (elim abs_hash_in) (simp add: treated_def)
  qed simp
  then show ?case using 0 by (auto simp: fun_eq_iff)
next
  case (Suc k)
  have n: "n < nLen h" using Suc.prems(3,4) by simp
  let ?r = "sorted_hash E s r"
  have vr: "hash_valid E s r" using Suc.prems(5) by (simp add: joinable_def)
  note fr = sorted_hash_facts[OF vr]
  have jr: "joinable E s ?r" using Suc.prems(5) fr valid_after_find[OF vr] by (simp add: joinable_def)
  have cr: "hcode ?r = hcode h" "hash_keys E s ?r = hash_keys E s h"
    using same_orderD(1)[OF fr(1)] same_orderD(2)[OF fr(1), of E s] Suc.prems(6,7) by simp_all
  obtain h1 n1 where h1: "join_intersect E (Suc k) n h r s = join_intersect E k n1 h1 ?r s"
    "joinable E s h1" "iFlags h1 = iFlags h" "n1 \<le> nLen h1" "k = nLen h1 - n1" "treated h1 r n1"
    "join_map HB_HASH_INTERSECT (abs_hash h1) (abs_hash r) = join_map HB_HASH_INTERSECT (abs_hash h) (abs_hash r)"
    using intersect_step[OF Suc.prems(1,2) n Suc.prems(4-8)] by blast
  have tr: "treated h1 ?r n1" using h1(6) fr(3) by (simp add: treated_def)
  have c1: "hcode h1 = hcode h" "hash_keys E s h1 = hash_keys E s h" using h1(3) by (simp_all add: hash_keys_def)
  have "\<exists>h' r'. join_intersect E k n1 h1 ?r s = Some (h', r', s) \<and> joinable E s h' \<and>
    abs_hash h' = join_map HB_HASH_INTERSECT (abs_hash h1) (abs_hash ?r)"
    using h1(3) Suc.prems(2) c1 cr by (intro Suc.IH[OF h1(2) _ h1(4,5) jr _ _ tr]) simp_all
  then show ?case unfolding h1(1) fr(3) h1(7) .
qed

lemma plain_pairs_hash:
  assumes "joinable E s r" "hcode r = hcode h" "hash_keys E s r = hash_keys E s h"
  shows "plain_pairs E s h (pPairs r)" "pair_map (hcode h) (pPairs r) = abs_hash r"
proof -
  have v: "hash_valid E s r" using assms(1) by (simp_all add: joinable_def)
  show "pair_map (hcode h) (pPairs r) = abs_hash r" by (simp add: pair_map_def abs_hash_def hash_map_def assms(2))
  have "\<not> HB_IS_BYREF (snd p)" if p: "p \<in> set (pPairs r)" for p
  proof -
    obtain i where i: "i < nLen r" "p = pPairs r ! i" using p by (auto simp: in_set_conv_nth)
    show ?thesis using plain_valuesD[OF assms(1) abs_hash_at[OF v i(1)]] i(2) by simp
  qed
  then show "plain_pairs E s h (pPairs r)" using v assms(2,3)
    by (force simp: plain_pairs_def hash_valid_def hash_shape_def)
qed

lemma join_sets:
  assumes "joinable E s d" "joinable E s r" "hcode r = hcode d" "hash_keys E s r = hash_keys E s d"
    and "ty = HB_HASH_INTERSECT \<Longrightarrow> iFlags d AND HB_HASH_RESORT = 0"
  shows "\<exists>d' r'. hb_hashJoin E d (Some r) ty s = Some (d', r', s) \<and> hash_valid E s d' \<and>
    abs_hash d' = join_map ty (abs_hash d) (abs_hash r)"
proof -
  note pp = plain_pairs_hash[OF assms(2-4)]
  show ?thesis
  proof (cases ty)
    case HB_HASH_UNION
    then show ?thesis using join_union_map[OF assms(1) pp(1)] unfolding pp(2) by (auto simp: hb_hashJoin_def joinable_def)
  next
    case HB_HASH_INTERSECT
    obtain h' r' where "join_intersect E (nLen d) 0 d r s = Some (h', r', s)" "joinable E s h'"
      "abs_hash h' = join_map HB_HASH_INTERSECT (abs_hash d) (abs_hash r)"
      using join_intersect_map[OF assms(1) assms(5)[OF HB_HASH_INTERSECT] _ _ assms(2-4), of 0 "nLen d"] by (auto simp: treated_def)
    then show ?thesis using HB_HASH_INTERSECT by (simp add: hb_hashJoin_def joinable_def)
  next
    case HB_HASH_DIFFERENCE
    then show ?thesis using join_difference_map[OF assms(1) pp(1)] unfolding pp(2) by (auto simp: hb_hashJoin_def joinable_def)
  next
    case HB_HASH_REMOVE
    then show ?thesis using join_remove_map[OF assms(1) pp(1)] unfolding pp(2) by (auto simp: hb_hashJoin_def joinable_def)
  qed
qed

section \<open>The properties\<close>

text \<open>A hash with two pairs, in the order of insertion, and an interface without references.\<close>

definition two_pairs :: BASEHASH where
  "two_pairs = \<lparr>pPairs = [(I_Integer 7 10, I_Logical True), (I_Integer 3 10, I_Nil)], pDefault = None,
     pnPos = Some [1, 0], nSize = 16, iFlags = 0x62\<rparr>"

definition three_pairs :: "item \<Rightarrow> item \<Rightarrow> item \<Rightarrow> BASEHASH" where
  "three_pairs x y z = \<lparr>pPairs = [(I_Integer 7 10, x), (I_Integer 3 10, y), (I_Integer 5 10, z)], pDefault = None,
     pnPos = Some [1, 2, 0], nSize = 16, iFlags = 0x62\<rparr>"

definition base_lib :: "unit hash_lib" where
  "base_lib = \<lparr>lcmp = base_helpers, lcdpicmp = (\<lambda>a b e. 0), lrd = (\<lambda>x s. I_Nil), lwr = (\<lambda>d x s. s), lclone = (\<lambda>x s. (x, s)), ldyn = (\<lambda>n. None)\<rparr>"

lemma upt_2: "[0..<Suc (Suc 0)] = [0, Suc 0]"
  by (simp add: upt_rec)

lemma two_pairs_valid: "hash_valid E s two_pairs"
  by (auto simp: two_pairs_def hash_valid_def hash_shape_def hash_keys_def plain_keys_def HB_IS_HASHKEY_def
    HB_IS_NUMERIC_def index_of_def codes_def upt_2 One_nat_def)

lemma two_pairs_map: "abs_hash two_pairs (0, [i]) = (if i = 7 then Some (I_Logical True) else if i = 3 then Some I_Nil else None)"
  by (simp add: two_pairs_def abs_hash_def hash_map_def)

lemma integer_key: "I_Integer i l \<in> hash_keys E s h" "key_code fl (I_Integer i l) = (0, [i])"
  by (simp_all add: hash_keys_def plain_keys_def HB_IS_HASHKEY_def HB_IS_NUMERIC_def)

lemma two_pairs_fields: "pDefault two_pairs = None" "iFlags two_pairs = 0x62"
  "pPairs two_pairs = [(I_Integer 7 10, I_Logical True), (I_Integer 3 10, I_Nil)]"
  by (simp_all add: two_pairs_def)

lemma two_pairs_joinable: "joinable E s two_pairs"
  unfolding joinable_def plain_values_def using two_pairs_valid[of E s]
  by (auto simp: two_pairs_def abs_hash_def hash_map_def ran_def split: if_splits)

text \<open>C30.
  The binary search of hb_hashFind, over the table or over its index and after
  the sort a pending HB_HASH_RESORT asks for, finds a key exactly when the hash
  has it, and then at a pair with that key and its value; the hash stays valid
  and stands for the same map.
\<close>

theorem hb_hashFind_spec:
  assumes "hash_valid E s h" "k \<in> hash_keys E s h"
  shows "case hb_hashFind E s h k of (h', found, n) \<Rightarrow>
    hash_valid E s h' \<and> abs_hash h' = abs_hash h \<and> same_order h h' \<and>
    (case abs_hash h (hcode h k) of
       Some v \<Rightarrow> found \<and> n < nLen h' \<and> hcode h (fst (pPairs h' ! n)) = hcode h k \<and> snd (pPairs h' ! n) = v
     | None \<Rightarrow> \<not> found \<and> n \<le> nLen h')"
  by (rule find_map[OF assms])

lemma hb_hashFind_spec_witness:
  "case hb_hashFind base_lib (vm_with []) two_pairs (I_Integer 7 10) of (h', found, n) \<Rightarrow>
    found \<and> snd (pPairs h' ! n) = I_Logical True"
  using hb_hashFind_spec[of base_lib "vm_with []" two_pairs "I_Integer 7 10", OF two_pairs_valid integer_key(1)]
  by (auto simp: integer_key(2) two_pairs_map)

text \<open>C31.
  hb_hashAdd updates the map at the key, whether the key is there or not, and
  keeps the hash valid; with HB_HASH_KEEPORDER a new key goes to the end of the
  table, all pairs before it staying where they are.
\<close>

theorem hb_hashAdd_refines:
  assumes "hash_valid E s h" "k \<in> hash_keys E s h" "pDefault h = None"
    and "case abs_hash h (hcode h k) of Some d \<Rightarrow> \<not> HB_IS_BYREF d | None \<Rightarrow> True"
  shows "\<exists>h'. hb_hashAdd E h k (Some x) s = (True, h', s) \<and> hash_valid E s h' \<and>
    abs_hash h' = (abs_hash h)(hcode h k \<mapsto> from_ref E x s) \<and> same_order h h' \<and> pDefault h' = None \<and>
    (iFlags h AND HB_HASH_KEEPORDER \<noteq> 0 \<and> abs_hash h (hcode h k) = None
      \<longrightarrow> pPairs h' = pPairs h @ [(k, from_ref E x s)])"
  by (rule add_map[OF assms])

lemma hb_hashAdd_refines_witness:
  "\<exists>h'. hb_hashAdd base_lib two_pairs (I_Integer 5 10) (Some (I_Logical False)) (vm_with []) = (True, h', vm_with []) \<and>
    hash_valid base_lib (vm_with []) h' \<and> pPairs h' = pPairs two_pairs @ [(I_Integer 5 10, I_Logical False)]"
  using hb_hashAdd_refines[of base_lib "vm_with []" two_pairs "I_Integer 5 10" "I_Logical False", OF two_pairs_valid integer_key(1)]
  by (auto simp: integer_key(2) two_pairs_map from_plain two_pairs_fields)

text \<open>C32.
  hb_hashDel returns (the loop that takes the position out of the index ends),
  its result says whether the key was there, it removes the key from the map and
  keeps the hash valid; with HB_HASH_KEEPORDER the other pairs keep their order.
\<close>

theorem hb_hashDel_refines:
  assumes "hash_valid E s h" "k \<in> hash_keys E s h"
  shows "\<exists>h'. hb_hashDel E h k s = Some (abs_hash h (hcode h k) \<noteq> None, h') \<and> hash_valid E s h' \<and>
    abs_hash h' = (abs_hash h)(hcode h k := None) \<and> same_order h h' \<and> pDefault h' = pDefault h \<and>
    (iFlags h AND HB_HASH_KEEPORDER \<noteq> 0 \<longrightarrow> pPairs h' = filter (\<lambda>p. hcode h (fst p) \<noteq> hcode h k) (pPairs h))"
  by (rule del_map[OF assms])

lemma hb_hashDel_refines_witness:
  "\<exists>h'. hb_hashDel base_lib two_pairs (I_Integer 7 10) (vm_with []) = Some (True, h') \<and>
    hash_valid base_lib (vm_with []) h' \<and> pPairs h' = [(I_Integer 3 10, I_Nil)]"
  using hb_hashDel_refines[of base_lib "vm_with []" two_pairs "I_Integer 7 10", OF two_pairs_valid integer_key(1)]
  by (auto simp: integer_key(2) two_pairs_map two_pairs_fields)

text \<open>C33.
  hb_hashSort, on a hash with pairs, gives a permutation of the pairs in which
  the keys increase strictly, the hash staying valid and its map the same.
\<close>

theorem hb_hashSort_orders:
  assumes "hash_valid E s h" "nLen h > 0"
  shows "\<exists>h'. hb_hashSort E s h = Some h' \<and> hash_valid E s h' \<and> abs_hash h' = abs_hash h \<and>
    mset (pPairs h') = mset (pPairs h) \<and> sorted_wrt (<) (map (hcode h \<circ> fst) (pPairs h'))"
  by (rule sort_map[OF assms])

lemma hb_hashSort_orders_witness:
  "\<exists>h'. hb_hashSort base_lib (vm_with []) two_pairs = Some h' \<and> hash_valid base_lib (vm_with []) h'"
  using hb_hashSort_orders[OF two_pairs_valid, of base_lib "vm_with []"] by (auto simp: two_pairs_def)

text \<open>C35.
  HB_HASH_KEEPORDER may be turned on and off: turning it on leaves the pairs as
  they are; turning it off on a hash with pairs and no sort pending drops the index
  and leaves a permutation of the pairs in the strict order of the keys.  Both keep
  the hash valid and the map it stands for.
\<close>

theorem hb_hashFlags_keeporder:
  assumes "hash_valid E s h" "iFlags h AND HB_HASH_RESORT = 0" "nLen h > 0"
  shows "(let h' = hb_hashSetFlags h HB_HASH_KEEPORDER
      in hash_valid E s h' \<and> abs_hash h' = abs_hash h \<and> pPairs h' = pPairs h) \<and>
    (\<exists>h'. hb_hashClearFlags h HB_HASH_KEEPORDER = Some h' \<and> hash_valid E s h' \<and> abs_hash h' = abs_hash h \<and>
      mset (pPairs h') = mset (pPairs h) \<and> pnPos h' = None \<and> sorted_wrt (<) (map (hcode h \<circ> fst) (pPairs h')))"
  using set_keeporder[OF assms(1)] clear_keeporder[OF assms] by (simp add: Let_def)

lemma hb_hashFlags_keeporder_witness:
  "\<exists>h'. hb_hashClearFlags two_pairs HB_HASH_KEEPORDER = Some h' \<and> pnPos h' = None \<and> abs_hash h' = abs_hash two_pairs"
  using hb_hashFlags_keeporder[OF two_pairs_valid, of base_lib "vm_with []"] by (auto simp: two_pairs_def)

text \<open>
  What the hypotheses leave out.  An empty hash with memory for pairs and the flag:
  hb_hashResort allocates a table of nLen pairs, and hb_xgrab treats a size of 0 as
  an internal error.
\<close>

lemma hb_hashSort_preallocated:
  "hb_hashSort E s (hb_hashPreallocate hb_hashNew (n + 1)) = None \<and>
   hb_hashClearFlags (hb_hashPreallocate hb_hashNew (n + 1)) HB_HASH_KEEPORDER = None"
  by (simp add: hb_hashSort_def hb_hashPreallocate_def hb_hashResize_def hb_hashNew_def hb_hashResort_def
    hb_hashClearFlags_def Let_def)

text \<open>
  A deletion while a sort is pending leaves an index whose positions no longer fit
  the table (the sort would rebuild it); taking the flag away copies the pairs by
  this index.  Of the pairs 7, 3 and 5, with the second deleted, the hash is left
  with 5 and a pair of NILs.
\<close>

lemma hb_hashDelAt_resort:
  "\<exists>h. hb_hashDelAt (hb_hashSetFlags (three_pairs x y z) HB_HASH_RESORT) 2 = Some (True, h) \<and>
    pPairs h = [(I_Integer 7 10, x), (I_Integer 5 10, z)] \<and>
    map_option pPairs (hb_hashClearFlags h HB_HASH_KEEPORDER) = Some [(I_Integer 5 10, z), (I_Nil, I_Nil)]"
  by (simp add: hb_hashDelAt_def hb_hashDelPair_def hb_hashSetFlags_def hb_hashClearFlags_def hb_hashResort_def
    raw_pair_def three_pairs_def Let_def One_nat_def)

text \<open>C34.
  hb_hashJoin of two hashes with the same order of keys combines their maps: the
  union takes the value of the source where both have one, the intersection the
  keys of both with the value of the source, the difference the keys of exactly
  one, the removal the keys the source has not.  The loops over one hash while
  the other shrinks or grows end, and the result is valid.
\<close>

theorem hb_hashJoin_sets:
  assumes "joinable E s d" "joinable E s r" "hcode r = hcode d" "hash_keys E s r = hash_keys E s d"
    and "ty = HB_HASH_INTERSECT \<Longrightarrow> iFlags d AND HB_HASH_RESORT = 0"
  shows "\<exists>d' r'. hb_hashJoin E d (Some r) ty s = Some (d', r', s) \<and> hash_valid E s d' \<and>
    abs_hash d' = join_map ty (abs_hash d) (abs_hash r)"
  by (rule join_sets[OF assms])

lemma hb_hashJoin_sets_witness:
  "\<exists>d' r'. hb_hashJoin base_lib two_pairs (Some two_pairs) HB_HASH_DIFFERENCE (vm_with []) = Some (d', r', vm_with []) \<and>
    abs_hash d' (0, [7]) = None"
  using hb_hashJoin_sets[OF two_pairs_joinable two_pairs_joinable, of base_lib "vm_with []" HB_HASH_DIFFERENCE]
  by (auto simp: two_pairs_map)

end
