(* ===== verification/HbWeek.thy ===== *)
theory HbWeek
  imports HbDate
begin

text \<open>
  Days of the week and ISO weeks of common/hbdate.c: the two ways to compute
  the day of the week agree but for two months, and week dates round trip.
\<close>

section \<open>Days of the week\<close>

lemma march_days_7:
  "march_days (z + 4800) M d = 365 * z + z div 4 - z div 100 + z div 400 + M * 367 div 12 + d + 1721089"
proof -
  have a: "(z + 4800) * 1461 div 4 = 365 * z + z div 4 + 1753200"
  proof -
    have "(z + 4800) * 1461 = 4 * (365 * z + 1753200) + z" by simp
    then show ?thesis by (simp only: div_mult_self4)
  qed
  have "z + 4800 + 100 = 100 * 49 + z" by simp
  then have C: "(z + 4800 + 100) div 100 = 49 + z div 100" by (simp only: div_mult_self4)
  have "(4 * 13 + z div 100) div 4 = 13 + z div 100 div 4" by (simp only: div_mult_self4)
  moreover have "z div 100 div 4 = z div 400" by (simp add: zdiv_zmult2_eq[symmetric])
  ultimately have "(49 + z div 100 + 3) div 4 = 13 + z div 400" by (simp add: ac_simps)
  then have q: "(49 + z div 100) * 3 div 4 = 36 + z div 100 - z div 400"
    using quarter[of "49 + z div 100"] by simp
  show ?thesis unfolding march_days_def a C q by simp
qed

text \<open>C15.
  The day of the week computed from year, month and day is the one computed
  from the day count, but for January and February of year 0.\<close>

theorem hb_dateDOW_agrees:
  assumes "valid_date y m d" "0 < y \<or> 3 \<le> m"
  shows "hb_dateDOW y m d = hb_dateJulianDOW (hb_dateEncode y m d)"
proof -
  define M z where "M = (if m < 3 then m + 10 else m - 2)" and "z = (if m < 3 then y - 1 else y)"
  have v: "1 \<le> m" "m \<le> 12" "0 \<le> z" "1 \<le> d" using assms by (auto simp: valid_date_def z_def)
  have Mpos: "1 \<le> M" using v by (simp add: M_def)
  have e: "hb_dateEncode y m d = march_days (z + 4800) M d"
    using Encode_valid[OF assms(1)] by (auto simp: M_def z_def ac_simps)
  have dow: "hb_dateDOW y m d = (d + 26 * (M + 3) div 10 + z + z div 4 - z div 100 + z div 400 + 6) mod 7 + 1"
  proof -
    have "0 \<le> z div 4 - z div 100" using zdiv_mono2[of z 4 100] v(3) by simp
    moreover have "hb_dateDOW y m d =
        (d + 26 * (M + 3) sdiv 10 + z + z sdiv 4 - z sdiv 100 + z sdiv 400 + 6) smod 7 + 1"
    proof (cases "m < 3")
      case True
      then have "m + 13 = M + 3" by (simp add: M_def)
      with True show ?thesis by (simp only: hb_dateDOW_def if_True Let_def prod.case z_def)
    next
      case False
      then have "m + 1 = M + 3" by (simp add: M_def)
      with False show ?thesis by (simp only: hb_dateDOW_def if_False Let_def prod.case z_def)
    qed
    ultimately show ?thesis using v(3,4) Mpos by (simp add: sdiv_nonneg smod_nonneg)
  qed
  have "M * 367 div 12 - (26 * (M + 3) div 10 + 6) = 7 * ((M * 367 div 12 - (26 * (M + 3) div 10 + 6)) div 7)"
    using month_cases[OF v(1,2)] by (elim disjE) (simp_all add: M_def)
  then obtain k where k: "M * 367 div 12 = 26 * (M + 3) div 10 + 6 + 7 * k" by (metis diff_eq_eq add.commute)
  have "march_days (z + 4800) M d + 1 = 7 * (52 * z + 245870 + k) +
      (d + 26 * (M + 3) div 10 + z + z div 4 - z div 100 + z div 400 + 6)"
    by (simp add: march_days_7 k)
  then have "(march_days (z + 4800) M d + 1) mod 7 =
      (d + 26 * (M + 3) div 10 + z + z div 4 - z div 100 + z div 400 + 6) mod 7"
    by (simp only: mod_mult_self4)
  moreover have "HB_STR_DATE_BASE \<le> march_days (z + 4800) M d" using Decode_Encode[OF assms(1)] e by simp
  moreover from this have "hb_dateJulianDOW (march_days (z + 4800) M d) = (march_days (z + 4800) M d + 1) mod 7 + 1"
    by (simp add: hb_dateJulianDOW_def smod_nonneg HB_STR_DATE_BASE_def)
  ultimately show ?thesis by (simp only: dow e)
qed

lemma hb_dateDOW_agrees_witness: "hb_dateDOW 2024 2 29 = hb_dateJulianDOW (hb_dateEncode 2024 2 29)"
  by (rule hb_dateDOW_agrees) (simp_all add: valid_date_def month_days_def leap_def)

text \<open>C16.
  On every day of those two months hb_dateDOW gives the day after the one that
  hb_dateJulianDOW gives: the division of the year -1 by 4, 100 and 400 truncates
  to 0 instead of rounding down.\<close>

theorem hb_dateDOW_year_0:
  assumes "valid_date 0 m d" "m \<le> 2"
  shows "hb_dateDOW 0 m d = hb_dateJulianDOW (hb_dateEncode 0 m d) mod 7 + 1"
proof -
  have d: "1 \<le> d" "m = 1 \<or> m = 2" using assms by (auto simp: valid_date_def)
  have s: "(- 1 :: int) sdiv 4 = 0" "(- 1 :: int) sdiv 100 = 0" "(- 1 :: int) sdiv 400 = 0"
    by (simp_all add: signed_divide_int_def)
  have "hb_dateEncode 0 m d = march_days 4799 (m + 10) d" using Encode_valid[OF assms(1)] d(2) by auto
  then have e: "hb_dateEncode 0 m d = 1720723 + (m + 10) * 367 div 12 + d"
    using march_days_7[of "- 1" "m + 10" d] by simp
  have j: "hb_dateJulianDOW (hb_dateEncode 0 m d) = (hb_dateEncode 0 m d + 1) mod 7 + 1"
    using d unfolding e by (auto simp: hb_dateJulianDOW_def smod_nonneg HB_STR_DATE_BASE_def)
  have sevens: "((5 + d + 7 * 245865) mod 7 + 1) mod 7 = (6 + d + 7 * 5) mod 7"
    "((1 + d + 7 * 245870) mod 7 + 1) mod 7 = (2 + d + 7 * 6) mod 7"
    by (simp_all only: mod_mult_self2 mod_add_left_eq) (simp_all add: ac_simps)
  show ?thesis using d(2)
  proof
    assume m: "m = 1"
    have "hb_dateDOW 0 1 d = (41 + d) mod 7 + 1"
      using d(1) by (simp add: hb_dateDOW_def s sdiv_nonneg smod_nonneg)
    then show ?thesis unfolding j unfolding e unfolding m using sevens(1) by (simp add: mod_simps)
  next
    assume m: "m = 2"
    have "hb_dateDOW 0 2 d = (44 + d) mod 7 + 1"
      using d(1) by (simp add: hb_dateDOW_def s sdiv_nonneg smod_nonneg)
    then show ?thesis unfolding j unfolding e unfolding m using sevens(2) by (simp add: mod_simps)
  qed
qed

lemma hb_dateDOW_year_0_witness: "hb_dateDOW 0 2 29 = hb_dateJulianDOW (hb_dateEncode 0 2 29) mod 7 + 1"
  by (rule hb_dateDOW_year_0) (simp_all add: valid_date_def month_days_def leap_def)

section \<open>Weeks\<close>

lemma march_days_new_year: "hb_dateEncode y 1 1 = march_days (y + 4799) 11 1" if "0 \<le> y" "y \<le> 9999"
  using Encode_valid[of y 1 1] that by (simp add: valid_date_def month_days_def)

lemma march_days_next:
  "march_days (Y + 1) M d - march_days Y 11 1 \<ge> 364 + M * 367 div 12 + d - 337"
  "march_days (Y + 1) M d - march_days Y 11 1 \<le> 366 + M * 367 div 12 + d - 337"
proof -
  have "1461 * Y div 4 + 365 \<le> 1461 * (Y + 1) div 4" "1461 * (Y + 1) div 4 \<le> 1461 * Y div 4 + 366" by auto
  moreover have "(Y + 100) div 100 * 3 div 4 \<le> (Y + 1 + 100) div 100 * 3 div 4"
    "(Y + 1 + 100) div 100 * 3 div 4 \<le> (Y + 100) div 100 * 3 div 4 + 1"
  proof -
    have "(Y + 1 + 100) div 100 = (Y + 100) div 100 \<or> (Y + 1 + 100) div 100 = (Y + 100) div 100 + 1" by linarith
    then show "(Y + 100) div 100 * 3 div 4 \<le> (Y + 1 + 100) div 100 * 3 div 4"
      "(Y + 1 + 100) div 100 * 3 div 4 \<le> (Y + 100) div 100 * 3 div 4 + 1" by auto
  qed
  ultimately show "march_days (Y + 1) M d - march_days Y 11 1 \<ge> 364 + M * 367 div 12 + d - 337"
    "march_days (Y + 1) M d - march_days Y 11 1 \<le> 366 + M * 367 div 12 + d - 337"
    by (simp_all add: march_days_def algebra_simps)
qed

lemma march_days_diff: "march_days Y M d - march_days Y M' d' = M * 367 div 12 - M' * 367 div 12 + d - d'"
  by (simp add: march_days_def)

text \<open>A date lies in the 366 days from the first of January on.\<close>

lemma day_in_year:
  assumes "valid_date y m d"
  shows "hb_dateEncode y 1 1 \<le> hb_dateEncode y m d" "hb_dateEncode y m d \<le> hb_dateEncode y 1 1 + 365"
proof -
  have v: "0 \<le> y" "y \<le> 9999" "1 \<le> m" "m \<le> 12" "1 \<le> d" "d \<le> 31"
    using assms by (auto simp: valid_date_def month_days_def split: if_splits)
  note e = Encode_valid[OF assms] march_days_new_year[OF v(1,2)]
  have "hb_dateEncode y 1 1 \<le> hb_dateEncode y m d \<and> hb_dateEncode y m d \<le> hb_dateEncode y 1 1 + 365"
  proof (cases "m < 3")
    case True
    then have "m = 1 \<or> m = 2" using v by auto
    then show ?thesis
      using e(1) e(2) v(5,6) march_days_diff[of "y + 4799" 11 d 11 1] march_days_diff[of "y + 4799" 12 d 11 1]
      by (elim disjE) simp_all
  next
    case False
    then have lim: "30 \<le> (m - 2) * 367 div 12" "(m - 2) * 367 div 12 \<le> 305" using month_cases[OF v(3,4)] by auto
    have "y + 4799 + 1 = y + 4800" by simp
    note n = march_days_next[where Y = "y + 4799" and M = "m - 2" and d = d, unfolded this]
    show ?thesis using lim n False e v(5,6) by simp
  qed
  then show "hb_dateEncode y 1 1 \<le> hb_dateEncode y m d" "hb_dateEncode y m d \<le> hb_dateEncode y 1 1 + 365" by simp_all
qed

text \<open>C17.
  The ISO week date of a day is in weeks 1 to 53 and days 1 to 7, and encoding
  it gives the day back; the Thursday of the week must lie in years 0 to 9999.\<close>

theorem hb_dateWeek_roundtrip:
  assumes "HB_STR_DATE_BASE + 3 \<le> j" "j \<le> last_day - 3"
  shows "\<exists>y w d. hb_dateDecWeek j = (True, y, w, d) \<and> 1 \<le> w \<and> w \<le> 53 \<and> 1 \<le> d \<and> d \<le> 7 \<and>
    hb_dateEncWeek y w d = j"
proof -
  define D T where "D = j mod 7 + 1" and "T = j + (4 - (j mod 7 + 1))"
  have D: "1 \<le> D" "D \<le> 7" "T = j + (4 - D)" by (auto simp: D_def T_def) 
  have T: "HB_STR_DATE_BASE \<le> T" "T \<le> last_day" using assms D by auto
  have T7: "T mod 7 = 3" unfolding T_def by presburger
  obtain y m d where dec: "hb_dateDecode T = (y, m, d)" and v: "valid_date y m d" and enc: "hb_dateEncode y m d = T"
    using Decode_valid[OF T] by blast
  define A where "A = hb_dateEncode y 1 1"
  have A: "A \<le> T" "T \<le> A + 365" using day_in_year[OF v] by (simp_all add: A_def enc)
  have "valid_date y 1 1" using v by (simp add: valid_date_def month_days_def)
  then have A0: "0 \<le> A" using Decode_Encode[of y 1 1] by (simp add: A_def HB_STR_DATE_BASE_def)
  have "hb_dateDecWeek j = (True, y, (T - A) div 7 + 1, D)"
  proof -
    have "0 \<le> j" "HB_STR_DATE_BASE \<le> j" using assms(1) by (simp_all add: HB_STR_DATE_BASE_def)
    then show ?thesis using A
      unfolding hb_dateDecWeek_def Let_def by (simp only: smod_nonneg if_True T_def[symmetric] dec prod.case)
        (simp add: sdiv_nonneg D_def A_def)
  qed
  moreover have "hb_dateEncWeek y ((T - A) div 7 + 1) D = j"
  proof -
    have "(T - A) div 7 * 7 = T - A - (6 - (A + 3) mod 7)" using T7 by presburger
    moreover have "0 \<le> (T - A) div 7" "(T - A) div 7 \<le> 52" using A by auto
    ultimately show ?thesis using A0 D
      by (simp add: hb_dateEncWeek_def Let_def smod_nonneg A_def[symmetric])
  qed
  ultimately show ?thesis using A D by auto
qed

lemma hb_dateWeek_roundtrip_witness:
  "\<exists>y w d. hb_dateDecWeek 2460000 = (True, y, w, d) \<and> 1 \<le> w \<and> w \<le> 53 \<and> 1 \<le> d \<and> d \<le> 7 \<and>
    hb_dateEncWeek y w d = 2460000"
  by (rule hb_dateWeek_roundtrip) (simp_all add: HB_STR_DATE_BASE_def last_day_def)

end
