(* ===== verification/HbStamp.thy ===== *)
theory HbStamp
  imports HbWeek HbTime
begin

text \<open>
  The round trips of the date and timestamp texts of common/hbdate.c, and what
  the reader of timestamps guarantees on any text.
\<close>

section \<open>Dates as text\<close>

lemma dateStrPut_fmt:
  assumes "valid_date y m d"
  shows "hb_dateStrPut y m d = fmt 4 y @ fmt 2 m @ fmt 2 d"
proof -
  have b: "0 \<le> y" "0 \<le> m" "0 \<le> d" "0 < m" "0 < d" using assms by (simp_all add: valid_date_def)
  show ?thesis using b
    by (simp add: hb_dateStrPut_def fmt_digits sdiv_nonneg smod_nonneg zdiv_zmult2_eq[symmetric])
qed

lemma valid_date_small:
  assumes "valid_date y m d"
  shows "0 \<le> y" "y < 10000" "0 \<le> m" "m < 100" "0 \<le> d" "d < 100"
  using assms by (auto simp: valid_date_def month_days_def split: if_splits)

lemma dateStrGet_Cons:
  "hb_dateStrGet (Some (a # b # c # d # e # f # g # h # s)) =
    ((((a - 48) * 10 + (b - 48)) * 10 + (c - 48)) * 10 + (d - 48),
     (e - 48) * 10 + (f - 48), (g - 48) * 10 + (h - 48))"
  by (simp add: hb_dateStrGet_def)

lemma dateStrGet_fmt:
  assumes "valid_date y m d"
  shows "hb_dateStrGet (Some (fmt 4 y @ fmt 2 m @ fmt 2 d @ s)) = (y, m, d)"
proof -
  note b = valid_date_small[OF assms]
  show ?thesis
    unfolding fmt_digits(3)[OF b(1)] fmt_digits(1)[OF b(3)] fmt_digits(1)[OF b(5)] append.simps
    by (simp only: dateStrGet_Cons add_diff_cancel_right' digit_value b)
qed

text \<open>C21.
  The eight digits that hb_dateDecStr writes for a day of the calendar are
  read back by hb_dateEncStr as the same day.\<close>

theorem hb_dateStr_roundtrip:
  assumes "HB_STR_DATE_BASE \<le> j" "j \<le> last_day"
  shows "length (hb_dateDecStr j) = 8 \<and> hb_dateEncStr (Some (hb_dateDecStr j)) = j"
proof -
  obtain y m d where v: "hb_dateDecode j = (y, m, d)" "valid_date y m d" "hb_dateEncode y m d = j"
    using Decode_valid[OF assms] by blast
  have e: "hb_dateDecStr j = fmt 4 y @ fmt 2 m @ fmt 2 d"
    using assms(1) v dateStrPut_fmt[OF v(2)] by (simp add: hb_dateDecStr_def HB_STR_DATE_BASE_def)
  have "length (fmt 4 y @ fmt 2 m @ fmt 2 d) = 8"
    using fmt_digits valid_date_small[OF v(2)] by simp
  moreover have "hb_dateStrGet (Some (fmt 4 y @ fmt 2 m @ fmt 2 d)) = (y, m, d)"
    using dateStrGet_fmt[OF v(2), of "[]"] by simp
  ultimately show ?thesis using v(3) by (simp only: e hb_dateEncStr_def prod.case)
qed

lemma hb_dateStr_roundtrip_witness:
  "length (hb_dateDecStr 2460000) = 8 \<and> hb_dateEncStr (Some (hb_dateDecStr 2460000)) = 2460000"
  by (rule hb_dateStr_roundtrip) (simp_all add: HB_STR_DATE_BASE_def last_day_def)

section \<open>Timestamps\<close>

lemma timeStrRawGet_digits:
  assumes "list_all HB_ISDIGIT [a, b, c, d, e, f, g, h, i]"
  shows "hb_timeStrRawGet (Some [a, b, c, d, e, f, g, h, i]) =
    ((a - 48) * 10 + (b - 48), (c - 48) * 10 + (d - 48), (e - 48) * 10 + (f - 48),
     ((g - 48) * 10 + (h - 48)) * 10 + (i - 48))"
proof -
  have ten: "(10::nat) = Suc (Suc (Suc (Suc (Suc (Suc (Suc (Suc (Suc (Suc 0)))))))))" by simp
  have "digit_run 10 [a, b, c, d, e, f, g, h, i] = 9"
    using assms by (simp add: ten HB_ISDIGIT_def)
  then show ?thesis by (simp add: hb_timeStrRawGet_def Let_def num2_def)
qed

lemma timeStrRawGet_fmt:
  assumes "clock h mi se ms"
  shows "hb_timeStrRawGet (Some (fmt 2 h @ fmt 2 mi @ fmt 2 se @ fmt 3 ms)) = (h, mi, se, ms)"
proof -
  have b: "0 \<le> h" "h < 100" "0 \<le> mi" "mi < 100" "0 \<le> se" "se < 100" "0 \<le> ms" "ms < 1000"
    using assms by (simp_all add: clock_def)
  show ?thesis
    unfolding fmt_digits(1)[OF b(1)] fmt_digits(1)[OF b(3)] fmt_digits(1)[OF b(5)] fmt_digits(2)[OF b(7)] append.simps
    by (subst timeStrRawGet_digits) (simp_all only: list.pred_inject HB_ISDIGIT_mod simp_thms add_diff_cancel_right' digit_value b)
qed

lemma digit_run_fmt:
  assumes "0 \<le> y" "0 \<le> m" "0 \<le> d" "0 \<le> h"
  shows "digit_run 10 (fmt 4 y @ fmt 2 m @ fmt 2 d @ fmt 2 h @ s) = 10"
proof -
  have ten: "(10::nat) = Suc (Suc (Suc (Suc (Suc (Suc (Suc (Suc (Suc (Suc 0)))))))))" by simp
  show ?thesis using assms by (simp add: fmt_digits ten)
qed

lemma drop_fmt: "0 \<le> y \<Longrightarrow> 0 \<le> m \<Longrightarrow> 0 \<le> d \<Longrightarrow> drop 8 (fmt 4 y @ fmt 2 m @ fmt 2 d @ s) = s"
  by (simp add: fmt_digits)

text \<open>
  The digits of hb_timeStampStrRawPut are read back by hb_timeStampStrRawGet
  as the same day and time, for every moment of the calendar.\<close>

theorem hb_timeStampStrRaw_roundtrip:
  assumes "HB_STR_DATE_BASE \<le> j" "j \<le> last_day" "0 \<le> t" "t < 86400000"
  shows "hb_timeStampStrRawGet (hb_timeStampStrRawPut j t) = (j, t)"
proof -
  obtain y m d where v: "hb_dateDecode j = (y, m, d)" "valid_date y m d" "hb_dateEncode y m d = j"
    using Decode_valid[OF assms(1,2)] by blast
  obtain h mi se ms where c: "hb_timeDecode t = (h, mi, se, ms)" "clock h mi se ms" "hb_timeEncode h mi se ms = t"
    using timeEncode_Decode[OF assms(3,4)] .
  let ?s = "fmt 2 h @ fmt 2 mi @ fmt 2 se @ fmt 3 ms"
  have put: "hb_timeStampStrRawPut j t = fmt 4 y @ fmt 2 m @ fmt 2 d @ ?s"
    by (simp add: hb_timeStampStrRawPut_def v c dateStrPut_fmt)
  note b = valid_date_small[OF v(2)]
  have "0 \<le> h" using c(2) by (simp add: clock_def)
  note r = digit_run_fmt[OF b(1,3,5) this] drop_fmt[OF b(1,3,5)] dateStrGet_fmt[OF v(2)]
  show ?thesis unfolding put hb_timeStampStrRawGet_def Let_def r
    by (simp add: timeStrRawGet_fmt[OF c(2)] v(3) c(3))
qed

lemma hb_timeStampStrRaw_roundtrip_witness:
  "hb_timeStampStrRawGet (hb_timeStampStrRawPut 2460000 45296789) = (2460000, 45296789)"
  by (rule hb_timeStampStrRaw_roundtrip) (simp_all add: HB_STR_DATE_BASE_def last_day_def)

lemma get_date_part_digits:
  assumes "list_all HB_ISDIGIT [a, b, c, d, e, f, g, h, i]"
    and "y = ((a - 48) * 10 + (b - 48)) * 100 + ((c - 48) * 10 + (d - 48))"
    and "hb_dateEncode y ((e - 48) * 10 + (f - 48)) ((g - 48) * 10 + (h - 48)) \<noteq> 0"
  shows "get_date_part (Some (a # b # c # d # 45 # e # f # 45 # g # h # 32 # i # s)) =
    (True, (y, (e - 48) * 10 + (f - 48), (g - 48) * 10 + (h - 48)), Some (i # s))"
proof -
  have i: "HB_ISDIGIT a" "HB_ISDIGIT i" using assms(1) by simp_all
  have "skip_space (32 # i # s) = i # s" using skip_space_digit[of "i # s"] i(2) by (simp add: HB_ISSPACE_def)
  moreover have "skip_space (a # r) = a # r" for r using skip_space_digit[of "a # r"] i(1) by simp
  moreover have "\<not> HB_ISDIGIT 32" "i \<noteq> 0" using i(2) by (auto simp: HB_ISDIGIT_def)
  ultimately show ?thesis using assms
    by (simp add: get_date_part_def get_date_def is_digits_def num2_def Let_def)
qed

text \<open>C22.
  The text "YYYY-MM-DD hh:mm:ss.fff" of hb_timeStampStr is accepted by the
  reader of ISO timestamps, which gives the same day and time back.\<close>

theorem hb_timeStampStr_roundtrip:
  assumes "HB_STR_DATE_BASE \<le> j" "j \<le> last_day" "0 \<le> t" "t < 86400000"
  shows "hb_timeStampStrGetDTU (Some (hb_timeStampStr j t)) = (True, j, t, False)"
proof -
  obtain y m d where v: "hb_dateDecode j = (y, m, d)" "valid_date y m d" "hb_dateEncode y m d = j"
    using Decode_valid[OF assms(1,2)] by blast
  obtain h mi se ms where c: "hb_timeDecode t = (h, mi, se, ms)" "clock h mi se ms" "hb_timeEncode h mi se ms = t"
    using timeEncode_Decode[OF assms(3,4)] .
  let ?s = "fmt 2 h @ [58] @ fmt 2 mi @ [58] @ fmt 2 se @ [46] @ fmt 3 ms"
  note b = valid_date_small[OF v(2)]
  have h: "0 \<le> h" using c(2) by (simp add: clock_def)
  have y: "((y div 10 div 10 div 10 mod 10) * 10 + y div 10 div 10 mod 10) * 100 + (y div 10 mod 10 * 10 + y mod 10) = y"
    using digit_value(3)[OF b(1,2)] by simp
  have "j \<noteq> 0" using assms(1) by (simp add: HB_STR_DATE_BASE_def)
  then have "get_date_part (Some (hb_timeStampStr j t)) = (True, (y, m, d), Some ?s)"
    unfolding hb_timeStampStr_def v c prod.case fmt_digits(3)[OF b(1)] fmt_digits(1)[OF b(3)]
      fmt_digits(1)[OF b(5)] fmt_digits(1)[OF h] append.simps
    by (subst get_date_part_digits)
      (simp_all only: list.pred_inject HB_ISDIGIT_mod simp_thms add_diff_cancel_right' digit_value b y v)
  then show ?thesis
    using timeStrGetUTC_clock[OF c(2)] v(3) c(3)
    by (simp add: hb_timeStampStrGetDTU_def hb_timeStampStrGetUTC_def)
qed

lemma hb_timeStampStr_roundtrip_witness:
  "hb_timeStampStrGetDTU (Some (hb_timeStampStr 2460000 45296789)) = (True, 2460000, 45296789, False)"
  by (rule hb_timeStampStr_roundtrip) (simp_all add: HB_STR_DATE_BASE_def last_day_def)

text \<open>C23.
  Whatever the text, the moment that hb_timeStampStrGetDTU stores has its time
  within one day, also after the offset from UTC is taken off, and an accepted
  text never gives a negative day.\<close>

theorem hb_timeStampStrGetDTU_normal:
  "(case hb_timeStampStrGetDTU szDateTime of (fValid, lJulian, lMilliSec, fUTC) \<Rightarrow>
     0 \<le> lMilliSec \<and> lMilliSec < 86400000 \<and> (fValid \<longrightarrow> 0 \<le> lJulian))"
proof -
  obtain f ymd t where g0: "hb_timeStampStrGetUTC szDateTime = (f, ymd, t)" by (metis prod_cases3)
  obtain y m d where "ymd = (y, m, d)" by (metis prod_cases3)
  note g = g0[unfolded this]
  have e: "t = hb_timeStrGetUTC (snd (snd (get_date_part szDateTime)))"
    using g by (simp add: hb_timeStampStrGetUTC_def Let_def split: prod.splits)
  have "if tmValid t then clock (tmHour t) (tmMinutes t) (tmSeconds t) (tmMSec t) \<and> \<bar>tmUTCOffset t\<bar> \<le> 43200
    else t = no_time"
    using GetUTC_bounds[of "snd (snd (get_date_part szDateTime))"] by (simp add: e Let_def)
  then have off: "\<bar>tmUTCOffset t\<bar> \<le> 43200" by (simp add: no_time_def split: if_splits)
  have ms: "0 \<le> hb_timeEncode (tmHour t) (tmMinutes t) (tmSeconds t) (tmMSec t)"
    "hb_timeEncode (tmHour t) (tmMinutes t) (tmSeconds t) (tmMSec t) < 86400000"
    by (simp_all add: hb_timeEncode_def)
  show ?thesis using off ms Encode_nonneg[of y m d]
    by (auto simp: hb_timeStampStrGetDTU_def g Let_def split: if_splits)
qed

text \<open>The text 2024-02-29 23:30:00-04:00, whose moment falls on the next day.\<close>

lemma hb_timeStampStrGetDTU_normal_witness:
  "case hb_timeStampStrGetDTU (Some [50,48,50,52,45,48,50,45,50,57,32,50,51,58,51,48,58,48,48,45,48,52,58,48,48])
   of (fValid, lJulian, lMilliSec, fUTC) \<Rightarrow> 0 \<le> lMilliSec \<and> lMilliSec < 86400000"
  using hb_timeStampStrGetDTU_normal[of
      "Some [50,48,50,52,45,48,50,45,50,57,32,50,51,58,51,48,58,48,48,45,48,52,58,48,48]"]
  by (auto split: prod.splits)

end
