(* ===== verification/HbStrFacts.thy ===== *)
theory HbStrFacts
  imports HbStr
begin

text \<open>
  What the functions of common/hbstr.c compute: the search finds the first
  occurrence, the limited copies are prefixes, the escape sequences and the
  hexadecimal form keep what they should.
\<close>

declare One_nat_def [simp del]

section \<open>Search\<close>

lemma sub_match_iff:
  "sub_match f szText szSub nPos n \<longleftrightarrow> (\<forall>i. 0 < i \<and> i < n \<longrightarrow> f (szText ! (nPos + i)) = f (szSub ! i))"
  by (induction n) (auto simp: less_Suc_eq)

definition occurs_at :: "(HB_BYTE \<Rightarrow> HB_BYTE) \<Rightarrow> HB_BYTE list \<Rightarrow> HB_BYTE list \<Rightarrow> nat \<Rightarrow> bool" where
  "occurs_at f szSub szText i \<longleftrightarrow> map f (take (length szSub) (drop i szText)) = map f szSub"

lemma match_occurs:
  assumes "szSub \<noteq> []" "nPos + length szSub \<le> length szText"
  shows "f (szText ! nPos) = f (hd szSub) \<and> sub_match f szText szSub nPos (length szSub) \<longleftrightarrow>
    occurs_at f szSub szText nPos"
proof -
  have e: "occurs_at f szSub szText nPos \<longleftrightarrow> (\<forall>i < length szSub. f (szText ! (nPos + i)) = f (szSub ! i))"
    unfolding occurs_at_def list_eq_iff_nth_eq[of "map f _"] using assms(2) by (simp add: nth_append)
  show ?thesis
  proof
    assume *: "f (szText ! nPos) = f (hd szSub) \<and> sub_match f szText szSub nPos (length szSub)"
    show "occurs_at f szSub szText nPos" unfolding e
    proof (intro allI impI)
      fix i assume "i < length szSub"
      then show "f (szText ! (nPos + i)) = f (szSub ! i)"
        using * assms(1) by (cases "i = 0") (simp_all add: sub_match_iff hd_conv_nth)
    qed
  next
    assume *: "occurs_at f szSub szText nPos"
    then have "f (szText ! (nPos + 0)) = f (szSub ! 0)" unfolding e using assms(1) by blast
    with * show "f (szText ! nPos) = f (hd szSub) \<and> sub_match f szText szSub nPos (length szSub)"
      unfolding e using assms(1) by (simp add: sub_match_iff hd_conv_nth)
  qed
qed

text \<open>A position from 1, or 0 when no index of \<open>P\<close> is an occurrence.\<close>

definition first_occurrence :: "(HB_BYTE \<Rightarrow> HB_BYTE) \<Rightarrow> HB_BYTE list \<Rightarrow> HB_BYTE list \<Rightarrow> nat set \<Rightarrow> nat \<Rightarrow> bool" where
  "first_occurrence f szSub szText P r \<longleftrightarrow>
     (r = 0 \<and> (\<forall>i \<in> P. \<not> occurs_at f szSub szText i)) \<or>
     (\<exists>i. r = i + 1 \<and> i \<in> P \<and> occurs_at f szSub szText i \<and> (\<forall>j \<in> P. j < i \<longrightarrow> \<not> occurs_at f szSub szText j))"

lemma at_loop_spec:
  assumes "szSub \<noteq> []" "nPos + k + length szSub \<le> length szText"
  shows "first_occurrence f szSub szText {nPos .. nPos + k} (at_loop f szText szSub nPos k)"
  using assms(2)
proof (induction k arbitrary: nPos)
  case 0
  then have "nPos + length szSub \<le> length szText" by simp
  note m = match_occurs[OF assms(1) this, of f]
  show ?case
  proof (cases "occurs_at f szSub szText nPos")
    case True
    with m have "at_loop f szText szSub nPos 0 = nPos + 1" by (subst at_loop.simps) simp
    with True show ?thesis by (simp add: first_occurrence_def)
  next
    case False
    with m have "at_loop f szText szSub nPos 0 = 0" by (subst at_loop.simps) auto
    with False show ?thesis by (simp add: first_occurrence_def)
  qed
next
  case (Suc k)
  then have "nPos + length szSub \<le> length szText" by simp
  note m = match_occurs[OF assms(1) this, of f]
  show ?case
  proof (cases "occurs_at f szSub szText nPos")
    case True
    with m have "at_loop f szText szSub nPos (Suc k) = nPos + 1" by (subst at_loop.simps) simp
    with True show ?thesis by (simp add: first_occurrence_def)
  next
    case False
    with m have e: "at_loop f szText szSub nPos (Suc k) = at_loop f szText szSub (nPos + 1) k"
      by (subst at_loop.simps) auto
    have i: "{nPos .. nPos + Suc k} = insert nPos {nPos + 1 .. nPos + 1 + k}" by auto
    have "first_occurrence f szSub szText {nPos + 1 .. nPos + 1 + k} (at_loop f szText szSub (nPos + 1) k)"
      using Suc.prems by (intro Suc.IH) simp
    with False show ?thesis unfolding e i first_occurrence_def by blast
  qed
qed

lemma str_at_first:
  assumes "szSub \<noteq> []"
  shows "first_occurrence f szSub szText {i. i + length szSub \<le> length szText} (str_at f szSub szText)"
proof (cases "length szSub \<le> length szText")
  case True
  have "first_occurrence f szSub szText {0 .. 0 + (length szText - length szSub)}
      (at_loop f szText szSub 0 (length szText - length szSub))"
    using True assms by (intro at_loop_spec) auto
  moreover have "{0 .. 0 + (length szText - length szSub)} = {i. i + length szSub \<le> length szText}"
    using True by auto
  ultimately show ?thesis using True assms by (simp add: str_at_def)
next
  case False
  then show ?thesis by (auto simp: str_at_def first_occurrence_def)
qed

lemma copy_loop_take: "copy_loop f cs n = map f (take n cs)"
  by (induction f cs n rule: copy_loop.induct) auto

lemma hb_strnlen_min: "hb_strnlen cs n = min n (length cs)"
  by (induction cs n rule: hb_strnlen.induct) auto

lemma hb_strncat_take: "hb_strncat d s n = take n (d @ s)"
  by (induction d s n rule: hb_strncat.induct) (simp_all add: copy_loop_take)

lemma unescape_length: "unescape cs = (out, n) \<Longrightarrow> length out + n = length cs"
proof (induction cs arbitrary: out n rule: length_induct)
  case (1 cs)
  show ?case
  proof (cases cs)
    case Nil
    with "1.prems" show ?thesis by simp
  next
    case (Cons c cs1)
    consider "c \<noteq> 92" | "c = 92" "cs1 = []" | ch r where "c = 92" "cs1 = ch # r" by (cases cs1) auto
    then show ?thesis
    proof cases
      case 1
      obtain o1 k where u: "unescape cs1 = (o1, k)" by fastforce
      with "1.IH" Cons have "length o1 + k = length cs1" by simp
      with "1.prems" 1 Cons u show ?thesis by auto
    next
      case 2
      with "1.prems" Cons show ?thesis by simp
    next
      case (3 ch r)
      obtain c2 m r2 where e: "escape_char ch r = (c2, m, r2)" using prod_cases3 by blast
      obtain o1 k where u: "unescape r2 = (o1, k)" by fastforce
      have l: "length r = length r2 + m" using escape_char_length[OF e] .
      with "1.IH" Cons 3 u have "length o1 + k = length r2" by simp
      with "1.prems" 3 Cons u e l show ?thesis by auto
    qed
  qed
qed

lemma first_least:
  assumes "first_occurrence f szSub szText P r"
  shows "r = (if \<exists>i \<in> P. occurs_at f szSub szText i
    then (LEAST i. i \<in> P \<and> occurs_at f szSub szText i) + 1 else 0)"
proof (cases "\<exists>i \<in> P. occurs_at f szSub szText i")
  case True
  then obtain i where i: "r = i + 1" "i \<in> P" "occurs_at f szSub szText i"
      "\<forall>j \<in> P. j < i \<longrightarrow> \<not> occurs_at f szSub szText j"
    using assms by (auto simp: first_occurrence_def)
  have "(LEAST i. i \<in> P \<and> occurs_at f szSub szText i) = i"
    using i by (intro Least_equality) (auto simp: not_le[symmetric])
  then show ?thesis using i True by simp
next
  case False
  then show ?thesis using assms by (auto simp: first_occurrence_def)
qed

text \<open>C29.
  hb_strAt gives the position (from 1) of the first occurrence of a pattern
  that is not empty, and 0 when there is none; hb_strAtI does so up to the case
  of the letters.
\<close>

theorem hb_strAt_first:
  assumes "szSub \<noteq> []"
  shows "hb_strAt szSub szText =
      (if \<exists>i. i + length szSub \<le> length szText \<and> take (length szSub) (drop i szText) = szSub
       then (LEAST i. i + length szSub \<le> length szText \<and> take (length szSub) (drop i szText) = szSub) + 1
       else 0) \<and>
    hb_strAtI szSub szText =
      hb_strAt (map to_upper szSub) (map to_upper szText)"
proof -
  have F: "str_at f szSub szText =
      (if \<exists>i. i + length szSub \<le> length szText \<and> map f (take (length szSub) (drop i szText)) = map f szSub
       then (LEAST i. i + length szSub \<le> length szText \<and> map f (take (length szSub) (drop i szText)) = map f szSub) + 1
       else 0)" if "szSub \<noteq> []" for f szSub szText
    using first_least[OF str_at_first[OF that, of f szText]] by (simp add: occurs_at_def)
  have "map to_upper szSub \<noteq> []" using assms by simp
  then show ?thesis
    unfolding hb_strAt_def hb_strAtI_def using assms by (simp add: F take_map drop_map)
qed

lemma hb_strAt_first_witness: "hb_strAt [98] [97, 98, 98] = 2"
proof -
  let ?at = "\<lambda>i. i + length [98 :: 8 word] \<le> length [97, 98, 98 :: 8 word] \<and>
    take (length [98 :: 8 word]) (drop i [97, 98, 98]) = [98 :: 8 word]"
  have 0: "\<not> ?at 0" and 1: "?at 1" by (simp_all add: numeral_eq_Suc One_nat_def)
  have "(LEAST i. ?at i) = 1"
    using 0 1 by (intro Least_equality) (metis less_one not_le)+
  moreover have "\<exists>i. ?at i" using 1 by blast
  ultimately show ?thesis using hb_strAt_first[of "[98]" "[97, 98, 98]"] by (simp only: if_True) simp
qed

section \<open>Hexadecimal form\<close>

lemma hex_value_digit: "b < 16 \<Longrightarrow> hex_value (hex_digit b) = Some b"
proof -
  assume "b < 16"
  then have "unat b \<in> set [0..<16]" by (simp add: word_less_nat_alt)
  moreover have "list_all (\<lambda>n. hex_value (hex_digit (of_nat n)) = Some (of_nat n)) [0..<16]" by code_simp
  ultimately have "hex_value (hex_digit (of_nat (unat b))) = Some (of_nat (unat b))"
    unfolding list_all_iff by blast
  then show ?thesis by (simp del: hex_value.simps)
qed

lemma nibble_low: "(c :: 8 word) AND 0x0F < 16"
  using word_and_le1[of c "0x0F"] by (simp add: word_le_nat_alt word_less_nat_alt)

lemma nibbles: "push_bit 4 (drop_bit 4 (c :: 8 word) AND 0x0F) OR (c AND 0x0F) = c"
proof -
  have m: "(0x0F :: 8 word) = mask 4" by (simp add: mask_eq_exp_minus_1)
  show ?thesis unfolding m by (rule bit_word_eqI) (auto simp: bit_simps)
qed

fun from_hex :: "HB_BYTE list \<Rightarrow> HB_BYTE list" where
  "from_hex (a # b # cs) =
     (push_bit 4 (the (hex_value a)) OR the (hex_value b)) # from_hex cs"
| "from_hex _ = []"

lemma hb_strtohex_roundtrip: "from_hex (hb_strtohex cs) = cs \<and> length (hb_strtohex cs) = 2 * length cs"
proof (induction cs)
  case (Cons c cs)
  have "hex_value (hex_digit (drop_bit 4 c AND 0x0F)) = Some (drop_bit 4 c AND 0x0F)"
    "hex_value (hex_digit (c AND 0x0F)) = Some (c AND 0x0F)"
    by (intro hex_value_digit nibble_low)+
  then have "from_hex (hb_strtohex (c # cs)) = c # from_hex (hb_strtohex cs)"
    by (simp only: hb_strtohex.simps from_hex.simps option.sel nibbles)
  with Cons show ?case by simp
qed simp

section \<open>Escape sequences\<close>

text \<open>
  hb_strRemEscSeq returns exactly as many bytes as the new length it stores,
  never more than it was given, and leaves a text without a backslash alone.
\<close>

theorem hb_strRemEscSeq_length:
  "length (fst (hb_strRemEscSeq cs)) = snd (hb_strRemEscSeq cs) \<and>
   snd (hb_strRemEscSeq cs) \<le> length cs \<and>
   (92 \<in> set cs \<or> hb_strRemEscSeq cs = (cs, length cs))"
proof -
  let ?P = "\<lambda>c. c \<noteq> (92 :: 8 word)"
  obtain out n where u: "unescape (dropWhile ?P cs) = (out, n)" by fastforce
  have r: "hb_strRemEscSeq cs = (takeWhile ?P cs @ out, length cs - n)"
    by (simp add: hb_strRemEscSeq_def u)
  have l: "length out + n = length (dropWhile ?P cs)" using unescape_length[OF u] .
  have "length (takeWhile ?P cs @ dropWhile ?P cs) = length cs" by simp
  then have t: "length (takeWhile ?P cs) + length (dropWhile ?P cs) = length cs"
    by (simp only: length_append)
  show ?thesis
  proof (cases "92 \<in> set cs")
    case True
    with r l t show ?thesis by simp
  next
    case False
    then have "\<forall>c \<in> set cs. ?P c" by metis
    then have d: "dropWhile ?P cs = []" "takeWhile ?P cs = cs" by (simp_all only: takeWhile_eq_all_conv dropWhile_eq_Nil_conv)
    have "out = []" "n = 0" using u unfolding d(1) by simp_all
    then show ?thesis using r d(2) by simp
  qed
qed

end
