(* ===== verification/SLScope.thy ===== *)
theory SLScope
  imports HelperLaws
begin

text \<open>
  The functions the refinement is about (\<open>sl_scope\<close>), what the emitter makes of
  an instruction by the kind of its opcode, and where in the function's lines
  the block of an instruction is found.
\<close>

section \<open>The scope of the refinement\<close>

text \<open>The targets of the cases of a SWITCH: \<open>k\<close> entries from offset \<open>off\<close> on.\<close>

fun case_targets :: "pcptr \<Rightarrow> nat \<Rightarrow> nat \<Rightarrow> int list" where
  "case_targets m 0 off = []"
| "case_targets m (Suc k) off =
     (case (switch_literal_len (pc_at m off)) of
        None \<Rightarrow> []
      | Some l \<Rightarrow>
          (int (off + l) + case_jump_disp (pc_at m (off + l))) #
          case_targets m k (off + l + case_jump_skip (pc_at m (off + l))))"

definition seq_ops :: "nat set" where
  "seq_ops = {HB_P_SEQBEGIN, HB_P_SEQEND, HB_P_SEQRECOVER, HB_P_SEQALWAYS, HB_P_ALWAYSBEGIN,
     HB_P_ALWAYSEND}"

definition str_header :: "nat \<Rightarrow> nat" where
  "str_header op =
     (if op = HB_P_PUSHSTRSHORT then 2 else if op = HB_P_PUSHSTR then 3
      else if op = HB_P_PUSHSTRLARGE then 4 else 0)"

definition instr_scope :: "pcptr \<Rightarrow> nat \<Rightarrow> nat list \<Rightarrow> nat \<Rightarrow> bool" where
  "instr_scope m n ps pos =
     (let op = opc (pc_at m pos); nextOff = pos + ilen m pos in
      op \<notin> seq_ops \<and>
      (op = HB_P_SEND \<or> op = HB_P_SENDSHORT \<longrightarrow> opc (pc_at m nextOff) \<noteq> HB_P_POP) \<and>
      (hb_pcodeIsJump op \<longrightarrow> jump_target m pos \<in> int ` set ps) \<and>
      (op = HB_P_SWITCH \<longrightarrow>
         set (case_targets m (MKU16 (pc_at m pos) 1) (pos + 3)) \<subseteq> int ` set ps) \<and>
      str_header op < ilen m pos \<and>
      (op \<notin> {HB_P_ENDPROC, HB_P_JUMP, HB_P_JUMPNEAR, HB_P_JUMPFAR} \<longrightarrow> nextOff < n))"

definition sl_scope :: "pcptr \<Rightarrow> nat \<Rightarrow> bool" where
  "sl_scope m n \<longleftrightarrow> hb_llvmSLPrecheck m n \<and> 0 < n \<and>
     (case pcode_walk m n 0 of None \<Rightarrow> False | Some ps \<Rightarrow> list_all (instr_scope m n ps) ps)"

section \<open>Opcodes\<close>

definition special_ops :: "nat list" where
  "special_ops = [HB_P_LINE, HB_P_NOOP, HB_P_ENDPROC, HB_P_JUMP, HB_P_JUMPNEAR, HB_P_JUMPFAR,
     HB_P_JUMPFALSENEAR, HB_P_JUMPFALSE, HB_P_JUMPFALSEFAR, HB_P_JUMPTRUENEAR, HB_P_JUMPTRUE,
     HB_P_JUMPTRUEFAR, HB_P_PUSHSTRSHORT, HB_P_PUSHSTR, HB_P_PUSHSTRLARGE, HB_P_PUSHFUNCSYM,
     HB_P_SWITCH, HB_P_PUSHBLOCK, HB_P_PUSHBLOCKSHORT, HB_P_PUSHBLOCKLARGE, HB_P_SEQBEGIN,
     HB_P_SEQEND, HB_P_SEQRECOVER, HB_P_SEQALWAYS, HB_P_ALWAYSBEGIN, HB_P_ALWAYSEND]"

lemma special_no_row: "list_all (\<lambda>op. map_of emit_rows op = None) special_ops"
  by (simp only: special_ops_def list.pred_inject emit_tables lookup_simps map_of.simps(1))

lemma special_no_case:
  "list_all (\<lambda>op. op \<in> {HB_P_NOOP, HB_P_PUSHFUNCSYM} \<or> map_of (cases_plain H) op = None) special_ops"
  by (simp only: special_ops_def list.pred_inject case_tables lookup_simps map_of.simps(1) insert_iff)

definition row_ops :: "nat list" where
  "row_ops = [HB_P_PUSHNIL, HB_P_TRUE, HB_P_FALSE, HB_P_ZERO, HB_P_ONE, HB_P_PUSHBYTE, HB_P_PUSHINT,
     HB_P_PUSHLONG, HB_P_PUSHLONGLONG, HB_P_PUSHDOUBLE, HB_P_PUSHLOCAL, HB_P_PUSHLOCALNEAR,
     HB_P_POPLOCAL, HB_P_POPLOCALNEAR, HB_P_PUSHSTATIC, HB_P_POPSTATIC, HB_P_PUSHSYM,
     HB_P_PUSHSYMNEAR, HB_P_PLUS, HB_P_MINUS, HB_P_MULT, HB_P_DIVIDE, HB_P_MODULUS, HB_P_POWER,
     HB_P_NEGATE, HB_P_EQUAL, HB_P_EXACTLYEQUAL, HB_P_NOTEQUAL, HB_P_LESS, HB_P_LESSEQUAL,
     HB_P_GREATER, HB_P_GREATEREQUAL, HB_P_AND, HB_P_OR, HB_P_NOT, HB_P_POP, HB_P_DUPLICATE,
     HB_P_RETVALUE, HB_P_FORTEST, HB_P_INC, HB_P_DEC, HB_P_DUPLUNREF, HB_P_PUSHUNREF,
     HB_P_PLUSEQPOP, HB_P_MINUSEQPOP, HB_P_MULTEQPOP, HB_P_DIVEQPOP, HB_P_MODEQPOP,
     HB_P_EXPEQPOP, HB_P_DECEQPOP, HB_P_INCEQPOP, HB_P_PLUSEQ, HB_P_MINUSEQ, HB_P_MULTEQ,
     HB_P_DIVEQ, HB_P_MODEQ, HB_P_EXPEQ, HB_P_DECEQ, HB_P_INCEQ, HB_P_ARRAYPUSH,
     HB_P_ARRAYPUSHREF, HB_P_ARRAYPOP, HB_P_PUSHAPARAMS, HB_P_PUSHALIAS, HB_P_POPALIAS,
     HB_P_SWAPALIAS, HB_P_PUSHSELF, HB_P_PUSHOVARREF, HB_P_WITHOBJECTSTART, HB_P_WITHOBJECTEND,
     HB_P_FUNCPTR, HB_P_ENUMNEXT, HB_P_ENUMPREV, HB_P_ENUMEND, HB_P_MACROPUSHINDEX,
     HB_P_MACROPUSHREF, HB_P_MACROSYMBOL, HB_P_MACROTEXT, HB_P_PUSHLOCALREF, HB_P_PUSHSTATICREF,
     HB_P_LOCALINC, HB_P_LOCALDEC, HB_P_LOCALINCPUSH, HB_P_LOCALADDINT, HB_P_LOCALNEARADDINT,
     HB_P_FRAME, HB_P_FUNCTION, HB_P_FUNCTIONSHORT, HB_P_DO, HB_P_DOSHORT, HB_P_ARRAYDIM,
     HB_P_ARRAYGEN, HB_P_HASHGEN, HB_P_PUSHFIELD, HB_P_POPFIELD, HB_P_PUSHMEMVAR,
     HB_P_PUSHMEMVARREF, HB_P_POPMEMVAR, HB_P_PUSHVARIABLE, HB_P_POPVARIABLE,
     HB_P_PUSHALIASEDFIELD, HB_P_PUSHALIASEDFIELDNEAR, HB_P_POPALIASEDFIELD,
     HB_P_POPALIASEDFIELDNEAR, HB_P_PUSHALIASEDVAR, HB_P_POPALIASEDVAR, HB_P_MESSAGE,
     HB_P_WITHOBJECTMESSAGE, HB_P_SEND, HB_P_SENDSHORT, HB_P_ENUMSTART, HB_P_MACROPOP,
     HB_P_MACROPOPALIASED, HB_P_MACROPUSH, HB_P_MACROPUSHLIST, HB_P_MACROPUSHPARE,
     HB_P_MACROPUSHALIASED, HB_P_MACROARRAYGEN, HB_P_MACROFUNC, HB_P_MACRODO, HB_P_MACROSEND,
     HB_P_SEQBLOCK]"

definition unsupported_ops :: "nat list" where
  "unsupported_ops = [HB_P_ENDBLOCK, HB_P_PUSHTIMESTAMP, HB_P_INSTRING, HB_P_LOCALNAME, HB_P_MODULENAME,
     HB_P_MMESSAGE, HB_P_MPOPALIASEDFIELD, HB_P_MPOPALIASEDVAR, HB_P_MPOPFIELD, HB_P_MPOPMEMVAR,
     HB_P_MPUSHALIASEDFIELD, HB_P_MPUSHALIASEDVAR, HB_P_MPUSHBLOCK, HB_P_MPUSHFIELD,
     HB_P_MPUSHMEMVAR, HB_P_MPUSHMEMVARREF, HB_P_MPUSHSYM, HB_P_MPUSHVARIABLE, HB_P_PARAMETER,
     HB_P_SFRAME, HB_P_STATICS, HB_P_STATICNAME, HB_P_MPUSHSTR, HB_P_PUSHDATE, HB_P_VFRAME,
     HB_P_LARGEFRAME, HB_P_LARGEVFRAME, HB_P_PUSHSTRHIDDEN, HB_P_MPUSHBLOCKLARGE,
     HB_P_MPUSHSTRLARGE, HB_P_SWAP, HB_P_PUSHVPARAMS, HB_P_THREADSTATICS]"

lemma map_fst_emit_rows: "map fst emit_rows = row_ops"
  by (simp only: emit_tables row_ops_def list.map append.simps fst_conv)

lemma unsupported: "list_all (\<lambda>op. \<not> fSupported (hb_pcInfo ! op)) unsupported_ops"
  by (simp only: unsupported_ops_def list.pred_inject pcInfo_rows HB_PCINFO.select_convs simp_thms)

lemma upt_start: "[0..<181] = 0 # 1 # [2..<181]"
  by (simp add: upt_rec[of 0] upt_rec[of "Suc 0"] numeral_2_eq_2)

lemma all_ops: "list_all (\<lambda>op. op \<in> set (special_ops @ row_ops @ unsupported_ops)) [0..<181]"
  unfolding upt_start
  by (simp add: special_ops_def row_ops_def unsupported_ops_def)

lemma supported_op:
  assumes "op < 181" "fSupported (hb_pcInfo ! op)"
  shows "op \<in> set special_ops \<or> (\<exists>f args. map_of emit_rows op = Some (f, args))"
proof -
  have "op \<in> set [0..<181]" using assms(1) by simp
  then have "op \<in> set (special_ops @ row_ops @ unsupported_ops)"
    using all_ops unfolding list_all_iff by blast
  moreover have "op \<notin> set unsupported_ops"
    using unsupported assms(2) unfolding list_all_iff by blast
  moreover have "set row_ops = fst ` set emit_rows"
    by (simp flip: map_fst_emit_rows)
  ultimately show ?thesis using map_of_eq_None_iff[of emit_rows op] by auto
qed

lemma send_no_case:
  "map_of (cases_plain H) HB_P_SEND = None" "map_of (cases_plain H) HB_P_SENDSHORT = None"
  by (simp_all only: case_tables lookup_simps map_of.simps(1))

lemma noop_case:
  "map_of (cases_plain H) HB_P_NOOP = Some (\<lambda>p s. Some s, 1)"
  "map_of (cases_plain H) HB_P_PUSHFUNCSYM = Some (\<lambda>p. vm_pushfuncsym (MKU16 p 1), 3)"
  by (simp_all only: case_tables lookup_simps map_of.simps(1))

section \<open>Where the lines of an instruction are\<close>

definition str_count :: "pcptr \<Rightarrow> nat list \<Rightarrow> nat" where
  "str_count m ps = length (filter (\<lambda>pos. str_header (opc (pc_at m pos)) \<noteq> 0) ps)"

lemma str_no_row:
  "str_header op \<noteq> 0 \<Longrightarrow> map_of emit_rows op = None"
  using special_no_row by (auto simp: str_header_def special_ops_def split: if_splits)

definition inner_labels :: "nat \<Rightarrow> lab set" where
  "inner_labels pos = {L_jpdone pos, L_ipfsa pos}"

lemmas special_rows = special_no_row[unfolded special_ops_def list.pred_inject simp_thms]

text \<open>What an instruction becomes, by the kind of its opcode.\<close>

lemma emit_instr_row:
  "map_of emit_rows (opc (pc_at m pos)) = Some (f, args) \<Longrightarrow>
   emit_instr k m n pos st =
     (Ln_call (Reg ''r'' pos '''') f (args k (pc_at m pos)) #
      hb_llvmSLEmitActionCheck pos (next_label n (pos + ilen m pos)) (seq_stack st), st)"
  by (simp only: emit_instr_def Let_def option.case prod.case append.simps)

lemma emit_special:
  fixes n :: nat
  assumes "opc (pc_at m pos) = op"
  defines "nxt \<equiv> next_label n (pos + ilen m pos)"
    and "target \<equiv> L_i (int pos + hb_pcodeJumpOffset (pc_at m pos))"
  shows "op = HB_P_LINE \<or> op = HB_P_NOOP \<Longrightarrow> emit_instr k m n pos st = ([Ln_br nxt], st)"
    "op = HB_P_ENDPROC \<Longrightarrow> emit_instr k m n pos st = ([Ln_br L_epilogue], st)"
    "op = HB_P_JUMP \<or> op = HB_P_JUMPNEAR \<or> op = HB_P_JUMPFAR \<Longrightarrow>
       emit_instr k m n pos st = ([Ln_br target], st)"
    "op = HB_P_JUMPFALSE \<or> op = HB_P_JUMPFALSENEAR \<or> op = HB_P_JUMPFALSEFAR \<Longrightarrow>
       emit_instr k m n pos st = (emit_condjump pos nxt target (seq_stack st), st)"
    "op = HB_P_JUMPTRUE \<or> op = HB_P_JUMPTRUENEAR \<or> op = HB_P_JUMPTRUEFAR \<Longrightarrow>
       emit_instr k m n pos st = (emit_condjump pos target nxt (seq_stack st), st)"
    "op = HB_P_PUSHSTRSHORT \<Longrightarrow> emit_instr k m n pos st = emit_pushstr pos nxt (U8 (pc_at m pos) 1) st"
    "op = HB_P_PUSHSTR \<Longrightarrow> emit_instr k m n pos st = emit_pushstr pos nxt (MKU16 (pc_at m pos) 1) st"
    "op = HB_P_PUSHSTRLARGE \<Longrightarrow>
       emit_instr k m n pos st = emit_pushstr pos nxt (HB_PCODE_MKUINT24 (pc_at (pc_at m pos) 1)) st"
    "op = HB_P_PUSHFUNCSYM \<Longrightarrow>
       emit_instr k m n pos st = (emit_pushfuncsym k pos nxt (MKU16 (pc_at m pos) 1) (seq_stack st), st)"
    "op = HB_P_SWITCH \<Longrightarrow> emit_instr k m n pos st = (emit_switch m n pos nxt, st)"
    "op = HB_P_PUSHBLOCK \<or> op = HB_P_PUSHBLOCKSHORT \<or> op = HB_P_PUSHBLOCKLARGE \<Longrightarrow>
       emit_instr k m n pos st = (emit_pushblock k n pos nxt, st)"
  unfolding nxt_def target_def
  by (insert special_rows assms(1), ((elim disjE)?; simp add: emit_instr_def Let_def)+)

lemma instr_kinds:
  assumes "op \<in> set special_ops \<or> (\<exists>f args. map_of emit_rows op = Some (f, args))" "op \<notin> seq_ops"
  obtains (row) f args where "map_of emit_rows op = Some (f, args)"
  | (skip) "op = HB_P_LINE \<or> op = HB_P_NOOP"
  | (endproc) "op = HB_P_ENDPROC"
  | (jump) "op = HB_P_JUMP \<or> op = HB_P_JUMPNEAR \<or> op = HB_P_JUMPFAR"
  | (jumpfalse) "op = HB_P_JUMPFALSE \<or> op = HB_P_JUMPFALSENEAR \<or> op = HB_P_JUMPFALSEFAR"
  | (jumptrue) "op = HB_P_JUMPTRUE \<or> op = HB_P_JUMPTRUENEAR \<or> op = HB_P_JUMPTRUEFAR"
  | (pushstr) "op = HB_P_PUSHSTRSHORT \<or> op = HB_P_PUSHSTR \<or> op = HB_P_PUSHSTRLARGE"
  | (funcsym) "op = HB_P_PUSHFUNCSYM"
  | (switch) "op = HB_P_SWITCH"
  | (block) "op = HB_P_PUSHBLOCK \<or> op = HB_P_PUSHBLOCKSHORT \<or> op = HB_P_PUSHBLOCKLARGE"
  using assms unfolding special_ops_def seq_ops_def list.set insert_iff by blast

definition known :: "nat \<Rightarrow> bool" where
  "known op \<longleftrightarrow> op \<notin> seq_ops \<and> (op \<in> set special_ops \<or> (\<exists>f args. map_of emit_rows op = Some (f, args)))"

lemma str_count_single:
  "str_count m [pos] = (if str_header (opc (pc_at m pos)) = 0 then 0 else 1)"
  by (simp add: str_count_def)

lemma emit_instr_state:
  assumes "known (opc (pc_at m pos))"
  shows "snd (emit_instr k m n pos st) = st\<lparr>iLocalStr := iLocalStr st + str_count m [pos]\<rparr>"
proof -
  have op: "opc (pc_at m pos) \<in> set special_ops \<or> (\<exists>f args. map_of emit_rows (opc (pc_at m pos)) = Some (f, args))"
    "opc (pc_at m pos) \<notin> seq_ops" using assms by (auto simp: known_def)
  show ?thesis
  proof (cases rule: instr_kinds[OF op])
    case (1 f args)
    then have "str_header (opc (pc_at m pos)) = 0" using str_no_row by fastforce
    then show ?thesis by (simp add: emit_instr_row[OF 1] str_count_single)
  qed ((elim disjE)?; simp add: emit_special[OF refl] emit_pushstr_def str_count_single str_header_def)+
qed

lemma emit_instr_labels:
  assumes "known (opc (pc_at m pos))" "seq_stack st = []"
  shows "set (labels (fst (emit_instr k m n pos st))) \<subseteq> inner_labels pos"
proof -
  have op: "opc (pc_at m pos) \<in> set special_ops \<or> (\<exists>f args. map_of emit_rows (opc (pc_at m pos)) = Some (f, args))"
    "opc (pc_at m pos) \<notin> seq_ops" using assms by (auto simp: known_def)
  note d = emit_condjump_def emit_pushstr_def emit_pushfuncsym_def emit_switch_def emit_pushblock_def
    hb_llvmSLEmitActionCheck_def hb_llvmSLEmitActionCheckNamed_def inner_labels_def
  show ?thesis
  proof (cases rule: instr_kinds[OF op])
    case (1 f args)
    then show ?thesis using assms(2) by (simp add: emit_instr_row[OF 1] d Let_def)
  qed ((elim disjE)?; simp add: emit_special[OF refl] assms(2) d Let_def)+
qed

lemma emit_blocks_labels:
  assumes "\<forall>pos\<in>set ps. known (opc (pc_at m pos))" "seq_stack st = []"
  shows "set (labels (emit_blocks k m n ps st)) \<subseteq>
    (\<Union>pos\<in>set ps. insert (L_i (int pos)) (inner_labels pos))"
  using assms
proof (induction ps arbitrary: st)
  case (Cons pos ps)
  then have *: "known (opc (pc_at m pos))" by simp
  obtain ls st1 where e: "emit_instr k m n pos st = (ls, st1)" by (cases "emit_instr k m n pos st")
  have "seq_stack st1 = []" using emit_instr_state[OF *, of k n st] e Cons.prems(2) by simp
  then show ?case
    using Cons.IH[of st1] Cons.prems emit_instr_labels[OF * Cons.prems(2), of k n] e by auto
qed simp

lemma emit_blocks_split:
  assumes "\<forall>pos\<in>set as. known (opc (pc_at m pos))" "seq_stack st = []"
  shows "emit_blocks k m n (as @ bs) st =
    emit_blocks k m n as st @ emit_blocks k m n bs (st\<lparr>iLocalStr := iLocalStr st + str_count m as\<rparr>)"
  using assms
proof (induction as arbitrary: st)
  case Nil
  then show ?case by (simp add: str_count_def)
next
  case (Cons pos as)
  then have *: "known (opc (pc_at m pos))" by simp
  obtain ls st1 where e: "emit_instr k m n pos st = (ls, st1)" by (cases "emit_instr k m n pos st")
  then have st1: "st1 = st\<lparr>iLocalStr := iLocalStr st + str_count m [pos]\<rparr>"
    using emit_instr_state[OF *, of k n st] by simp
  show ?case using Cons.IH[of st1] Cons.prems e by (simp add: st1 str_count_def)
qed

definition instr_lines :: "nat \<Rightarrow> pcptr \<Rightarrow> nat \<Rightarrow> nat \<Rightarrow> nat list \<Rightarrow> nat \<Rightarrow> line list" where
  "instr_lines k m n base as pos =
     fst (emit_instr k m n pos \<lparr>iLocalStr = base + str_count m as, seq_stack = []\<rparr>)"

lemma find_entry: "l \<noteq> L_entry \<Longrightarrow> find_block l (emit_entry m ps @ xs) = find_block l xs"
  by (rule find_block_skip) (auto simp: emit_entry_def labels_def)

lemma body_find:
  assumes "pcode_walk m n 0 = Some ps" "hb_llvmSLEmitBody m n k base = Some prog"
    "\<forall>pos\<in>set ps. known (opc (pc_at m pos))" "ps = as @ pos # bs"
  shows "\<exists>rest. find_block (L_i (int pos)) prog = Some (instr_lines k m n base as pos @ rest) \<and>
    (\<forall>lab zs. lab \<in> inner_labels pos \<longrightarrow> find_block lab (instr_lines k m n base as pos) = Some zs \<longrightarrow>
       find_block lab prog = Some (zs @ rest))"
proof -
  let ?st = "\<lparr>iLocalStr = base, seq_stack = []\<rparr>"
  let ?st' = "\<lparr>iLocalStr = base + str_count m as, seq_stack = []\<rparr>"
  let ?L = "instr_lines k m n base as pos"
  have prog: "prog = emit_entry m ps @ emit_blocks k m n ps ?st @ [Ln_label L_epilogue, Ln_ret]"
    using assms(1,2) by (simp add: hb_llvmSLEmitBody_def)
  have *: "\<forall>pos\<in>set as. known (opc (pc_at m pos))" using assms(3,4) by simp
  define rest where "rest = emit_blocks k m n bs (snd (emit_instr k m n pos ?st')) @
    [Ln_label L_epilogue, Ln_ret]"
  have blocks: "emit_blocks k m n ps ?st @ [Ln_label L_epilogue, Ln_ret] =
    emit_blocks k m n as ?st @ Ln_label (L_i (int pos)) # ?L @ rest"
    using emit_blocks_split[OF *, of ?st k n "pos # bs"] unfolding assms(4)
    by (simp add: rest_def instr_lines_def split: prod.splits)
  have "distinct ps" using pcode_walk_sorted[OF assms(1)] by (simp add: strict_sorted_iff)
  then have fresh: "pos \<notin> set as" using assms(4) by simp
  have lab: "lab \<notin> set (labels (emit_blocks k m n as ?st))"
    if "lab = L_i (int pos) \<or> lab \<in> inner_labels pos" for lab
    using emit_blocks_labels[OF *, of ?st k n] that fresh by (force simp: inner_labels_def)
  have find: "find_block lab prog = find_block lab (Ln_label (L_i (int pos)) # ?L @ rest)"
    if "lab = L_i (int pos) \<or> lab \<in> inner_labels pos" for lab
    using that find_block_skip[OF lab[OF that]] unfolding prog blocks
    by (subst find_entry) (auto simp: inner_labels_def)
  show ?thesis
  proof (intro exI conjI allI impI)
    show "find_block (L_i (int pos)) prog = Some (?L @ rest)" by (simp add: find)
    show "find_block lab prog = Some (zs @ rest)"
      if "lab \<in> inner_labels pos" "find_block lab ?L = Some zs" for lab zs
      using that by (auto simp: find find_block_append inner_labels_def)
  qed
qed

end
