(* ===== verification/SLTurns.thy ===== *)
theory SLTurns
  imports SLScope
begin

text \<open>
  One turn of the interpreter against the blocks of one instruction: opcodes
  with a row of their own, LINE, NOOP, ENDPROC and the jumps.
\<close>

section \<open>Runs of blocks\<close>

type_synonym 'w ir_state = "lab \<times> frame \<times> 'w vm"

fun run_at ::
  "'w callee \<Rightarrow> (nat \<Rightarrow> HB_BYTE list) \<Rightarrow> line list \<Rightarrow> nat \<Rightarrow> 'w ir_state \<Rightarrow> 'w vm outcome" where
  "run_at F strs prog k (l, fr, s) = run_ir k F strs prog l fr s"

definition ir_to ::
  "'w callee \<Rightarrow> (nat \<Rightarrow> HB_BYTE list) \<Rightarrow> line list \<Rightarrow> 'w ir_state \<Rightarrow> 'w ir_state \<Rightarrow> bool" where
  "ir_to F strs prog x y \<longleftrightarrow> (\<exists>k>0. \<forall>j. run_at F strs prog (k + j) x = run_at F strs prog j y)"

definition ir_dies ::
  "'w callee \<Rightarrow> (nat \<Rightarrow> HB_BYTE list) \<Rightarrow> line list \<Rightarrow> 'w ir_state \<Rightarrow> bool" where
  "ir_dies F strs prog x \<longleftrightarrow> (\<exists>k. \<forall>j. run_at F strs prog (k + j) x = Aborted)"

lemma ir_to_block:
  "find_block l prog = Some ls \<Longrightarrow> run_block F strs ls fr s = B_goto l1 fr1 s1 \<Longrightarrow>
   ir_to F strs prog (l, fr, s) (l1, fr1, s1)"
  unfolding ir_to_def by (rule exI[of _ "Suc 0"]) simp

lemma ir_dies_block:
  "find_block l prog = Some ls \<Longrightarrow> run_block F strs ls fr s = B_abort \<Longrightarrow>
   ir_dies F strs prog (l, fr, s)"
  unfolding ir_dies_def by (rule exI[of _ "Suc 0"]) simp

lemma ir_to_trans: "ir_to F strs prog x y \<Longrightarrow> ir_to F strs prog y z \<Longrightarrow> ir_to F strs prog x z"
  unfolding ir_to_def by (metis add.assoc add_pos_pos)

lemma ir_dies_trans: "ir_to F strs prog x y \<Longrightarrow> ir_dies F strs prog y \<Longrightarrow> ir_dies F strs prog x"
  unfolding ir_to_def ir_dies_def by (metis add.assoc)

definition ir_follows ::
  "'w callee \<Rightarrow> (nat \<Rightarrow> HB_BYTE list) \<Rightarrow> line list \<Rightarrow> 'w ir_state \<Rightarrow> 'w after option \<Rightarrow> bool" where
  "ir_follows F strs prog x r \<longleftrightarrow>
     (case r of
        None \<Rightarrow> ir_dies F strs prog x
      | Some (Loop t) \<Rightarrow> \<exists>fr. ir_to F strs prog x (L_i (pc t), fr, vmst t)
      | Some (Leave t) \<Rightarrow> \<exists>fr. ir_to F strs prog x (L_epilogue, fr, vmst t))"

lemma ir_follows_trans:
  assumes "ir_to F strs prog x y" "ir_follows F strs prog y r"
  shows "ir_follows F strs prog x r"
  using assms(2) ir_to_trans[OF assms(1)] ir_dies_trans[OF assms(1)]
  unfolding ir_follows_def by (fastforce split: option.splits after.splits)

section \<open>The turns of the interpreter outside SEQUENCE regions\<close>

definition sl_ctx :: "'w helpers \<Rightarrow> pcptr \<Rightarrow> 'w ctx" where
  "sl_ctx H m = \<lparr>code = m, bDynCode = False, fDebugging = False, hlp = H\<rparr>"

lemma sl_ctx_sel [simp]:
  "code (sl_ctx H m) = m" "\<not> bDynCode (sl_ctx H m)" "\<not> fDebugging (sl_ctx H m)"
  "hlp (sl_ctx H m) = H"
  by (simp_all add: sl_ctx_def)

lemma after_quiet: "actionRequest (vmst t) = 0 \<Longrightarrow> after_case C t = Some (Loop t)"
  by (simp add: after_case_def)

lemma after_ok:
  "okA (vmst t) \<Longrightarrow> \<not> bCanRecover t \<Longrightarrow>
   after_case C t = Some (if actionRequest (vmst t) = 0 then Loop t else Leave t)"
  by (auto simp: after_case_def okA_def)

lemma after_endproc:
  "actionRequest (vmst t) = HB_ENDPROC_REQUESTED \<Longrightarrow> \<not> bCanRecover t \<Longrightarrow>
   after_case C t = Some (Leave (t\<lparr>vmst := setAction 0 (vmst t)\<rparr>))"
  by (simp add: after_case_def)

section \<open>The lines of one instruction\<close>

lemma run_check:
  assumes "regs fr (Reg ''r'' pos '''') = Some v"
  shows "run_block F strs (hb_llvmSLEmitActionCheck pos nxt [] @ rest) fr s =
    B_goto (if v \<noteq> 0 then L_epilogue else nxt)
      (set_reg (Reg ''c'' pos '''') (if v \<noteq> 0 then 1 else 0) fr) s"
  using assms by (simp add: hb_llvmSLEmitActionCheck_def Let_def set_reg_def)

lemma run_check_named:
  assumes "regs fr (Reg r pos '''') = Some v"
  shows "run_block F strs (hb_llvmSLEmitActionCheckNamed pos r c ok [] @ rest) fr s =
    B_goto (if v \<noteq> 0 then L_epilogue else ok)
      (set_reg (Reg c pos '''') (if v \<noteq> 0 then 1 else 0) fr) s"
  using assms by (simp add: hb_llvmSLEmitActionCheckNamed_def Let_def set_reg_def)

lemma regs_simps [simp]:
  "regs (set_reg r v fr) q = (if q = r then Some v else regs fr q)"
  "slots (set_reg r v fr) = slots fr"
  "store_out vs None fr = fr"
  by (auto simp: set_reg_def store_out_def split: option.splits)

lemma action_0 [simp]: "uint (actionRequest s) = 0 \<longleftrightarrow> actionRequest s = 0"
  by (simp add: uint_0_iff)

text \<open>A turn that continues at one of some places, outside any region and with no request.\<close>

definition stays :: "int set \<Rightarrow> 'w after option \<Rightarrow> bool" where
  "stays Q r \<longleftrightarrow> (\<forall>t. r = Some (Loop t) \<longrightarrow>
     pc t \<in> Q \<and> \<not> bCanRecover t \<and> actionRequest (vmst t) = 0)"

text \<open>One call and the check, against a turn that does the same.\<close>

lemma call_follows:
  fixes H :: "'w helpers"
  assumes "find_block l prog = Some (Ln_call (Reg ''r'' pos '''') f as #
      hb_llvmSLEmitActionCheck pos (L_i (q)) [] @ rest)"
    and "map_of (shims_plain H) f = Some g"
    and "exec_case C t = map_option (\<lambda>s. t\<lparr>pc := q, vmst := s\<rparr>) (g (map (eval_arg strs) as) s)"
    and "\<not> bCanRecover t" "okR (g (map (eval_arg strs) as) s)" "q \<in> Q"
  shows "ir_follows (shims H m) strs prog (l, fr, s) (vm_step C t) \<and> stays Q (vm_step C t)"
proof (cases "g (map (eval_arg strs) as) s")
  case None
  then have "run_block (shims H m) strs (Ln_call (Reg ''r'' pos '''') f as #
      hb_llvmSLEmitActionCheck pos (L_i (q)) [] @ rest) fr s = B_abort"
    using assms(2) by (simp add: shims_def ret_action_def Let_def)
  from ir_dies_block[OF assms(1) this] show ?thesis
    using None assms(3) by (simp add: vm_step_def ir_follows_def stays_def)
next
  case (Some s1)
  then have "okA s1" using assms(5) by (simp add: okR_def)
  then have step: "vm_step C t = Some (if actionRequest s1 = 0 then Loop (t\<lparr>pc := q, vmst := s1\<rparr>) else Leave (t\<lparr>pc := q, vmst := s1\<rparr>))"
    using Some assms(3,4) by (simp add: vm_step_def after_ok)
  have "run_block (shims H m) strs (Ln_call (Reg ''r'' pos '''') f as #
      hb_llvmSLEmitActionCheck pos (L_i (q)) [] @ rest) fr s =
    B_goto (if actionRequest s1 \<noteq> 0 then L_epilogue else L_i (q))
      (set_reg (Reg ''c'' pos '''') (if actionRequest s1 \<noteq> 0 then 1 else 0)
        (set_reg (Reg ''r'' pos '''') (uint (actionRequest s1)) fr)) s1"
    using assms(2) Some by (simp add: shims_def ret_action_def Let_def run_check)
  from ir_to_block[OF assms(1) this] show ?thesis
    using assms(4,6) by (cases "actionRequest s1 = 0") (auto simp: step ir_follows_def stays_def)
qed


text \<open>The place of an instruction: what the cases below share.\<close>

definition at_instr ::
  "pcptr \<Rightarrow> nat \<Rightarrow> nat list \<Rightarrow> nat \<Rightarrow> line list \<Rightarrow> line list \<Rightarrow> 'w istate \<Rightarrow> bool" where
  "at_instr m n ps pos ls prog t \<longleftrightarrow>
     pcode_walk m n 0 = Some ps \<and> pos \<in> set ps \<and> instr_scope m n ps pos \<and>
     known (opc (pc_at m pos)) \<and>
     pc t = int pos \<and> \<not> bCanRecover t \<and> actionRequest (vmst t) = 0 \<and>
     (\<exists>rest. find_block (L_i (int pos)) prog = Some (ls @ rest) \<and>
        (\<forall>lab zs. lab \<in> inner_labels pos \<longrightarrow> find_block lab ls = Some zs \<longrightarrow>
           find_block lab prog = Some (zs @ rest)))"

text \<open>Where the instruction at \<open>pos\<close> may continue.\<close>

definition succs :: "pcptr \<Rightarrow> nat \<Rightarrow> int set" where
  "succs m pos = insert (int (pos + ilen m pos))
     ((if hb_pcodeIsJump (opc (pc_at m pos)) then {jump_target m pos} else {}) \<union>
      (if opc (pc_at m pos) = HB_P_SWITCH
       then set (case_targets m (MKU16 (pc_at m pos) 1) (pos + 3)) else {}))"

lemma next_succ: "pos + ilen m pos \<in> set ps \<Longrightarrow> int (pos + ilen m pos) \<in> int ` set ps \<inter> succs m pos"
  by (intro IntI imageI) (simp_all add: succs_def)

definition turn_ok ::
  "'w helpers \<Rightarrow> pcptr \<Rightarrow> (nat \<Rightarrow> HB_BYTE list) \<Rightarrow> line list \<Rightarrow> nat list \<Rightarrow> 'w istate \<Rightarrow> bool" where
  "turn_ok H m strs prog ps t \<longleftrightarrow> (\<forall>fr.
     ir_follows (shims H m) strs prog (L_i (pc t), fr, vmst t) (vm_step (sl_ctx H m) t)) \<and>
     stays (int ` set ps \<inter> succs m (nat (pc t))) (vm_step (sl_ctx H m) t)"

lemma walk_next:
  assumes "pcode_walk m n 0 = Some ps" "pos \<in> set ps" "pos + ilen m pos < n"
  shows "pos + ilen m pos \<in> set ps"
proof -
  have "instr_at m n pos" "pos < n" using assms(1,2) by (simp_all add: pcode_walk_set)
  with pcode_walk_ilen[OF assms(1,2)] have "instr_at m n (pos + ilen m pos)"
    by (auto intro: instr_at.more)
  then show ?thesis using assms(1,3) by (simp add: pcode_walk_set)
qed

lemma okA_0: "actionRequest s = 0 \<Longrightarrow> okA s"
  by (simp add: okA_def)

lemma send_rows:
  "map_of emit_rows HB_P_SEND = Some (vmsh_send, \<lambda>n p. [A_i32 (int (MKU16 p 1))])"
  "map_of emit_rows HB_P_SENDSHORT = Some (vmsh_send, \<lambda>n p. [A_i32 (int (U8 p 1))])"
  "map_of (shims_plain H) vmsh_send = Some (sh1 (hb_vmsh_send H))"
  by (simp_all only: emit_tables shim_tables lookup_simps)

lemma exec_row:
  assumes "0 \<le> pc t" "map_of (cases_plain H) (opc (pc_at m (nat (pc t)))) = Some (g, adv)"
  shows "exec_case (sl_ctx H m) t =
    map_option (\<lambda>s. t\<lparr>pc := pc t + int adv, vmst := s\<rparr>) (g (pc_at m (nat (pc t))) (vmst t))"
  using assms by (simp add: exec_case_def Let_def case_plain_def split: Option.bind_split)

lemma at_next:
  assumes "at_instr m n ps pos ls prog t"
    "opc (pc_at m pos) \<notin> {HB_P_ENDPROC, HB_P_JUMP, HB_P_JUMPNEAR, HB_P_JUMPFAR}"
  shows "next_label n (pos + ilen m pos) = L_i (int (pos + ilen m pos))"
    "int (pos + ilen m pos) \<in> int ` set ps \<inter> succs m pos"
proof -
  have nx: "pos + ilen m pos < n"
    using assms by (simp add: at_instr_def instr_scope_def Let_def)
  then show "next_label n (pos + ilen m pos) = L_i (int (pos + ilen m pos))"
    by (simp add: next_label_def)
  have "pos + ilen m pos \<in> set ps" using assms(1) nx by (auto simp: at_instr_def intro: walk_next)
  then show "int (pos + ilen m pos) \<in> int ` set ps \<inter> succs m pos" by (rule next_succ)
qed

lemma at_block:
  assumes "at_instr m n ps pos ls prog t"
  obtains rest where "find_block (L_i (int pos)) prog = Some (ls @ rest)"
    "\<forall>lab zs. lab \<in> inner_labels pos \<longrightarrow> find_block lab ls = Some zs \<longrightarrow>
       find_block lab prog = Some (zs @ rest)"
    "pc t = int pos" "\<not> bCanRecover t" "actionRequest (vmst t) = 0" "0 < ilen m pos"
  using assms pcode_walk_ilen[of m n 0 ps pos] by (auto simp: at_instr_def)

lemma special_cases:
  "op \<in> set special_ops \<Longrightarrow> op \<noteq> HB_P_NOOP \<Longrightarrow> op \<noteq> HB_P_PUSHFUNCSYM \<Longrightarrow>
   map_of (cases_plain H) op = None"
  using special_no_case[of H] by (auto simp: list_all_iff)

text \<open>A block that only continues.\<close>

lemma goto_turn:
  assumes "find_block (L_i (pc t)) prog = Some (Ln_br (L_i (pc t1)) # rest)"
    and "vm_step (sl_ctx H m) t = Some (Loop t1)" "vmst t1 = vmst t"
    and "pc t1 \<in> int ` set ps \<inter> succs m (nat (pc t))" "\<not> bCanRecover t1" "actionRequest (vmst t1) = 0"
  shows "turn_ok H m strs prog ps t"
proof -
  have "ir_to (shims H m) strs prog (L_i (pc t), fr, vmst t) (L_i (pc t1), fr, vmst t)" for fr
    by (rule ir_to_block[OF assms(1)]) simp
  then show ?thesis using assms(2-6) unfolding turn_ok_def ir_follows_def stays_def by auto
qed

lemma poplogical_shim:
  "shims H m vmsh_poplogical [V_slot r] s = hb_vmsh_poplogical H s"
proof -
  have "map_of (shims_plain H) vmsh_poplogical = None"
    by (simp only: shim_tables lookup_simps map_of.simps(1))
  then show ?thesis by (simp add: shims_def shim_special_def)
qed

lemma find_block_check:
  "hb_llvmSLEmitActionCheckNamed pos r c ok [] =
     [Ln_icmp_ne (Reg c pos '''') (Reg r pos '''') 0, Ln_cbr (Reg c pos '''') L_epilogue ok]"
  by (simp add: hb_llvmSLEmitActionCheckNamed_def Let_def)

text \<open>A conditional jump, for any labels of the popped value.\<close>

lemma condjump_follows:
  fixes H :: "'w helpers"
  assumes "find_block l prog = Some (emit_condjump pos (L_i a) (L_i b) [] @ rest)"
    "find_block (L_jpdone pos) prog =
       Some ([Ln_load (Reg ''vjp'' pos '''') (Reg ''jp'' pos ''''),
         Ln_icmp_ne (Reg ''bjp'' pos '''') (Reg ''vjp'' pos '''') 0,
         Ln_cbr (Reg ''bjp'' pos '''') (L_i a) (L_i b)] @ rest)"
    and "exec_case C t = map_option (\<lambda>(v, s). t\<lparr>pc := (if v then a else b), vmst := s\<rparr>) (hb_vmPopLogical H s)"
    and "\<not> bCanRecover t" "okP (hb_vmPopLogical H s)" "a \<in> Q" "b \<in> Q"
  shows "ir_follows (shims H m) strs prog (l, fr, s) (vm_step C t) \<and> stays Q (vm_step C t)"
proof (cases "hb_vmPopLogical H s")
  case None
  then have "run_block (shims H m) strs (emit_condjump pos (L_i a) (L_i b) [] @ rest) fr s = B_abort"
    by (simp add: emit_condjump_def poplogical_shim hb_vmsh_poplogical_def)
  from ir_dies_block[OF assms(1) this] show ?thesis
    using None assms(3) by (simp add: vm_step_def ir_follows_def stays_def)
next
  case (Some vs)
  obtain v s1 where vs: "vs = (v, s1)" by (cases vs)
  let ?t1 = "t\<lparr>pc := (if v then a else b), vmst := s1\<rparr>"
  have "okA s1" using Some vs assms(5) by (simp add: okP_def)
  then have step: "vm_step C t = Some (if actionRequest s1 = 0 then Loop ?t1 else Leave ?t1)"
    using Some vs assms(3,4) by (simp add: vm_step_def after_ok)
  obtain fr1 where fr1: "run_block (shims H m) strs (emit_condjump pos (L_i a) (L_i b) [] @ rest) fr s =
      B_goto (if actionRequest s1 \<noteq> 0 then L_epilogue else L_jpdone pos) fr1 s1"
      "slots fr1 (Reg ''jp'' pos '''') = Some (if v then 1 else 0)"
    using Some vs
    by (simp add: emit_condjump_def poplogical_shim hb_vmsh_poplogical_def find_block_check
        set_reg_def store_out_def split: if_splits)
  note to1 = ir_to_block[OF assms(1) fr1(1)]
  show ?thesis
  proof (cases "actionRequest s1 = 0")
    case False
    then show ?thesis using to1 by (auto simp: step ir_follows_def stays_def)
  next
    case True
    have "run_block (shims H m) strs
        ([Ln_load (Reg ''vjp'' pos '''') (Reg ''jp'' pos ''''),
         Ln_icmp_ne (Reg ''bjp'' pos '''') (Reg ''vjp'' pos '''') 0,
         Ln_cbr (Reg ''bjp'' pos '''') (L_i a) (L_i b)] @ rest) fr1 s1 =
       B_goto (L_i (if v then a else b))
         (set_reg (Reg ''bjp'' pos '''') (if v then 1 else 0)
           (set_reg (Reg ''vjp'' pos '''') (if v then 1 else 0) fr1)) s1"
      using fr1(2) by simp
    note to2 = ir_to_block[OF assms(2) this]
    have "ir_to (shims H m) strs prog (l, fr, s) (L_jpdone pos, fr1, s1)" using to1 True by simp
    from ir_to_trans[OF this to2] True
    show ?thesis using assms(4,6,7) by (auto simp: step ir_follows_def stays_def)
  qed
qed

context run_time
begin

lemma row_turn:
  assumes at: "at_instr m n ps pos (instr_lines k m n base as pos) prog t"
    and row: "map_of emit_rows (opc (pc_at m pos)) = Some (f, args)"
  shows "turn_ok H m strs prog ps t"
proof -
  let ?p = "pc_at m pos" and ?next = "pos + ilen m pos"
  have a: "pcode_walk m n 0 = Some ps" "pos \<in> set ps" "pc t = int pos" "\<not> bCanRecover t"
    "actionRequest (vmst t) = 0" and sc: "instr_scope m n ps pos"
    using at by (auto simp: at_instr_def)
  have ops: "opc ?p \<notin> {HB_P_ENDPROC, HB_P_JUMP, HB_P_JUMPNEAR, HB_P_JUMPFAR}"
    using row special_rows by auto
  then have nx: "?next < n" using sc by (simp add: instr_scope_def Let_def)
  then have nps: "int ?next \<in> int ` set ps \<inter> succs m pos"
    using walk_next[OF a(1,2)] by (intro next_succ)
  obtain rest where fb: "find_block (L_i (int pos)) prog =
      Some (Ln_call (Reg ''r'' pos '''') f (args k ?p) #
        hb_llvmSLEmitActionCheck pos (L_i (int ?next)) [] @ rest)"
    using at nx unfolding at_instr_def instr_lines_def emit_instr_row[OF row]
    by (auto simp: next_label_def)
  obtain sh where sh: "map_of (shims_plain H) f = Some sh" and
    ex: "exec_case (sl_ctx H m) t =
      map_option (\<lambda>s. t\<lparr>pc := int ?next, vmst := s\<rparr>) (sh (map (eval_arg strs) (args k ?p)) (vmst t))"
  proof (cases "opc ?p = HB_P_SEND \<or> opc ?p = HB_P_SENDSHORT")
    case True
    have pop: "opc (pc_at m ?next) \<noteq> HB_P_POP" using sc True unfolding instr_scope_def Let_def by blast
    have il: "opc ?p = HB_P_SEND \<Longrightarrow> ilen m pos = 3" "opc ?p = HB_P_SENDSHORT \<Longrightarrow> ilen m pos = 2"
      by (simp_all add: ilen_def hb_pcodeInstrLen_def pcInfo_at_def pc_simps)
    have "exec_case (sl_ctx H m) t =
        map_option (\<lambda>s. t\<lparr>pc := int ?next, vmst := s\<rparr>) (sh1 (hb_vmsh_send H) (map (eval_arg strs) (args k ?p)) (vmst t)) \<and>
        map_of (shims_plain H) f = Some (sh1 (hb_vmsh_send H))"
      using True
    proof
      assume op: "opc ?p = HB_P_SEND"
      with pop show ?thesis using row il a(3) send_rows send_no_case[of H]
        by (auto simp: exec_case_def Let_def case_misc_def vm_send_def hb_vmsh_send_def sh1_def
            hb_pcodeIsJump_def pc_simps split: Option.bind_split)
    next
      assume op: "opc ?p = HB_P_SENDSHORT"
      with pop show ?thesis using row il a(3) send_rows send_no_case[of H]
        by (auto simp: exec_case_def Let_def case_misc_def vm_send_def hb_vmsh_send_def sh1_def
            hb_pcodeIsJump_def pc_simps split: Option.bind_split)
    qed
    then show ?thesis using that by blast
  next
    case False
    obtain g adv sh where "map_of (cases_plain H) (opc ?p) = Some (g, adv)"
      and sh: "map_of (shims_plain H) f = Some sh"
      and eq: "sh (map (eval_arg strs) (args k ?p)) (vmst t) = g ?p (vmst t)"
      and info: "hb_pcInfo ! opc ?p = PI HB_PCK_FIXED adv True"
      using rows_agree[OF row, of H k ?p strs "vmst t"] False
      by (auto simp: row_agrees_def split: option.splits)
    moreover have "ilen m pos = adv"
      using info opc_bound[of ?p] pcode_walk_ilen[OF a(1,2)]
      by (auto simp: hb_pcodeInstrLen_def pcInfo_at_def split: if_splits)
    ultimately show ?thesis using that[OF sh] exec_row[of t H m g adv] by (simp add: a(3))
  qed
  have "okR (sh (map (eval_arg strs) (args k ?p)) (vmst t))"
    using okRow_plain[OF sh okA_0[OF a(5)]] .
  then show ?thesis
    unfolding turn_ok_def a(3) nat_int using call_follows[OF fb sh ex a(4) _ nps] by blast
qed

lemma noop_turn:
  assumes at: "at_instr m n ps pos (instr_lines k m n base as pos) prog t"
    and op: "opc (pc_at m pos) = HB_P_NOOP"
  shows "turn_ok H m strs prog ps t"
proof -
  have "opc (pc_at m pos) \<notin> {HB_P_ENDPROC, HB_P_JUMP, HB_P_JUMPNEAR, HB_P_JUMPFAR}" using op by auto
  note nx = at_next[OF at this]
  obtain rest where b: "find_block (L_i (int pos)) prog = Some (instr_lines k m n base as pos @ rest)"
    "pc t = int pos" "\<not> bCanRecover t" "actionRequest (vmst t) = 0"
    by (rule at_block[OF at])
  have "ilen m pos = 1"
    using op by (simp add: ilen_def hb_pcodeInstrLen_def pcInfo_at_def pc_simps)
  then have t1: "vm_step (sl_ctx H m) t = Some (Loop (t\<lparr>pc := int (pos + ilen m pos)\<rparr>))"
    using op b(2-4) noop_case[of H]
    by (auto simp: vm_step_def exec_case_def Let_def case_plain_def after_quiet)
  show ?thesis
  proof (rule goto_turn[OF _ t1])
    show "find_block (L_i (pc t)) prog = Some (Ln_br (L_i (pc (t\<lparr>pc := int (pos + ilen m pos)\<rparr>))) # rest)"
      using b(1) nx op emit_special(1)[OF refl, of m pos] by (simp add: b(2) instr_lines_def)
  qed (use nx b in auto)
qed

text \<open>
  LINE: the interpreter stores the line number, the lines of the instruction only
  branch to the next one.
\<close>

lemma line_turn:
  assumes at: "at_instr m n ps pos (instr_lines k m n base as pos) prog t"
    and op: "opc (pc_at m pos) = HB_P_LINE"
  shows "ir_to (shims H m) strs prog (L_i (pc t), fr, s) (L_i (pc t + 3), fr, s)"
    "vm_step (sl_ctx H m) t = Some (Loop (t\<lparr>pc := pc t + 3, vmst := (vmst t)\<lparr>uiLineNo := MKU16 (pc_at m pos) 1\<rparr>\<rparr>))"
    "pc t + 3 \<in> int ` set ps \<inter> succs m pos"
proof -
  have "opc (pc_at m pos) \<notin> {HB_P_ENDPROC, HB_P_JUMP, HB_P_JUMPNEAR, HB_P_JUMPFAR}" using op by auto
  note nx = at_next[OF at this]
  obtain rest where b: "find_block (L_i (int pos)) prog = Some (instr_lines k m n base as pos @ rest)"
    "pc t = int pos" "\<not> bCanRecover t" "actionRequest (vmst t) = 0"
    by (rule at_block[OF at])
  have il: "ilen m pos = 3"
    using op by (simp add: ilen_def hb_pcodeInstrLen_def pcInfo_at_def pc_simps)
  have next_: "int (pos + ilen m pos) = pc t + 3" by (simp add: b(2) il)
  have "map_of (cases_plain H) HB_P_LINE = None"
    by (intro special_cases) (simp_all add: special_ops_def)
  then show "vm_step (sl_ctx H m) t = Some (Loop (t\<lparr>pc := pc t + 3, vmst := (vmst t)\<lparr>uiLineNo := MKU16 (pc_at m pos) 1\<rparr>\<rparr>))"
    using op b(2-4)
    by (auto simp: vm_step_def exec_case_def Let_def case_misc_def hb_pcodeIsJump_def after_quiet)
  show "pc t + 3 \<in> int ` set ps \<inter> succs m pos" using nx(2) next_ by simp
  have "find_block (L_i (pc t)) prog = Some (Ln_br (L_i (pc t + 3)) # rest)"
    using b(1) nx(1) op emit_special(1)[OF refl, of m pos] next_ by (simp add: b(2) instr_lines_def)
  then show "ir_to (shims H m) strs prog (L_i (pc t), fr, s) (L_i (pc t + 3), fr, s)"
    by (rule ir_to_block) simp
qed

lemma jump_turn:
  assumes at: "at_instr m n ps pos (instr_lines k m n base as pos) prog t"
    and op: "opc (pc_at m pos) = HB_P_JUMP \<or> opc (pc_at m pos) = HB_P_JUMPNEAR \<or>
      opc (pc_at m pos) = HB_P_JUMPFAR"
  shows "turn_ok H m strs prog ps t"
proof -
  obtain rest where b: "find_block (L_i (int pos)) prog = Some (instr_lines k m n base as pos @ rest)"
    "pc t = int pos" "\<not> bCanRecover t" "actionRequest (vmst t) = 0"
    by (rule at_block[OF at])
  have none: "map_of (cases_plain H) (opc (pc_at m pos)) = None"
    using op by (intro special_cases) (auto simp: special_ops_def)
  let ?t1 = "t\<lparr>pc := jump_target m pos\<rparr>"
  have j: "hb_pcodeIsJump (opc (pc_at m pos))" using op by (auto simp: hb_pcodeIsJump_def)
  have disp: "jump_disp (pc_at m pos) = hb_pcodeJumpOffset (pc_at m pos)"
    using op by (elim disjE) (simp_all add: jump_disp_def hb_pcodeJumpOffset_def)
  have ex: "exec_case (sl_ctx H m) t = Some ?t1"
    using none j op b(2) disp by (auto simp: exec_case_def Let_def case_jumps_def jump_target_def)
  show ?thesis
  proof (rule goto_turn)
    show "find_block (L_i (pc t)) prog = Some (Ln_br (L_i (pc ?t1)) # rest)"
      using b(1) op emit_special(3)[OF refl, of m pos] by (simp add: b(2) instr_lines_def jump_target_def)
    show "vm_step (sl_ctx H m) t = Some (Loop ?t1)" using ex b(4) by (simp add: vm_step_def after_quiet)
    show "pc ?t1 \<in> int ` set ps \<inter> succs m (nat (pc t))"
      using at j by (simp add: at_instr_def instr_scope_def Let_def succs_def)
  qed (use b in auto)
qed

lemma endproc_turn:
  assumes at: "at_instr m n ps pos (instr_lines k m n base as pos) prog t"
    and op: "opc (pc_at m pos) = HB_P_ENDPROC"
  shows "turn_ok H m strs prog ps t"
proof -
  obtain rest where b: "find_block (L_i (int pos)) prog = Some (instr_lines k m n base as pos @ rest)"
    "pc t = int pos" "\<not> bCanRecover t" "actionRequest (vmst t) = 0"
    by (rule at_block[OF at])
  have none: "map_of (cases_plain H) HB_P_ENDPROC = None"
    by (intro special_cases) (auto simp: special_ops_def)
  have "vm_step (sl_ctx H m) t = Some (Leave (t\<lparr>vmst := setAction 0 (setAction HB_ENDPROC_REQUESTED (vmst t))\<rparr>))"
    using none op b(2,3)
    by (simp add: vm_step_def exec_case_def Let_def case_misc_def hb_pcodeIsJump_def after_endproc setAction_def)
  moreover have "setAction 0 (setAction HB_ENDPROC_REQUESTED (vmst t)) = vmst t"
    using b(4) by (simp add: setAction_def)
  moreover have "find_block (L_i (pc t)) prog = Some (Ln_br L_epilogue # rest)"
    using b(1) op emit_special(2)[OF refl, of m pos] by (simp add: b(2) instr_lines_def)
  ultimately show ?thesis unfolding turn_ok_def ir_follows_def stays_def
    by (auto intro!: ir_to_block)
qed

lemma jump_false_case:
  assumes "pc t = int pos" "opc (pc_at m pos) = op"
    "op = HB_P_JUMPFALSE \<or> op = HB_P_JUMPFALSENEAR \<or> op = HB_P_JUMPFALSEFAR"
  shows "exec_case (sl_ctx H m) t =
    map_option (\<lambda>(v, s). t\<lparr>pc := (if v then int (pos + ilen m pos) else jump_target m pos),
      vmst := s\<rparr>) (hb_vmPopLogical H (vmst t))"
proof -
  have none: "map_of (cases_plain H) op = None"
    using assms(3) by (intro special_cases) (auto simp: special_ops_def)
  have j: "hb_pcodeIsJump op" using assms(3) by (auto simp: hb_pcodeIsJump_def)
  have d: "jump_disp (pc_at m pos) = hb_pcodeJumpOffset (pc_at m pos)"
    "jump_size (pc_at m pos) = int (ilen m pos)"
    using assms(2,3) j
    by (auto simp: jump_disp_def jump_size_def hb_pcodeJumpOffset_def ilen_def jump_len)
  show ?thesis
    using none j d assms
    by (auto simp: exec_case_def Let_def case_jumps_def jump_target_def split: Option.bind_split)
qed

lemma jump_true_case:
  assumes "pc t = int pos" "opc (pc_at m pos) = op"
    "op = HB_P_JUMPTRUE \<or> op = HB_P_JUMPTRUENEAR \<or> op = HB_P_JUMPTRUEFAR"
  shows "exec_case (sl_ctx H m) t =
    map_option (\<lambda>(v, s). t\<lparr>pc := (if v then jump_target m pos else int (pos + ilen m pos)),
      vmst := s\<rparr>) (hb_vmPopLogical H (vmst t))"
proof -
  have none: "map_of (cases_plain H) op = None"
    using assms(3) by (intro special_cases) (auto simp: special_ops_def)
  have j: "hb_pcodeIsJump op" using assms(3) by (auto simp: hb_pcodeIsJump_def)
  have d: "jump_disp (pc_at m pos) = hb_pcodeJumpOffset (pc_at m pos)"
    "jump_size (pc_at m pos) = int (ilen m pos)"
    using assms(2,3) j
    by (auto simp: jump_disp_def jump_size_def hb_pcodeJumpOffset_def ilen_def jump_len)
  show ?thesis
    using none j d assms
    by (auto simp: exec_case_def Let_def case_jumps_def jump_target_def split: Option.bind_split)
qed

lemma condjump_turn:
  assumes at: "at_instr m n ps pos (instr_lines k m n base as pos) prog t"
    and op: "opc (pc_at m pos) = HB_P_JUMPFALSE \<or> opc (pc_at m pos) = HB_P_JUMPFALSENEAR \<or>
      opc (pc_at m pos) = HB_P_JUMPFALSEFAR \<or> opc (pc_at m pos) = HB_P_JUMPTRUE \<or>
      opc (pc_at m pos) = HB_P_JUMPTRUENEAR \<or> opc (pc_at m pos) = HB_P_JUMPTRUEFAR"
  shows "turn_ok H m strs prog ps t"
proof -
  let ?next = "int (pos + ilen m pos)" and ?jump = "jump_target m pos"
  have "opc (pc_at m pos) \<notin> {HB_P_ENDPROC, HB_P_JUMP, HB_P_JUMPNEAR, HB_P_JUMPFAR}" using op by auto
  note nx = at_next[OF at this]
  obtain rest where b: "find_block (L_i (int pos)) prog = Some (instr_lines k m n base as pos @ rest)"
    "\<forall>lab zs. lab \<in> inner_labels pos \<longrightarrow> find_block lab (instr_lines k m n base as pos) = Some zs \<longrightarrow>
       find_block lab prog = Some (zs @ rest)"
    "pc t = int pos" "\<not> bCanRecover t" "actionRequest (vmst t) = 0"
    by (rule at_block[OF at])
  have j: "hb_pcodeIsJump (opc (pc_at m pos))" using op by (auto simp: hb_pcodeIsJump_def)
  have jt: "?jump \<in> int ` set ps \<inter> succs m pos"
    using at j by (simp add: at_instr_def instr_scope_def Let_def succs_def)
  have ok: "okP (hb_vmPopLogical H (vmst t))" using okA_0[OF b(5)] by (rule okP_poplogical)
  define a where "a = (if opc (pc_at m pos) \<in> {HB_P_JUMPFALSE, HB_P_JUMPFALSENEAR, HB_P_JUMPFALSEFAR}
    then ?next else ?jump)"
  define c where "c = (if opc (pc_at m pos) \<in> {HB_P_JUMPFALSE, HB_P_JUMPFALSENEAR, HB_P_JUMPFALSEFAR}
    then ?jump else ?next)"
  have ls: "instr_lines k m n base as pos = emit_condjump pos (L_i a) (L_i c) []"
    using op emit_special(4,5)[OF refl, of m pos] nx(1)
    by (elim disjE) (simp_all add: instr_lines_def a_def c_def jump_target_def)
  have ex: "exec_case (sl_ctx H m) t =
      map_option (\<lambda>(v, s). t\<lparr>pc := (if v then a else c), vmst := s\<rparr>) (hb_vmPopLogical H (vmst t))"
    using op jump_false_case[OF b(3) refl] jump_true_case[OF b(3) refl]
    by (elim disjE) (simp_all add: a_def c_def cong: if_cong)
  have "find_block (L_jpdone pos) (emit_condjump pos (L_i a) (L_i c) []) =
      Some [Ln_load (Reg ''vjp'' pos '''') (Reg ''jp'' pos ''''),
         Ln_icmp_ne (Reg ''bjp'' pos '''') (Reg ''vjp'' pos '''') 0,
         Ln_cbr (Reg ''bjp'' pos '''') (L_i a) (L_i c)]"
    by (simp add: emit_condjump_def find_block_check)
  then have fb: "find_block (L_jpdone pos) prog = Some ([Ln_load (Reg ''vjp'' pos '''') (Reg ''jp'' pos ''''),
         Ln_icmp_ne (Reg ''bjp'' pos '''') (Reg ''vjp'' pos '''') 0,
         Ln_cbr (Reg ''bjp'' pos '''') (L_i a) (L_i c)] @ rest)"
    using b(2) unfolding ls inner_labels_def by blast
  show ?thesis unfolding turn_ok_def b(3) nat_int
    using condjump_follows[OF b(1)[unfolded ls] fb ex b(4) ok, of "int ` set ps \<inter> succs m pos" m strs] jt nx(2)
    by (auto simp: a_def c_def)
qed

end

end
