(* ===== verification/SLTurns2.thy ===== *)
theory SLTurns2
  imports SLTurns
begin

text \<open>
  The other opcodes, turn by turn: string constants and their names (pass B
  and pass C count the same instructions), PUSHFUNCSYM, code blocks and SWITCH.
\<close>

section \<open>String constants\<close>

definition str_size :: "pcptr \<Rightarrow> nat" where
  "str_size p =
     (if opc p = HB_P_PUSHSTRSHORT then U8 p 1 else if opc p = HB_P_PUSHSTR then MKU16 p 1
      else HB_PCODE_MKUINT24 (pc_at p 1))"

definition str_text :: "pcptr \<Rightarrow> HB_BYTE list" where
  "str_text p = bytes_at (pc_at p (str_header (opc p))) (str_size p - 1)"

lemma EmitStrings_Cons:
  "hb_llvmSLEmitStrings m (pos # ps) =
     (if str_header (opc (pc_at m pos)) = 0 then hb_llvmSLEmitStrings m ps
      else if str_size (pc_at m pos) = 0 then None
      else map_option (Cons (str_size (pc_at m pos), str_text (pc_at m pos) @ [0]))
        (hb_llvmSLEmitStrings m ps))"
  by (simp add: Let_def str_header_def str_size_def str_const_def str_text_def split: Option.bind_split)

lemma EmitStrings_nth:
  assumes "hb_llvmSLEmitStrings m (as @ pos # bs) = Some cs" "str_header (opc (pc_at m pos)) \<noteq> 0"
  shows "cs ! str_count m as = (str_size (pc_at m pos), str_text (pc_at m pos) @ [0])"
  using assms
proof (induction as arbitrary: cs)
  case Nil
  then show ?case by (auto simp del: hb_llvmSLEmitStrings.simps simp: EmitStrings_Cons str_count_def split: if_splits)
next
  case (Cons a as)
  then show ?case
    by (auto simp del: hb_llvmSLEmitStrings.simps simp: EmitStrings_Cons str_count_def split: if_splits)
qed

text \<open>The texts behind the names @.sl.str.<n>, when the first name is \<open>base\<close>.\<close>

definition sl_strings :: "pcptr \<Rightarrow> nat list \<Rightarrow> nat \<Rightarrow> nat \<Rightarrow> HB_BYTE list" where
  "sl_strings m ps base i =
     (case hb_llvmSLEmitStrings m ps of None \<Rightarrow> [] | Some cs \<Rightarrow> snd (cs ! (i - base)))"

lemma EmitStrings_Some:
  assumes "\<forall>pos\<in>set ps. str_header (opc (pc_at m pos)) = 0 \<or> str_size (pc_at m pos) \<noteq> 0"
  shows "\<exists>cs. hb_llvmSLEmitStrings m ps = Some cs"
  using assms
  by (induction ps) (auto simp del: hb_llvmSLEmitStrings.simps(2) simp: EmitStrings_Cons)

lemma str_ilen:
  "str_header (opc (pc_at m pos)) \<noteq> 0 \<Longrightarrow>
   ilen m pos = str_header (opc (pc_at m pos)) + str_size (pc_at m pos)"
  by (auto simp: str_header_def str_size_def ilen_def hb_pcodeInstrLen_def pcInfo_at_def pc_simps
      U8_def MKU16_def split: if_splits)

lemma bytes_at_pc_of_list:
  "length xs = k \<Longrightarrow> bytes_at (pc_of_list (xs @ ys)) k = xs"
  by (rule nth_equalityI) (simp_all add: bytes_at_def pc_of_list_def nth_append)

lemma length_bytes_at [simp]: "length (bytes_at p k) = k"
  by (simp add: bytes_at_def)

lemma two_shims:
  "map_of (shims_plain H) vmsh_pushsymbol = Some (shS (\<lambda>pSym s. Some (hb_vmPushSymbol pSym s)))"
  "map_of (shims_plain H) vmsh_pushnil = Some (sh0 (\<lambda>s. Some (stack_push I_Nil s)))"
  by (simp_all only: shim_tables lookup_simps)

lemma pushblock_shim:
  "shims H m vmsh_pushblock [V_pcode i, V_symb j] s = hb_vmsh_pushblock H m (nat i) s"
proof -
  have "map_of (shims_plain H) vmsh_pushblock = None"
    by (simp only: shim_tables lookup_simps map_of.simps(1))
  then show ?thesis by (simp add: shims_def shim_special_def)
qed

lemma switchidx_shim:
  "shims H m vmsh_switchidx [V_pcode i, V_int j] s = hb_vmsh_switchidx H m (nat i) (nat j) s"
proof -
  have "map_of (shims_plain H) vmsh_switchidx = None"
    by (simp only: shim_tables lookup_simps map_of.simps(1))
  then show ?thesis by (simp add: shims_def shim_special_def)
qed

lemma nat_pos_3: "nat (int pos + 3) = pos + 3"
  by simp

lemma action_push [simp]:
  "actionRequest (stack_push x s) = actionRequest s"
  "actionRequest (hb_vmPushSymbol k s) = actionRequest s"
  by (simp_all add: stack_push_def hb_vmPushSymbol_def)

section \<open>The SWITCH table\<close>

lemma switchidx_ge: "i \<le> switchidx_loop m x i c off"
proof (induction c arbitrary: i off)
  case (Suc c)
  have "i \<le> switchidx_loop m x (i + 1) c off'" for off'
    using Suc.IH[of "i + 1" off'] by simp
  then show ?case by (simp add: Let_def split: prod.split)
qed simp

lemma emit_cases_below: "j < int i \<Longrightarrow> map_of (emit_cases m n i c off) j = None"
  by (induction m n i c off rule: emit_cases.induct) (simp_all add: Let_def)

lemma switch_literal_agree:
  assumes "switch_literal_len (pc_at m off) = Some l"
  shows "snd (case_literal (pc_at m off) x) = l"
    "(if opc (pc_at m off) = HB_P_PUSHLONG then 5
      else if opc (pc_at m off) = HB_P_PUSHSTRSHORT then 2 + U8 (pc_at m off) 1 else 1) = l"
  using assms by (auto simp: switch_literal_len_def case_literal_def U8_def split: if_splits item.splits)

lemma switch_jump_agree:
  assumes "switch_jump_len p = Some l"
  shows "case_jump_skip p = l" "hb_pcodeJumpOffset p = case_jump_disp p"
    "(if opc p = HB_P_JUMPNEAR then q + 2 else if opc p = HB_P_JUMPFAR then q + 4 else q + 3) = q + l"
  using assms
  by (auto simp: switch_jump_len_def case_jump_skip_def hb_pcodeJumpOffset_def case_jump_disp_def
      split: if_splits)

lemma switch_scan_shift:
  "switch_scan m k (pos + off) = map_option ((+) pos) (switch_scan (pc_at m pos) k off)"
proof (induction k arbitrary: off)
  case (Suc k)
  show ?case
  proof (cases "switch_literal_len (pc_at m (pos + off))")
    case (Some l)
    show ?thesis
    proof (cases "switch_jump_len (pc_at m (pos + off + l))")
      case (Some j)
      then show ?thesis
        using \<open>switch_literal_len _ = Some l\<close> Suc[of "off + l + j"] by (simp add: add.assoc)
    qed (use Some in \<open>simp add: add.assoc\<close>)
  qed simp
qed simp

text \<open>The index the shim returns selects the label of the offset the interpreter continues at.\<close>

lemma switch_agrees:
  assumes "switch_scan m c off = Some e" "\<forall>r\<in>set (case_targets m c off). 0 \<le> r \<and> r < int n"
  shows "(case map_of (emit_cases m n i c off) (int (switchidx_loop m x i c off)) of
      None \<Rightarrow> L_i (int e) | Some l \<Rightarrow> l) = L_i (switch_loop m x c off) \<and>
    (switch_loop m x c off = int e \<or> switch_loop m x c off \<in> set (case_targets m c off))"
  using assms
proof (induction c arbitrary: i off)
  case 0
  then show ?case by simp
next
  case (Suc c)
  obtain l j where l: "switch_literal_len (pc_at m off) = Some l"
    and j: "switch_jump_len (pc_at m (off + l)) = Some j"
    and scan: "switch_scan m c (off + l + j) = Some e"
    using Suc.prems(1) by (auto split: option.splits)
  note ll = switch_literal_agree[OF l] and jj = switch_jump_agree[OF j]
  let ?target = "int (off + l) + case_jump_disp (pc_at m (off + l))"
  have targets: "case_targets m (Suc c) off = ?target # case_targets m c (off + l + j)"
    using l jj(1) by simp
  have cases: "emit_cases m n i (Suc c) off =
      (int i, L_i ?target) # emit_cases m n (i + 1) c (off + l + j)"
  proof -
    have "0 \<le> ?target" "?target < int n" using Suc.prems(2) unfolding targets by simp_all
    then show ?thesis by (simp only: emit_cases.simps Let_def ll(2) jj(2,3)) simp
  qed
  obtain found where lit: "case_literal (pc_at m off) x = (found, l)"
    using ll(1)[of x] by (cases "case_literal (pc_at m off) x") auto
  show ?case
  proof (cases found)
    case True
    then have "switchidx_loop m x i (Suc c) off = i" "switch_loop m x (Suc c) off = ?target"
      by (simp_all add: lit)
    then show ?thesis unfolding cases targets by simp
  next
    case False
    have idx: "switchidx_loop m x i (Suc c) off = switchidx_loop m x (i + 1) c (off + l + j)"
      "switch_loop m x (Suc c) off = switch_loop m x c (off + l + j)"
      using False lit jj(1) by (simp_all add: Let_def)
    have "i < switchidx_loop m x (i + 1) c (off + l + j)"
      using switchidx_ge[of "i + 1" m x c "off + l + j"] by simp
    then show ?thesis
      using Suc.IH[OF scan, of "i + 1"] Suc.prems(2) unfolding idx cases targets by auto
  qed
qed

context run_time
begin

lemma pushstr_turn:
  assumes at: "at_instr m n ps pos (instr_lines k m n base as pos) prog t"
    and op: "str_header (opc (pc_at m pos)) \<noteq> 0" and ps: "ps = as @ pos # bs"
    and cs: "hb_llvmSLEmitStrings m ps = Some cs"
  shows "turn_ok H m (sl_strings m ps base) prog ps t"
proof -
  let ?p = "pc_at m pos" and ?strs = "sl_strings m ps base"
  have op3: "opc ?p = HB_P_PUSHSTRSHORT \<or> opc ?p = HB_P_PUSHSTR \<or> opc ?p = HB_P_PUSHSTRLARGE"
    using op by (auto simp: str_header_def split: if_splits)
  then have "opc ?p \<notin> {HB_P_ENDPROC, HB_P_JUMP, HB_P_JUMPNEAR, HB_P_JUMPFAR}" by auto
  note nx = at_next[OF at this]
  obtain rest where b: "find_block (L_i (int pos)) prog = Some (instr_lines k m n base as pos @ rest)"
    "pc t = int pos" "\<not> bCanRecover t" "actionRequest (vmst t) = 0"
    by (rule at_block[OF at])
  have sz: "0 < str_size ?p"
    using at str_ilen[OF op] by (auto simp: at_instr_def instr_scope_def Let_def)
  let ?args = "[A_str (str_size ?p) (base + str_count m as), A_i64 (int (str_size ?p - 1))]"
  have ls: "instr_lines k m n base as pos =
      Ln_call (Reg ''r'' pos '''') vmsh_pushstring ?args #
      hb_llvmSLEmitActionCheck pos (L_i (int (pos + ilen m pos))) []"
    using op3 emit_special(6-8)[OF refl, of m pos] nx(1) sz
    by (elim disjE) (simp_all add: instr_lines_def emit_pushstr_def str_size_def)
  have argv: "map (eval_arg ?strs) ?args = [V_mem (pc_of_list (str_text ?p @ [0])), V_int (int (str_size ?p - 1))]"
    using EmitStrings_nth[OF cs[unfolded ps] op] cs by (simp add: sl_strings_def ps)
  have sh: "map_of (shims_plain H) vmsh_pushstring = Some hb_vmsh_pushstring"
    by (simp only: shim_tables lookup_simps)
  have push: "hb_vmsh_pushstring (map (eval_arg ?strs) ?args) s = Some (stack_push (I_String False (str_text ?p)) s)" for s :: "'w vm"
    unfolding argv by (simp add: hb_vmsh_pushstring_def hb_vmPushString_def bytes_at_pc_of_list str_text_def)
  have pushp: "vm_pushstr False (pc_at ?p (str_header (opc ?p))) (str_size ?p) s =
      Some (stack_push (I_String False (str_text ?p)) s)" for s :: "'w vm"
  proof -
    have "(if nl \<le> 1 then take nl [q 0] else bytes_at q nl) = bytes_at q nl" for nl and q :: pcptr
      by (cases "nl = 0"; cases "nl = 1") (auto simp: bytes_at_def upt_rec[of 0] One_nat_def)
    then show ?thesis
      using sz by (simp only: vm_pushstr_def hb_vmPushStringPcode_def str_text_def) simp
  qed
  have none: "map_of (cases_plain H) (opc ?p) = None"
    using op3 by (intro special_cases) (auto simp: special_ops_def)
  have ex: "exec_case (sl_ctx H m) t = map_option (\<lambda>s. t\<lparr>pc := int (pos + ilen m pos), vmst := s\<rparr>)
      (hb_vmsh_pushstring (map (eval_arg ?strs) ?args) (vmst t))"
    unfolding push using op3 none b(2) pushp[of "vmst t"] str_ilen[OF op]
    by (elim disjE)
      (simp_all add: exec_case_def Let_def case_strings_def hb_pcodeIsJump_def str_header_def str_size_def)
  have ok: "okR (hb_vmsh_pushstring (map (eval_arg ?strs) ?args) (vmst t))"
    using okRow_plain[OF sh okA_0[OF b(4)]] .
  show ?thesis
    unfolding turn_ok_def b(2) nat_int
    using call_follows[OF _ sh ex b(3) ok nx(2)] b(1)[unfolded ls] by simp
qed

lemma funcsym_turn:
  assumes at: "at_instr m n ps pos (instr_lines k m n base as pos) prog t"
    and op: "opc (pc_at m pos) = HB_P_PUSHFUNCSYM"
  shows "turn_ok H m strs prog ps t"
proof -
  let ?sym = "MKU16 (pc_at m pos) 1" and ?rb = "Reg ''r'' pos ''b''" and ?cb = "Reg ''c'' pos ''b''"
  have "opc (pc_at m pos) \<notin> {HB_P_ENDPROC, HB_P_JUMP, HB_P_JUMPNEAR, HB_P_JUMPFAR}" using op by auto
  note nx = at_next[OF at this]
  let ?next = "int (pos + ilen m pos)"
  obtain rest where b: "find_block (L_i (int pos)) prog = Some (instr_lines k m n base as pos @ rest)"
    "\<forall>lab zs. lab \<in> inner_labels pos \<longrightarrow> find_block lab (instr_lines k m n base as pos) = Some zs \<longrightarrow>
       find_block lab prog = Some (zs @ rest)"
    "pc t = int pos" "\<not> bCanRecover t" "actionRequest (vmst t) = 0"
    by (rule at_block[OF at])
  let ?tail = "[Ln_call ?rb vmsh_pushnil [], Ln_icmp_ne ?cb ?rb 0, Ln_cbr ?cb L_epilogue (L_i ?next)]"
  let ?head = "[Ln_call (Reg ''r'' pos '''') vmsh_pushsymbol [A_symb k ?sym],
      Ln_icmp_ne (Reg ''c'' pos '''') (Reg ''r'' pos '''') 0,
      Ln_cbr (Reg ''c'' pos '''') L_epilogue (L_ipfsa pos)]"
  have ls: "instr_lines k m n base as pos = ?head @ [Ln_label (L_ipfsa pos)] @ ?tail"
    using op emit_special(9)[OF refl, of m pos] nx(1)
    by (simp add: instr_lines_def emit_pushfuncsym_def find_block_check Let_def)
  let ?s1 = "hb_vmPushSymbol ?sym (vmst t)"
  let ?s2 = "stack_push I_Nil ?s1"
  have r1: "run_block (shims H m) strs (instr_lines k m n base as pos @ rest) fr (vmst t) =
    B_goto (L_ipfsa pos) (set_reg (Reg ''c'' pos '''') 0 (set_reg (Reg ''r'' pos '''') 0 fr)) ?s1" for fr
    using b(5) by (simp add: ls shims_def two_shims shS_def ret_action_def)
  have r2: "run_block (shims H m) strs (?tail @ rest) fr ?s1 =
    B_goto (L_i ?next) (set_reg ?cb 0 (set_reg ?rb 0 fr)) ?s2" for fr
    using b(5) by (simp add: shims_def two_shims sh0_def ret_action_def)
  have "find_block (L_ipfsa pos) (instr_lines k m n base as pos) = Some ?tail"
    by (simp add: ls)
  then have f2: "find_block (L_ipfsa pos) prog = Some (?tail @ rest)"
    using b(2) by (auto simp: inner_labels_def)
  have "ilen m pos = 3"
    using op by (simp add: ilen_def hb_pcodeInstrLen_def pcInfo_at_def pc_simps)
  then have "vm_step (sl_ctx H m) t = Some (Loop (t\<lparr>pc := ?next, vmst := ?s2\<rparr>))"
    using op b(3,5) noop_case[of H]
    by (simp add: vm_step_def exec_case_def Let_def case_plain_def vm_pushfuncsym_def after_quiet)
  moreover have "ir_to (shims H m) strs prog (L_i (int pos), fr, vmst t) (L_i ?next,
      set_reg ?cb 0 (set_reg ?rb 0 (set_reg (Reg ''c'' pos '''') 0 (set_reg (Reg ''r'' pos '''') 0 fr))), ?s2)" for fr
    by (rule ir_to_trans[OF ir_to_block[OF b(1) r1] ir_to_block[OF f2 r2]])
  ultimately show ?thesis using nx(2) b(3-5)
    unfolding turn_ok_def ir_follows_def stays_def by auto
qed

lemma block_call:
  assumes "opc (pc_at m pos) = HB_P_PUSHBLOCK \<or> opc (pc_at m pos) = HB_P_PUSHBLOCKSHORT \<or>
      opc (pc_at m pos) = HB_P_PUSHBLOCKLARGE" "pc t = int pos"
  defines "f \<equiv> (if opc (pc_at m pos) = HB_P_PUSHBLOCKSHORT then ''hb_vmPushBlockShort''
      else ''hb_vmPushBlock'')"
    and "arg \<equiv> [N (pos + (if opc (pc_at m pos) = HB_P_PUSHBLOCKSHORT then 2
       else if opc (pc_at m pos) = HB_P_PUSHBLOCKLARGE then 4 else 3)), Z 0]"
  shows "hb_vmsh_pushblock H m pos s = map_option (\<lambda>s. (0, None, s)) (hcall H f arg s)"
    "exec_case (sl_ctx H m) t =
      map_option (\<lambda>s. t\<lparr>pc := int (pos + ilen m pos), vmst := s\<rparr>) (hcall H f arg (vmst t))"
proof -
  have none: "map_of (cases_plain H) (opc (pc_at m pos)) = None"
    using assms(1) by (intro special_cases) (auto simp: special_ops_def)
  show "hb_vmsh_pushblock H m pos s = map_option (\<lambda>s. (0, None, s)) (hcall H f arg s)"
    using assms(1) unfolding f_def arg_def by (elim disjE) (simp_all add: hb_vmsh_pushblock_def Let_def)
  show "exec_case (sl_ctx H m) t =
      map_option (\<lambda>s. t\<lparr>pc := int (pos + ilen m pos), vmst := s\<rparr>) (hcall H f arg (vmst t))"
    using assms(1,2) none unfolding f_def arg_def
    by (elim disjE)
      (simp_all add: Let_def exec_case_def case_blocks_def hb_pcodeIsJump_def
        ilen_def hb_pcodeInstrLen_def pcInfo_at_def pc_simps U8_def MKU16_def split: Option.bind_split)
qed

lemma block_turn:
  assumes at: "at_instr m n ps pos (instr_lines k m n base as pos) prog t"
    and op: "opc (pc_at m pos) = HB_P_PUSHBLOCK \<or> opc (pc_at m pos) = HB_P_PUSHBLOCKSHORT \<or>
      opc (pc_at m pos) = HB_P_PUSHBLOCKLARGE"
  shows "turn_ok H m strs prog ps t"
proof -
  have "opc (pc_at m pos) \<notin> {HB_P_ENDPROC, HB_P_JUMP, HB_P_JUMPNEAR, HB_P_JUMPFAR}" using op by auto
  note nx = at_next[OF at this]
  let ?next = "int (pos + ilen m pos)"
  obtain rest where b: "find_block (L_i (int pos)) prog = Some (instr_lines k m n base as pos @ rest)"
    "pc t = int pos" "\<not> bCanRecover t" "actionRequest (vmst t) = 0"
    by (rule at_block[OF at])
  have ls: "instr_lines k m n base as pos =
      [Ln_call (Reg ''r'' pos '''') vmsh_pushblock [A_pcode n (int pos), A_symb k 0], Ln_br (L_i ?next)]"
    using op emit_special(11)[OF refl, of m pos] nx(1) by (simp add: instr_lines_def emit_pushblock_def)
  define f where "f = (if opc (pc_at m pos) = HB_P_PUSHBLOCKSHORT then ''hb_vmPushBlockShort''
      else ''hb_vmPushBlock'')"
  define arg where "arg = [N (pos + (if opc (pc_at m pos) = HB_P_PUSHBLOCKSHORT then 2
       else if opc (pc_at m pos) = HB_P_PUSHBLOCKLARGE then 4 else 3)), Z 0]"
  have f: "f \<in> {''hb_vmPushBlock'', ''hb_vmPushBlockShort''}"
    "\<And>s. hb_vmsh_pushblock H m pos s = map_option (\<lambda>s. (0, None, s)) (hcall H f arg s)"
    "exec_case (sl_ctx H m) t = map_option (\<lambda>s. t\<lparr>pc := ?next, vmst := s\<rparr>) (hcall H f arg (vmst t))"
    using block_call[OF op b(2)] by (simp_all add: f_def arg_def del: insert_iff) auto
  show ?thesis
  proof (cases "hcall H f arg (vmst t)")
    case None
    then have "run_block (shims H m) strs (instr_lines k m n base as pos @ rest) fr (vmst t) = B_abort" for fr
      by (simp add: ls pushblock_shim f(2))
    from ir_dies_block[OF b(1) this] show ?thesis
      using None f(3) b(2) by (simp add: turn_ok_def vm_step_def ir_follows_def stays_def)
  next
    case (Some s1)
    have a: "actionRequest s1 = 0" using block_quiet[OF f(1) Some] b(4) by simp
    have "run_block (shims H m) strs (instr_lines k m n base as pos @ rest) fr (vmst t) =
      B_goto (L_i ?next) (set_reg (Reg ''r'' pos '''') 0 fr) s1" for fr
      using Some by (simp add: ls pushblock_shim f(2))
    from ir_to_block[OF b(1) this]
    show ?thesis using Some f(3) b(2,3) a nx(2)
      by (auto simp: turn_ok_def vm_step_def ir_follows_def stays_def after_quiet)
  qed
qed

text \<open>The value hb_vmSwitchGet hands out, and that the SWITCH leaves no request.\<close>

lemma top_last:
  assumes "hb_stackItemFromTop (- 1) s = Some p" "item_rd p s = Some x"
  shows "stack s \<noteq> [] \<and> last (stack s) = x"
proof -
  have "p = AtStack (length (stack s) - 1)" "stack s \<noteq> []"
    using assms(1) by (auto simp: hb_stackItemFromTop_def Let_def nat_diff_distrib split: if_splits)
  then show ?thesis using assms(2) by (auto simp: last_conv_nth split: if_splits)
qed

lemma switchget_quiet:
  assumes "switch_quiet H" "actionRequest s = 0" "hb_vmSwitchGet H s = Some (r, s1)"
  shows "\<exists>p. r = Some p \<and> (\<forall>s2. hb_stackPop H s1 = Some s2 \<longrightarrow> actionRequest s2 = 0)"
proof -
  obtain p x where p: "hb_stackItemFromTop (- 1) s = Some p" "item_rd p s = Some x"
    using assms(3) by (auto simp: hb_vmSwitchGet_def split: Option.bind_splits)
  show ?thesis
  proof (cases "HB_IS_NUMINT x \<or> HB_IS_STRING x")
    case True
    then have r: "r = Some p" "s1 = s" using assms(3) p by (auto simp: hb_vmSwitchGet_def)
    have "actionRequest s2 = 0" if "hb_stackPop H s = Some s2" for s2
      using that True top_last[OF p] assms(2)
      by (cases x) (auto simp: hb_stackPop_def dest!: clear_string)
    then show ?thesis using r by simp
  next
    case False
    then show ?thesis using assms p unfolding switch_quiet_def by blast
  qed
qed

lemma switch_call:
  assumes "switch_quiet H" "actionRequest s = 0"
  shows "(\<exists>x s1. hb_vmsh_switchidx H m off c s = Some (int (switchidx_loop m x 0 c off), None, s1) \<and>
      hb_vmSwitch H m off c s = Some (switch_loop m x c off, s1) \<and> actionRequest s1 = 0) \<or>
    hb_vmsh_switchidx H m off c s = None \<and> hb_vmSwitch H m off c s = None"
proof (cases "hb_vmSwitchGet H s")
  case None
  then show ?thesis by (simp add: hb_vmsh_switchidx_def hb_vmSwitch_def)
next
  case (Some rs)
  then obtain p s1 where g: "hb_vmSwitchGet H s = Some (Some p, s1)"
    "\<forall>s2. hb_stackPop H s1 = Some s2 \<longrightarrow> actionRequest s2 = 0"
    using switchget_quiet[OF assms] by (cases rs) blast
  show ?thesis
  proof (cases "item_rd p s1 = None \<or> hb_stackPop H s1 = None")
    case True
    then show ?thesis using g
      by (cases "item_rd p s1") (auto simp: hb_vmsh_switchidx_def hb_vmSwitch_def)
  next
    case False
    then obtain x s2 where "item_rd p s1 = Some x" "hb_stackPop H s1 = Some s2" by auto
    then show ?thesis using g by (auto simp: hb_vmsh_switchidx_def hb_vmSwitch_def)
  qed
qed

lemma switch_turn:
  assumes at: "at_instr m n ps pos (instr_lines k m n base as pos) prog t"
    and op: "opc (pc_at m pos) = HB_P_SWITCH" and quiet: "switch_quiet H"
  shows "turn_ok H m strs prog ps t"
proof -
  let ?c = "MKU16 (pc_at m pos) 1" and ?next = "int (pos + ilen m pos)"
  have "opc (pc_at m pos) \<notin> {HB_P_ENDPROC, HB_P_JUMP, HB_P_JUMPNEAR, HB_P_JUMPFAR}" using op by auto
  note nx = at_next[OF at this]
  obtain rest where b: "find_block (L_i (int pos)) prog = Some (instr_lines k m n base as pos @ rest)"
    "pc t = int pos" "\<not> bCanRecover t" "actionRequest (vmst t) = 0" "0 < ilen m pos"
    by (rule at_block[OF at])
  have ls: "instr_lines k m n base as pos =
      [Ln_call (Reg ''r'' pos '''') vmsh_switchidx [A_pcode n (int (pos + 3)), A_i32 (int ?c)],
       Ln_switch (Reg ''r'' pos '''') (L_i ?next) (emit_cases m n 0 ?c (pos + 3))]"
    using op emit_special(10)[OF refl, of m pos] nx(1) by (simp add: instr_lines_def emit_switch_def Let_def)
  have scan: "switch_scan m ?c (pos + 3) = Some (pos + ilen m pos)"
    using op b(5) switch_scan_shift[of m ?c pos 3]
    by (auto simp: ilen_def hb_pcodeInstrLen_def pcInfo_at_def pc_simps MKU16_def split: option.splits)
  have targets: "set (case_targets m ?c (pos + 3)) \<subseteq> int ` set ps"
    using at op by (simp add: at_instr_def instr_scope_def Let_def)
  have "\<forall>r\<in>int ` set ps. 0 \<le> r \<and> r < int n"
    using at pcode_walk_ge[of m n 0 ps] by (auto simp: at_instr_def)
  then have range: "\<forall>r\<in>set (case_targets m ?c (pos + 3)). 0 \<le> r \<and> r < int n" using targets by blast
  have none: "map_of (cases_plain H) HB_P_SWITCH = None"
    by (intro special_cases) (simp_all add: special_ops_def)
  have ex: "exec_case (sl_ctx H m) t =
      map_option (\<lambda>(r, s). t\<lparr>pc := r, vmst := s\<rparr>) (hb_vmSwitch H m (pos + 3) ?c (vmst t))"
    using op none b(2)
    by (auto simp: exec_case_def Let_def case_misc_def hb_pcodeIsJump_def split: Option.bind_split)
  from switch_call[OF quiet b(4), of m "pos + 3" ?c] show ?thesis
  proof
    assume "hb_vmsh_switchidx H m (pos + 3) ?c (vmst t) = None \<and> hb_vmSwitch H m (pos + 3) ?c (vmst t) = None"
    then have no: "hb_vmsh_switchidx H m (pos + 3) ?c (vmst t) = None"
      "hb_vmSwitch H m (pos + 3) ?c (vmst t) = None" by simp_all
    then have "run_block (shims H m) strs (instr_lines k m n base as pos @ rest) fr (vmst t) = B_abort" for fr
      by (simp add: ls switchidx_shim nat_pos_3)
    from ir_dies_block[OF b(1) this] show ?thesis
      using no ex b(2) by (simp add: turn_ok_def vm_step_def ir_follows_def stays_def)
  next
    assume "\<exists>x s1. hb_vmsh_switchidx H m (pos + 3) ?c (vmst t) =
        Some (int (switchidx_loop m x 0 ?c (pos + 3)), None, s1) \<and>
      hb_vmSwitch H m (pos + 3) ?c (vmst t) = Some (switch_loop m x ?c (pos + 3), s1) \<and>
      actionRequest s1 = 0"
    then obtain x s1 where
      sh: "hb_vmsh_switchidx H m (pos + 3) ?c (vmst t) = Some (int (switchidx_loop m x 0 ?c (pos + 3)), None, s1)"
      and sw: "hb_vmSwitch H m (pos + 3) ?c (vmst t) = Some (switch_loop m x ?c (pos + 3), s1)"
      and a: "actionRequest s1 = 0" by auto
    note ag = switch_agrees[OF scan range, of 0 x]
    let ?to = "switch_loop m x ?c (pos + 3)"
    have "run_block (shims H m) strs (instr_lines k m n base as pos @ rest) fr (vmst t) =
        B_goto (L_i ?to) (set_reg (Reg ''r'' pos '''') (int (switchidx_loop m x 0 ?c (pos + 3))) fr) s1" for fr
      using sh ag by (simp add: ls switchidx_shim del: of_nat_add)
    from ir_to_block[OF b(1) this] show ?thesis
      using sw ex a b(2,3) ag targets nx(2) op
      by (auto simp: turn_ok_def vm_step_def ir_follows_def stays_def after_quiet succs_def)
  qed
qed

lemma instr_turn:
  assumes at: "at_instr m n ps pos (instr_lines k m n base as pos) prog t"
    and ps: "ps = as @ pos # bs" and cs: "hb_llvmSLEmitStrings m ps = Some cs"
    and quiet: "switch_quiet H \<or> opc (pc_at m pos) \<noteq> HB_P_SWITCH" and line: "opc (pc_at m pos) \<noteq> HB_P_LINE"
  shows "turn_ok H m (sl_strings m ps base) prog ps t"
proof -
  have op: "opc (pc_at m pos) \<in> set special_ops \<or>
      (\<exists>f args. map_of emit_rows (opc (pc_at m pos)) = Some (f, args))"
    "opc (pc_at m pos) \<notin> seq_ops"
    using at by (auto simp: at_instr_def known_def)
  show ?thesis
  proof (cases rule: instr_kinds[OF op])
    case (1 f args)
    then show ?thesis by (rule row_turn[OF at])
  next
    case 7
    then have "str_header (opc (pc_at m pos)) \<noteq> 0" by (auto simp: str_header_def)
    then show ?thesis using pushstr_turn[OF at _ ps cs] by simp
  next
    case 9
    then show ?thesis using quiet switch_turn[OF at] by simp
  qed (auto simp: line intro: noop_turn[OF at] endproc_turn[OF at] jump_turn[OF at] condjump_turn[OF at]
      funcsym_turn[OF at] block_turn[OF at])
qed

end

end
