(* ===== verification/SLRefine.thy ===== *)
theory SLRefine
  imports SLTurns2 VmEval
begin

text \<open>
  The straight-line code of a function does what the interpreter does on its
  pcode: every run of the interpreter that ends has a run of the emitted lines
  that ends the same way, and the other way round.
\<close>

definition prog_strings :: "pcptr \<Rightarrow> nat \<Rightarrow> nat \<Rightarrow> nat \<Rightarrow> HB_BYTE list" where
  "prog_strings m n base =
     (case pcode_walk m n 0 of None \<Rightarrow> (\<lambda>i. []) | Some ps \<Rightarrow> sl_strings m ps base)"

definition good :: "nat list \<Rightarrow> 'w istate \<Rightarrow> bool" where
  "good ps t \<longleftrightarrow> pc t \<in> int ` set ps \<and> \<not> bCanRecover t \<and> actionRequest (vmst t) = 0"

lemma supported_known:
  assumes "pcode_walk m n 0 = Some ps" "pos \<in> set ps" "supported_at m pos"
    "opc (pc_at m pos) \<notin> seq_ops"
  shows "known (opc (pc_at m pos))"
proof -
  have "opc (pc_at m pos) < 181"
    using pcode_walk_ilen[OF assms(1,2)]
    by (auto simp: hb_pcodeInstrLen_def pcInfo_at_def split: option.splits if_splits)
  then show ?thesis
    using supported_op[of "opc (pc_at m pos)"] assms(3,4) by (auto simp: known_def supported_at_def)
qed

lemma sl_scopeD:
  assumes "sl_scope m n"
  obtains ps where "pcode_walk m n 0 = Some ps" "0 \<in> set ps"
    "\<forall>pos\<in>set ps. instr_scope m n ps pos \<and> known (opc (pc_at m pos))"
proof -
  obtain mp where mp: "hb_pcodeAnalyze m n = Analyze_TRUE mp" "fAllSupported mp" and n: "0 < n"
    using assms by (auto simp: sl_scope_def hb_llvmSLPrecheck_def split: analyze_result.splits)
  obtain ps where ps: "pcode_walk m n 0 = Some ps" and sup: "\<forall>q\<in>set ps. supported_at m q"
    using mp by (auto simp: Analyze_TRUE_iff)
  have sc: "\<forall>pos\<in>set ps. instr_scope m n ps pos"
    using assms ps by (simp add: sl_scope_def list_all_iff)
  then have "\<forall>pos\<in>set ps. opc (pc_at m pos) \<notin> seq_ops" by (simp add: instr_scope_def Let_def)
  then have kn: "\<forall>pos\<in>set ps. known (opc (pc_at m pos))" using supported_known[OF ps] sup by blast
  have "0 \<in> set ps" using n ps by (auto simp: pcode_walk_Cons)
  then show ?thesis using that ps sc kn by blast
qed

lemma scope_strings:
  assumes "\<forall>pos\<in>set ps. instr_scope m n ps pos"
  shows "\<exists>cs. hb_llvmSLEmitStrings m ps = Some cs"
proof (rule EmitStrings_Some, intro ballI)
  fix pos assume "pos \<in> set ps"
  then have "str_header (opc (pc_at m pos)) < ilen m pos"
    using assms by (simp add: instr_scope_def Let_def)
  then show "str_header (opc (pc_at m pos)) = 0 \<or> str_size (pc_at m pos) \<noteq> 0"
    using str_ilen[of m pos] by (cases "str_header (opc (pc_at m pos)) = 0") auto
qed

lemma find_epilogue:
  assumes "pcode_walk m n 0 = Some ps" "hb_llvmSLEmitBody m n k base = Some prog"
    "\<forall>pos\<in>set ps. known (opc (pc_at m pos))"
  shows "find_block L_epilogue prog = Some [Ln_ret]"
proof -
  have "L_epilogue \<notin> set (labels (emit_blocks k m n ps \<lparr>iLocalStr = base, seq_stack = []\<rparr>))"
    using emit_blocks_labels[OF assms(3), of "\<lparr>iLocalStr = base, seq_stack = []\<rparr>" k n]
    by (auto simp: inner_labels_def)
  then show ?thesis using assms(1,2)
    by (auto simp: hb_llvmSLEmitBody_def find_entry find_block_skip)
qed

lemma run_allocas:
  "run_block F strs (map (\<lambda>x. Ln_alloca (g x)) rs @ Ln_br l # rest) fr s = B_goto l fr s"
  by (induction rs) simp_all

lemma run_entry:
  assumes "hb_llvmSLEmitBody m n k base = Some prog"
  shows "run_function (Suc j) F strs prog s = run_ir j F strs prog (L_i 0) frame0 s"
proof -
  obtain ps where "prog = emit_entry m ps @
      emit_blocks k m n ps \<lparr>iLocalStr = base, seq_stack = []\<rparr> @ [Ln_label L_epilogue, Ln_ret]"
    using assms by (auto simp: hb_llvmSLEmitBody_def)
  then show ?thesis by (simp add: run_function_def emit_entry_def run_allocas)
qed

section \<open>Runs\<close>

lemma ir_to_end:
  assumes "ir_to F strs prog x (L_epilogue, fr, s)" "find_block L_epilogue prog = Some [Ln_ret]"
  shows "\<exists>i. \<forall>j. run_at F strs prog (i + j) x = Finished s"
proof -
  obtain i where "\<forall>j. run_at F strs prog (i + j) x = run_at F strs prog j (L_epilogue, fr, s)"
    using assms(1) unfolding ir_to_def by blast
  from this[rule_format, of "Suc j" for j] show ?thesis
    using assms(2) by (intro exI[of _ "Suc i"]) simp
qed

text \<open>The loop of the interpreter with another turn.\<close>

fun run_turns :: "('w istate \<Rightarrow> 'w after option) \<Rightarrow> nat \<Rightarrow> 'w istate \<Rightarrow> 'w istate outcome" where
  "run_turns S 0 t = OutOfFuel"
| "run_turns S (Suc fuel) t =
     (case S t of None \<Rightarrow> Aborted | Some (Leave t) \<Rightarrow> Finished t | Some (Loop t) \<Rightarrow> run_turns S fuel t)"

lemma vm_run_turns: "vm_run k C t = run_turns (vm_step C) k t"
  by (induction k arbitrary: t) (simp_all split: option.split after.split)

definition step_ok ::
  "'w callee \<Rightarrow> (nat \<Rightarrow> HB_BYTE list) \<Rightarrow> line list \<Rightarrow> nat list \<Rightarrow> 'w istate \<Rightarrow> 'w after option \<Rightarrow> bool" where
  "step_ok F strs prog ps t r \<longleftrightarrow>
     (\<forall>fr. ir_follows F strs prog (L_i (pc t), fr, vmst t) r) \<and> stays (int ` set ps) r"

lemma stays_good: "stays (int ` set ps) (Some (Loop t)) \<longleftrightarrow> good ps t"
  by (simp add: stays_def good_def)

lemma runs_forward:
  assumes turns: "\<And>t. good ps t \<Longrightarrow> step_ok F strs prog ps t (S t)"
    and ep: "find_block L_epilogue prog = Some [Ln_ret]"
    and "good ps t" "run_turns S k t \<noteq> OutOfFuel"
  shows "\<exists>j. run_at F strs prog j (L_i (pc t), fr, vmst t) = map_outcome vmst (run_turns S k t)"
  using assms(3,4)
proof (induction k arbitrary: t fr)
  case (Suc k)
  note ok = turns[OF Suc.prems(1), unfolded step_ok_def]
  show ?case
  proof (cases "S t")
    case None
    then show ?thesis using ok by (auto simp: ir_follows_def ir_dies_def)
  next
    case (Some a)
    show ?thesis
    proof (cases a)
      case (Loop t1)
      then obtain fr1 where to: "ir_to F strs prog (L_i (pc t), fr, vmst t) (L_i (pc t1), fr1, vmst t1)"
        using ok Some by (auto simp: ir_follows_def)
      have "good ps t1" using ok Some Loop by (simp add: stays_good)
      from Suc.IH[OF this, of fr1] obtain j where
        "run_at F strs prog j (L_i (pc t1), fr1, vmst t1) = map_outcome vmst (run_turns S k t1)"
        using Suc.prems(2) Some Loop by auto
      moreover obtain i where "\<forall>j. run_at F strs prog (i + j) (L_i (pc t), fr, vmst t) =
          run_at F strs prog j (L_i (pc t1), fr1, vmst t1)" using to by (auto simp: ir_to_def)
      ultimately show ?thesis using Some Loop by (intro exI[of _ "i + j"]) simp
    next
      case (Leave t1)
      then obtain fr1 where "ir_to F strs prog (L_i (pc t), fr, vmst t) (L_epilogue, fr1, vmst t1)"
        using ok Some by (auto simp: ir_follows_def)
      from ir_to_end[OF this ep] show ?thesis using Some Leave by auto
    qed
  qed
qed simp

lemma runs_backward:
  assumes turns: "\<And>t. good ps t \<Longrightarrow> step_ok F strs prog ps t (S t)"
    and ep: "find_block L_epilogue prog = Some [Ln_ret]"
    and "good ps t" "run_at F strs prog j (L_i (pc t), fr, vmst t) = r" "r \<noteq> OutOfFuel"
  shows "\<exists>k. map_outcome vmst (run_turns S k t) = r"
  using assms(3,4)
proof (induction j arbitrary: t fr rule: less_induct)
  case (less j)
  let ?x = "(L_i (pc t), fr, vmst t)"
  note ok = turns[OF less.prems(1), unfolded step_ok_def]
  have more: "run_at F strs prog (i + j) ?x = r" for i
    using run_ir_more[OF less.prems(2)[unfolded run_at.simps] assms(5), of "i + j"] by simp
  show ?case
  proof (cases "S t")
    case None
    then obtain i where "\<forall>j. run_at F strs prog (i + j) ?x = Aborted"
      using ok by (auto simp: ir_follows_def ir_dies_def)
    then have "r = Aborted" using more[of i] by simp
    then show ?thesis using None by (intro exI[of _ "Suc 0"]) simp
  next
    case (Some a)
    show ?thesis
    proof (cases a)
      case (Loop t1)
      then obtain fr1 where "ir_to F strs prog ?x (L_i (pc t1), fr1, vmst t1)"
        using ok Some by (auto simp: ir_follows_def)
      then obtain i where i: "0 < i" "\<forall>j. run_at F strs prog (i + j) ?x =
          run_at F strs prog j (L_i (pc t1), fr1, vmst t1)"
        unfolding ir_to_def by blast
      have g: "good ps t1" using ok Some Loop by (simp add: stays_good)
      have "i \<le> j"
      proof (rule ccontr)
        assume "\<not> i \<le> j"
        then have "run_at F strs prog i ?x = r" using more[of "i - j"] by simp
        then show False using i(2)[rule_format, of 0] assms(5) by simp
      qed
      then obtain d where d: "j = i + d" by (auto simp: le_iff_add)
      then have "run_at F strs prog d (L_i (pc t1), fr1, vmst t1) = r"
        using i(2) less.prems(2) by simp
      from less.IH[OF _ g this] obtain q where "map_outcome vmst (run_turns S q t1) = r"
        using d i(1) by auto
      then show ?thesis using Some Loop by (intro exI[of _ "Suc q"]) simp
    next
      case (Leave t1)
      then obtain fr1 where "ir_to F strs prog ?x (L_epilogue, fr1, vmst t1)"
        using ok Some by (auto simp: ir_follows_def)
      from ir_to_end[OF this ep] obtain i where
        "\<forall>j. run_at F strs prog (i + j) ?x = Finished (vmst t1)" by blast
      then have "r = Finished (vmst t1)" using more[of i] by simp
      then show ?thesis using Some Leave by (intro exI[of _ "Suc 0"]) simp
    qed
  qed
qed

section \<open>The turns of a function\<close>

lemma good_at:
  assumes "pcode_walk m n 0 = Some ps" "hb_llvmSLEmitBody m n k base = Some prog"
    and sc: "\<forall>pos\<in>set ps. instr_scope m n ps pos \<and> known (opc (pc_at m pos))" and "good ps t"
  obtains pos as bs cs where "pos \<in> set ps" "pc t = int pos" "ps = as @ pos # bs"
    "hb_llvmSLEmitStrings m ps = Some cs" "at_instr m n ps pos (instr_lines k m n base as pos) prog t"
proof -
  obtain pos where pos: "pos \<in> set ps" "pc t = int pos" using assms(4) by (auto simp: good_def)
  obtain as bs where ab: "ps = as @ pos # bs" using split_list[OF pos(1)] by blast
  obtain cs where cs: "hb_llvmSLEmitStrings m ps = Some cs" using scope_strings sc by blast
  have "at_instr m n ps pos (instr_lines k m n base as pos) prog t"
    using body_find[OF assms(1,2) _ ab] sc pos assms(1,4) by (auto simp: at_instr_def good_def)
  then show ?thesis using that pos ab cs by blast
qed

text \<open>A turn of the interpreter that does not store line numbers.\<close>

definition sl_turn :: "'w ctx \<Rightarrow> 'w istate \<Rightarrow> 'w after option" where
  "sl_turn C t =
     (if opc (pc_at (code C) (nat (pc t))) = HB_P_LINE then Some (Loop (t\<lparr>pc := pc t + 3\<rparr>))
      else vm_step C t)"

lemma all_turns:
  fixes H :: "'w helpers"
  assumes "run_time H" "pcode_walk m n 0 = Some ps" "hb_llvmSLEmitBody m n k base = Some prog"
    and sc: "\<forall>pos\<in>set ps. instr_scope m n ps pos \<and> known (opc (pc_at m pos))"
    and quiet: "switch_quiet H \<or> (\<forall>pos\<in>set ps. opc (pc_at m pos) \<noteq> HB_P_SWITCH)"
    and g: "good ps t"
  shows "step_ok (shims H m) (sl_strings m ps base) prog ps t (sl_turn (sl_ctx H m) t)"
    "stays (int ` set ps \<inter> succs m (nat (pc t))) (vm_step (sl_ctx H m) t)"
proof -
  obtain pos as bs cs where at: "pos \<in> set ps" "pc t = int pos" "ps = as @ pos # bs"
    "hb_llvmSLEmitStrings m ps = Some cs" "at_instr m n ps pos (instr_lines k m n base as pos) prog t"
    using good_at[OF assms(2-4) g] .
  have "step_ok (shims H m) (sl_strings m ps base) prog ps t (sl_turn (sl_ctx H m) t) \<and>
    stays (int ` set ps \<inter> succs m (nat (pc t))) (vm_step (sl_ctx H m) t)"
  proof (cases "opc (pc_at m pos) = HB_P_LINE")
    case True
    note l = run_time.line_turn[OF assms(1) at(5) True]
    have "actionRequest (vmst t) = 0" "\<not> bCanRecover t" using g by (simp_all add: good_def)
    then show ?thesis using l True at(2) unfolding step_ok_def sl_turn_def ir_follows_def stays_def by auto
  next
    case False
    have "turn_ok H m (sl_strings m ps base) prog ps t"
      using run_time.instr_turn[OF assms(1) at(5,3,4) _ False] quiet at(1) by blast
    then show ?thesis using False at(2)
      unfolding turn_ok_def step_ok_def sl_turn_def stays_def by auto
  qed
  then show "step_ok (shims H m) (sl_strings m ps base) prog ps t (sl_turn (sl_ctx H m) t)"
    "stays (int ` set ps \<inter> succs m (nat (pc t))) (vm_step (sl_ctx H m) t)" by blast+
qed

text \<open>The start of a function: its instructions and its first state.\<close>

definition start :: "'w vm \<Rightarrow> 'w istate" where
  "start s = \<lparr>pc = 0, vmst = s, bCanRecover = False\<rparr>"

lemma start_sel [simp]: "pc (start s) = 0" "vmst (start s) = s"
  by (simp_all add: start_def)

lemma scope_good:
  assumes "sl_scope m n" "actionRequest s = 0"
  obtains ps where "pcode_walk m n 0 = Some ps" "good ps (start s)"
    "\<forall>pos\<in>set ps. instr_scope m n ps pos \<and> known (opc (pc_at m pos))"
proof -
  obtain ps where "pcode_walk m n 0 = Some ps" "0 \<in> set ps"
    "\<forall>pos\<in>set ps. instr_scope m n ps pos \<and> known (opc (pc_at m pos))"
    using sl_scopeD[OF assms(1)] .
  moreover from this have "good ps (start s)" using assms(2) by (force simp: good_def start_def)
  ultimately show ?thesis using that by blast
qed

lemma body_refines:
  fixes H :: "'w helpers"
  assumes "run_time H" "sl_scope m n" "hb_llvmSLEmitBody m n k base = Some prog"
    and "switch_quiet H \<or> (\<forall>pos<n. instr_at m n pos \<longrightarrow> opc (pc_at m pos) \<noteq> HB_P_SWITCH)"
    and "actionRequest s = 0" "r \<noteq> OutOfFuel"
  shows "(\<exists>fuel. map_outcome vmst (run_turns (sl_turn (sl_ctx H m)) fuel (start s)) = r) \<longleftrightarrow>
    (\<exists>fuel. run_function fuel (shims H m) (prog_strings m n base) prog s = r)"
proof -
  obtain ps where ps: "pcode_walk m n 0 = Some ps" and g: "good ps (start s)"
    and sc: "\<forall>pos\<in>set ps. instr_scope m n ps pos \<and> known (opc (pc_at m pos))"
    using scope_good[OF assms(2,5)] .
  have q: "switch_quiet H \<or> (\<forall>pos\<in>set ps. opc (pc_at m pos) \<noteq> HB_P_SWITCH)"
    using assms(4) ps(1) by (auto simp: pcode_walk_set)
  have strs: "prog_strings m n base = sl_strings m ps base" by (simp add: prog_strings_def ps(1))
  note turns = all_turns(1)[OF assms(1) ps(1) assms(3) sc q]
  have ep: "find_block L_epilogue prog = Some [Ln_ret]"
    using find_epilogue[OF ps(1) assms(3)] sc by blast
  show ?thesis
  proof
    assume "\<exists>fuel. map_outcome vmst (run_turns (sl_turn (sl_ctx H m)) fuel (start s)) = r"
    then obtain fuel where f: "map_outcome vmst (run_turns (sl_turn (sl_ctx H m)) fuel (start s)) = r" by blast
    then have "run_turns (sl_turn (sl_ctx H m)) fuel (start s) \<noteq> OutOfFuel" using assms(6) by auto
    from runs_forward[OF turns ep g this, of frame0] obtain j where
      "run_ir j (shims H m) (sl_strings m ps base) prog (L_i 0) frame0 s = r"
      using f by auto
    then show "\<exists>fuel. run_function fuel (shims H m) (prog_strings m n base) prog s = r"
      unfolding strs by (intro exI[of _ "Suc j"]) (simp add: run_entry[OF assms(3)])
  next
    assume "\<exists>fuel. run_function fuel (shims H m) (prog_strings m n base) prog s = r"
    then obtain fuel where f: "run_function fuel (shims H m) (sl_strings m ps base) prog s = r"
      unfolding strs by blast
    then obtain j where "fuel = Suc j" using assms(6) by (cases fuel) (auto simp: run_function_def)
    then have "run_at (shims H m) (sl_strings m ps base) prog j (L_i (pc (start s)), frame0, vmst (start s)) = r"
      using f by (simp add: run_entry[OF assms(3)])
    from runs_backward[OF turns ep g this assms(6)]
    show "\<exists>fuel. map_outcome vmst (run_turns (sl_turn (sl_ctx H m)) fuel (start s)) = r" .
  qed
qed

section \<open>Line numbers\<close>

definition with_line :: "nat \<Rightarrow> 'w vm \<Rightarrow> 'w vm" where
  "with_line l s = s\<lparr>uiLineNo := l\<rparr>"

definition state_line :: "nat \<Rightarrow> 'w istate \<Rightarrow> 'w istate" where
  "state_line l t = t\<lparr>vmst := with_line l (vmst t)\<rparr>"

fun after_line :: "nat \<Rightarrow> 'w after \<Rightarrow> 'w after" where
  "after_line l (Loop t) = Loop (state_line l t)"
| "after_line l (Leave t) = Leave (state_line l t)"

text \<open>No instruction but LINE looks at the line number or changes it.\<close>

definition line_blind :: "'w ctx \<Rightarrow> nat \<Rightarrow> bool" where
  "line_blind C n \<longleftrightarrow> (\<forall>pos t l. pos < n \<longrightarrow> instr_at (code C) n pos \<longrightarrow>
     opc (pc_at (code C) pos) \<noteq> HB_P_LINE \<longrightarrow>
     pc t = int pos \<longrightarrow> \<not> bCanRecover t \<longrightarrow> actionRequest (vmst t) = 0 \<longrightarrow>
     vm_step C (state_line l t) = map_option (after_line l) (vm_step C t))"

definition no_lines :: "pcptr \<Rightarrow> nat \<Rightarrow> bool" where
  "no_lines m n \<longleftrightarrow> (\<forall>pos<n. instr_at m n pos \<longrightarrow> opc (pc_at m pos) \<noteq> HB_P_LINE)"

lemma good_sel [simp]:
  "pc (state_line l t) = pc t" "vmst (state_line l t) = with_line l (vmst t)"
  "state_line l (t\<lparr>pc := i, vmst := (vmst t)\<lparr>uiLineNo := j\<rparr>\<rparr>) = (state_line l t)\<lparr>pc := i\<rparr>"
  by (simp_all add: state_line_def with_line_def)

lemma lines_irrelevant:
  fixes H :: "'w helpers"
  assumes "run_time H" "pcode_walk m n 0 = Some ps" "hb_llvmSLEmitBody m n k base = Some prog"
    and sc: "\<forall>pos\<in>set ps. instr_scope m n ps pos \<and> known (opc (pc_at m pos))"
    and quiet: "switch_quiet H \<or> (\<forall>pos\<in>set ps. opc (pc_at m pos) \<noteq> HB_P_SWITCH)"
    and g: "good ps t"
  shows "no_lines m n \<Longrightarrow> run_turns (sl_turn (sl_ctx H m)) j t = run_turns (vm_step (sl_ctx H m)) j t"
    "line_blind (sl_ctx H m) n \<Longrightarrow> run_turns (sl_turn (sl_ctx H m)) j (state_line l t) =
      map_outcome (state_line l) (run_turns (vm_step (sl_ctx H m)) j t)"
proof -
  have in_code: "\<exists>pos<n. pc t = int pos \<and> instr_at m n pos" if "good ps t" for t :: "'w istate"
    using that assms(2) by (auto simp: good_def pcode_walk_set)
  have next_: "good ps t1" if "good ps t" "vm_step (sl_ctx H m) t = Some (Loop t1)" for t t1 :: "'w istate"
    using all_turns(2)[OF assms(1-5) that(1)] that(2) by (simp add: stays_def good_def)
  show "run_turns (sl_turn (sl_ctx H m)) j t = run_turns (vm_step (sl_ctx H m)) j t" if "no_lines m n"
    using g
  proof (induction j arbitrary: t)
    case (Suc j)
    have "sl_turn (sl_ctx H m) t = vm_step (sl_ctx H m) t"
      using that in_code[OF Suc.prems] by (auto simp: sl_turn_def no_lines_def)
    then show ?case using Suc next_[OF Suc.prems] by (simp split: option.split after.split)
  qed simp
  show "run_turns (sl_turn (sl_ctx H m)) j (state_line l t) =
      map_outcome (state_line l) (run_turns (vm_step (sl_ctx H m)) j t)" if "line_blind (sl_ctx H m) n"
    using g
  proof (induction j arbitrary: t)
    case (Suc j)
    have "sl_turn (sl_ctx H m) (state_line l t) = map_option (after_line l) (vm_step (sl_ctx H m) t)"
    proof (cases "opc (pc_at m (nat (pc t))) = HB_P_LINE")
      case True
      obtain pos as bs where "pc t = int pos" "at_instr m n ps pos (instr_lines k m n base as pos) prog t"
        using good_at[OF assms(2-4) Suc.prems] by metis
      from run_time.line_turn(2)[OF assms(1) this(2)] True this(1) show ?thesis by (simp add: sl_turn_def)
    next
      case False
      then show ?thesis using that in_code[OF Suc.prems] Suc.prems
        by (auto simp: sl_turn_def line_blind_def good_def)
    qed
    then show ?case using Suc next_[OF Suc.prems] by (simp split: option.split after.split)
  qed simp
qed

section \<open>The refinement\<close>

text \<open>C1.
  For a function in scope without LINE instructions (compiled with -l), the
  emitted lines and the interpreter have the same results: a final machine state,
  the same in every component, or the stop of an aborted call, is reached by the
  one exactly when it is reached by the other.  The scope leaves out SEQUENCE
  regions, a SEND in front of a POP and jumps out of the code.  The function starts
  with no request pending; of the functions it calls the theorem supposes that they
  leave none, BREAK or QUIT as their request, that clearing a string and making a
  code block leave the request alone (run_time) and, when it has a SWITCH, that a
  SWITCH on a value of the wrong type leaves none (switch_quiet).
\<close>

theorem hb_llvmSLEmitBody_refines:
  fixes H :: "'w helpers"
  assumes "run_time H" "sl_scope m n" "no_lines m n" "hb_llvmSLEmitBody m n k base = Some prog"
    and "switch_quiet H \<or> (\<forall>pos<n. instr_at m n pos \<longrightarrow> opc (pc_at m pos) \<noteq> HB_P_SWITCH)"
    and "actionRequest s = 0" "r \<noteq> OutOfFuel"
  shows "(\<exists>fuel. map_outcome vmst (hb_vmExecute fuel (sl_ctx H m) s) = r) \<longleftrightarrow>
    (\<exists>fuel. run_function fuel (shims H m) (prog_strings m n base) prog s = r)"
proof -
  obtain ps where ps: "pcode_walk m n 0 = Some ps" "good ps (start s)"
    "\<forall>pos\<in>set ps. instr_scope m n ps pos \<and> known (opc (pc_at m pos))"
    using scope_good[OF assms(2,6)] .
  then have "switch_quiet H \<or> (\<forall>pos\<in>set ps. opc (pc_at m pos) \<noteq> HB_P_SWITCH)"
    using assms(5) by (auto simp: pcode_walk_set)
  from lines_irrelevant(1)[OF assms(1) ps(1) assms(4) ps(3) this ps(2) assms(3)]
  have "hb_vmExecute fuel (sl_ctx H m) s = run_turns (sl_turn (sl_ctx H m)) fuel (start s)" for fuel
    by (simp add: hb_vmExecute_def vm_run_turns start_def)
  then show ?thesis using body_refines[OF assms(1,2,4-7)] by simp
qed

text \<open>C2.
  A function in scope compiled with line numbers, none of whose other instructions
  looks at the line number: the emitted lines have the results of the interpreter
  but for that number, which the emitted lines leave as it was.
\<close>

theorem hb_llvmSLEmitBody_lines:
  fixes H :: "'w helpers"
  assumes "run_time H" "sl_scope m n" "line_blind (sl_ctx H m) n" "hb_llvmSLEmitBody m n k base = Some prog"
    and "switch_quiet H \<or> (\<forall>pos<n. instr_at m n pos \<longrightarrow> opc (pc_at m pos) \<noteq> HB_P_SWITCH)"
    and "actionRequest s = 0" "r \<noteq> OutOfFuel"
  shows "(\<exists>fuel. map_outcome (with_line (uiLineNo s) \<circ> vmst) (hb_vmExecute fuel (sl_ctx H m) s) = r) \<longleftrightarrow>
    (\<exists>fuel. run_function fuel (shims H m) (prog_strings m n base) prog s = r)"
proof -
  obtain ps where ps: "pcode_walk m n 0 = Some ps" "good ps (start s)"
    "\<forall>pos\<in>set ps. instr_scope m n ps pos \<and> known (opc (pc_at m pos))"
    using scope_good[OF assms(2,6)] .
  then have q: "switch_quiet H \<or> (\<forall>pos\<in>set ps. opc (pc_at m pos) \<noteq> HB_P_SWITCH)"
    using assms(5) by (auto simp: pcode_walk_set)
  have "state_line (uiLineNo s) (start s) = start s" by (simp add: state_line_def with_line_def start_def)
  with lines_irrelevant(2)[OF assms(1) ps(1) assms(4) ps(3) q ps(2) assms(3), of _ "uiLineNo s"]
  have "run_turns (sl_turn (sl_ctx H m)) fuel (start s) =
      map_outcome (state_line (uiLineNo s)) (hb_vmExecute fuel (sl_ctx H m) s)" for fuel
    by (simp add: hb_vmExecute_def vm_run_turns start_def)
  then have "map_outcome (with_line (uiLineNo s) \<circ> vmst) (hb_vmExecute fuel (sl_ctx H m) s) =
      map_outcome vmst (run_turns (sl_turn (sl_ctx H m)) fuel (start s))" for fuel
    by (simp add: outcome.map_comp o_def)
  then show ?thesis using body_refines[OF assms(1,2,4-7)] by simp
qed

section \<open>An example\<close>

text \<open>\<open>RETURN 2 + 3\<close>: PUSHBYTE 2, PUSHBYTE 3, PLUS, RETVALUE, ENDPROC.\<close>

definition sum_code :: pcptr where
  "sum_code = pc_of_list [92, 2, 92, 3, 72, 110, 7]"

lemma sum_code_run:
  "map_outcome vmst (hb_vmExecute 5 (sl_ctx (vm_helpers base_helpers) sum_code) (vm_with [])) =
   Finished ((vm_with [])\<lparr>retItem := I_Integer 5 10\<rparr>)"
  by (simp add: vm_eval stack_eval arith_eval byte_eval sum_code_def)

lemma sum_code_scope: "sl_scope sum_code 7"
  by code_simp

lemma sum_code_ops: "\<forall>pos<7. opc (pc_at sum_code pos) \<noteq> HB_P_SWITCH \<and> opc (pc_at sum_code pos) \<noteq> HB_P_LINE"
proof -
  have "list_all (\<lambda>pos. opc (pc_at sum_code pos) \<noteq> HB_P_SWITCH \<and> opc (pc_at sum_code pos) \<noteq> HB_P_LINE) [0..<7]"
    by code_simp
  then show ?thesis by (simp add: list_all_iff del: upt_rec_numeral)
qed

lemma sum_code_lines: "no_lines sum_code 7"
  using sum_code_ops by (simp add: no_lines_def)

definition sum_body :: "line list" where
  "sum_body = the (hb_llvmSLEmitBody sum_code 7 3 0)"

lemma sum_code_body: "hb_llvmSLEmitBody sum_code 7 3 0 = Some sum_body"
proof -
  have "pcode_walk sum_code 7 0 = Some [0, 2, 4, 5, 6]" by code_simp
  then show ?thesis by (simp add: sum_body_def hb_llvmSLEmitBody_def)
qed

lemma hb_llvmSLEmitBody_refines_witness:
  "\<exists>fuel. run_function fuel (shims (vm_helpers base_helpers) sum_code) (prog_strings sum_code 7 0)
     sum_body (vm_with []) = Finished ((vm_with [])\<lparr>retItem := I_Integer 5 10\<rparr>)"
proof -
  have "actionRequest (vm_with []) = 0" by (simp add: vm_with_def)
  with sum_code_run show ?thesis
    using hb_llvmSLEmitBody_refines[OF vmh.run_time_axioms sum_code_scope sum_code_lines sum_code_body, of "vm_with []"
        "Finished ((vm_with [])\<lparr>retItem := I_Integer 5 10\<rparr>)"] sum_code_ops
    by blast
qed

text \<open>\<open>RETURN 2\<close> with its line number 5: LINE 5, PUSHBYTE 2, RETVALUE, ENDPROC.\<close>

definition line_code :: pcptr where
  "line_code = pc_of_list [36, 5, 0, 92, 2, 110, 7]"

lemma line_code_walk: "pcode_walk line_code 7 0 = Some [0, 3, 5, 6]"
  by code_simp

lemma line_code_scope: "sl_scope line_code 7"
  by code_simp

lemma line_code_instrs: "pos < 7 \<Longrightarrow> instr_at line_code 7 pos \<Longrightarrow> pos = 0 \<or> pos = 3 \<or> pos = 5 \<or> pos = 6"
proof -
  assume "pos < 7" "instr_at line_code 7 pos"
  then have "pos \<in> set [0, 3, 5, 6]" using pcode_walk_set[OF line_code_walk] by blast
  then show ?thesis by simp
qed

lemma line_code_run:
  "map_outcome vmst (hb_vmExecute 4 (sl_ctx (vm_helpers base_helpers) line_code) (vm_with [])) =
   Finished ((vm_with [])\<lparr>retItem := I_Integer 2 10, uiLineNo := 5\<rparr>)"
proof -
  have "HB_PCODE_MKUSHORT (pc_at line_code 1) = 5" by code_simp
  then show ?thesis by (simp add: vm_eval stack_eval arith_eval byte_eval line_code_def)
qed

lemma line_code_blind: "line_blind (sl_ctx (vm_helpers (base_helpers :: unit helpers)) line_code) 7"
  unfolding line_blind_def
proof (intro allI impI)
  fix pos l and t :: "unit istate"
  assume a: "pos < 7" "instr_at (code (sl_ctx (vm_helpers base_helpers) line_code)) 7 pos"
    "opc (pc_at (code (sl_ctx (vm_helpers base_helpers) line_code)) pos) \<noteq> HB_P_LINE" "pc t = int pos"
    "\<not> bCanRecover t" "actionRequest (vmst t) = 0"
  have "pos = 3 \<or> pos = 5 \<or> pos = 6"
    using line_code_instrs[OF a(1)] a(2,3) by (auto simp: line_code_def byte_eval)
  then show "vm_step (sl_ctx (vm_helpers base_helpers) line_code) (state_line l t) =
      map_option (after_line l) (vm_step (sl_ctx (vm_helpers base_helpers) line_code) t)"
    using a(4-6)
    by (elim disjE) (simp_all add: vm_eval stack_eval arith_eval byte_eval line_code_def state_line_def with_line_def)
qed

definition line_body :: "line list" where
  "line_body = the (hb_llvmSLEmitBody line_code 7 3 0)"

lemma line_code_body: "hb_llvmSLEmitBody line_code 7 3 0 = Some line_body"
  by (simp add: line_body_def hb_llvmSLEmitBody_def line_code_walk)

lemma line_code_no_switch: "pos < 7 \<Longrightarrow> instr_at line_code 7 pos \<Longrightarrow> opc (pc_at line_code pos) \<noteq> HB_P_SWITCH"
  using line_code_instrs[of pos] by (auto simp: line_code_def byte_eval)

text \<open>The emitted function leaves the line number 0, the interpreter 5.\<close>

lemma hb_llvmSLEmitBody_lines_witness:
  "\<exists>fuel. run_function fuel (shims (vm_helpers base_helpers) line_code) (prog_strings line_code 7 0)
     line_body (vm_with []) = Finished ((vm_with [])\<lparr>retItem := I_Integer 2 10\<rparr>)"
proof -
  have "actionRequest (vm_with []) = 0" by (simp add: vm_with_def)
  moreover have "map_outcome (with_line (uiLineNo (vm_with [])) \<circ> vmst)
      (hb_vmExecute 4 (sl_ctx (vm_helpers base_helpers) line_code) (vm_with [])) =
    Finished ((vm_with [])\<lparr>retItem := I_Integer 2 10\<rparr>)"
    using arg_cong[OF line_code_run, of "map_outcome (with_line (uiLineNo (vm_with [])))"]
    by (simp add: outcome.map_comp with_line_def vm_with_def)
  ultimately show ?thesis
    using hb_llvmSLEmitBody_lines[OF vmh.run_time_axioms line_code_scope line_code_blind line_code_body, of "vm_with []"
        "Finished ((vm_with [])\<lparr>retItem := I_Integer 2 10\<rparr>)"] line_code_no_switch
    by blast
qed

end
