(* ===== verification/SLTypes.thy ===== *)
theory SLTypes
  imports SLRefine
begin

text \<open>
  Every function the emitter writes is well formed LLVM IR, also with SEQUENCE
  regions: the lines are blocks that end in one terminator, labels and registers
  are defined once, registers before their use, and branches go to labels of the
  function.
\<close>

section \<open>Well-formed functions\<close>

text \<open>Inside a block (\<open>True\<close>) the next terminator ends it; outside there is a label.\<close>

fun block_shape :: "bool \<Rightarrow> line list \<Rightarrow> bool" where
  "block_shape inside [] = (\<not> inside)"
| "block_shape False (x # xs) = (case x of Ln_label l \<Rightarrow> block_shape True xs | _ \<Rightarrow> False)"
| "block_shape True (x # xs) =
     (case x of Ln_label l \<Rightarrow> False | _ \<Rightarrow> block_shape (\<not> terminator x) xs)"

fun defs_of :: "line \<Rightarrow> reg list" where
  "defs_of (Ln_alloca r) = [r]"
| "defs_of (Ln_call r f as) = [r]"
| "defs_of (Ln_icmp_ne d r k) = [d]"
| "defs_of (Ln_icmp_eq d r k) = [d]"
| "defs_of (Ln_load d r) = [d]"
| "defs_of _ = []"

fun arg_regs :: "arg \<Rightarrow> reg list" where
  "arg_regs (A_slot r) = [r]"
| "arg_regs _ = []"

fun uses_of :: "line \<Rightarrow> reg list" where
  "uses_of (Ln_call r f as) = concat (map arg_regs as)"
| "uses_of (Ln_icmp_ne d r k) = [r]"
| "uses_of (Ln_icmp_eq d r k) = [r]"
| "uses_of (Ln_load d r) = [r]"
| "uses_of (Ln_cbr r a b) = [r]"
| "uses_of (Ln_switch r d cs) = [r]"
| "uses_of _ = []"

fun targets_of :: "line \<Rightarrow> lab list" where
  "targets_of (Ln_br l) = [l]"
| "targets_of (Ln_cbr r a b) = [a, b]"
| "targets_of (Ln_switch r d cs) = d # map snd cs"
| "targets_of _ = []"

fun switch_distinct :: "line \<Rightarrow> bool" where
  "switch_distinct (Ln_switch r d cs) = distinct (map fst cs)"
| "switch_distinct _ = True"

fun uses_ok :: "reg set \<Rightarrow> line list \<Rightarrow> bool" where
  "uses_ok D [] = True"
| "uses_ok D (x # xs) = (set (uses_of x) \<subseteq> D \<and> uses_ok (D \<union> set (defs_of x)) xs)"

definition all_defs :: "line list \<Rightarrow> reg list" where
  "all_defs ls = concat (map defs_of ls)"

definition all_targets :: "line list \<Rightarrow> lab set" where
  "all_targets ls = (\<Union>x\<in>set ls. set (targets_of x))"

definition wf_function :: "line list \<Rightarrow> bool" where
  "wf_function ls \<longleftrightarrow> block_shape False ls \<and> distinct (labels ls) \<and> distinct (all_defs ls) \<and>
     uses_ok {} ls \<and> all_targets ls \<subseteq> set (labels ls) \<and> list_all switch_distinct ls"

section \<open>What the emitter needs of the pcode\<close>

text \<open>Jumps, the cases of a SWITCH and the addresses in SEQUENCE instructions are instructions.\<close>

definition targets_ok :: "pcptr \<Rightarrow> nat \<Rightarrow> nat list \<Rightarrow> nat \<Rightarrow> bool" where
  "targets_ok m n ps pos =
     (let op = opc (pc_at m pos) in
      if hb_pcodeIsJump op then jump_target m pos \<in> int ` set ps
      else if op = HB_P_SWITCH then set (case_targets m (MKU16 (pc_at m pos) 1) (pos + 3)) \<subseteq> int ` set ps
      else if op = HB_P_SEQBEGIN \<or> op = HB_P_SEQALWAYS then seq_target m pos \<in> set ps
      else if op = HB_P_SEQEND then seq_target m pos \<in> set ps \<or> seq_target m pos \<ge> n
      else True)"

section \<open>Fragments\<close>

text \<open>The lines of one instruction; \<open>T\<close> are the labels of blocks, \<open>D\<close> the slots.\<close>

definition inner :: "nat \<Rightarrow> lab set" where
  "inner pos = {L_jpdone pos, L_ipfsa pos} \<union> range (\<lambda>s. L_seqd s pos) \<union> range (\<lambda>s. L_seqq s pos)"

definition regs_at :: "nat \<Rightarrow> reg set" where
  "regs_at pos = {Reg p pos s | p s. p \<noteq> ''jp''}"

definition fragment :: "lab set \<Rightarrow> reg set \<Rightarrow> nat \<Rightarrow> line list \<Rightarrow> bool" where
  "fragment T D pos ls \<longleftrightarrow> (\<forall>ys. block_shape True (ls @ ys) = block_shape False ys) \<and>
     distinct (labels ls) \<and> set (labels ls) \<subseteq> inner pos \<and>
     distinct (all_defs ls) \<and> set (all_defs ls) \<subseteq> regs_at pos \<and> uses_ok D ls \<and>
     all_targets ls \<subseteq> T \<union> set (labels ls) \<and> list_all switch_distinct ls"

definition regions_ok :: "lab set \<Rightarrow> hb_seq_region list \<Rightarrow> bool" where
  "regions_ok T stk \<longleftrightarrow> (\<forall>x\<in>set stk. L_i (int (recover_pos x)) \<in> T \<and> (fIsAlways x \<longrightarrow> L_i (int (always_pos x)) \<in> T))"

lemma seq_targets_from:
  assumes "regions_ok T stk" "(r = NO_TARGET \<and> stk \<noteq> []) \<or> L_i (int r) \<in> T" "a = NO_TARGET \<or> L_i (int a) \<in> T"
    and "seq_targets stk r a = (r', a')"
  shows "L_i (int r') \<in> T \<and> (a' = NO_TARGET \<or> L_i (int a') \<in> T)"
  using assms
proof (induction stk arbitrary: r a)
  case (Cons x xs)
  define r1 a1 where "r1 = (if r = NO_TARGET then recover_pos x else r)"
    and "a1 = (if a = NO_TARGET \<and> fIsAlways x then always_pos x else a)"
  have ok: "L_i (int r1) \<in> T" "a1 = NO_TARGET \<or> L_i (int a1) \<in> T"
    using Cons.prems(1-3) by (auto simp: r1_def a1_def regions_ok_def)
  have st: "seq_targets (x # xs) r a = (if r1 \<noteq> NO_TARGET \<and> a1 \<noteq> NO_TARGET then (r1, a1) else seq_targets xs r1 a1)"
    by (simp only: seq_targets.simps Let_def r1_def a1_def)
  show ?case
  proof (cases "r1 \<noteq> NO_TARGET \<and> a1 \<noteq> NO_TARGET")
    case True
    then show ?thesis using Cons.prems(4) ok unfolding st by simp
  next
    case False
    then have "seq_targets xs r1 a1 = (r', a')" using Cons.prems(4) unfolding st by (simp only: if_False)
    moreover have "regions_ok T xs" using Cons.prems(1) by (simp add: regions_ok_def)
    ultimately show ?thesis using ok by (intro Cons.IH[of r1 a1]) blast+
  qed
qed simp

lemma seq_targets_in:
  assumes "regions_ok T stk" "stk \<noteq> []"
  obtains r a where "seq_targets stk NO_TARGET NO_TARGET = (r, a)" "L_i (int r) \<in> T" "a = NO_TARGET \<or> L_i (int a) \<in> T"
proof -
  obtain r a where r: "seq_targets stk NO_TARGET NO_TARGET = (r, a)" by fastforce
  then show thesis using that seq_targets_from[OF assms(1) _ _ r] assms(2) by blast
qed

lemma inner_simps [simp]:
  "L_jpdone p \<in> inner pos \<longleftrightarrow> p = pos" "L_ipfsa p \<in> inner pos \<longleftrightarrow> p = pos"
  "L_seqd s p \<in> inner pos \<longleftrightarrow> p = pos" "L_seqq s p \<in> inner pos \<longleftrightarrow> p = pos"
  "L_i i \<notin> inner pos" "L_entry \<notin> inner pos" "L_epilogue \<notin> inner pos"
  by (auto simp: inner_def)

lemma regs_at_simps [simp]: "Reg p q s \<in> regs_at pos \<longleftrightarrow> q = pos \<and> p \<noteq> ''jp''"
  by (auto simp: regs_at_def)

lemma all_simps [simp]:
  "all_defs [] = []" "all_defs (x # xs) = defs_of x @ all_defs xs" "all_defs (xs @ ys) = all_defs xs @ all_defs ys"
  "all_targets [] = {}" "all_targets (x # xs) = set (targets_of x) \<union> all_targets xs"
  "all_targets (xs @ ys) = all_targets xs \<union> all_targets ys"
  by (simp_all add: all_defs_def all_targets_def)

lemma uses_ok_append [simp]: "uses_ok D (xs @ ys) \<longleftrightarrow> uses_ok D xs \<and> uses_ok (D \<union> set (all_defs xs)) ys"
  by (induction xs arbitrary: D) (simp_all add: Un_assoc)

lemmas emit_defs = Let_def terminator_def hb_llvmSLEmitActionCheck_def hb_llvmSLEmitActionCheckNamed_def
  emit_condjump_def emit_pushfuncsym_def

lemma fragment_check:
  assumes "regions_ok T stk" "L_epilogue \<in> T" "nxt \<in> T" "concat (map arg_regs as) = []"
  shows "fragment T D pos (Ln_call (Reg ''r'' pos '''') f as # hb_llvmSLEmitActionCheck pos nxt stk)"
proof (cases "stk = []")
  case True
  then show ?thesis using assms by (simp add: fragment_def emit_defs)
next
  case False
  obtain r a where "seq_targets stk NO_TARGET NO_TARGET = (r, a)" "L_i (int r) \<in> T" "a = NO_TARGET \<or> L_i (int a) \<in> T"
    using seq_targets_in[OF assms(1) False] .
  then show ?thesis using assms False
    by (cases "a = NO_TARGET") (simp_all add: fragment_def emit_defs)
qed

lemma fragment_condjump:
  assumes "regions_ok T stk" "L_epilogue \<in> T" "l1 \<in> T" "l2 \<in> T" "Reg ''jp'' pos '''' \<in> D"
  shows "fragment T D pos (emit_condjump pos l1 l2 stk)"
proof (cases "stk = []")
  case True
  then show ?thesis using assms by (simp add: fragment_def emit_defs)
next
  case False
  obtain r a where "seq_targets stk NO_TARGET NO_TARGET = (r, a)" "L_i (int r) \<in> T" "a = NO_TARGET \<or> L_i (int a) \<in> T"
    using seq_targets_in[OF assms(1) False] .
  then show ?thesis using assms False
    by (cases "a = NO_TARGET") (simp_all add: fragment_def emit_defs)
qed

lemma fragment_pushfuncsym:
  assumes "regions_ok T stk" "L_epilogue \<in> T" "nxt \<in> T"
  shows "fragment T D pos (emit_pushfuncsym k pos nxt sy stk)"
proof (cases "stk = []")
  case True
  then show ?thesis using assms by (simp add: fragment_def emit_defs)
next
  case False
  obtain r a where "seq_targets stk NO_TARGET NO_TARGET = (r, a)" "L_i (int r) \<in> T" "a = NO_TARGET \<or> L_i (int a) \<in> T"
    using seq_targets_in[OF assms(1) False] .
  then show ?thesis using assms False
    by (cases "a = NO_TARGET") (simp_all add: fragment_def emit_defs)
qed

lemma fragment_br: "l \<in> T \<Longrightarrow> fragment T D pos [Ln_br l]"
  "l \<in> T \<Longrightarrow> concat (map arg_regs as) = [] \<Longrightarrow> fragment T D pos [Ln_call (Reg ''r'' pos '''') f as, Ln_br l]"
  by (simp_all add: fragment_def emit_defs)

lemma emit_cases_keys: "map fst (emit_cases m n i c t) = map int [i..<i + c]"
  by (induction m n i c t rule: emit_cases.induct) (simp_all add: Let_def upt_conv_Cons)

lemma emit_cases_targets:
  assumes "switch_scan m c off = Some r" "set (case_targets m c off) \<subseteq> int ` set ps"
    and "L_epilogue \<in> T" "\<And>p. p \<in> set ps \<Longrightarrow> L_i (int p) \<in> T"
  shows "snd ` set (emit_cases m n i c off) \<subseteq> T"
  using assms(1,2)
proof (induction c arbitrary: off i)
  case (Suc c)
  obtain l j where l: "switch_literal_len (pc_at m off) = Some l" "switch_jump_len (pc_at m (off + l)) = Some j"
    "switch_scan m c (off + l + j) = Some r"
    using Suc.prems(1) by (auto split: option.splits)
  note ll = switch_literal_agree[OF l(1)] and jj = switch_jump_agree[OF l(2)]
  have ct: "case_targets m (Suc c) off = (int (off + l) + case_jump_disp (pc_at m (off + l))) # case_targets m c (off + l + j)"
    using l(1) jj(1) by simp
  have e: "emit_cases m n i (Suc c) off =
    (int i, if int (off + l) + case_jump_disp (pc_at m (off + l)) < 0 \<or> int (off + l) + case_jump_disp (pc_at m (off + l)) \<ge> int n
       then L_epilogue else L_i (int (off + l) + case_jump_disp (pc_at m (off + l)))) # emit_cases m n (i + 1) c (off + l + j)"
    by (simp only: emit_cases.simps Let_def ll(2) jj(2,3))
  have "int (off + l) + case_jump_disp (pc_at m (off + l)) \<in> int ` set ps" "set (case_targets m c (off + l + j)) \<subseteq> int ` set ps"
    using Suc.prems(2) unfolding ct by simp_all
  then show ?case unfolding e using Suc.IH[OF l(3), of "i + 1"] assms(3,4) by auto
qed simp

section \<open>Each instruction\<close>

definition block_labels :: "nat list \<Rightarrow> lab set" where
  "block_labels ps = insert L_epilogue ((\<lambda>p. L_i (int p)) ` set ps)"

lemma block_labels_simps [simp]:
  "L_epilogue \<in> block_labels ps" "p \<in> set ps \<Longrightarrow> L_i (int p) \<in> block_labels ps"
  by (auto simp: block_labels_def)

lemma switch_scan_ilen:
  assumes "opc (pc_at m pos) = HB_P_SWITCH" "0 < ilen m pos"
  shows "switch_scan m (MKU16 (pc_at m pos) 1) (pos + 3) = Some (pos + ilen m pos)"
  using assms switch_scan_shift[of m "MKU16 (pc_at m pos) 1" pos 3]
  by (auto simp: ilen_def hb_pcodeInstrLen_def pcInfo_at_def pc_simps MKU16_def split: option.splits)

lemma fragment_switch:
  assumes "opc (pc_at m pos) = HB_P_SWITCH" "0 < ilen m pos" "nxt \<in> block_labels ps"
    and "set (case_targets m (MKU16 (pc_at m pos) 1) (pos + 3)) \<subseteq> int ` set ps"
  shows "fragment (block_labels ps) D pos (emit_switch m n pos nxt)"
proof -
  have "snd ` set (emit_cases m n 0 (MKU16 (pc_at m pos) 1) (pos + 3)) \<subseteq> block_labels ps"
    by (rule emit_cases_targets[OF switch_scan_ilen[OF assms(1,2)] assms(4)]) simp_all
  then show ?thesis using assms(3)
    by (simp add: fragment_def emit_switch_def emit_defs emit_cases_keys distinct_map)
qed

lemma regions_ok_tl: "regions_ok T stk \<Longrightarrow> regions_ok T (tl stk)"
  by (cases stk) (auto simp: regions_ok_def)

lemma emit_seq_ok:
  assumes "opc (pc_at m pos) \<in> seq_ops" "targets_ok m n ps pos" "regions_ok (block_labels ps) (seq_stack st)"
    and "nxt \<in> block_labels ps"
  shows "fragment (block_labels ps) D pos (fst (emit_seq m n pos nxt st)) \<and>
    regions_ok (block_labels ps) (seq_stack (snd (emit_seq m n pos nxt st)))"
proof -
  let ?op = "opc (pc_at m pos)" and ?T = "block_labels ps"
  have enter: "fragment ?T D pos (fst (emit_enter f b m n pos nxt st)) \<and>
      regions_ok ?T (seq_stack (snd (emit_enter f b m n pos nxt st)))" if "seq_target m pos \<in> set ps" for f b
    using that assms(3,4) fragment_check[OF assms(3) _ assms(4)] fragment_br(1)[of L_epilogue ?T]
    by (simp add: emit_enter_def Let_def regions_ok_def)
  have to: "?op \<in> {HB_P_SEQBEGIN, HB_P_SEQALWAYS} \<Longrightarrow> seq_target m pos \<in> set ps"
    "?op = HB_P_SEQEND \<Longrightarrow> seq_target m pos \<in> set ps \<or> seq_target m pos \<ge> n"
    using assms(2) by (auto simp: targets_ok_def Let_def hb_pcodeIsJump_def)
  consider "?op = HB_P_SEQBEGIN" | "?op = HB_P_SEQEND" | "?op = HB_P_SEQRECOVER" | "?op = HB_P_SEQALWAYS"
    | "?op = HB_P_ALWAYSBEGIN" | "?op = HB_P_ALWAYSEND" using assms(1) by (auto simp: seq_ops_def)
  then show ?thesis
  proof cases
    case 1
    then show ?thesis using enter to(1) by (simp add: emit_seq_def Let_def)
  next
    case 2
    then show ?thesis using to(2) assms(3) fragment_br(2)[of _ ?T]
      by (auto simp: emit_seq_def Let_def pop_region_def regions_ok_tl)
  next
    case 4
    then show ?thesis using enter to(1) by (simp add: emit_seq_def Let_def)
  next
    case 6
    then show ?thesis using assms(3,4) fragment_check[OF regions_ok_tl[OF assms(3)]]
      by (simp add: emit_seq_def Let_def pop_region_def regions_ok_tl)
  qed (use assms(3,4) fragment_br(2)[of _ ?T] in \<open>simp_all add: emit_seq_def Let_def\<close>)
qed

lemma emit_instr_seq:
  assumes "opc (pc_at m pos) \<in> seq_ops"
  shows "emit_instr k m n pos st = emit_seq m n pos (next_label n (pos + ilen m pos)) st"
  using assms special_rows unfolding seq_ops_def
  by (elim insertE emptyE) (simp_all add: emit_instr_def Let_def)

lemma next_in:
  assumes "pcode_walk m n 0 = Some ps" "pos \<in> set ps"
  shows "next_label n (pos + ilen m pos) \<in> block_labels ps"
proof (cases "pos + ilen m pos < n")
  case True
  have "instr_at m n pos" "pos < n" using assms pcode_walk_set[OF assms(1)] by auto
  then have "instr_at m n (pos + ilen m pos)" using pcode_walk_ilen[OF assms] by (auto intro: instr_at.more)
  then have "pos + ilen m pos \<in> set ps" using True pcode_walk_set[OF assms(1)] by simp
  then show ?thesis using True by (simp add: next_label_def flip: of_nat_add)
qed (simp add: next_label_def)

text \<open>Calls from the table have no slot among their arguments.\<close>

lemma row_args: "list_all (\<lambda>(op, f, args). \<forall>k p. concat (map arg_regs (args k p)) = []) emit_rows"
  by (simp only: emit_tables append.simps list.pred_inject prod.case) simp

lemma row_args_at: "map_of emit_rows op = Some (f, args) \<Longrightarrow> concat (map arg_regs (args k p)) = []"
  using row_args map_of_SomeD by (fastforce simp: list_all_iff)

lemma emit_instr_ok:
  assumes ps: "pcode_walk m n 0 = Some ps" "pos \<in> set ps" "supported_at m pos"
    and to: "targets_ok m n ps pos" and stk: "regions_ok (block_labels ps) (seq_stack st)"
    and D: "is_condjump (opc (pc_at m pos)) \<Longrightarrow> Reg ''jp'' pos '''' \<in> D"
  shows "fragment (block_labels ps) D pos (fst (emit_instr k m n pos st)) \<and>
    regions_ok (block_labels ps) (seq_stack (snd (emit_instr k m n pos st)))"
proof (cases "opc (pc_at m pos) \<in> seq_ops")
  case True
  then show ?thesis using emit_seq_ok[OF True to stk next_in[OF ps(1,2)]] by (simp add: emit_instr_seq)
next
  case False
  let ?op = "opc (pc_at m pos)" and ?T = "block_labels ps"
  have kn: "known ?op" by (rule supported_known[OF ps False])
  then have op: "?op \<in> set special_ops \<or> (\<exists>f args. map_of emit_rows ?op = Some (f, args))" by (simp add: known_def)
  have ss: "regions_ok ?T (seq_stack (snd (emit_instr k m n pos st)))"
    using emit_instr_state[OF kn, of k n st] stk by simp
  note nx = next_in[OF ps(1,2)]
  have il: "0 < ilen m pos" using pcode_walk_ilen[OF ps(1,2)] by simp
  have jt: "L_i (int pos + hb_pcodeJumpOffset (pc_at m pos)) \<in> ?T" if "hb_pcodeIsJump ?op"
    using that to by (auto simp: targets_ok_def Let_def jump_target_def)
  have "fragment ?T D pos (fst (emit_instr k m n pos st))"
  proof (cases rule: instr_kinds[OF op False])
    case (1 f args)
    then show ?thesis using fragment_check[OF stk _ nx] row_args_at[OF 1] by (simp add: emit_instr_row[OF 1])
  next
    case 2
    then show ?thesis using fragment_br(1)[OF nx] by (elim disjE) (simp_all add: emit_special[OF refl])
  next
    case 3
    then show ?thesis using fragment_br(1)[of L_epilogue ?T] by (simp add: emit_special[OF refl])
  next
    case 4
    then have "hb_pcodeIsJump ?op" by (auto simp: hb_pcodeIsJump_def)
    then show ?thesis using 4 fragment_br(1)[OF jt] by (elim disjE) (simp_all add: emit_special[OF refl])
  next
    case 5
    then have "hb_pcodeIsJump ?op" "is_condjump ?op" by (auto simp: hb_pcodeIsJump_def is_condjump_def)
    then show ?thesis using 5 fragment_condjump[OF stk _ nx jt D] by (elim disjE) (simp_all add: emit_special[OF refl])
  next
    case 6
    then have "hb_pcodeIsJump ?op" "is_condjump ?op" by (auto simp: hb_pcodeIsJump_def is_condjump_def)
    then show ?thesis using 6 fragment_condjump[OF stk _ jt nx D] by (elim disjE) (simp_all add: emit_special[OF refl])
  next
    case 7
    then show ?thesis using fragment_check[OF stk _ nx]
      by (elim disjE) (simp_all add: emit_special[OF refl] emit_pushstr_def)
  next
    case 8
    then show ?thesis using fragment_pushfuncsym[OF stk _ nx] by (simp add: emit_special[OF refl])
  next
    case 9
    then show ?thesis using fragment_switch[OF 9 il nx] to
      by (simp add: emit_special[OF refl] targets_ok_def Let_def hb_pcodeIsJump_def)
  next
    case 10
    then show ?thesis using fragment_br(2)[OF nx] by (elim disjE) (simp_all add: emit_special[OF refl] emit_pushblock_def)
  qed
  then show ?thesis using ss by simp
qed

section \<open>The function\<close>

lemma uses_ok_mono: "uses_ok D ls \<Longrightarrow> D \<subseteq> D' \<Longrightarrow> uses_ok D' ls"
  by (induction ls arbitrary: D D') (auto, metis Un_mono order_refl)

definition blocks_ok :: "nat list \<Rightarrow> nat list \<Rightarrow> reg set \<Rightarrow> line list \<Rightarrow> bool" where
  "blocks_ok ps qs D ls \<longleftrightarrow> (\<forall>ys. block_shape False (ls @ ys) = block_shape False ys) \<and>
     distinct (labels ls) \<and> set (labels ls) \<subseteq> (\<Union>q\<in>set qs. insert (L_i (int q)) (inner q)) \<and>
     (\<forall>q\<in>set qs. L_i (int q) \<in> set (labels ls)) \<and>
     distinct (all_defs ls) \<and> set (all_defs ls) \<subseteq> (\<Union>q\<in>set qs. regs_at q) \<and> uses_ok D ls \<and>
     all_targets ls \<subseteq> block_labels ps \<union> set (labels ls) \<and> list_all switch_distinct ls"

lemma inner_disjoint: "l \<in> inner p \<Longrightarrow> l \<in> inner q \<Longrightarrow> p = q"
  by (auto simp: inner_def)

lemma regs_disjoint: "r \<in> regs_at p \<Longrightarrow> r \<in> regs_at q \<Longrightarrow> p = q"
  by (auto simp: regs_at_def)

lemma blocks_ok_Cons:
  assumes "fragment (block_labels ps) D q ls" "blocks_ok ps qs D bs" "q \<notin> set qs"
  shows "blocks_ok ps (q # qs) D (Ln_label (L_i (int q)) # ls @ bs)"
proof -
  note f = assms(1)[unfolded fragment_def] and b = assms(2)[unfolded blocks_ok_def]
  have "set (labels ls) \<inter> set (labels bs) = {}"
  proof -
    have "l \<notin> set (labels bs)" if "l \<in> inner q" for l
    proof
      assume "l \<in> set (labels bs)"
      then obtain p where "p \<in> set qs" "l \<in> insert (L_i (int p)) (inner p)" using b by blast
      then show False using that inner_disjoint[of l p q] assms(3) by auto
    qed
    then show ?thesis using f by blast
  qed
  moreover have "L_i (int q) \<notin> set (labels ls)" using f by (metis inner_simps(5) subsetD)
  moreover have "L_i (int q) \<notin> set (labels bs)"
  proof
    assume "L_i (int q) \<in> set (labels bs)"
    then obtain p where "p \<in> set qs" "L_i (int q) \<in> insert (L_i (int p)) (inner p)" using b by blast
    then show False using assms(3) by auto
  qed
  moreover have "set (all_defs ls) \<inter> set (all_defs bs) = {}"
    using f b regs_disjoint assms(3) by blast
  moreover have "uses_ok (D \<union> set (all_defs ls)) bs" using uses_ok_mono[of D bs] b by blast
  ultimately show ?thesis using f b unfolding blocks_ok_def by auto
qed

lemma emit_blocks_ok:
  assumes ps: "pcode_walk m n 0 = Some ps" "\<forall>q\<in>set ps. supported_at m q" "\<forall>q\<in>set ps. targets_ok m n ps q"
    and qs: "set qs \<subseteq> set ps" "distinct qs" and stk: "regions_ok (block_labels ps) (seq_stack st)"
    and D: "\<forall>q\<in>set qs. is_condjump (opc (pc_at m q)) \<longrightarrow> Reg ''jp'' q '''' \<in> D"
  shows "blocks_ok ps qs D (emit_blocks k m n qs st)"
  using qs stk D
proof (induction qs arbitrary: st)
  case Nil
  then show ?case by (simp add: blocks_ok_def)
next
  case (Cons q qs)
  obtain ls st1 where e: "emit_instr k m n q st = (ls, st1)" by fastforce
  have q: "q \<in> set ps" using Cons.prems(1) by simp
  have "fragment (block_labels ps) D q ls \<and> regions_ok (block_labels ps) (seq_stack st1)"
    using emit_instr_ok[OF ps(1) q _ _ Cons.prems(3), of D k] ps(2,3) q Cons.prems(4) e by simp
  moreover from this have "blocks_ok ps qs D (emit_blocks k m n qs st1)" using Cons.prems by (intro Cons.IH) auto
  ultimately show ?case using blocks_ok_Cons Cons.prems(2) e by simp
qed

lemma entry_facts:
  defines "al ps \<equiv> map (\<lambda>pos. Ln_alloca (Reg ''jp'' pos '''')) ps"
  shows "block_shape True (al ps @ ys) = block_shape True ys" "labels (al ps) = []"
    "all_defs (al ps) = map (\<lambda>pos. Reg ''jp'' pos '''') ps" "all_targets (al ps) = {}"
    "uses_ok D (al ps)" "list_all switch_distinct (al ps)"
  unfolding al_def by (induction ps arbitrary: D) (simp_all add: terminator_def)

lemma body_wf:
  assumes "hb_llvmSLPrecheck m n" "0 < n" "pcode_walk m n 0 = Some ps" "\<forall>pos\<in>set ps. targets_ok m n ps pos"
  shows "\<exists>prog. hb_llvmSLEmitBody m n k base = Some prog \<and> wf_function prog"
proof -
  obtain mp where mp: "hb_pcodeAnalyze m n = Analyze_TRUE mp" "fAllSupported mp"
    using assms(1) by (auto simp: hb_llvmSLPrecheck_def split: analyze_result.splits)
  have sup: "\<forall>q\<in>set ps. supported_at m q" using mp assms(3) by (auto simp: Analyze_TRUE_iff)
  have z: "0 \<in> set ps" using assms(2,3) by (auto simp: pcode_walk_Cons)
  have ds: "distinct ps" using pcode_walk_sorted[OF assms(3)] by (simp add: strict_sorted_iff)
  define js where "js = filter (\<lambda>pos. is_condjump (opc (pc_at m pos))) ps"
  define D where "D = set (map (\<lambda>pos. Reg ''jp'' pos '''') js)"
  define bs where "bs = emit_blocks k m n ps \<lparr>iLocalStr = base, seq_stack = []\<rparr>"
  have B: "blocks_ok ps ps D bs"
    unfolding bs_def using ds by (intro emit_blocks_ok[OF assms(3) sup assms(4)]) (auto simp: regions_ok_def D_def js_def)
  note b = B[unfolded blocks_ok_def]
  let ?prog = "emit_entry m ps @ bs @ [Ln_label L_epilogue, Ln_ret]"
  have E: "emit_entry m ps = [Ln_label L_entry] @ map (\<lambda>pos. Ln_alloca (Reg ''jp'' pos '''')) js @ [Ln_br (L_i 0)]"
    by (simp add: emit_entry_def js_def)
  have "block_shape False ?prog" using b unfolding E by (simp add: entry_facts terminator_def)
  moreover have "distinct (labels ?prog)"
  proof -
    have "L_entry \<notin> set (labels bs)" "L_epilogue \<notin> set (labels bs)" using b by auto
    then show ?thesis using b unfolding E by (simp add: entry_facts)
  qed
  moreover have "distinct (all_defs ?prog)"
  proof -
    have "set (map (\<lambda>pos. Reg ''jp'' pos '''') js) \<inter> set (all_defs bs) = {}" using b by (auto simp: regs_at_def)
    moreover have "distinct (map (\<lambda>pos. Reg ''jp'' pos '''') js)" using ds by (simp add: js_def distinct_map inj_on_def)
    ultimately show ?thesis using b unfolding E by (simp add: entry_facts)
  qed
  moreover have "uses_ok {} ?prog" using b unfolding E by (simp add: entry_facts D_def)
  moreover have "all_targets ?prog \<subseteq> set (labels ?prog)"
  proof -
    have "block_labels ps \<subseteq> set (labels ?prog)" using b unfolding block_labels_def E by (auto simp: entry_facts)
    moreover have "L_i 0 \<in> set (labels bs)" using b z by force
    ultimately show ?thesis using b unfolding E by (auto simp: entry_facts)
  qed
  moreover have "list_all switch_distinct ?prog" using b unfolding E by (simp add: entry_facts)
  ultimately have "wf_function ?prog" unfolding wf_function_def by blast
  moreover have "hb_llvmSLEmitBody m n k base = Some ?prog" using assms(3) by (simp add: hb_llvmSLEmitBody_def bs_def)
  ultimately show ?thesis by blast
qed

text \<open>C3.
  For any pcode that passes hb_llvmSLPrecheck, SEQUENCE regions included, and
  whose jumps, SWITCH cases and SEQUENCE addresses are instructions, the emitter
  writes well formed LLVM IR: blocks with one terminator, unique labels and
  registers, no register before its definition, no branch to a label that is not
  there, no SWITCH with a value twice.
\<close>

theorem hb_llvmSLEmitBody_wf:
  assumes "hb_llvmSLPrecheck m n" "0 < n" "pcode_walk m n 0 = Some ps" "\<forall>pos\<in>set ps. targets_ok m n ps pos"
  shows "\<exists>prog. hb_llvmSLEmitBody m n k base = Some prog \<and> wf_function prog"
  by (rule body_wf[OF assms])

text \<open>\<open>BEGIN SEQUENCE; RECOVER; END\<close> around a PUSHNIL and a POP.\<close>

definition seq_code :: pcptr where
  "seq_code = pc_of_list [113, 10, 0, 0, 100, 73, 114, 6, 0, 0, 115, 73, 7]"

lemma seq_code_walk: "pcode_walk seq_code 13 0 = Some [0, 4, 5, 6, 10, 11, 12]"
  by code_simp

lemma seq_code_ok: "list_all (targets_ok seq_code 13 [0, 4, 5, 6, 10, 11, 12]) [0, 4, 5, 6, 10, 11, 12]"
  by code_simp

lemma seq_code_precheck: "hb_llvmSLPrecheck seq_code 13"
  by code_simp

lemma hb_llvmSLEmitBody_wf_witness:
  "\<exists>prog. hb_llvmSLEmitBody seq_code 13 3 0 = Some prog \<and> wf_function prog"
  using hb_llvmSLEmitBody_wf[OF seq_code_precheck _ seq_code_walk, of 3 0] seq_code_ok by (simp add: list_all_iff)

end
