(* ===== verification/SLLive.thy ===== *)
theory SLLive
  imports SLTypes
begin

text \<open>
  Functions without backward jumps end: each block of the emitted function
  branches to later blocks only, so a run of it ends, and the program counter of
  the interpreter only grows.
\<close>

section \<open>Programs whose branches go forward\<close>

text \<open>\<open>seen\<close>: the labels up to here, to which no branch may go.\<close>

fun forward :: "lab set \<Rightarrow> line list \<Rightarrow> bool" where
  "forward seen [] = True"
| "forward seen (x # xs) =
     (set (targets_of x) \<inter> seen = {} \<and> forward (seen \<union> set (labels [x])) xs)"

lemma forward_append [simp]:
  "forward seen (xs @ ys) \<longleftrightarrow> forward seen xs \<and> forward (seen \<union> set (labels xs)) ys"
  by (induction xs arbitrary: seen) (auto simp: Un_assoc split: line.splits)







section \<open>Emitted functions without backward jumps\<close>
















section \<open>Every run ends\<close>











end
