(* ===== verification/Spec2Isabelle.thy ===== *)
theory Spec2Isabelle
  imports ASortFacts ExprProps HashFacts HbStamp HbStrFacts SLLive
begin

text \<open>
  Harbour: the straight-line LLVM back end and the pcode machine it replaces.

  The Harbour compiler turns each function into pcode.  A program either runs
  it in the interpreter hb_vmExecute (src/src/vm/hvm.c) or, with the LLVM back
  end (src/src/compiler/genllvm.c), has the pcode of a function translated to
  LLVM IR: one block per instruction, each calling an hb_vmsh shim of hvm.c.
  This library models both, instruction by instruction, and proves that they
  agree where they do.

  PARTS AND THEORIES

  HbPrelude     the byte reads of src/include/hbdefs.h (HB_GET_LE..., HB_PCODE_MK...)
  HbPcode       the opcodes of src/include/hbpcode.h
  Pcdec         src/src/compiler/hb_pcdec.c: hb_pcInfo, hb_pcodeInstrLen,
                hb_pcodeJumpOffset, hb_pcodeIsJump, hb_pcodeAnalyze
  VmState       items, the evaluation stack (src/src/vm/estack.c, hbstack.h), the
                recover envelope and the record \<open>helpers\<close> of run-time calls
  VmOps         the push, pop, duplicate, logical and SWITCH functions of hvm.c
  Interp        hb_vmExecute: rows for the simple opcodes, definitions for the
                others, the handling of BREAK, RETURN and QUIT requests, the loop
  ShimNames, LlvmIR   the declared shims; the subset of LLVM IR and its meaning
  Shims         every hb_vmsh function of hvm.c
  GenLLVM       genllvm.c: precheck, string constants, function body
  SLRows        each single-call opcode: shim and interpreter case do the same
  HelperLaws    the locale \<open>run_time\<close>: what the called functions promise about
                the pending request
  Dbl           the C type double: IEEE 754 bits, arithmetic rounded to nearest even,
                comparison, conversion; integers up to 2 to the 53 are exact
  VmItem        src/src/vm/itemapi.c: numbers and dates in items, hb_itemStrCmp; how an
                operator falls back to an object's operator and to an error
  VmNum, VmCmp  the arithmetic and the relational operators of hvm.c, every branch
  VmFacts       what they compute
  VmArith       frames, stores through references; the operators as the calls behind
                the helpers, and the interpretation of \<open>run_time\<close> on them
  HbStr, HbStrFacts
                src/src/common/hbstr.c: search, case, trimming, copying, comparison,
                escape sequences, the encoding of strings in objects, hexadecimal text
  HbNum, HbNumFacts
                hbstr.c: numbers as text and back, powers of ten, rounding
  StrOrder      hb_itemStrCmp as the lexicographic order of bytes
  ASort, ASortFacts
                src/src/vm/asort.c: the merge sort over two halves of one buffer, with
                code block or native comparison, and the move of the sorted items
  Hashes, HashIndex, HashFacts
                src/src/vm/hashes.c: hash items as a table of pairs with an optional
                index, the locale \<open>key_order\<close> for their binary searches and sorts, and
                the map a hash stands for
  VmEval        evaluation rules for concrete runs
  SLScope, SLTurns, SLTurns2, SLRefine   scope of the refinement, one lemma per kind of
                instruction, the theorem
  SLTypes       every emitted function, also with SEQUENCE regions, is well formed IR

  SLLive        functions whose jumps all lead forward end, interpreted and compiled
  ExprOpt, ExprRed
                src/src/common/expropt2.c and the REDUCE messages of src/include/hbexprb.c:
                operators and functions of literals computed by the compiler
  ExprGen       src/src/compiler/hbmain.c, hbpcode.c and the PUSH_PCODE messages of
                hbexprb.c: the pcode of literals, local variables, operators and IIF,
                with jumps that are patched when their target is known
  DblInt        doubles that hold integers: exact products and quotients
  ExprFold, ExprNum, ExprFacts
                the item of a literal; a folded operator has the value the machine
                computes, for the operands \<open>exact_op\<close> names
  ExprLit, ExprCode, ExprProps
                what an expression does to the machine; its pcode runs as it says; the
                pcode of an operator of literals and of the folded literal agree

  HbDate, HbWeek, HbTime, HbStamp
                src/src/common/hbdate.c: Julian days and calendar dates, weeks and days of
                the week, times of day, the text formats of dates, times and timestamps and
                the functions that read them back.  A C string is the list of its
                character codes; an output pointer is a component of the result.  The
                system clock, time zones and timestamps packed in doubles are left out

  STATE

  A machine state (record \<open>vm\<close>) holds the evaluation stack as a list, bottom
  first, the base and parameter counts of the running function, the return
  item, the recover base, the pending request, the line number of the frame
  (uiLineNo), statics and heap cells.
  An item is a value of the datatype \<open>item\<close>; the C pointer to an item is a
  \<open>loc\<close>.  An operation that the C code cannot finish (an access outside the
  stack, a fatal error) is the value \<open>None\<close>.  The interpreter adds the program
  counter as an offset and bCanRecover (record \<open>istate\<close>).

  LEMMAS

  Pcdec characterises the result of hb_pcodeAnalyze and its dependence on bytes
  past the code.  VmFacts shows the
  overflow tests exact and the six relational operators consistent.  The date
  theories show that encoding and decoding are inverse and that every text gives
  fields in range; HbNumFacts and HbStrFacts do this for numbers and strings.
  ASortFacts shows the two-buffer sort equal to the merge sort on lists and
  stable.  HashFacts shows that insertion, deletion, lookup, sorting, the
  flag that keeps the order and the joins of hashes are the operations of finite
  maps, and that they end.

  SLRefine shows that the emitted function and the interpreter end with the same
  machine state, abort together or run on together, for every function without
  SEQUENCE regions that passes the executable check \<open>sl_scope\<close>.  The emitter drops
  the store of the line number, so the theorem has two forms: the same state
  for functions without LINE instructions (\<open>no_lines\<close>), and the same state but for the
  line number when no other instruction looks at it (\<open>line_blind\<close>).  Both suppose of the
  called functions what the locale \<open>run_time\<close> of HelperLaws says: they leave no
  action request, BREAK or QUIT; clearing a string and making a block leave the request as
  it is (the destructor of an object may change it).  After a SWITCH the emitted lines do not look
  at the request; \<open>switch_quiet\<close> says that a SWITCH on a value of the wrong type
  leaves none.  SLLive bounds the turns of both sides when all jumps lead
  forward; that each called function comes back is part of its model, \<open>None\<close>
  standing for a call that does not.

  The expression theories connect the compiler with the machine.  An expression
  is a tree; a literal stands for the item its instruction pushes.  ExprNum and
  ExprFacts compare, operator by operator, the literal the optimiser computes
  with the item the operator of hvm.c leaves: integers that fit 64 bits (53 bits
  for quotients and for products beyond 32 bits), doubles with their own number
  of decimals, dates, strings, logical values, NIL.  Outside these bounds the two
  differ, as the findings say.  ExprCode shows by induction on the expression
  that the bytes gen_push writes, run by vm_step, do what \<open>eval_push\<close> says.

  FUEL

  hb_vmExecute and run_function take a number of turns; the refinement
  quantifies over it on both sides and lemmas run_ir_more and vm_run_more show
  that more fuel never changes a result, so OutOfFuel for every fuel is the
  run that never ends.  Loops with a bound in the code are structural or have
  a measure.

  NOT MODELLED

  The parser, the optimiser of pcode, the pcode of statements, calls, arrays and
  assignments, the other code generators, the macro compiler,
  classes, memory variables, database drivers, run-time library, garbage
  collection, threads, debugger and terminal drivers.  What the interpreter
  calls in them is the parameter \<open>helpers\<close> of the model.

\<close>

end
